(* ===== verification/Prelude.thy ===== *)
theory Prelude
  imports Main "HOL-Library.Sublist"
begin

text \<open>
  Shared vocabulary of the development: the types every component uses, exceptions as values,
  ordered de-duplication (Python's \<open>dict.fromkeys\<close>), and the lemma collections the component
  proofs draw on. Nothing here models a particular source file; the definitions are the pieces of
  Python's standard behaviour that several modules rely on.
\<close>

named_theorems guard_simps \<open>unfolding rules for the guards and early returns of operations\<close>
named_theorems inv_intros \<open>introduction rules for well-formedness invariants\<close>

section \<open>Types\<close>

text \<open>A Python \<open>str\<close> is the list of its code points, so \<open>length\<close> counts what \<open>len\<close> counts.\<close>

type_synonym pystr = "int list"

text \<open>UUIDs are ordered by their 128-bit value, timestamps count microseconds of UTC.\<close>

type_synonym uuid = nat
type_synonym timestamp = int
type_synonym sha = pystr

definition lit :: "string \<Rightarrow> pystr" where
  "lit s = map of_char s"

lemma lit_Nil [simp]: "lit [] = []"
  by (simp add: lit_def)

lemma lit_Cons [simp]: "lit (c # cs) = of_char c # lit cs"
  by (simp add: lit_def)

section \<open>Exceptions as values\<close>

text \<open>
  One constructor per exception class the modelled modules raise, with its message where the
  message is fixed by the code.
\<close>

datatype exn =
    LayerError pystr
  | WriteRefused pystr
  | QueueStateError pystr
  | SubmissionRejected pystr
  | TenancyError pystr
  | DatabaseError pystr
  | ErasureRefused pystr
  | LayerProjectionError pystr
  | PageContractError pystr
  | GateRefused pystr
  | KnowledgeWriteError pystr
  | LayerRefused pystr
  | IdentityError pystr
  | RateLimitError pystr
  | ValueError pystr
  | EvidenceError pystr
  | UploadError pystr
  | RuntimeError pystr
  | ChangeError pystr
  | ContradictionContractError pystr
  | PlanError pystr
  | DecisionFailed pystr
  | OperationDeadlineExceeded pystr
  | RosterRefused pystr
  | AdminBadRequest pystr
  | CorpusError pystr
  | InvalidArgument pystr
  | SourceContractError pystr
  | EntityOperationError pystr
  | WriterBusy pystr
  | WriterDeadline pystr
  | CorpusUnavailable pystr
  | SourceBlockNotPreserved pystr "pystr list"
  | ArtifactRejected pystr
  | ExtractionError pystr
  | ExtractionTimeout pystr
  | FetchRejected pystr
  | FetchUnavailable pystr
  | AnswerError pystr
  | OSError pystr
  | GitError pystr
  | TransientGitError pystr
  | WorktreeError pystr
  | LibrarianConfigError pystr
  | EmptyCorpusError pystr
  | EmptyIndexError pystr
  | ArgumentLengthError pystr
  | CapabilityUnavailable pystr
  | PlanningTimeout pystr
  | SlackError pystr
  | LlmError pystr
  | KeyError pystr
  | TypeError pystr

type_synonym 'a result = "exn + 'a"

definition and_then :: "'a result \<Rightarrow> ('a \<Rightarrow> 'b result) \<Rightarrow> 'b result" where
  "and_then r f = (case r of Inl e \<Rightarrow> Inl e | Inr x \<Rightarrow> f x)"

lemma and_then_Inl [simp]: "and_then (Inl e) f = Inl e"
  by (simp add: and_then_def)

lemma and_then_Inr [simp]: "and_then (Inr x) f = f x"
  by (simp add: and_then_def)

lemma and_then_eq_Inr: "and_then r f = Inr y \<longleftrightarrow> (\<exists>x. r = Inr x \<and> f x = Inr y)"
  by (cases r) simp_all

lemma and_then_eq_Inl: "and_then r f = Inl e \<longleftrightarrow> r = Inl e \<or> (\<exists>x. r = Inr x \<and> f x = Inl e)"
  by (cases r) simp_all

text \<open>Running a fallible operation over a list stops at the first exception.\<close>

fun each :: "('a \<Rightarrow> 'b result) \<Rightarrow> 'a list \<Rightarrow> 'b list result" where
  "each f [] = Inr []"
| "each f (x # xs) = and_then (f x) (\<lambda>y. and_then (each f xs) (\<lambda>ys. Inr (y # ys)))"

lemma each_Inr: "each f xs = Inr ys \<Longrightarrow> list_all2 (\<lambda>x y. f x = Inr y) xs ys"
  by (induction xs arbitrary: ys) (auto simp: and_then_eq_Inr)

section \<open>Ordered de-duplication\<close>

text \<open>\<open>dict.fromkeys(xs)\<close> keeps the first occurrence of each value, in order.\<close>

fun fromkeys :: "'a list \<Rightarrow> 'a list" where
  "fromkeys [] = []"
| "fromkeys (x # xs) = x # filter (\<lambda>y. y \<noteq> x) (fromkeys xs)"

lemma set_fromkeys [simp]: "set (fromkeys xs) = set xs"
  by (induction xs) auto

lemma distinct_fromkeys [simp]: "distinct (fromkeys xs)"
  by (induction xs) auto

lemma fromkeys_distinct: "distinct xs \<Longrightarrow> fromkeys xs = xs"
  by (induction xs) (auto simp: filter_id_conv)

lemma fromkeys_idem [simp]: "fromkeys (fromkeys xs) = fromkeys xs"
  by (simp add: fromkeys_distinct)

lemma fromkeys_filter: "fromkeys (filter P xs) = filter P (fromkeys xs)"
  by (induction xs) (auto simp: conj_commute intro: filter_cong)

lemma fromkeys_eq_Nil [simp]: "fromkeys xs = [] \<longleftrightarrow> xs = []"
  by (cases xs) auto

lemma length_fromkeys_le: "length (fromkeys xs) \<le> length xs"
  by (induction xs) (auto intro: le_trans [OF length_filter_le])

lemma length_fromkeys_eq: "length (fromkeys xs) = length xs \<longleftrightarrow> distinct xs"
proof
  assume "length (fromkeys xs) = length xs"
  then have "card (set xs) = length xs"
    using distinct_card [OF distinct_fromkeys [of xs]] by simp
  then show "distinct xs"
    by (rule card_distinct)
next
  assume "distinct xs"
  then show "length (fromkeys xs) = length xs"
    by (simp add: fromkeys_distinct)
qed

section \<open>Lists of rows addressed by a key\<close>

text \<open>
  A table is a list of rows; an \<open>UPDATE ... WHERE\<close> maps the rows its condition selects and
  leaves every other row, and the order, as they were.
\<close>

definition update_where :: "('r \<Rightarrow> bool) \<Rightarrow> ('r \<Rightarrow> 'r) \<Rightarrow> 'r list \<Rightarrow> 'r list" where
  "update_where P f rows = map (\<lambda>r. if P r then f r else r) rows"

lemma length_update_where [simp]: "length (update_where P f rows) = length rows"
  by (simp add: update_where_def)

lemma update_where_Nil [simp]: "update_where P f [] = []"
  by (simp add: update_where_def)

lemma update_where_Cons [simp]:
  "update_where P f (r # rows) = (if P r then f r else r) # update_where P f rows"
  by (simp add: update_where_def)

lemma map_update_where:
  "(\<And>r. P r \<Longrightarrow> g (f r) = g r) \<Longrightarrow> map g (update_where P f rows) = map g rows"
  by (simp add: update_where_def)

lemma in_update_where:
  "r \<in> set (update_where P f rows) \<Longrightarrow>
     (\<And>r0. r0 \<in> set rows \<Longrightarrow> P r0 \<Longrightarrow> r = f r0 \<Longrightarrow> thesis) \<Longrightarrow>
     (r \<in> set rows \<Longrightarrow> \<not> P r \<Longrightarrow> thesis) \<Longrightarrow> thesis"
  by (auto simp: update_where_def split: if_splits)

lemma update_where_unchanged:
  "(\<And>r. r \<in> set rows \<Longrightarrow> \<not> P r) \<Longrightarrow> update_where P f rows = rows"
  by (induction rows) auto

lemma filter_update_where:
  "(\<And>r. P r \<Longrightarrow> \<not> Q r \<and> \<not> Q (f r)) \<Longrightarrow> filter Q (update_where P f rows) = filter Q rows"
  by (induction rows) auto

lemma find_eq_Some_in: "find P xs = Some x \<Longrightarrow> x \<in> set xs \<and> P x"
  by (auto simp: find_Some_iff)

lemma in_map_filter: "y \<in> set (List.map_filter f xs) \<longleftrightarrow> (\<exists>x \<in> set xs. f x = Some y)"
  by (induction xs) (auto simp: List.map_filter_simps split: option.splits)

lemma map_filter_total:
  "length (List.map_filter f xs) = length xs \<Longrightarrow> list_all2 (\<lambda>x y. f x = Some y) xs (List.map_filter f xs)"
proof (induction xs)
  case (Cons x xs)
  have "length (List.map_filter f ys) \<le> length ys" for ys
    by (induction ys) (auto simp: List.map_filter_simps split: option.splits)
  from this [of xs] Cons show ?case
    by (auto simp: List.map_filter_simps split: option.splits)
qed (simp add: List.map_filter_simps)

section \<open>The least row of a non-empty selection\<close>

text \<open>\<open>ORDER BY k LIMIT 1\<close>: the first row with the least key, if any row was selected.\<close>

fun first_by :: "('r \<Rightarrow> 'k::linorder) \<Rightarrow> 'r list \<Rightarrow> 'r option" where
  "first_by k [] = None"
| "first_by k (r # rows) =
     (case first_by k rows of None \<Rightarrow> Some r | Some s \<Rightarrow> Some (if k r \<le> k s then r else s))"

lemma first_by_None [simp]: "first_by k rows = None \<longleftrightarrow> rows = []"
  by (cases rows) (auto split: option.splits)

lemma first_by_Some: "first_by k rows = Some r \<Longrightarrow> r \<in> set rows \<and> (\<forall>s \<in> set rows. k r \<le> k s)"
  by (induction rows arbitrary: r) (force split: option.splits if_splits)+

end
