(* ===== verification/Py_Text.thy ===== *)
theory Py_Text
  imports Prelude
begin

text \<open>
  Python's string operations on code-point lists: whitespace, \<open>strip\<close>, \<open>split\<close>, \<open>join\<close>,
  \<open>startswith\<close>, \<open>find\<close>, and UTF-8 sizes. The parts of the Unicode database the code consults
  (NFKC, NFKD folding, case folding, decimal digits, word characters) are a record parameter.
\<close>

section \<open>The Unicode tables the code consults\<close>

record unicode =
  nfkc :: "pystr \<Rightarrow> pystr"
  casefold :: "pystr \<Rightarrow> pystr"
  is_decimal :: "int \<Rightarrow> bool"
  is_word :: "int \<Rightarrow> bool"

text \<open>The tables restricted to ASCII, used to evaluate concrete inputs.\<close>

definition ascii_lower :: "int \<Rightarrow> int" where
  "ascii_lower c = (if 65 \<le> c \<and> c \<le> 90 then c + 32 else c)"

definition ascii_digit :: "int \<Rightarrow> bool" where
  "ascii_digit c \<longleftrightarrow> 48 \<le> c \<and> c \<le> 57"

definition ascii_alnum :: "int \<Rightarrow> bool" where
  "ascii_alnum c \<longleftrightarrow> ascii_digit c \<or> 65 \<le> c \<and> c \<le> 90 \<or> 97 \<le> c \<and> c \<le> 122"

definition ascii_unicode :: unicode where
  "ascii_unicode = \<lparr>nfkc = (\<lambda>s. s), casefold = map ascii_lower, is_decimal = ascii_digit,
     is_word = (\<lambda>c. ascii_alnum c \<or> c = 95)\<rparr>"

section \<open>Whitespace\<close>

text \<open>\<open>str.isspace\<close> and the regular expression class \<open>\s\<close> agree on this set.\<close>

definition is_space :: "int \<Rightarrow> bool" where
  "is_space c \<longleftrightarrow> 9 \<le> c \<and> c \<le> 13 \<or> 28 \<le> c \<and> c \<le> 32 \<or> c = 133 \<or> c = 160 \<or> c = 5760 \<or>
     8192 \<le> c \<and> c \<le> 8202 \<or> c = 8232 \<or> c = 8233 \<or> c = 8239 \<or> c = 8287 \<or> c = 12288"

abbreviation NL :: int where "NL \<equiv> 10"
abbreviation SP :: int where "SP \<equiv> 32"

lemma is_space_ascii [simp]: "is_space 10" "is_space 32" "is_space 9" "is_space 13"
  by (simp_all add: is_space_def)

definition lstrip :: "pystr \<Rightarrow> pystr" where
  "lstrip s = dropWhile is_space s"

definition rstrip :: "pystr \<Rightarrow> pystr" where
  "rstrip s = rev (dropWhile is_space (rev s))"

definition strip :: "pystr \<Rightarrow> pystr" where
  "strip s = rstrip (lstrip s)"

text \<open>\<open>s.strip(chars)\<close> for an explicit set of characters.\<close>

definition strip_chars :: "int list \<Rightarrow> pystr \<Rightarrow> pystr" where
  "strip_chars cs s = rev (dropWhile (\<lambda>c. c \<in> set cs) (rev (dropWhile (\<lambda>c. c \<in> set cs) s)))"

definition blank :: "pystr \<Rightarrow> bool" where
  "blank s \<longleftrightarrow> list_all is_space s"

lemma dropWhile_Nil_iff: "dropWhile P s = [] \<longleftrightarrow> list_all P s"
  by (simp add: list_all_iff)

lemma blank_Nil [simp]: "blank []"
  by (simp add: blank_def)

lemma blank_append [simp]: "blank (s @ t) \<longleftrightarrow> blank s \<and> blank t"
  by (simp add: blank_def)

lemma rstrip_eq_Nil: "rstrip s = [] \<longleftrightarrow> blank s"
  by (auto simp: rstrip_def blank_def list_all_iff dropWhile_Nil_iff)

lemma strip_eq_Nil: "strip s = [] \<longleftrightarrow> blank s"
proof
  assume "strip s = []"
  then have "blank (dropWhile is_space s)"
    by (simp add: strip_def rstrip_eq_Nil lstrip_def)
  then have "dropWhile is_space s = []"
    using hd_dropWhile [of is_space s] by (cases "dropWhile is_space s") (auto simp: blank_def list_all_iff)
  then show "blank s"
    by (simp add: blank_def list_all_iff)
next
  assume "blank s"
  then show "strip s = []"
    by (auto simp: strip_def lstrip_def rstrip_def blank_def list_all_iff dest: set_dropWhileD)
qed

lemma rstrip_Cons_nonspace: "\<not> is_space c \<Longrightarrow> rstrip (c # s) = c # rstrip s"
  by (simp add: rstrip_def dropWhile_append)

section \<open>Splitting and joining\<close>

text \<open>\<open>s.split()\<close>: the maximal runs of non-whitespace.\<close>

function split_ws :: "pystr \<Rightarrow> pystr list" where
  "split_ws [] = []"
| "split_ws (c # s) =
     (if is_space c then split_ws s
      else (c # takeWhile (\<lambda>d. \<not> is_space d) s) # split_ws (dropWhile (\<lambda>d. \<not> is_space d) s))"
  by pat_completeness auto
termination
  by (relation "measure length") (auto intro: le_imp_less_Suc length_dropWhile_le)

fun join :: "pystr \<Rightarrow> pystr list \<Rightarrow> pystr" where
  "join sep [] = []"
| "join sep [s] = s"
| "join sep (s # ss) = s @ sep @ join sep ss"

text \<open>\<open>" ".join(s.split())\<close>, which the code uses to fold a value onto one line.\<close>

definition one_line :: "pystr \<Rightarrow> pystr" where
  "one_line s = join [SP] (split_ws s)"

definition word_token :: "pystr \<Rightarrow> bool" where
  "word_token w \<longleftrightarrow> w \<noteq> [] \<and> list_all (\<lambda>c. \<not> is_space c) w"

lemma split_ws_tokens: "w \<in> set (split_ws s) \<Longrightarrow> word_token w"
proof (induction s rule: split_ws.induct)
  case (2 c s)
  show ?case
  proof (cases "is_space c")
    case True
    with 2 show ?thesis by simp
  next
    case False
    have "word_token (c # takeWhile (\<lambda>d. \<not> is_space d) s)"
      using False set_takeWhileD [of _ "\<lambda>d. \<not> is_space d" s]
      by (auto simp: word_token_def list_all_iff)
    with False "2.prems" "2.IH"(2) show ?thesis by auto
  qed
qed simp

lemma split_ws_token_append:
  "word_token w \<Longrightarrow> split_ws (w @ SP # s) = w # split_ws s"
proof (cases w)
  case (Cons c v)
  assume "word_token w"
  then have "\<not> is_space c" and v: "\<And>d. d \<in> set v \<Longrightarrow> \<not> is_space d"
    using Cons by (auto simp: word_token_def list_all_iff)
  then show ?thesis
    using Cons by (simp add: takeWhile_append2 [OF v] dropWhile_append2 [OF v])
qed (simp add: word_token_def)

lemma split_ws_token: "word_token w \<Longrightarrow> split_ws w = [w]"
  by (cases w)
     (auto simp: word_token_def list_all_iff takeWhile_eq_all_conv
       dropWhile_eq_Nil_conv [THEN iffD2])

lemma split_ws_join: "(\<forall>w \<in> set ws. word_token w) \<Longrightarrow> split_ws (join [SP] ws) = ws"
  by (induction "[SP]" ws rule: join.induct) (auto simp: split_ws_token split_ws_token_append)

lemma split_ws_one_line [simp]: "split_ws (one_line s) = split_ws s"
  by (simp add: one_line_def split_ws_join split_ws_tokens)

lemma one_line_idem [simp]: "one_line (one_line s) = one_line s"
  by (subst one_line_def) (simp, simp add: one_line_def)

lemma split_ws_eq_Nil: "split_ws s = [] \<longleftrightarrow> blank s"
  by (induction s rule: split_ws.induct) (auto simp: blank_def)

text \<open>\<open>s.split(c)\<close> for a one-character separator, and \<open>s.split(c, n)\<close> with at most \<open>n\<close> cuts.\<close>

fun split_on :: "int \<Rightarrow> pystr \<Rightarrow> pystr list" where
  "split_on sep [] = [[]]"
| "split_on sep (c # s) =
     (if c = sep then [] # split_on sep s
      else (case split_on sep s of [] \<Rightarrow> [[c]] | p # ps \<Rightarrow> (c # p) # ps))"

fun split_max :: "nat \<Rightarrow> int \<Rightarrow> pystr \<Rightarrow> pystr list" where
  "split_max 0 sep s = [s]"
| "split_max (Suc n) sep s =
     (case dropWhile (\<lambda>c. c \<noteq> sep) s of
        [] \<Rightarrow> [s]
      | _ # rest \<Rightarrow> takeWhile (\<lambda>c. c \<noteq> sep) s # split_max n sep rest)"

lemma split_on_not_Nil [simp]: "split_on sep s \<noteq> []"
  by (induction s) (auto split: list.splits)

lemma join_split_on: "join [sep] (split_on sep s) = s"
proof (induction s)
  case (Cons c s)
  obtain p ps where "split_on sep s = p # ps"
    by (meson list.exhaust split_on_not_Nil)
  with Cons show ?case
    by (cases ps) auto
qed simp

lemma split_on_free: "sep \<notin> set s \<Longrightarrow> split_on sep s = [s]"
  by (induction s) auto

lemma split_on_append:
  "sep \<notin> set s \<Longrightarrow> split_on sep (s @ sep # t) = s # split_on sep t"
  by (induction s) auto

lemma split_on_parts: "p \<in> set (split_on sep s) \<Longrightarrow> sep \<notin> set p"
proof (induction s arbitrary: p)
  case (Cons c s)
  obtain q qs where "split_on sep s = q # qs"
    by (meson list.exhaust split_on_not_Nil)
  with Cons show ?case
    by (auto split: if_splits)
qed simp

lemma split_on_join:
  "ps \<noteq> [] \<Longrightarrow> (\<forall>p \<in> set ps. sep \<notin> set p) \<Longrightarrow> split_on sep (join [sep] ps) = ps"
  by (induction "[sep]" ps rule: join.induct) (auto simp: split_on_free split_on_append)

section \<open>Searching\<close>

abbreviation starts_with :: "pystr \<Rightarrow> pystr \<Rightarrow> bool" where
  "starts_with p s \<equiv> prefix p s"

abbreviation ends_with :: "pystr \<Rightarrow> pystr \<Rightarrow> bool" where
  "ends_with p s \<equiv> suffix p s"

text \<open>\<open>s.find(p)\<close>: the offset of the first occurrence.\<close>

fun find_sub :: "pystr \<Rightarrow> pystr \<Rightarrow> nat option" where
  "find_sub p [] = (if p = [] then Some 0 else None)"
| "find_sub p (c # s) = (if prefix p (c # s) then Some 0 else map_option Suc (find_sub p s))"

definition contains :: "pystr \<Rightarrow> pystr \<Rightarrow> bool" where
  "contains p s \<longleftrightarrow> find_sub p s \<noteq> None"

lemma find_sub_Some:
  "find_sub p s = Some n \<Longrightarrow> n \<le> length s \<and> prefix p (drop n s)"
  by (induction p s arbitrary: n rule: find_sub.induct) (auto split: if_splits)

lemma find_sub_shift: "find_sub p (t @ s) = None \<Longrightarrow> find_sub p s = None"
  by (induction t) (auto split: if_splits)

lemma find_sub_prefix: "prefix p s \<Longrightarrow> find_sub p s = Some 0"
  by (cases s) auto

lemma contains_iff_sublist: "contains p s \<longleftrightarrow> sublist p s"
proof
  assume "contains p s"
  then obtain n where "prefix p (drop n s)"
    by (auto simp: contains_def dest: find_sub_Some)
  then show "sublist p s"
    by (metis prefix_imp_sublist sublist_drop sublist_order.order.trans)
next
  assume "sublist p s"
  then obtain t u where s: "s = t @ p @ u"
    by (auto simp: sublist_def)
  show "contains p s"
  proof (rule ccontr)
    assume "\<not> contains p s"
    then have "find_sub p (p @ u) = None"
      unfolding s contains_def using find_sub_shift by blast
    then show False
      by (simp add: find_sub_prefix)
  qed
qed

section \<open>UTF-8 size\<close>

definition utf8_width :: "int \<Rightarrow> nat" where
  "utf8_width c = (if c < 128 then 1 else if c < 2048 then 2 else if c < 65536 then 3 else 4)"

definition utf8_size :: "pystr \<Rightarrow> nat" where
  "utf8_size s = sum_list (map utf8_width s)"

lemma utf8_size_simps [simp]:
  "utf8_size [] = 0" "utf8_size (c # s) = utf8_width c + utf8_size s"
  "utf8_size (s @ t) = utf8_size s + utf8_size t"
  by (simp_all add: utf8_size_def)

lemma utf8_width_bounds: "1 \<le> utf8_width c" "utf8_width c \<le> 4"
  by (simp_all add: utf8_width_def)

lemma length_le_utf8_size: "length s \<le> utf8_size s"
  by (induction s) (auto simp: add_le_mono [OF utf8_width_bounds(1), of _ _, simplified])

section \<open>Lines\<close>

text \<open>The characters \<open>str.splitlines\<close> ends a line at; the pair CR LF is one end.\<close>

definition line_break :: "int \<Rightarrow> bool" where
  "line_break c \<longleftrightarrow> 10 \<le> c \<and> c \<le> 13 \<or> 28 \<le> c \<and> c \<le> 30 \<or> c = 133 \<or> c = 8232 \<or> c = 8233"

fun splitlines_keep :: "pystr \<Rightarrow> pystr list" where
  "splitlines_keep [] = []"
| "splitlines_keep [c] = [[c]]"
| "splitlines_keep (c # d # s) =
     (if c = 13 \<and> d = 10 then [c, d] # splitlines_keep s
      else if line_break c then [c] # splitlines_keep (d # s)
      else (case splitlines_keep (d # s) of [] \<Rightarrow> [[c]] | l # ls \<Rightarrow> (c # l) # ls))"

definition splitlines :: "pystr \<Rightarrow> pystr list" where
  "splitlines s = map (takeWhile (\<lambda>c. \<not> line_break c)) (splitlines_keep s)"

end
