(* ===== verification/Audience.thy ===== *)
theory Audience
  imports Py_Text
begin

text \<open>
  Audiences: who may read a page and where material may flow. Models
  \<open>stigmergy/kernel/acl.py\<close> (\<open>flows_into\<close>), \<open>stigmergy/server/acl.py\<close> (\<open>_labels\<close>,
  \<open>visible\<close>) and \<open>stigmergy/knowledge/write_guard.py\<close> (every function). The write guard relies
  on the reading policy through the interface \<open>reading_policy\<close>, interpreted on the model's own
  \<open>flows_into\<close> and \<open>visible\<close>.
\<close>

section \<open>Flow between audiences (kernel/acl.py)\<close>

text \<open>An audience is \<open>None\<close> (public) or a list of group names.\<close>

type_synonym acl = "pystr list option"

definition flows_into :: "acl \<Rightarrow> acl \<Rightarrow> bool" where
  "flows_into content_acl page_acl =
     (case content_acl of
        None \<Rightarrow> True
      | Some content \<Rightarrow>
          (case page_acl of
             None \<Rightarrow> False
           | Some page \<Rightarrow> set page \<subseteq> set content))"

lemma flows_into_refl [simp]: "flows_into a a"
  by (simp add: flows_into_def split: option.split)

lemma flows_into_trans: "flows_into a b \<Longrightarrow> flows_into b c \<Longrightarrow> flows_into a c"
  by (auto simp: flows_into_def split: option.splits)

lemma flows_into_public [simp]: "flows_into None a" "flows_into a None \<longleftrightarrow> a = None"
  by (auto simp: flows_into_def split: option.split)

section \<open>Fail-closed visibility (server/acl.py)\<close>

text \<open>
  A stored audience may be anything a database column or a page can hold: nothing, a list (its
  members text or, as \<open>None\<close>, another type), one comma-separated string, or something else.
\<close>

datatype stored_acl =
    AclNull
  | AclList "pystr option list"
  | AclText pystr
  | AclOther

datatype labels = Open_labels | Malformed_labels | Labels "pystr set"

abbreviation COMMA :: int where "COMMA \<equiv> 44"

definition labels_of :: "stored_acl \<Rightarrow> labels" where
  "labels_of acl =
     (case acl of
        AclNull \<Rightarrow> Open_labels
      | AclList as \<Rightarrow>
          if None \<in> set as then Malformed_labels
          else Labels (set (filter (\<lambda>s. s \<noteq> []) (map (\<lambda>a. strip (the a)) as)))
      | AclText s \<Rightarrow> Labels (set (filter (\<lambda>s. s \<noteq> []) (map strip (split_on COMMA s))))
      | AclOther \<Rightarrow> Malformed_labels)"

definition visible :: "stored_acl \<Rightarrow> pystr set option \<Rightarrow> bool" where
  "visible acl audiences =
     (case labels_of acl of
        Malformed_labels \<Rightarrow> False
      | Open_labels \<Rightarrow> True
      | Labels ls \<Rightarrow> (case audiences of None \<Rightarrow> True | Some as \<Rightarrow> ls \<inter> as \<noteq> {}))"

text \<open>\<open>_list\<close> of the write guard: a tuple of names as the value the reading check takes.\<close>

definition as_stored :: "acl \<Rightarrow> stored_acl" where
  "as_stored a = (case a of None \<Rightarrow> AclNull | Some names \<Rightarrow> AclList (map Some names))"

definition acl_labels :: "pystr list \<Rightarrow> pystr set" where
  "acl_labels names = {s \<in> strip ` set names. s \<noteq> []}"

lemma labels_of_as_stored [simp]:
  "labels_of (as_stored a) =
     (case a of None \<Rightarrow> Open_labels | Some names \<Rightarrow> Labels (acl_labels names))"
  by (auto simp: labels_of_def as_stored_def acl_labels_def split: option.split)

lemma visible_as_stored:
  "visible (as_stored a) g \<longleftrightarrow>
     (case a of None \<Rightarrow> True
      | Some names \<Rightarrow> (case g of None \<Rightarrow> True | Some as \<Rightarrow> acl_labels names \<inter> as \<noteq> {}))"
  by (simp add: visible_def split: option.split)

lemma acl_labels_mono: "set page \<subseteq> set content \<Longrightarrow> acl_labels page \<subseteq> acl_labels content"
  by (auto simp: acl_labels_def)

text \<open>Names as the layer and roster checks leave them: stripped, never empty.\<close>

definition clean_acl :: "acl \<Rightarrow> bool" where
  "clean_acl a = (case a of None \<Rightarrow> True | Some names \<Rightarrow> (\<forall>n \<in> set names. n \<noteq> [] \<and> strip n = n))"

lemma acl_labels_clean: "clean_acl (Some names) \<Longrightarrow> acl_labels names = set names"
  by (force simp: acl_labels_def clean_acl_def image_iff)

section \<open>The reading policy as an interface\<close>

text \<open>
  What the write guard needs of the reading side: a flow relation that is a preorder and is sound
  for reading, that is, whoever may read the destination may read what flows into it.
\<close>

locale reading_policy =
  fixes flows :: "'a \<Rightarrow> 'a \<Rightarrow> bool"
    and reads :: "'g \<Rightarrow> 'a \<Rightarrow> bool"
  assumes flows_self: "flows a a"
    and flows_comp: "flows a b \<Longrightarrow> flows b c \<Longrightarrow> flows a c"
    and flows_read: "flows a b \<Longrightarrow> reads g b \<Longrightarrow> reads g a"
begin

text \<open>Material that reached a page through any chain of flows is readable by its readers.\<close>

lemma chain_read: "list_all2 flows as bs \<Longrightarrow> i < length as \<Longrightarrow> reads g (bs ! i) \<Longrightarrow> reads g (as ! i)"
  by (auto simp: list_all2_conv_all_nth intro: flows_read)

lemma rtrancl_read: "flows\<^sup>*\<^sup>* a b \<Longrightarrow> reads g b \<Longrightarrow> reads g a"
  by (induction rule: rtranclp_induct) (auto intro: flows_read)

lemma rtrancl_flows: "flows\<^sup>*\<^sup>* a b \<Longrightarrow> flows a b"
  by (induction rule: rtranclp_induct) (auto intro: flows_self flows_comp)

end

interpretation acl_policy: reading_policy flows_into "\<lambda>g a. visible (as_stored a) g"
proof
  fix a b :: acl and g
  assume "flows_into a b" and "visible (as_stored b) g"
  then show "visible (as_stored a) g"
    by (cases a; cases b; cases g)
       (auto simp: visible_as_stored flows_into_def dest: acl_labels_mono)
qed (auto intro: flows_into_trans)

section \<open>The write guard (knowledge/write_guard.py)\<close>

record write_context =
  actor_groups :: "pystr set option"
  content_acl :: acl
  unrestricted :: bool

definition actor_may_read :: "write_context \<Rightarrow> acl \<Rightarrow> unit result" where
  "actor_may_read context a =
     (if unrestricted context then Inr ()
      else if \<not> visible (as_stored a) (actor_groups context)
      then Inl (WriteRefused (lit ''the actor cannot affect knowledge they cannot read''))
      else Inr ())"

definition allow_create :: "write_context \<Rightarrow> acl \<Rightarrow> unit result" where
  "allow_create context target_acl =
     (if target_acl \<noteq> content_acl context
      then Inl (WriteRefused (lit ''new knowledge must retain the capture audience''))
      else actor_may_read context target_acl)"

definition allow_existing :: "write_context \<Rightarrow> acl \<Rightarrow> unit result" where
  "allow_existing context page_acl =
     and_then (actor_may_read context page_acl) (\<lambda>_.
       if \<not> flows_into (content_acl context) page_acl
       then Inl (WriteRefused (lit ''restricted material cannot affect a broader page''))
       else Inr ())"

definition is_broader :: "write_context \<Rightarrow> acl \<Rightarrow> bool" where
  "is_broader context page_acl =
     (case actor_may_read context page_acl of
        Inl _ \<Rightarrow> False
      | Inr _ \<Rightarrow> \<not> flows_into (content_acl context) page_acl)"

definition may_link :: "write_context \<Rightarrow> acl \<Rightarrow> bool" where
  "may_link context target_acl =
     (case actor_may_read context target_acl of
        Inl _ \<Rightarrow> False
      | Inr _ \<Rightarrow> flows_into target_acl (content_acl context))"

definition allow_explicit_master :: "write_context \<Rightarrow> unit result" where
  "allow_explicit_master context =
     (if \<not> unrestricted context
      then Inl (WriteRefused (lit ''this operation requires the master identity''))
      else Inr ())"

definition actor_reads :: "write_context \<Rightarrow> acl \<Rightarrow> bool" where
  "actor_reads context a \<longleftrightarrow> unrestricted context \<or> visible (as_stored a) (actor_groups context)"

lemma actor_may_read_ok [guard_simps]: "actor_may_read context a = Inr u \<longleftrightarrow> actor_reads context a"
  by (simp add: actor_may_read_def actor_reads_def)

lemma allow_create_ok [guard_simps]:
  "allow_create context a = Inr u \<longleftrightarrow> a = content_acl context \<and> actor_reads context a"
  by (simp add: allow_create_def guard_simps)

lemma allow_existing_ok [guard_simps]:
  "allow_existing context a = Inr u \<longleftrightarrow> actor_reads context a \<and> flows_into (content_acl context) a"
  by (auto simp: allow_existing_def and_then_eq_Inr guard_simps)

lemma is_broader_iff [guard_simps]:
  "is_broader context a \<longleftrightarrow> actor_reads context a \<and> \<not> flows_into (content_acl context) a"
  by (auto simp: is_broader_def actor_may_read_def actor_reads_def)

lemma may_link_iff [guard_simps]:
  "may_link context a \<longleftrightarrow> actor_reads context a \<and> flows_into a (content_acl context)"
  by (auto simp: may_link_def actor_may_read_def actor_reads_def)

section \<open>Properties\<close>

text \<open>
  C9. The flow check decides exactly reading containment: for audiences of clean names, material
  may flow into a page if and only if every reader of the page, scoped or not, may read the
  material. Neither check is stricter or laxer than the other.
\<close>

theorem flows_into_is_read_containment:
  assumes "clean_acl content" and "clean_acl page"
  shows "flows_into content page \<longleftrightarrow>
    (\<forall>g. visible (as_stored page) g \<longrightarrow> visible (as_stored content) g)"
proof (intro iffI allI impI)
  fix g
  assume "flows_into content page" "visible (as_stored page) g"
  then show "visible (as_stored content) g"
    by (rule acl_policy.flows_read)
next
  assume reads: "\<forall>g. visible (as_stored page) g \<longrightarrow> visible (as_stored content) g"
  show "flows_into content page"
  proof (cases content; cases page)
    fix c assume c: "content = Some c" and p: "page = None"
    from reads [rule_format, of "Some {}"] c p show ?thesis
      by (simp add: visible_as_stored)
  next
    fix c p assume c: "content = Some c" and p: "page = Some p"
    have "l \<in> set c" if "l \<in> set p" for l
      using reads [rule_format, of "Some {l}"] that assms
      by (simp add: c p visible_as_stored acl_labels_clean)
    then show ?thesis
      by (auto simp: c p flows_into_def)
  qed (simp_all add: flows_into_def)
qed

theorem flows_into_is_read_containment_witness:
  "flows_into (Some [lit ''finance'', lit ''legal'']) (Some [lit ''legal'']) \<and>
   visible (as_stored (Some [lit ''finance'', lit ''legal''])) (Some {lit ''legal''})"
proof -
  have "flows_into (Some [lit ''finance'', lit ''legal'']) (Some [lit ''legal''])"
    by (simp add: flows_into_def)
  moreover have "visible (as_stored (Some [lit ''legal''])) (Some {lit ''legal''})"
    by (simp add: visible_as_stored acl_labels_def strip_def lstrip_def rstrip_def is_space_def)
  ultimately show ?thesis
    using flows_into_is_read_containment [of "Some [lit ''finance'', lit ''legal'']" "Some [lit ''legal'']"]
    by (simp add: clean_acl_def strip_def lstrip_def rstrip_def is_space_def)
qed

text \<open>
  C8. The guard on existing pages leaks nothing in either direction: when it admits a change to a
  page, every reader of the page may already read the material written and the acting identity may
  itself read the page; and a link it admits leads only to pages every reader of the written
  material may read.
\<close>

theorem write_guard_no_leak:
  "(allow_existing context page = Inr () \<longrightarrow>
      actor_reads context page \<and>
      (\<forall>g. visible (as_stored page) g \<longrightarrow> visible (as_stored (content_acl context)) g)) \<and>
   (may_link context target \<longrightarrow>
      actor_reads context target \<and>
      (\<forall>g. visible (as_stored (content_acl context)) g \<longrightarrow> visible (as_stored target) g))"
  by (auto simp: guard_simps intro: acl_policy.flows_read)

theorem write_guard_no_leak_witness:
  "allow_existing \<lparr>actor_groups = Some {lit ''legal''}, content_acl = None, unrestricted = False\<rparr>
      (Some [lit ''legal'']) = Inr () \<and>
   actor_reads \<lparr>actor_groups = Some {lit ''legal''}, content_acl = None, unrestricted = False\<rparr>
      (Some [lit ''legal''])"
proof -
  let ?c = "\<lparr>actor_groups = Some {lit ''legal''}, content_acl = None, unrestricted = False\<rparr>"
  have ok: "allow_existing ?c (Some [lit ''legal'']) = Inr ()"
    by (simp add: guard_simps actor_reads_def visible_as_stored acl_labels_def strip_def lstrip_def
        rstrip_def is_space_def)
  show ?thesis
    using write_guard_no_leak [of ?c "Some [lit ''legal'']" None] ok by simp
qed

text \<open>
  The three outcomes for an existing page are exhaustive and exclusive: the write is admitted,
  the page is broader than the material (and is then skipped or refused as such), or the actor
  cannot read the page. A page the actor cannot read is never reported as broader, so the guard
  does not reveal that it exists.
\<close>

theorem write_guard_trichotomy:
  "(allow_existing context page = Inr ()) \<noteq> (is_broader context page \<or> \<not> actor_reads context page) \<and>
   \<not> (is_broader context page \<and> \<not> actor_reads context page) \<and>
   (\<not> actor_reads context page \<longrightarrow>
      allow_existing context page =
        Inl (WriteRefused (lit ''the actor cannot affect knowledge they cannot read'')))"
  by (auto simp: guard_simps allow_existing_def actor_may_read_def actor_reads_def)

theorem write_guard_trichotomy_witness:
  "allow_existing \<lparr>actor_groups = Some {}, content_acl = None, unrestricted = False\<rparr>
      (Some [lit ''legal'']) =
     Inl (WriteRefused (lit ''the actor cannot affect knowledge they cannot read''))"
proof -
  let ?c = "\<lparr>actor_groups = Some {}, content_acl = None, unrestricted = False\<rparr>"
  have "\<not> actor_reads ?c (Some [lit ''legal''])"
    by (simp add: actor_reads_def visible_as_stored)
  with write_guard_trichotomy [of ?c "Some [lit ''legal'']"] show ?thesis
    by blast
qed

end
