(* ===== verification/Layer_Paths.thy ===== *)
theory Layer_Paths
  imports Audience
begin

text \<open>
  Layer names, the mapping between virtual and physical paths, and layer markers: the first half
  of \<open>stigmergy/kernel/layers.py\<close>. The path mapping is an interface, \<open>path_codec\<close>, because the
  view, the projection, the corpus check and the writer's diff gate all rely on its two laws.
\<close>

section \<open>Layer names\<close>

definition PUBLIC :: pystr where "PUBLIC = lit ''public''"
definition LAYER_ROOT :: pystr where "LAYER_ROOT = lit ''layers''"

definition RESERVED_NAMES :: "pystr list" where
  "RESERVED_NAMES = [PUBLIC, lit ''brain-admins'', LAYER_ROOT, lit ''wiki'', lit ''sources'', lit ''all'']"

definition lower_letter :: "int \<Rightarrow> bool" where
  "lower_letter c \<longleftrightarrow> 97 \<le> c \<and> c \<le> 122"

definition name_char :: "int \<Rightarrow> bool" where
  "name_char c \<longleftrightarrow> lower_letter c \<or> ascii_digit c \<or> c = 45"

text \<open>The pattern \<open>[a-z][a-z0-9-]{1,31}\<close>, over the whole name.\<close>

definition layer_shape :: "pystr \<Rightarrow> bool" where
  "layer_shape name =
     (case name of
        [] \<Rightarrow> False
      | c # cs \<Rightarrow> lower_letter c \<and> 1 \<le> length cs \<and> length cs \<le> 31 \<and> list_all name_char cs)"

definition is_layer_name :: "pystr \<Rightarrow> bool" where
  "is_layer_name name \<longleftrightarrow> layer_shape name \<and> name \<notin> set RESERVED_NAMES"

lemma layer_shape_chars: "layer_shape name \<Longrightarrow> c \<in> set name \<Longrightarrow> name_char c"
  by (cases name) (auto simp: layer_shape_def name_char_def list_all_iff)

lemma layer_shape_not_Nil [simp]: "\<not> layer_shape []"
  by (simp add: layer_shape_def)

lemma name_char_not [simp]:
  "\<not> name_char 47" "\<not> name_char 93" "\<not> name_char 92" "\<not> name_char 91"
  by (simp_all add: name_char_def lower_letter_def ascii_digit_def)

lemma is_layer_name_not_public [simp]: "\<not> is_layer_name PUBLIC"
  by (simp add: is_layer_name_def RESERVED_NAMES_def)

lemma is_layer_name_no_slash: "is_layer_name name \<Longrightarrow> 47 \<notin> set name"
  using layer_shape_chars [of name 47] by (auto simp: is_layer_name_def)

section \<open>Audiences as layers\<close>

definition layer_of_acl :: "acl \<Rightarrow> pystr result" where
  "layer_of_acl a =
     (case a of
        None \<Rightarrow> Inr PUBLIC
      | Some [name] \<Rightarrow>
          if is_layer_name name then Inr name
          else Inl (LayerError (lit ''an audience names exactly one layer''))
      | Some _ \<Rightarrow> Inl (LayerError (lit ''an audience names exactly one layer'')))"

definition acl_of_layer :: "pystr \<Rightarrow> acl result" where
  "acl_of_layer layer =
     (if layer = PUBLIC then Inr None
      else if \<not> is_layer_name layer then Inl (LayerError (lit ''layer name is invalid''))
      else Inr (Some [layer]))"

lemma layer_of_acl_ok: "layer_of_acl a = Inr l \<longleftrightarrow> acl_of_layer l = Inr a"
  by (auto simp: layer_of_acl_def acl_of_layer_def split: option.splits list.splits if_splits)

section \<open>Physical and virtual paths\<close>

abbreviation SLASH :: int where "SLASH \<equiv> 47"

definition physical_path :: "pystr \<Rightarrow> pystr \<Rightarrow> pystr result" where
  "physical_path layer virtual =
     (if layer = PUBLIC then Inr virtual
      else if \<not> is_layer_name layer then Inl (LayerError (lit ''layer name is invalid''))
      else Inr (LAYER_ROOT @ [SLASH] @ layer @ [SLASH] @ virtual))"

definition split_path :: "pystr \<Rightarrow> (pystr \<times> pystr) result" where
  "split_path path =
     (if \<not> starts_with (LAYER_ROOT @ [SLASH]) path then Inr (PUBLIC, path)
      else case split_max 2 SLASH path of
             [_, layer, virtual] \<Rightarrow>
               if \<not> is_layer_name layer \<or> virtual = []
               then Inl (LayerError (lit ''layer path is invalid''))
               else Inr (layer, virtual)
           | _ \<Rightarrow> Inl (LayerError (lit ''layer path is invalid'')))"

definition virtual_path :: "pystr \<Rightarrow> pystr result" where
  "virtual_path path = and_then (split_path path) (\<lambda>(_, virtual). Inr virtual)"

text \<open>A virtual path names a file of the single-layer layout, so it is never itself a layer path.\<close>

definition virtual_ok :: "pystr \<Rightarrow> bool" where
  "virtual_ok virtual \<longleftrightarrow> virtual \<noteq> [] \<and> \<not> starts_with (LAYER_ROOT @ [SLASH]) virtual"

lemma split_max_Suc_append:
  "sep \<notin> set p \<Longrightarrow> split_max (Suc n) sep (p @ sep # rest) = p # split_max n sep rest"
proof -
  assume "sep \<notin> set p"
  then have "dropWhile (\<lambda>c. c \<noteq> sep) (p @ sep # rest) = sep # rest"
    and "takeWhile (\<lambda>c. c \<noteq> sep) (p @ sep # rest) = p"
    by (induction p) auto
  then show ?thesis by simp
qed

lemma LAYER_ROOT_no_slash [simp]: "SLASH \<notin> set LAYER_ROOT"
  by (simp add: LAYER_ROOT_def)

lemma split_path_layer:
  assumes "is_layer_name layer" and "virtual \<noteq> []"
  shows "split_path (LAYER_ROOT @ [SLASH] @ layer @ [SLASH] @ virtual) = Inr (layer, virtual)"
proof -
  have "split_max 2 SLASH (LAYER_ROOT @ SLASH # layer @ SLASH # virtual) = [LAYER_ROOT, layer, virtual]"
    using assms is_layer_name_no_slash [OF assms(1)]
    by (simp add: numeral_2_eq_2 split_max_Suc_append del: split_max.simps(2))
  then show ?thesis
    using assms by (simp add: split_path_def del: split_max.simps)
qed

lemma split_path_public: "virtual_ok virtual \<Longrightarrow> split_path virtual = Inr (PUBLIC, virtual)"
  by (simp add: split_path_def virtual_ok_def)

lemma split_max_2_parts:
  assumes "split_max 2 sep s = [p, q, r]"
  shows "s = p @ sep # q @ sep # r"
proof -
  have cut: "t = takeWhile (\<lambda>c. c \<noteq> sep) t @ sep # u" if "dropWhile (\<lambda>c. c \<noteq> sep) t = c # u" for t c u
    using that takeWhile_dropWhile_id [of "\<lambda>c. c \<noteq> sep" t] hd_dropWhile [of "\<lambda>c. c \<noteq> sep" t]
    by simp
  from assms show ?thesis
    by (auto simp: numeral_2_eq_2 split: list.splits dest!: cut)
qed

lemma split_path_parts:
  assumes "split_path path = Inr (layer, virtual)" and "layer \<noteq> PUBLIC"
  shows "is_layer_name layer" and "virtual \<noteq> []" and "path = LAYER_ROOT @ [SLASH] @ layer @ [SLASH] @ virtual"
proof -
  from assms have pre: "starts_with (LAYER_ROOT @ [SLASH]) path"
    by (auto simp: split_path_def split: if_splits)
  with assms obtain p where parts: "split_max 2 SLASH path = [p, layer, virtual]"
    and "is_layer_name layer" "virtual \<noteq> []"
    by (auto simp: split_path_def split: if_splits list.splits simp del: split_max.simps)
  then show "is_layer_name layer" "virtual \<noteq> []"
    by simp_all
  obtain rest where path: "path = LAYER_ROOT @ SLASH # rest"
    using pre by (auto simp: prefix_def)
  have "split_max 2 SLASH path = LAYER_ROOT # split_max 1 SLASH rest"
    by (simp add: path numeral_2_eq_2 split_max_Suc_append del: split_max.simps)
  with parts have "p = LAYER_ROOT"
    by simp
  with split_max_2_parts [OF parts] show "path = LAYER_ROOT @ [SLASH] @ layer @ [SLASH] @ virtual"
    by simp
qed

section \<open>The path mapping as an interface\<close>

locale path_codec =
  fixes enc :: "'l \<Rightarrow> 'v \<Rightarrow> 'p result"
    and dec :: "'p \<Rightarrow> ('l \<times> 'v) result"
    and valid :: "'v \<Rightarrow> bool"
  assumes dec_enc: "enc l v = Inr p \<Longrightarrow> valid v \<Longrightarrow> dec p = Inr (l, v)"
    and enc_dec: "dec p = Inr (l, v) \<Longrightarrow> enc l v = Inr p"
begin

lemma enc_inject: "enc l v = Inr p \<Longrightarrow> enc l' v' = Inr p \<Longrightarrow> valid v \<Longrightarrow> valid v' \<Longrightarrow> l = l' \<and> v = v'"
  using dec_enc [of l v p] dec_enc [of l' v' p] by simp

lemma dec_inject: "dec p = Inr lv \<Longrightarrow> dec q = Inr lv \<Longrightarrow> p = q"
  by (cases lv) (auto dest!: enc_dec)

lemma layers_disjoint: "enc l v = Inr p \<Longrightarrow> valid v \<Longrightarrow> dec p = Inr (l', v') \<Longrightarrow> l' = l"
  by (auto dest: dec_enc)

end

interpretation layer_path: path_codec physical_path split_path virtual_ok
proof
  fix l v p
  assume "physical_path l v = Inr p" and "virtual_ok v"
  then show "split_path p = Inr (l, v)"
    using split_path_layer [of l v]
    by (auto simp: physical_path_def split_path_public virtual_ok_def split: if_splits)
next
  fix p l v
  assume dec: "split_path p = Inr (l, v)"
  show "physical_path l v = Inr p"
  proof (cases "l = PUBLIC")
    case True
    with dec have "v = p"
      by (auto simp: split_path_def split: if_splits list.splits simp del: split_max.simps)
    with True show ?thesis
      by (simp add: physical_path_def)
  next
    case False
    with split_path_parts [OF dec] show ?thesis
      by (simp add: physical_path_def)
  qed
qed

section \<open>Layer markers\<close>

abbreviation BACKSLASH :: int where "BACKSLASH \<equiv> 92"

definition marker_open :: pystr where "marker_open = lit ''[layer:''"
definition marker_close :: pystr where "marker_close = lit ''] ''"

text \<open>The length of a match of \<open>MARKER_RE\<close> at the head of a text.\<close>

definition marker_at :: "pystr \<Rightarrow> nat option" where
  "marker_at s =
     (if starts_with marker_open s
      then let rest = drop (length marker_open) s; name = takeWhile name_char rest
           in if layer_shape name \<and> starts_with marker_close (drop (length name) rest)
              then Some (length marker_open + length name + length marker_close) else None
      else None)"

lemma marker_at_SomeI:
  "layer_shape name \<Longrightarrow> marker_at (marker_open @ name @ marker_close @ rest) =
     Some (length (marker_open @ name @ marker_close))"
  using layer_shape_chars [of name]
  by (simp add: marker_at_def Let_def takeWhile_append marker_close_def)

lemma marker_at_SomeE:
  assumes "marker_at s = Some n"
  obtains name rest where "layer_shape name" "s = marker_open @ name @ marker_close @ rest"
    "n = length (marker_open @ name @ marker_close)"
proof -
  let ?rest = "drop (length marker_open) s"
  let ?name = "takeWhile name_char ?rest"
  from assms obtain t where t: "s = marker_open @ t" "?rest = t"
    and shape: "layer_shape ?name" and close: "starts_with marker_close (drop (length ?name) ?rest)"
    and n: "n = length marker_open + length ?name + length marker_close"
    by (auto simp: marker_at_def Let_def prefix_def split: if_splits)
  from close obtain u where u: "drop (length ?name) ?rest = marker_close @ u"
    by (auto simp: prefix_def)
  have "t = ?name @ marker_close @ u"
    using u t(2) append_take_drop_id [of "length ?name" t] takeWhile_eq_take [of name_char t] by simp
  with t(1) shape n that [of ?name u] show ?thesis
    by simp
qed

lemma marker_at_pos: "marker_at s = Some n \<Longrightarrow> 0 < n \<and> n \<le> length s"
  by (elim marker_at_SomeE) (simp add: marker_open_def)

text \<open>\<open>escape_markers\<close>: a backslash before every marker, left to right.\<close>

function escape_markers :: "pystr \<Rightarrow> pystr" where
  "escape_markers [] = []"
| "escape_markers (c # s) =
     (case marker_at (c # s) of
        Some n \<Rightarrow> BACKSLASH # take n (c # s) @ escape_markers (drop n (c # s))
      | None \<Rightarrow> c # escape_markers s)"
  by pat_completeness auto
termination
  by (relation "measure length") (auto dest: marker_at_pos)

text \<open>\<open>strip_markers\<close>: each marker, with the backslash before it if there is one, removed.\<close>

definition any_marker_at :: "pystr \<Rightarrow> nat option" where
  "any_marker_at s =
     (case s of
        [] \<Rightarrow> None
      | c # t \<Rightarrow>
          (if c = BACKSLASH \<and> marker_at t \<noteq> None then map_option Suc (marker_at t) else marker_at s))"

lemma any_marker_at_pos: "any_marker_at s = Some n \<Longrightarrow> 0 < n \<and> n \<le> length s"
  by (auto simp: any_marker_at_def split: list.splits if_splits dest: marker_at_pos)

function strip_markers :: "pystr \<Rightarrow> pystr" where
  "strip_markers [] = []"
| "strip_markers (c # s) =
     (case any_marker_at (c # s) of
        Some n \<Rightarrow> strip_markers (drop n (c # s))
      | None \<Rightarrow> c # strip_markers s)"
  by pat_completeness auto
termination
  by (relation "measure length") (auto dest: any_marker_at_pos)

text \<open>A marker a reader takes at face value: one with no backslash before it.\<close>

fun live_marker :: "bool \<Rightarrow> pystr \<Rightarrow> bool" where
  "live_marker escaped [] = False"
| "live_marker escaped (c # s) =
     (\<not> escaped \<and> marker_at (c # s) \<noteq> None \<or> live_marker (c = BACKSLASH) s)"

lemma escape_markers_prefix:
  "BACKSLASH \<notin> set (take k (escape_markers s)) \<Longrightarrow> take k (escape_markers s) = take k s"
proof (induction s arbitrary: k rule: escape_markers.induct)
  case (2 c s)
  then show ?case
    by (cases k) (auto split: option.splits)
qed simp

lemma marker_at_no_backslash: "marker_at s = Some n \<Longrightarrow> BACKSLASH \<notin> set (take n s)"
  using layer_shape_chars
  by (elim marker_at_SomeE) (fastforce simp: marker_open_def marker_close_def)

lemma marker_at_take:
  assumes "marker_at s = Some n" and "take n s = take n t"
  shows "marker_at t = Some n"
proof -
  obtain name rest where "layer_shape name" "s = marker_open @ name @ marker_close @ rest"
    and n: "n = length (marker_open @ name @ marker_close)"
    using assms(1) by (rule marker_at_SomeE)
  moreover from this assms(2) have "take n t = marker_open @ name @ marker_close"
    by simp
  then have "t = marker_open @ name @ marker_close @ drop n t"
    by (metis append_assoc append_take_drop_id)
  ultimately show ?thesis
    using marker_at_SomeI [of name "drop n t"] by simp
qed

lemma marker_at_escape: "marker_at (c # escape_markers s) = Some n \<Longrightarrow> marker_at (c # s) = Some n"
proof -
  assume m: "marker_at (c # escape_markers s) = Some n"
  from marker_at_pos [OF m] obtain k where n: "n = Suc k"
    by (auto simp: gr0_conv_Suc)
  from marker_at_no_backslash [OF m] have "BACKSLASH \<notin> set (take k (escape_markers s))"
    by (simp add: n)
  then have "take k (escape_markers s) = take k s"
    by (rule escape_markers_prefix)
  with m show ?thesis
    by (intro marker_at_take [OF m]) (simp add: n)
qed

lemma live_marker_weaken: "live_marker True s \<Longrightarrow> live_marker False s"
  by (cases s) auto

lemma marker_at_bracket: "marker_at (c # s) = Some n \<Longrightarrow> c = 91"
  by (elim marker_at_SomeE) (simp add: marker_open_def)

lemma live_marker_skip:
  "m \<noteq> [] \<Longrightarrow> 91 \<notin> set m \<Longrightarrow> BACKSLASH \<notin> set m \<Longrightarrow> live_marker b (m @ t) = live_marker False t"
proof (induction m arbitrary: b)
  case (Cons c m)
  then have "marker_at (c # m @ t) = None"
    using marker_at_bracket [of c "m @ t"] by (cases "marker_at (c # m @ t)") auto
  with Cons show ?case
    by (cases "m = []") auto
qed simp

lemma marker_text:
  assumes "marker_at (c # s) = Some n"
  obtains m where "take n (c # s) = 91 # m" "m \<noteq> []" "91 \<notin> set m" "BACKSLASH \<notin> set m"
proof -
  from assms obtain name rest where shape: "layer_shape name"
    and s: "c # s = marker_open @ name @ marker_close @ rest"
    and n: "n = length (marker_open @ name @ marker_close)"
    by (rule marker_at_SomeE)
  then have "take n (c # s) = marker_open @ name @ marker_close"
    by simp
  with that [of "tl (marker_open @ name @ marker_close)"] show ?thesis
    using layer_shape_chars [OF shape] by (fastforce simp: marker_open_def marker_close_def)
qed

lemma escape_markers_no_live: "\<not> live_marker b (escape_markers s)"
proof (induction s arbitrary: b rule: escape_markers.induct)
  case (2 c s)
  show ?case
  proof (cases "marker_at (c # s)")
    case None
    then have "marker_at (c # escape_markers s) = None"
      using marker_at_escape [of c s] by (cases "marker_at (c # escape_markers s)") auto
    with 2 None show ?thesis by simp
  next
    case (Some n)
    then obtain m where m: "take n (c # s) = 91 # m" "m \<noteq> []" "91 \<notin> set m" "BACKSLASH \<notin> set m"
      by (rule marker_text)
    have "marker_at (BACKSLASH # t) = None" for t
      using marker_at_bracket [of BACKSLASH t] by (cases "marker_at (BACKSLASH # t)") auto
    with 2 Some m show ?thesis
      by (simp add: live_marker_skip)
  qed
qed simp

fun has_marker :: "pystr \<Rightarrow> bool" where
  "has_marker [] = False"
| "has_marker (c # s) = (marker_at (c # s) \<noteq> None \<or> has_marker s)"

lemma escape_markers_id: "\<not> has_marker s \<Longrightarrow> escape_markers s = s"
  by (induction s rule: escape_markers.induct) auto

section \<open>Properties\<close>

text \<open>
  C10. Storage paths are a lossless encoding of (layer, virtual path): reading back a written path
  gives the layer and page it was written for, every path that reads as a layer's page is the one
  path that layer writes for it, and no two layers ever share a path.
\<close>

theorem physical_path_roundtrip:
  assumes "virtual_ok virtual"
  shows "(split_path path = Inr (layer, virtual) \<longleftrightarrow> physical_path layer virtual = Inr path) \<and>
    (\<forall>other virtual'. virtual_ok virtual' \<and> layer \<noteq> other \<and> physical_path layer virtual = Inr path \<longrightarrow>
       physical_path other virtual' \<noteq> Inr path)"
  using assms layer_path.dec_enc layer_path.enc_dec layer_path.enc_inject by metis

theorem physical_path_roundtrip_witness:
  "split_path (lit ''layers/sales/wiki/notes/A.md'') = Inr (lit ''sales'', lit ''wiki/notes/A.md'') \<longleftrightarrow>
     physical_path (lit ''sales'') (lit ''wiki/notes/A.md'') = Inr (lit ''layers/sales/wiki/notes/A.md'')"
proof -
  have "virtual_ok (lit ''wiki/notes/A.md'')"
    by (simp add: virtual_ok_def LAYER_ROOT_def)
  from physical_path_roundtrip [OF this] show ?thesis by blast
qed

text \<open>
  C11. Text that merely looks like a layer marker never reads as one: after escaping, every marker
  in the text has a backslash before it, wherever the text is cut in, and text without markers is
  unchanged.
\<close>

theorem escape_markers_sound:
  "\<not> live_marker escaped (escape_markers text) \<and>
   (\<not> has_marker text \<longrightarrow> escape_markers text = text)"
  by (simp add: escape_markers_no_live escape_markers_id)

theorem escape_markers_sound_witness:
  "marker_at (lit ''[layer:sales] paid'') = Some 14 \<and>
   \<not> live_marker False (escape_markers (lit ''[layer:sales] paid'')) \<and>
   escape_markers (lit ''[layer] paid'') = lit ''[layer] paid''"
proof -
  have "\<not> has_marker (lit ''[layer] paid'')"
    by code_simp
  then have "escape_markers (lit ''[layer] paid'') = lit ''[layer] paid''"
    using escape_markers_sound [of False "lit ''[layer] paid''"] by blast
  moreover have "marker_at (lit ''[layer:sales] paid'') = Some 14"
    by code_simp
  ultimately show ?thesis
    using escape_markers_sound [of False "lit ''[layer:sales] paid''"] by blast
qed

text \<open>
  One pass of \<open>strip_markers\<close> does not remove every marker: removing a marker that sits inside a
  split one puts a new marker together, and a stored text can be written so that its escaped,
  fused form loses its backslash when the ranking text is cleaned.
\<close>

theorem strip_markers_one_pass:
  "strip_markers (escape_markers (lit ''[lay[layer:hr] er:ceo] x'')) = lit ''[layer:ceo] x'' \<and>
   live_marker False (strip_markers (escape_markers (lit ''[lay[layer:hr] er:ceo] x'')))"
  by code_simp

end
