(* ===== verification/Tenancy.thy ===== *)
theory Tenancy
  imports Layer_Paths
begin

text \<open>
  Which tenant a database connection acts for, and the row-level isolation policy of tenant
  tables: \<open>stigmergy/kernel/tenancy.py\<close>. The two session settings are the fields of \<open>conn\<close>;
  \<open>row_visible\<close> is the policy expression \<open>VISIBLE\<close>, which Postgres applies to every read and write
  of a protected table. A context manager becomes a function that runs its body, a state
  transformer on the connection and the rest of the state, between its entry and exit.
\<close>

definition PLATFORM :: pystr where "PLATFORM = lit ''platform''"

text \<open>The session settings, and whether the current transaction has failed.\<close>

record conn =
  tenant_setting :: "uuid option"
  scope_setting :: pystr
  in_failed_transaction :: bool

definition row_visible :: "conn \<Rightarrow> uuid \<Rightarrow> bool" where
  "row_visible c tenant \<longleftrightarrow> scope_setting c = PLATFORM \<or> tenant_setting c = Some tenant"

text \<open>
  \<open>checked_uuid\<close>: the argument is what \<open>uuid.UUID(str(value))\<close> makes of the given value, \<open>None\<close>
  where it raises \<open>ValueError\<close>.
\<close>

definition checked_uuid :: "uuid option \<Rightarrow> uuid result" where
  "checked_uuid parsed =
     (case parsed of
        None \<Rightarrow> Inl (TenancyError (lit ''a tenant id must be a UUID''))
      | Some u \<Rightarrow> Inr u)"

text \<open>Every statement of a failed transaction is refused by the server.\<close>

definition get_tenant_setting :: "conn \<Rightarrow> uuid option result" where
  "get_tenant_setting c =
     (if in_failed_transaction c then Inl (DatabaseError (lit ''current transaction is aborted''))
      else Inr (tenant_setting c))"

definition get_scope_setting :: "conn \<Rightarrow> pystr result" where
  "get_scope_setting c =
     (if in_failed_transaction c then Inl (DatabaseError (lit ''current transaction is aborted''))
      else Inr (scope_setting c))"

definition set_tenant_setting :: "uuid option \<Rightarrow> conn \<Rightarrow> conn result" where
  "set_tenant_setting v c =
     (if in_failed_transaction c then Inl (DatabaseError (lit ''current transaction is aborted''))
      else Inr (c\<lparr>tenant_setting := v\<rparr>))"

definition set_scope_setting :: "pystr \<Rightarrow> conn \<Rightarrow> conn result" where
  "set_scope_setting v c =
     (if in_failed_transaction c then Inl (DatabaseError (lit ''current transaction is aborted''))
      else Inr (c\<lparr>scope_setting := v\<rparr>))"

definition set_tenant :: "uuid option \<Rightarrow> conn \<Rightarrow> conn result" where
  "set_tenant parsed c =
     and_then (checked_uuid parsed) (\<lambda>u. set_tenant_setting (Some u) c)"

text \<open>The two settings are written one after the other; the first write fails first.\<close>

definition clear :: "conn \<Rightarrow> conn result" where
  "clear c = and_then (set_tenant_setting None c) (set_scope_setting [])"

definition current_tenant :: "conn \<Rightarrow> uuid option result" where
  "current_tenant c = get_tenant_setting c"

definition require_tenant :: "conn \<Rightarrow> uuid result" where
  "require_tenant c = and_then (current_tenant c) (\<lambda>tenant.
     case tenant of
       None \<Rightarrow> Inl (TenancyError (lit ''this operation needs a tenant''))
     | Some t \<Rightarrow> Inr t)"

text \<open>
  \<open>_restore\<close>: a setting that cannot be written because the transaction failed is left to the
  rollback, which undoes the block's own writes of it.
\<close>

definition restore :: "(conn \<Rightarrow> conn result) \<Rightarrow> conn \<Rightarrow> conn result" where
  "restore setter c =
     (case setter c of
        Inr c' \<Rightarrow> Inr c'
      | Inl e \<Rightarrow> if in_failed_transaction c then Inr c else Inl e)"

text \<open>The result of a block with the connection and the rest of the state after it.\<close>

type_synonym ('s, 'a) block = "conn \<times> 's \<Rightarrow> 'a result \<times> conn \<times> 's"

definition tenant_scope :: "uuid option \<Rightarrow> ('s, 'a) block \<Rightarrow> ('s, 'a) block" where
  "tenant_scope tenant body = (\<lambda>(c, s).
     case get_tenant_setting c of Inl e \<Rightarrow> (Inl e, c, s) | Inr previous \<Rightarrow>
     (case get_scope_setting c of Inl e \<Rightarrow> (Inl e, c, s) | Inr scope \<Rightarrow>
     (case set_tenant tenant c of Inl e \<Rightarrow> (Inl e, c, s) | Inr c1 \<Rightarrow>
     (case (if scope \<noteq> [] then set_scope_setting [] c1 else Inr c1) of
        Inl e \<Rightarrow> (Inl e, c1, s)
      | Inr c2 \<Rightarrow>
     (case body (c2, s) of (r, c3, s') \<Rightarrow>
     (case (if scope \<noteq> [] then restore (set_scope_setting scope) c3 else Inr c3) of
        Inl e \<Rightarrow> (Inl e, c3, s')
      | Inr c4 \<Rightarrow>
     (case restore (set_tenant_setting previous) c4 of
        Inl e \<Rightarrow> (Inl e, c4, s')
      | Inr c5 \<Rightarrow> (r, c5, s'))))))))"

definition platform_scope :: "('s, 'a) block \<Rightarrow> ('s, 'a) block" where
  "platform_scope body = (\<lambda>(c, s).
     case get_scope_setting c of Inl e \<Rightarrow> (Inl e, c, s) | Inr previous \<Rightarrow>
     (case set_scope_setting PLATFORM c of Inl e \<Rightarrow> (Inl e, c, s) | Inr c1 \<Rightarrow>
     (case body (c1, s) of (r, c2, s') \<Rightarrow>
     (case restore (set_scope_setting previous) c2 of
        Inl e \<Rightarrow> (Inl e, c2, s')
      | Inr c3 \<Rightarrow> (r, c3, s')))))"

text \<open>\<open>assert_isolating\<close>, given whether the role is a superuser or bypasses row security.\<close>

definition assert_isolating :: "bool \<Rightarrow> unit result" where
  "assert_isolating bypasses =
     (if bypasses
      then Inl (TenancyError (lit ''the database role bypasses row-level security''))
      else Inr ())"

section \<open>Connections as isolation contexts\<close>

text \<open>
  A connection \<open>acts for\<close> one tenant when the policy shows it that tenant's rows and no other's.
\<close>

definition acts_for :: "conn \<Rightarrow> uuid \<Rightarrow> bool" where
  "acts_for c t \<longleftrightarrow> scope_setting c \<noteq> PLATFORM \<and> tenant_setting c = Some t"

lemma acts_for_visible: "acts_for c t \<Longrightarrow> row_visible c t' \<longleftrightarrow> t' = t"
  by (auto simp: acts_for_def row_visible_def)

lemma PLATFORM_not_Nil [simp]: "PLATFORM \<noteq> []" "[] \<noteq> PLATFORM"
  by (simp_all add: PLATFORM_def)

lemmas setting_defs = get_tenant_setting_def get_scope_setting_def set_tenant_setting_def
  set_scope_setting_def set_tenant_def checked_uuid_def

lemma restore_scope_ok:
  "restore (set_scope_setting v) c = Inr (if in_failed_transaction c then c else c\<lparr>scope_setting := v\<rparr>)"
  by (simp add: restore_def set_scope_setting_def)

lemma restore_tenant_ok:
  "restore (set_tenant_setting v) c = Inr (if in_failed_transaction c then c else c\<lparr>tenant_setting := v\<rparr>)"
  by (simp add: restore_def set_tenant_setting_def)

text \<open>The connection a tenant scope runs its body on.\<close>

definition scoped_conn :: "uuid \<Rightarrow> conn \<Rightarrow> conn" where
  "scoped_conn t c =
     (if scope_setting c \<noteq> [] then c\<lparr>tenant_setting := Some t, scope_setting := []\<rparr>
      else c\<lparr>tenant_setting := Some t\<rparr>)"

lemma acts_for_scoped_conn: "acts_for (scoped_conn t c) t"
  by (simp add: acts_for_def scoped_conn_def)

lemma scope_scoped_conn [simp]: "scope_setting (scoped_conn t c) = []"
  by (simp add: scoped_conn_def)

lemma failed_scoped_conn [simp]:
  "in_failed_transaction (scoped_conn t c) = in_failed_transaction c"
  by (simp add: scoped_conn_def)

lemma tenant_scope_runs:
  assumes "\<not> in_failed_transaction c" "body (scoped_conn t c, s) = (r, c3, s3)"
  shows "tenant_scope (Some t) body (c, s) =
    (r, if in_failed_transaction c3 then c3
        else if scope_setting c \<noteq> []
        then c3\<lparr>scope_setting := scope_setting c, tenant_setting := tenant_setting c\<rparr>
        else c3\<lparr>tenant_setting := tenant_setting c\<rparr>, s3)"
  using assms
  by (cases "scope_setting c = []")
     (simp_all add: tenant_scope_def setting_defs scoped_conn_def restore_scope_ok restore_tenant_ok)

lemma platform_scope_runs:
  assumes "\<not> in_failed_transaction c" "body (c\<lparr>scope_setting := PLATFORM\<rparr>, s) = (r, c2, s2)"
  shows "platform_scope body (c, s) =
    (r, if in_failed_transaction c2 then c2 else c2\<lparr>scope_setting := scope_setting c\<rparr>, s2)"
  using assms by (simp add: platform_scope_def setting_defs restore_scope_ok)

lemma tenant_scope_refused:
  assumes "in_failed_transaction c \<or> tenant = None"
  shows "\<exists>e. tenant_scope tenant body (c, s) = (Inl e, c, s)"
  using assms by (cases tenant) (auto simp: tenant_scope_def setting_defs)

section \<open>Nested scopes\<close>

text \<open>
  A block keeps the settings when, started on a usable connection, it returns with the settings it
  was entered with unless it failed the transaction. Statements that touch neither setting do,
  sequences do, and both scopes do for such a body: every program built from them is well nested.
\<close>

definition keeps_settings :: "('s, 'a) block \<Rightarrow> bool" where
  "keeps_settings body \<longleftrightarrow>
     (\<forall>c s r c' s'. body (c, s) = (r, c', s') \<longrightarrow> \<not> in_failed_transaction c \<longrightarrow>
        \<not> in_failed_transaction c' \<longrightarrow>
        tenant_setting c' = tenant_setting c \<and> scope_setting c' = scope_setting c)"

lemma keeps_settingsD:
  "keeps_settings body \<Longrightarrow> body (c, s) = (r, c', s') \<Longrightarrow> \<not> in_failed_transaction c \<Longrightarrow>
     \<not> in_failed_transaction c' \<Longrightarrow>
     tenant_setting c' = tenant_setting c \<and> scope_setting c' = scope_setting c"
  unfolding keeps_settings_def by blast

lemma keeps_settings_tenant_scope:
  assumes "keeps_settings body"
  shows "keeps_settings (tenant_scope tenant body)"
  unfolding keeps_settings_def
proof (intro allI impI)
  fix c s r c' s'
  assume run: "tenant_scope tenant body (c, s) = (r, c', s')"
    and ok: "\<not> in_failed_transaction c" "\<not> in_failed_transaction c'"
  show "tenant_setting c' = tenant_setting c \<and> scope_setting c' = scope_setting c"
  proof (cases tenant)
    case None
    then show ?thesis
      using tenant_scope_refused [of c tenant body s] run by auto
  next
    case (Some t)
    obtain r3 c3 s3 where body: "body (scoped_conn t c, s) = (r3, c3, s3)"
      by (metis prod_cases3)
    have c': "c' = (if in_failed_transaction c3 then c3
        else if scope_setting c \<noteq> []
        then c3\<lparr>scope_setting := scope_setting c, tenant_setting := tenant_setting c\<rparr>
        else c3\<lparr>tenant_setting := tenant_setting c\<rparr>)"
      using tenant_scope_runs [where body = body, OF ok(1) body] run Some by simp
    then have "\<not> in_failed_transaction c3"
      using ok(2) by (auto split: if_splits)
    with keeps_settingsD [OF assms body] ok(1) have "scope_setting c3 = []"
      by simp
    with c' ok(2) show ?thesis
      by (auto split: if_splits)
  qed
qed

lemma keeps_settings_platform_scope:
  assumes "keeps_settings body"
  shows "keeps_settings (platform_scope body)"
  unfolding keeps_settings_def
proof (intro allI impI)
  fix c s r c' s'
  assume run: "platform_scope body (c, s) = (r, c', s')"
    and ok: "\<not> in_failed_transaction c" "\<not> in_failed_transaction c'"
  obtain r2 c2 s2 where body: "body (c\<lparr>scope_setting := PLATFORM\<rparr>, s) = (r2, c2, s2)"
    by (metis prod_cases3)
  have c': "c' = (if in_failed_transaction c2 then c2 else c2\<lparr>scope_setting := scope_setting c\<rparr>)"
    using platform_scope_runs [where body = body, OF ok(1) body] run by simp
  then have "\<not> in_failed_transaction c2"
    using ok(2) by (auto split: if_splits)
  with keeps_settingsD [OF assms body] ok(1) c' show "tenant_setting c' = tenant_setting c \<and>
      scope_setting c' = scope_setting c"
    by simp
qed

text \<open>
  C12. A tenant scope isolates and restores. Its body runs on a connection that sees exactly the
  given tenant's rows, even when the scope is opened inside platform scope; the result and the
  state of the scope are the body's; and unless the body failed the transaction, the connection
  leaves with the tenant binding it entered with, whatever the body did to it, and with the scope
  it entered with when the body is well nested.
\<close>

theorem tenant_scope_isolates:
  assumes "\<not> in_failed_transaction c" "keeps_settings body"
    and "tenant_scope (Some t) body (c, s) = (r, c', s')"
  shows "\<exists>inner c3. acts_for inner t \<and> (\<forall>t'. row_visible inner t' = (t' = t)) \<and>
      body (inner, s) = (r, c3, s') \<and>
      (if in_failed_transaction c3 then c' = c3
       else tenant_setting c' = tenant_setting c \<and> scope_setting c' = scope_setting c)"
proof -
  obtain r3 c3 s3 where body: "body (scoped_conn t c, s) = (r3, c3, s3)"
    by (metis prod_cases3)
  note run = tenant_scope_runs [where body = body, OF assms(1) body]
  have "tenant_setting c' = tenant_setting c \<and> scope_setting c' = scope_setting c"
    if "\<not> in_failed_transaction c3"
    using keeps_settingsD [OF keeps_settings_tenant_scope [OF assms(2)] assms(3) assms(1)] run
      assms(3) that by (auto split: if_splits)
  with run assms(3) body show ?thesis
    using acts_for_visible [OF acts_for_scoped_conn] acts_for_scoped_conn
    by (intro exI [of _ "scoped_conn t c"] exI [of _ c3]) auto
qed

lemma keeps_settings_read: "keeps_settings (\<lambda>(c, s). (f c s, c, g c s))"
  by (simp add: keeps_settings_def)

theorem tenant_scope_isolates_witness:
  "let c = \<lparr>tenant_setting = None, scope_setting = PLATFORM, in_failed_transaction = False\<rparr>;
       body = ((\<lambda>(c, s). (Inr (row_visible c 3, row_visible c 4), c, s)) :: (nat, bool \<times> bool) block)
   in (\<exists>inner c3. acts_for inner 3 \<and> (\<forall>t'. row_visible inner t' = (t' = 3)) \<and>
        body (inner, 9) = (Inr (True, False), c3, 9) \<and>
        (if in_failed_transaction c3 then c = c3
         else tenant_setting c = None \<and> scope_setting c = PLATFORM))"
proof -
  let ?c = "\<lparr>tenant_setting = None, scope_setting = PLATFORM, in_failed_transaction = False\<rparr>"
  let ?body = "(\<lambda>(c, s). (Inr (row_visible c 3, row_visible c 4), c, s)) :: (nat, bool \<times> bool) block"
  have run: "tenant_scope (Some 3) ?body (?c, 9) = (Inr (True, False), ?c, 9)"
    by (simp add: tenant_scope_def setting_defs restore_def row_visible_def)
  have ok: "\<not> in_failed_transaction ?c"
    by simp
  show ?thesis
    unfolding Let_def
    using tenant_scope_isolates [OF ok keeps_settings_read run] by (simp only: conn.simps simp_thms)
qed

end
