(* ===== verification/Capture_Schema.thy ===== *)
theory Capture_Schema
  imports Tenancy Complex_Main "HOL-Library.Finite_Map"
begin

text \<open>
  The operational tables the capture queue works on: \<open>capture_queue\<close>, \<open>layer_erasures\<close> and
  \<open>tenants\<close>, as \<open>stigmergy/capture/schema.py\<close> and \<open>stigmergy/kernel/tenancy.py\<close> declare them, with
  their row constraints. A table is the list of its rows in insertion order; a JSONB value is a
  \<open>json\<close>.
\<close>

section \<open>JSON values\<close>

datatype json =
    JNull
  | JBool bool
  | JNum rat
  | JText pystr
  | JList "json list"
  | JObject "(pystr, json) fmap"

type_synonym json_object = "(pystr, json) fmap"

section \<open>Column types\<close>

datatype status = Queued | Processing | Landed | Failed

datatype operation = Capture | Delete | Entity | Garden

datatype decision = Explicit | Channel | Default | Classified

datatype erasure_status = ErasureQueued | ErasureRunning | ErasureSucceeded | ErasureFailed

datatype tenant_status = Provisioning | Active | Suspended

definition terminal :: "status \<Rightarrow> bool" where
  "terminal s \<longleftrightarrow> s \<in> {Landed, Failed}"

definition erasure_open :: "erasure_status \<Rightarrow> bool" where
  "erasure_open s \<longleftrightarrow> s \<in> {ErasureQueued, ErasureRunning}"

section \<open>Rows\<close>

record actor =
  subject :: pystr
  display_name :: pystr

record layer_decision_record =
  decided :: decision
  probabilities :: "json_object option"

record item =
  item_id :: uuid
  tenant_id :: uuid
  operation :: operation
  idempotency_key :: pystr
  submitted_by :: pystr
  item_actor :: actor
  item_acl :: acl
  layer_decision :: "decision option"
  layer_probabilities :: "json_object option"
  request :: json_object
  status :: status
  attempts :: nat
  next_attempt_at :: timestamp
  created_at :: timestamp
  processing_started_at :: "timestamp option"
  budget_deadline_at :: "timestamp option"
  lease_started_at :: "timestamp option"
  finished_at :: "timestamp option"
  source_path :: pystr
  commit_sha :: sha
  change_id :: "uuid option"
  extraction :: json_object
  report :: json_object
  error_category :: pystr
  error_text :: pystr

record erasure =
  erasure_id :: uuid
  erasure_tenant :: uuid
  erasure_layer :: pystr
  requested_by :: pystr
  requested_at :: timestamp
  erasure_status :: erasure_status
  erasure_attempts :: nat
  erasure_next_attempt_at :: timestamp
  erasure_started_at :: "timestamp option"
  erasure_finished_at :: "timestamp option"
  names :: "pystr list"
  old_head :: sha
  new_head :: sha
  rewrite :: json_object
  pushed :: bool
  garbage :: "pystr list"
  counts :: "(pystr, int) fmap"
  receipt :: json_object
  erasure_error :: pystr

record tenant =
  tenant_pk :: uuid
  slug :: pystr
  tenant_status :: tenant_status
  repo :: pystr
  slack_team_id :: "pystr option"
  last_claimed_at :: "timestamp option"

text \<open>
  The database the queue's operations see, and the number of times \<open>wake.writer\<close> was called.
\<close>

record db =
  queue_rows :: "item list"
  erasures :: "erasure list"
  tenants :: "tenant list"
  wakes :: nat

section \<open>Declared constraints\<close>

definition queue_key :: "item \<Rightarrow> uuid \<times> pystr \<times> pystr" where
  "queue_key q = (tenant_id q, submitted_by q, idempotency_key q)"

text \<open>
  The primary keys, the unique constraint of the idempotency key and the foreign key to tenants.
\<close>

definition declared_constraints :: "db \<Rightarrow> bool" where
  "declared_constraints d \<longleftrightarrow>
     distinct (map item_id (queue_rows d)) \<and>
     distinct (map queue_key (queue_rows d)) \<and>
     distinct (map tenant_pk (tenants d)) \<and>
     (\<forall>q \<in> set (queue_rows d). tenant_id q \<in> tenant_pk ` set (tenants d))"

lemma declared_constraintsD:
  assumes "declared_constraints d"
  shows "distinct (map item_id (queue_rows d))" "distinct (map queue_key (queue_rows d))"
    "distinct (map tenant_pk (tenants d))"
    "q \<in> set (queue_rows d) \<Longrightarrow> tenant_id q \<in> tenant_pk ` set (tenants d)"
  using assms by (auto simp: declared_constraints_def)

end
