(* ===== verification/Capture_Queue.thy ===== *)
theory Capture_Queue
  imports Capture_Schema "HOL-Library.Option_ord" "HOL-Library.Product_Lexorder"
begin

text \<open>
  The durable capture queue of \<open>stigmergy/capture/queue.py\<close>: enqueueing under an idempotency key,
  the fair claim, leases and their expiry, the fenced ends of processing, and the reads. Every SQL
  statement is its condition, its assignments and its order over the rows the connection sees; the
  times it reads are an argument, and so are the rows other transactions have locked, which
  \<open>SKIP LOCKED\<close> passes over. A returned row stands for the dictionary \<open>_shape\<close> makes of it.
\<close>

definition MAX_ATTEMPTS :: nat where "MAX_ATTEMPTS = 2"
definition RECLAIM_BATCH :: int where "RECLAIM_BATCH = 100"
definition MAX_LIST_LIMIT :: int where "MAX_LIST_LIMIT = 200"
definition RETRY_DELAY_S :: int where "RETRY_DELAY_S = 10"
definition MAX_SAFE_ERROR_CHARS :: nat where "MAX_SAFE_ERROR_CHARS = 1000"

definition make_interval :: "int \<Rightarrow> int" where
  "make_interval secs = secs * 1000000"

text \<open>
  The times one statement reads: \<open>now()\<close>, which is fixed when its transaction starts, and the
  successive readings of \<open>clock_timestamp()\<close>.
\<close>

record instants =
  now :: timestamp
  clock_started :: timestamp
  clock_budget :: timestamp
  clock_lease :: timestamp
  clock_served :: timestamp

section \<open>Reading rows\<close>

definition seen :: "conn \<Rightarrow> item \<Rightarrow> bool" where
  "seen c q \<longleftrightarrow> row_visible c (tenant_id q)"

definition on_rows :: "(item list \<Rightarrow> item list) \<Rightarrow> db \<Rightarrow> db" where
  "on_rows f d = d\<lparr>queue_rows := f (queue_rows d)\<rparr>"

text \<open>\<open>UPDATE capture_queue SET ... WHERE id = ... AND ...\<close> with \<open>RETURNING\<close>.\<close>

definition update_item ::
  "conn \<Rightarrow> uuid \<Rightarrow> (item \<Rightarrow> bool) \<Rightarrow> (item \<Rightarrow> item) \<Rightarrow> db \<Rightarrow> item option \<times> db" where
  "update_item c i P f d =
     (let hit = (\<lambda>q. seen c q \<and> item_id q = i \<and> P q) in
      (map_option f (find hit (queue_rows d)), on_rows (update_where hit f) d))"

section \<open>Enqueueing\<close>

record enqueue_args =
  arg_operation :: operation
  arg_item_id :: uuid
  arg_key :: pystr
  arg_actor :: actor
  arg_acl :: acl
  arg_request :: json_object
  arg_decision :: "layer_decision_record option"

definition inserted_row :: "uuid \<Rightarrow> timestamp \<Rightarrow> enqueue_args \<Rightarrow> item" where
  "inserted_row tenant moment a =
     \<lparr>item_id = arg_item_id a, tenant_id = tenant, operation = arg_operation a,
      idempotency_key = arg_key a, submitted_by = subject (arg_actor a), item_actor = arg_actor a,
      item_acl = arg_acl a, layer_decision = map_option decided (arg_decision a),
      layer_probabilities = Option.bind (arg_decision a) probabilities,
      request = arg_request a, status = Queued, attempts = 0, next_attempt_at = moment,
      created_at = moment, processing_started_at = None, budget_deadline_at = None,
      lease_started_at = None, finished_at = None, source_path = [], commit_sha = [],
      change_id = None, extraction = fmempty, report = fmempty, error_category = [],
      error_text = []\<rparr>"

text \<open>\<open>_equivalent_request\<close>: equal but for the identifiers and the capture time.\<close>

definition origin_of :: "json_object \<Rightarrow> json_object" where
  "origin_of value =
     (case fmlookup value (lit ''origin'') of Some (JObject origin) \<Rightarrow> origin | _ \<Rightarrow> fmempty)"

definition semantic :: "json_object \<Rightarrow> json_object" where
  "semantic value =
     (let normalized = fmdrop (lit ''idempotency_key'') (fmdrop (lit ''operation_id'')
            (fmdrop (lit ''capture_id'') value));
          origin = fmdrop (lit ''captured_at'') (origin_of normalized)
      in if origin \<noteq> fmempty then fmupd (lit ''origin'') (JObject origin) normalized
         else normalized)"

definition equivalent_request :: "json_object \<Rightarrow> json_object \<Rightarrow> bool" where
  "equivalent_request left right \<longleftrightarrow> semantic left = semantic right"

text \<open>\<open>_find_idempotent\<close>: the row of the key, if the connection sees one.\<close>

definition find_idempotent ::
  "conn \<Rightarrow> operation \<Rightarrow> actor \<Rightarrow> pystr \<Rightarrow> json_object \<Rightarrow> bool \<Rightarrow> db
   \<Rightarrow> (item \<times> bool) option result" where
  "find_idempotent c op who key req required d =
     (case find (\<lambda>q. seen c q \<and> submitted_by q = subject who \<and> idempotency_key q = key)
             (queue_rows d) of
        None \<Rightarrow>
          if required then Inl (QueueStateError (lit ''idempotent queue lookup failed''))
          else Inr None
      | Some q \<Rightarrow>
          if operation q \<noteq> op \<or> \<not> equivalent_request (request q) req
          then Inl (SubmissionRejected
                 (lit ''idempotency key was already used for a different request''))
          else Inr (Some (q, False)))"

text \<open>
  \<open>_INSERT\<close>: the tenant defaults to the session's, and the unique key is checked before the
  primary and foreign keys. \<open>Inr None\<close> is \<open>ON CONFLICT DO NOTHING\<close>.
\<close>

definition insert_item :: "conn \<Rightarrow> instants \<Rightarrow> enqueue_args \<Rightarrow> db \<Rightarrow> item option result \<times> db" where
  "insert_item c i a d =
     (case tenant_setting c of
        None \<Rightarrow> (Inl (DatabaseError (lit ''null value in column tenant_id'')), d)
      | Some tenant \<Rightarrow>
          let row = inserted_row tenant (now i) a in
          if queue_key row \<in> queue_key ` set (queue_rows d) then (Inr None, d)
          else if item_id row \<in> item_id ` set (queue_rows d)
          then (Inl (DatabaseError (lit ''duplicate key value: id'')), d)
          else if tenant \<notin> tenant_pk ` set (tenants d)
          then (Inl (DatabaseError (lit ''foreign key violation: tenant_id'')), d)
          else (Inr (Some row), on_rows (\<lambda>rows. rows @ [row]) d))"

definition enqueue ::
  "conn \<Rightarrow> instants \<Rightarrow> enqueue_args \<Rightarrow> db \<Rightarrow> (item \<times> bool) result \<times> db" where
  "enqueue c i a d =
     (case insert_item c i a d of
        (Inl e, d') \<Rightarrow> (Inl e, d')
      | (Inr (Some row), d') \<Rightarrow> (Inr (row, True), d'\<lparr>wakes := wakes d' + 1\<rparr>)
      | (Inr None, d') \<Rightarrow>
          (and_then (find_idempotent c (arg_operation a) (arg_actor a) (arg_key a)
                       (arg_request a) True d')
             (\<lambda>found. case found of Some r \<Rightarrow> Inr r
                       | None \<Rightarrow> Inl (QueueStateError (lit ''idempotent queue lookup failed''))),
           d'))"

definition layer_closed :: "conn \<Rightarrow> pystr \<Rightarrow> db \<Rightarrow> bool" where
  "layer_closed c layer d \<longleftrightarrow>
     (\<exists>e \<in> set (erasures d). row_visible c (erasure_tenant e) \<and> erasure_layer e = layer \<and>
        erasure_open (erasure_status e))"

definition record_extraction :: "conn \<Rightarrow> uuid \<Rightarrow> json_object \<Rightarrow> db \<Rightarrow> db" where
  "record_extraction c i value d =
     snd (update_item c i (\<lambda>q. True) (\<lambda>q. q\<lparr>extraction := value\<rparr>) d)"

section \<open>Claiming\<close>

text \<open>\<open>_PICK\<close>: due queued work of active tenants whose layer is not being erased.\<close>

definition serves :: "db \<Rightarrow> item \<Rightarrow> tenant option" where
  "serves d q = find (\<lambda>t. tenant_pk t = tenant_id q \<and> tenant_status t = Active) (tenants d)"

definition erasing :: "conn \<Rightarrow> db \<Rightarrow> item \<Rightarrow> bool" where
  "erasing c d q \<longleftrightarrow>
     (\<exists>e \<in> set (erasures d). row_visible c (erasure_tenant e) \<and>
        erasure_tenant e = tenant_id q \<and>
        erasure_layer e \<in> set (case item_acl q of None \<Rightarrow> [] | Some labels \<Rightarrow> labels) \<and>
        erasure_open (erasure_status e))"

definition eligible :: "conn \<Rightarrow> instants \<Rightarrow> uuid list \<Rightarrow> db \<Rightarrow> item \<Rightarrow> bool" where
  "eligible c i locked d q \<longleftrightarrow>
     seen c q \<and> status q = Queued \<and> next_attempt_at q \<le> now i \<and>
     serves d q \<noteq> None \<and> \<not> erasing c d q \<and> item_id q \<notin> set locked"

text \<open>\<open>None\<close> is the least of the options, as \<open>NULLS FIRST\<close> asks.\<close>

definition claim_key :: "db \<Rightarrow> item \<Rightarrow> timestamp option \<times> timestamp \<times> uuid" where
  "claim_key d q =
     (Option.bind (serves d q) last_claimed_at, created_at q, item_id q)"

definition coalesce :: "'a option \<Rightarrow> 'a \<Rightarrow> 'a option" where
  "coalesce x y = (case x of None \<Rightarrow> Some y | Some _ \<Rightarrow> x)"

definition claimed :: "instants \<Rightarrow> int \<Rightarrow> item \<Rightarrow> item" where
  "claimed i operation_budget_s q =
     q\<lparr>status := Processing,
       processing_started_at := coalesce (processing_started_at q) (clock_started i),
       budget_deadline_at :=
         coalesce (budget_deadline_at q) (clock_budget i + make_interval operation_budget_s),
       lease_started_at := Some (clock_lease i),
       attempts := attempts q + 1,
       error_category := [],
       error_text := []\<rparr>"

definition claim_next ::
  "conn \<Rightarrow> instants \<Rightarrow> uuid list \<Rightarrow> int \<Rightarrow> db \<Rightarrow> item option \<times> db" where
  "claim_next c i locked operation_budget_s d =
     (case first_by (claim_key d) (filter (eligible c i locked d) (queue_rows d)) of
        None \<Rightarrow> (None, d)
      | Some picked \<Rightarrow>
          let (row, d') = update_item c (item_id picked) (\<lambda>q. True)
                            (claimed i (max 1 operation_budget_s)) d
          in (row, d'\<lparr>tenants := update_where (\<lambda>t. tenant_pk t = tenant_id picked)
                            (\<lambda>t. t\<lparr>last_claimed_at := Some (clock_served i)\<rparr>) (tenants d')\<rparr>))"

section \<open>Leases\<close>

definition lease_expired :: "instants \<Rightarrow> int \<Rightarrow> item \<Rightarrow> bool" where
  "lease_expired i visibility_timeout_s q \<longleftrightarrow>
     (case lease_started_at q of
        None \<Rightarrow> False
      | Some l \<Rightarrow> l < now i - make_interval visibility_timeout_s)"

text \<open>Ascending order puts \<open>NULL\<close> last.\<close>

definition started_key :: "item \<Rightarrow> bool \<times> timestamp \<times> uuid" where
  "started_key q =
     (case processing_started_at q of
        None \<Rightarrow> (True, 0, item_id q)
      | Some t \<Rightarrow> (False, t, item_id q))"

definition expired ::
  "conn \<Rightarrow> instants \<Rightarrow> uuid list \<Rightarrow> int \<Rightarrow> int \<Rightarrow> db \<Rightarrow> item list" where
  "expired c i locked visibility_timeout_s batch d =
     take (nat batch)
       (filter (\<lambda>q. item_id q \<notin> set locked)
         (sort_key started_key
           (filter (\<lambda>q. seen c q \<and> status q = Processing \<and>
                        lease_expired i visibility_timeout_s q) (queue_rows d))))"

definition expired_to_queue :: "instants \<Rightarrow> item \<Rightarrow> item" where
  "expired_to_queue i q =
     q\<lparr>status := Queued, lease_started_at := None, next_attempt_at := now i,
       error_category := lit ''lease_expired'',
       error_text := lit ''processing lease expired; queued for commit reconciliation''\<rparr>"

definition requeue_expired :: "conn \<Rightarrow> instants \<Rightarrow> uuid list \<Rightarrow> db \<Rightarrow> db" where
  "requeue_expired c i released =
     on_rows (update_where
       (\<lambda>q. seen c q \<and> item_id q \<in> set released \<and> status q = Processing)
       (expired_to_queue i))"

definition expired_to_failed :: "instants \<Rightarrow> item \<Rightarrow> item" where
  "expired_to_failed i q =
     q\<lparr>status := Failed, lease_started_at := None, finished_at := Some (now i),
       error_category := lit ''lease_expired'', error_text := lit ''processing lease expired''\<rparr>"

definition fail_expired :: "conn \<Rightarrow> instants \<Rightarrow> uuid list \<Rightarrow> db \<Rightarrow> db" where
  "fail_expired c i failed =
     on_rows (update_where
       (\<lambda>q. seen c q \<and> item_id q \<in> set failed \<and> status q = Processing)
       (expired_to_failed i))"

definition release_expired ::
  "conn \<Rightarrow> instants \<Rightarrow> uuid list \<Rightarrow> int \<Rightarrow> int \<Rightarrow> db \<Rightarrow> (nat \<times> nat) \<times> db" where
  "release_expired c i locked visibility_timeout_s batch d =
     (let rows = expired c i locked (max 0 visibility_timeout_s) (max 1 batch) d;
          released = map item_id (filter (\<lambda>q. attempts q \<le> MAX_ATTEMPTS) rows);
          failed = map item_id (filter (\<lambda>q. attempts q > MAX_ATTEMPTS) rows);
          d1 = (if released \<noteq> [] then requeue_expired c i released d else d);
          d2 = (if failed \<noteq> [] then fail_expired c i failed d1 else d1)
      in ((length released, length failed), d2))"

text \<open>The fence of every end of processing: the claim the caller holds is still the row's.\<close>

definition holds :: "nat \<Rightarrow> timestamp \<Rightarrow> item \<Rightarrow> bool" where
  "holds expected_attempts expected_lease q \<longleftrightarrow>
     status q = Processing \<and> attempts q = expected_attempts \<and>
     lease_started_at q = Some expected_lease"

definition holds_lease :: "conn \<Rightarrow> uuid \<Rightarrow> nat \<Rightarrow> timestamp \<Rightarrow> db \<Rightarrow> bool" where
  "holds_lease c i expected_attempts expected_lease d \<longleftrightarrow>
     (\<exists>q \<in> set (queue_rows d). seen c q \<and> item_id q = i \<and>
        holds expected_attempts expected_lease q)"

definition raise_lost_lease :: "conn \<Rightarrow> uuid \<Rightarrow> db \<Rightarrow> exn" where
  "raise_lost_lease c i d =
     (case find (\<lambda>q. seen c q \<and> item_id q = i) (queue_rows d) of
        None \<Rightarrow> QueueStateError (lit ''queue item does not exist'')
      | Some q \<Rightarrow>
          if status q = Processing
          then QueueStateError (lit ''processing lease was redelivered'')
          else QueueStateError (lit ''queue item is not owned by this processor''))"

record landing =
  landed_source :: pystr
  landed_sha :: sha
  landed_change :: "uuid option"
  landed_extraction :: "json_object option"
  landed_report :: "json_object option"

definition or_empty :: "json_object option \<Rightarrow> json_object" where
  "or_empty value = (case value of None \<Rightarrow> fmempty | Some v \<Rightarrow> v)"

definition landed :: "instants \<Rightarrow> landing \<Rightarrow> item \<Rightarrow> item" where
  "landed i l q =
     q\<lparr>status := Landed, lease_started_at := None, finished_at := Some (now i),
       source_path := landed_source l, commit_sha := landed_sha l, change_id := landed_change l,
       extraction := or_empty (landed_extraction l), report := or_empty (landed_report l),
       error_category := [], error_text := []\<rparr>"

definition finish_landed ::
  "conn \<Rightarrow> instants \<Rightarrow> uuid \<Rightarrow> nat \<Rightarrow> timestamp \<Rightarrow> landing \<Rightarrow> db \<Rightarrow> item result \<times> db" where
  "finish_landed c i k expected_attempts expected_lease l d =
     (case update_item c k (holds expected_attempts expected_lease) (landed i l) d of
        (Some row, d') \<Rightarrow> (Inr row, d')
      | (None, d') \<Rightarrow> (Inl (raise_lost_lease c k d'), d'))"

definition safe :: "pystr \<Rightarrow> nat \<Rightarrow> pystr" where
  "safe value limit = take limit (one_line value)"

record failure =
  failed_category :: pystr
  failed_error :: pystr
  retryable :: bool
  fresh_budget :: bool

definition or_text :: "pystr \<Rightarrow> pystr \<Rightarrow> pystr" where
  "or_text a b = (if a \<noteq> [] then a else b)"

definition ended :: "instants \<Rightarrow> bool \<Rightarrow> failure \<Rightarrow> item \<Rightarrow> item" where
  "ended i retry f q =
     q\<lparr>status := if retry then Queued else Failed,
       lease_started_at := None,
       next_attempt_at := if retry then now i + make_interval RETRY_DELAY_S else next_attempt_at q,
       finished_at := if retry then None else Some (now i),
       budget_deadline_at := if retry \<and> fresh_budget f then None else budget_deadline_at q,
       error_category := or_text (safe (failed_category f) 100) (lit ''processing_failed''),
       error_text :=
         or_text (safe (failed_error f) MAX_SAFE_ERROR_CHARS) (lit ''processing failed'')\<rparr>"

definition fail_or_retry ::
  "conn \<Rightarrow> instants \<Rightarrow> uuid \<Rightarrow> nat \<Rightarrow> timestamp \<Rightarrow> failure \<Rightarrow> db \<Rightarrow> item result \<times> db" where
  "fail_or_retry c i k expected_attempts expected_lease f d =
     (let retry = (retryable f \<and> expected_attempts < MAX_ATTEMPTS) in
      case update_item c k (holds expected_attempts expected_lease) (ended i retry f) d of
        (Some row, d') \<Rightarrow> (Inr row, d')
      | (None, d') \<Rightarrow> (Inl (raise_lost_lease c k d'), d'))"

text \<open>\<open>GREATEST(attempts - 1, 0)\<close> is subtraction on the naturals.\<close>

definition handed_back :: "instants \<Rightarrow> item \<Rightarrow> item" where
  "handed_back i q =
     q\<lparr>status := Queued, attempts := attempts q - 1, next_attempt_at := now i,
       processing_started_at := None, budget_deadline_at := None, lease_started_at := None\<rparr>"

definition release_claim ::
  "conn \<Rightarrow> instants \<Rightarrow> uuid \<Rightarrow> timestamp \<Rightarrow> db \<Rightarrow> bool \<times> db" where
  "release_claim c i k expected_lease d =
     (case update_item c k (\<lambda>q. status q = Processing \<and> lease_started_at q = Some expected_lease)
             (handed_back i) d of
        (row, d') \<Rightarrow> (row \<noteq> None, d'))"

definition requeued :: "instants \<Rightarrow> item \<Rightarrow> item" where
  "requeued i q =
     q\<lparr>status := Queued, attempts := 0, next_attempt_at := now i, processing_started_at := None,
       budget_deadline_at := None, lease_started_at := None, finished_at := None,
       error_category := [], error_text := []\<rparr>"

definition retry_failed :: "conn \<Rightarrow> instants \<Rightarrow> uuid \<Rightarrow> db \<Rightarrow> item result \<times> db" where
  "retry_failed c i k d =
     (case update_item c k (\<lambda>q. status q = Failed) (requeued i) d of
        (Some row, d') \<Rightarrow> (Inr row, d'\<lparr>wakes := wakes d' + 1\<rparr>)
      | (None, d') \<Rightarrow> (Inl (QueueStateError (lit ''only a failed item can be retried'')), d'))"

section \<open>Reads\<close>

definition status_text :: "status \<Rightarrow> pystr" where
  "status_text s =
     (case s of Queued \<Rightarrow> lit ''queued'' | Processing \<Rightarrow> lit ''processing''
      | Landed \<Rightarrow> lit ''landed'' | Failed \<Rightarrow> lit ''failed'')"

definition decision_text :: "decision \<Rightarrow> pystr" where
  "decision_text v =
     (case v of Explicit \<Rightarrow> lit ''explicit'' | Channel \<Rightarrow> lit ''channel''
      | Default \<Rightarrow> lit ''default'' | Classified \<Rightarrow> lit ''classified'')"

definition STATUSES :: "status list" where
  "STATUSES = [Queued, Processing, Landed, Failed]"

definition LAYER_DECISIONS :: "decision list" where
  "LAYER_DECISIONS = [Explicit, Channel, Default, Classified]"

definition in_filter :: "pystr list option \<Rightarrow> pystr \<Rightarrow> bool" where
  "in_filter wanted x \<longleftrightarrow> (case wanted of None \<Rightarrow> True | Some xs \<Rightarrow> x \<in> set xs)"

definition query_submissions ::
  "conn \<Rightarrow> pystr option \<Rightarrow> pystr list option \<Rightarrow> pystr list option \<Rightarrow> int \<Rightarrow> int \<Rightarrow> db
   \<Rightarrow> item list result" where
  "query_submissions c submitter statuses decisions limit offset d =
     (if \<exists>s \<in> set (case statuses of None \<Rightarrow> [] | Some xs \<Rightarrow> xs). s \<notin> status_text ` set STATUSES
      then Inl (ValueError (lit ''unknown status''))
      else if \<exists>s \<in> set (case decisions of None \<Rightarrow> [] | Some xs \<Rightarrow> xs).
          s \<notin> decision_text ` set LAYER_DECISIONS
      then Inl (ValueError (lit ''unknown layer decision''))
      else Inr (take (nat (max 1 (min limit MAX_LIST_LIMIT))) (drop (nat (max 0 offset))
        (sort_key (\<lambda>q. (- created_at q, - int (item_id q)))
          (filter (\<lambda>q. seen c q \<and>
              (submitter = None \<or> submitter = Some (submitted_by q)) \<and>
              in_filter statuses (status_text (status q)) \<and>
              (decisions = None \<or> (case layer_decision q of None \<Rightarrow> False
                  | Some v \<Rightarrow> in_filter decisions (decision_text v))))
            (queue_rows d))))))"

definition list_own_submissions ::
  "conn \<Rightarrow> pystr \<Rightarrow> pystr list option \<Rightarrow> pystr list option \<Rightarrow> int \<Rightarrow> int \<Rightarrow> db
   \<Rightarrow> item list result" where
  "list_own_submissions c submitter statuses decisions limit offset d =
     (if submitter = [] then Inl (ValueError (lit ''submitter is required''))
      else query_submissions c (Some submitter) statuses decisions limit offset d)"

definition get_submission_trace :: "conn \<Rightarrow> uuid \<Rightarrow> pystr option \<Rightarrow> db \<Rightarrow> item option" where
  "get_submission_trace c k submitter d =
     find (\<lambda>q. seen c q \<and> item_id q = k \<and>
            (submitter = None \<or> submitter = Some (submitted_by q))) (queue_rows d)"

text \<open>\<open>query_in_flight\<close>: each item in processing, its age in microseconds, and its expiry.\<close>

definition query_in_flight ::
  "conn \<Rightarrow> instants \<Rightarrow> int \<Rightarrow> db \<Rightarrow> (item \<times> int option \<times> bool) list" where
  "query_in_flight c i visibility_timeout_s d =
     map (\<lambda>q. (q, map_option (\<lambda>t. now i - t) (processing_started_at q),
               lease_expired i (max 0 visibility_timeout_s) q))
       (sort_key started_key (filter (\<lambda>q. seen c q \<and> status q = Processing) (queue_rows d)))"

definition counts_by_status :: "conn \<Rightarrow> db \<Rightarrow> (status \<times> nat) list" where
  "counts_by_status c d =
     map (\<lambda>s. (s, length (filter (\<lambda>q. seen c q \<and> status q = s) (queue_rows d)))) STATUSES"

definition current_status :: "conn \<Rightarrow> uuid \<Rightarrow> db \<Rightarrow> status option" where
  "current_status c k d =
     map_option status (find (\<lambda>q. seen c q \<and> item_id q = k) (queue_rows d))"

definition work_waiting :: "conn \<Rightarrow> instants \<Rightarrow> db \<Rightarrow> bool" where
  "work_waiting c i d \<longleftrightarrow>
     (\<exists>q \<in> set (queue_rows d). seen c q \<and> status q = Queued \<and> next_attempt_at q \<le> now i)"

end
