(* ===== verification/Queue_Lifecycle.thy ===== *)
theory Queue_Lifecycle
  imports Capture_Queue
begin

text \<open>
  What the queue promises, proved of the operations of \<open>Capture_Queue\<close>. \<open>row_move\<close> is the
  lifecycle of one item, a state machine over its status; every operation refines it row by row
  (\<open>db_move\<close>), and the history properties follow from the lifecycle alone: the invariant of every
  reachable queue, the fencing of lost leases, the finality of landed items.
\<close>

section \<open>The lifecycle of an item\<close>

text \<open>The fields no operation ever changes.\<close>

definition identity where
  "identity q = (item_id q, tenant_id q, operation q, queue_key q, item_actor q, item_acl q,
     layer_decision q, layer_probabilities q, request q, created_at q)"

inductive row_move :: "timestamp \<Rightarrow> timestamp \<Rightarrow> item \<Rightarrow> item \<Rightarrow> bool" for t t' where
  move_stay: "row_move t t' q q"
| move_record: "row_move t t' q (q\<lparr>extraction := e\<rparr>)"
| move_claim: "status q = Queued \<Longrightarrow> t < clock_lease i \<Longrightarrow> clock_lease i \<le> t' \<Longrightarrow>
    row_move t t' q (claimed i b q)"
| move_land: "status q = Processing \<Longrightarrow> row_move t t' q (landed i l q)"
| move_end: "status q = Processing \<Longrightarrow> (retry \<Longrightarrow> attempts q < MAX_ATTEMPTS) \<Longrightarrow>
    row_move t t' q (ended i retry f q)"
| move_requeue: "status q = Processing \<Longrightarrow> attempts q \<le> MAX_ATTEMPTS \<Longrightarrow>
    row_move t t' q (expired_to_queue i q)"
| move_expire: "status q = Processing \<Longrightarrow> attempts q > MAX_ATTEMPTS \<Longrightarrow>
    row_move t t' q (expired_to_failed i q)"
| move_release: "status q = Processing \<Longrightarrow> row_move t t' q (handed_back i q)"
| move_retry: "status q = Failed \<Longrightarrow> row_move t t' q (requeued i q)"

lemmas move_intros = move_stay move_record move_claim move_land move_end move_requeue move_expire
  move_release move_retry

lemmas move_defs = claimed_def landed_def ended_def expired_to_queue_def expired_to_failed_def
  handed_back_def requeued_def

lemma row_move_identity: "row_move t t' q q' \<Longrightarrow> identity q' = identity q"
  by (induction rule: row_move.induct) (simp_all add: identity_def queue_key_def move_defs)

lemma row_move_fields:
  assumes "row_move t t' q q'"
  shows "item_id q' = item_id q" "tenant_id q' = tenant_id q" "queue_key q' = queue_key q"
    "submitted_by q' = submitted_by q" "idempotency_key q' = idempotency_key q"
    "request q' = request q" "operation q' = operation q"
  using row_move_identity [OF assms] by (simp_all add: identity_def queue_key_def)

text \<open>The invariant of a row at time \<open>t\<close>.\<close>

definition row_ok :: "timestamp \<Rightarrow> item \<Rightarrow> bool" where
  "row_ok t q \<longleftrightarrow>
     (case status q of
        Queued \<Rightarrow> lease_started_at q = None \<and> finished_at q = None \<and> attempts q \<le> 2
      | Processing \<Rightarrow>
          (case lease_started_at q of None \<Rightarrow> False | Some l \<Rightarrow> l \<le> t) \<and>
          finished_at q = None \<and> processing_started_at q \<noteq> None \<and> budget_deadline_at q \<noteq> None \<and>
          1 \<le> attempts q \<and> attempts q \<le> 3
      | _ \<Rightarrow> lease_started_at q = None \<and> finished_at q \<noteq> None \<and> attempts q \<le> 3)"

lemma coalesce_not_None [simp]: "coalesce x y \<noteq> None"
  by (cases x) (simp_all add: coalesce_def)

lemma coalesce_Some [simp]: "coalesce (Some x) y = Some x"
  by (simp add: coalesce_def)

lemma row_ok_later: "row_ok t q \<Longrightarrow> t \<le> t' \<Longrightarrow> row_ok t' q"
  by (auto simp: row_ok_def split: status.splits option.splits)

lemma row_ok_move: "row_move t t' q q' \<Longrightarrow> row_ok t q \<Longrightarrow> t \<le> t' \<Longrightarrow> row_ok t' q'"
  by (induction rule: row_move.induct)
     (auto simp: row_ok_def move_defs MAX_ATTEMPTS_def split: status.splits option.splits)

lemma row_ok_inserted: "row_ok t (inserted_row tenant m a)"
  by (simp add: row_ok_def inserted_row_def)

section \<open>The operations follow the lifecycle\<close>

definition rows_move :: "timestamp \<Rightarrow> timestamp \<Rightarrow> item list \<Rightarrow> item list \<Rightarrow> bool" where
  "rows_move t t' = list_all2 (row_move t t')"

definition db_move :: "timestamp \<Rightarrow> timestamp \<Rightarrow> db \<Rightarrow> db \<Rightarrow> bool" where
  "db_move t t' d d' \<longleftrightarrow>
     rows_move t t' (queue_rows d) (queue_rows d') \<or>
     (\<exists>tenant m a. queue_rows d' = queue_rows d @ [inserted_row tenant m a] \<and>
        queue_key (inserted_row tenant m a) \<notin> queue_key ` set (queue_rows d) \<and>
        arg_item_id a \<notin> item_id ` set (queue_rows d) \<and> tenant \<in> tenant_pk ` set (tenants d))"

lemma rows_move_refl [simp]: "rows_move t t' rows rows"
  by (simp add: rows_move_def list.rel_refl move_stay)

lemma rows_move_update:
  "(\<And>q. q \<in> set rows \<Longrightarrow> P q \<Longrightarrow> row_move t t' q (f q)) \<Longrightarrow>
     rows_move t t' rows (update_where P f rows)"
  by (simp add: rows_move_def update_where_def list_all2_conv_all_nth move_stay)

lemma db_moveI: "rows_move t t' (queue_rows d) (queue_rows d') \<Longrightarrow> db_move t t' d d'"
  by (simp add: db_move_def)

lemma db_move_refl: "queue_rows d' = queue_rows d \<Longrightarrow> db_move t t' d d'"
  by (simp add: db_moveI)

lemma rows_of_update_item:
  "queue_rows (snd (update_item c k P f d)) =
     update_where (\<lambda>q. seen c q \<and> item_id q = k \<and> P q) f (queue_rows d)"
  by (simp add: update_item_def on_rows_def Let_def)

lemma rest_of_update_item:
  "tenants (snd (update_item c k P f d)) = tenants d"
  "erasures (snd (update_item c k P f d)) = erasures d"
  by (simp_all add: update_item_def on_rows_def Let_def)

lemma update_item_move:
  "(\<And>q. q \<in> set (queue_rows d) \<Longrightarrow> seen c q \<Longrightarrow> item_id q = k \<Longrightarrow> P q \<Longrightarrow> row_move t t' q (f q)) \<Longrightarrow>
     db_move t t' d (snd (update_item c k P f d))"
  by (rule db_moveI, unfold rows_of_update_item, rule rows_move_update) blast

lemma update_item_None:
  "fst (update_item c k P f d) = None \<longleftrightarrow>
     (\<forall>q \<in> set (queue_rows d). \<not> (seen c q \<and> item_id q = k \<and> P q))"
  by (auto simp: update_item_def find_None_iff Let_def)

lemma update_item_unchanged:
  "fst (update_item c k P f d) = None \<Longrightarrow> snd (update_item c k P f d) = d"
  using update_item_None [of c k P f d]
  by (auto simp: update_item_def on_rows_def Let_def update_where_unchanged)

lemma update_item_lost:
  "fst (update_item c k P f d) = None \<Longrightarrow> update_item c k P f d = (None, d)"
  by (metis prod.collapse update_item_unchanged)

lemma update_item_Some:
  assumes "fst (update_item c k P f d) = Some r"
  shows "\<exists>q \<in> set (queue_rows d). seen c q \<and> item_id q = k \<and> P q \<and> r = f q"
  using assms by (auto simp: update_item_def Let_def dest!: find_eq_Some_in)

subsection \<open>One lemma per operation\<close>

lemma record_extraction_move: "db_move t t' d (record_extraction c k v d)"
  by (simp add: record_extraction_def update_item_move move_record)

lemma insert_item_rows:
  "queue_rows (snd (insert_item c i a d)) = queue_rows d \<or>
   (\<exists>tenant. tenant_setting c = Some tenant \<and>
      queue_rows (snd (insert_item c i a d)) = queue_rows d @ [inserted_row tenant (now i) a] \<and>
      queue_key (inserted_row tenant (now i) a) \<notin> queue_key ` set (queue_rows d) \<and>
      arg_item_id a \<notin> item_id ` set (queue_rows d) \<and> tenant \<in> tenant_pk ` set (tenants d))"
  by (cases "tenant_setting c") (auto simp: insert_item_def Let_def on_rows_def inserted_row_def)

lemma enqueue_snd:
  "queue_rows (snd (enqueue c i a d)) = queue_rows (snd (insert_item c i a d))"
  "tenants (snd (enqueue c i a d)) = tenants d"
  by (auto simp: enqueue_def insert_item_def Let_def on_rows_def
      split: prod.splits sum.splits option.splits)

lemma enqueue_rows:
  "queue_rows (snd (enqueue c i a d)) = queue_rows d \<or>
   (\<exists>tenant. tenant_setting c = Some tenant \<and>
      queue_rows (snd (enqueue c i a d)) = queue_rows d @ [inserted_row tenant (now i) a] \<and>
      queue_key (inserted_row tenant (now i) a) \<notin> queue_key ` set (queue_rows d) \<and>
      arg_item_id a \<notin> item_id ` set (queue_rows d) \<and> tenant \<in> tenant_pk ` set (tenants d))"
  using insert_item_rows [of c i a d] by (simp only: enqueue_snd)

lemma enqueue_move: "db_move t t' d (snd (enqueue c i a d))"
  using enqueue_rows [of c i a d] unfolding db_move_def by auto

lemma claim_next_cases:
  obtains
    (none) "filter (eligible c i locked d) (queue_rows d) = []" "claim_next c i locked b d = (None, d)"
  | (one) q d' where "q \<in> set (queue_rows d)" "eligible c i locked d q"
      "\<And>r. r \<in> set (queue_rows d) \<Longrightarrow> eligible c i locked d r \<Longrightarrow> claim_key d q \<le> claim_key d r"
      "claim_next c i locked b d = (fst (update_item c (item_id q) (\<lambda>q. True) (claimed i (max 1 b)) d), d')"
      "queue_rows d' = update_where (\<lambda>r. seen c r \<and> item_id r = item_id q) (claimed i (max 1 b)) (queue_rows d)"
      "tenants d' = update_where (\<lambda>t. tenant_pk t = tenant_id q)
         (\<lambda>t. t\<lparr>last_claimed_at := Some (clock_served i)\<rparr>) (tenants d)"
      "erasures d' = erasures d"
proof (cases "first_by (claim_key d) (filter (eligible c i locked d) (queue_rows d))")
  case None
  then show ?thesis
    by (intro none) (simp_all add: claim_next_def)
next
  case (Some q)
  let ?u = "update_item c (item_id q) (\<lambda>q. True) (claimed i (max 1 b)) d"
  note first = first_by_Some [OF Some]
  show ?thesis
    by (rule one [of q "(snd ?u)\<lparr>tenants := update_where (\<lambda>t. tenant_pk t = tenant_id q)
         (\<lambda>t. t\<lparr>last_claimed_at := Some (clock_served i)\<rparr>) (tenants (snd ?u))\<rparr>"])
       (use first in \<open>auto simp: claim_next_def Some rows_of_update_item rest_of_update_item
          case_prod_beta\<close>)
qed

lemma distinct_ids: "distinct (map item_id rows) \<Longrightarrow> q \<in> set rows \<Longrightarrow> r \<in> set rows \<Longrightarrow>
    item_id q = item_id r \<Longrightarrow> q = r"
  by (auto simp: distinct_map dest: inj_onD)

lemma update_item_unique:
  assumes "distinct (map item_id (queue_rows d))" "q \<in> set (queue_rows d)" "seen c q" "P q"
  shows "fst (update_item c (item_id q) P f d) = Some (f q)"
proof -
  have "fst (update_item c (item_id q) P f d) \<noteq> None"
    using assms(2-4) by (auto simp: update_item_None)
  then obtain r where "fst (update_item c (item_id q) P f d) = Some r"
    by blast
  with update_item_Some [OF this] distinct_ids [OF assms(1)] assms(2) show ?thesis
    by auto
qed

lemma claim_next_move:
  assumes "distinct (map item_id (queue_rows d))" "t < clock_lease i" "clock_lease i \<le> t'"
  shows "db_move t t' d (snd (claim_next c i locked b d))"
proof (cases rule: claim_next_cases [of c i locked d b])
  case none
  then show ?thesis
    by (simp add: db_move_refl)
next
  case (one q d')
  have "row_move t t' r (claimed i (max 1 b) r)"
    if "r \<in> set (queue_rows d)" "seen c r \<and> item_id r = item_id q" for r
    using distinct_ids [OF assms(1) that(1) one(1)] that one(2) assms(2,3)
    by (auto simp: eligible_def intro: move_claim)
  then have "rows_move t t' (queue_rows d) (queue_rows d')"
    unfolding one(5) by (rule rows_move_update)
  then show ?thesis
    by (simp add: one(4) db_moveI)
qed

lemma in_expired:
  "q \<in> set (expired c i locked v b d) \<Longrightarrow>
     q \<in> set (queue_rows d) \<and> seen c q \<and> status q = Processing \<and> lease_expired i v q \<and>
     item_id q \<notin> set locked"
  by (auto simp: expired_def dest!: in_set_takeD)

lemma distinct_expired:
  assumes "distinct (map item_id (queue_rows d))"
  shows "distinct (map item_id (expired c i locked v b d))"
proof -
  have "distinct (expired c i locked v b d)"
    using assms by (simp add: expired_def distinct_map)
  moreover have "inj_on item_id (set (expired c i locked v b d))"
    using assms in_expired unfolding distinct_map by (metis inj_on_subset subsetI)
  ultimately show ?thesis
    by (simp add: distinct_map)
qed

lemma filter_set_map: "set (map item_id (filter R rows)) = item_id ` {q \<in> set rows. R q}"
  by simp

lemma selected_id:
  assumes "distinct (map item_id (queue_rows d))" "q \<in> set (queue_rows d)"
  shows "item_id q \<in> item_id ` {r \<in> set (expired c i locked v b d). R r} \<longleftrightarrow>
    q \<in> set (expired c i locked v b d) \<and> R q"
proof -
  have "r = q" if "r \<in> set (expired c i locked v b d)" "item_id r = item_id q" for r
    using in_expired [OF that(1)] distinct_ids [OF assms(1) _ assms(2) that(2)] by blast
  then show ?thesis
    by auto
qed

lemma requeue_if_any:
  "queue_rows (if ids \<noteq> [] then requeue_expired c i ids d else d) =
     update_where (\<lambda>q. seen c q \<and> item_id q \<in> set ids \<and> status q = Processing)
       (expired_to_queue i) (queue_rows d)"
  by (auto simp: requeue_expired_def on_rows_def update_where_unchanged)

lemma fail_if_any:
  "queue_rows (if ids \<noteq> [] then fail_expired c i ids d else d) =
     update_where (\<lambda>q. seen c q \<and> item_id q \<in> set ids \<and> status q = Processing)
       (expired_to_failed i) (queue_rows d)"
  by (auto simp: fail_expired_def on_rows_def update_where_unchanged)

text \<open>Expiry requeues or fails exactly the rows it selected.\<close>

lemma release_expired_rows:
  assumes "distinct (map item_id (queue_rows d))"
  shows "queue_rows (snd (release_expired c i locked v b d)) =
    map (\<lambda>q. if q \<in> set (expired c i locked (max 0 v) (max 1 b) d)
             then (if attempts q \<le> MAX_ATTEMPTS then expired_to_queue i q else expired_to_failed i q)
             else q) (queue_rows d)"
proof -
  let ?sel = "expired c i locked (max 0 v) (max 1 b) d"
  let ?rel = "map item_id (filter (\<lambda>q. attempts q \<le> MAX_ATTEMPTS) ?sel)"
  let ?bad = "map item_id (filter (\<lambda>q. attempts q > MAX_ATTEMPTS) ?sel)"
  have rel: "seen c q \<and> item_id q \<in> set ?rel \<and> status q = Processing \<longleftrightarrow>
      q \<in> set ?sel \<and> attempts q \<le> MAX_ATTEMPTS" if "q \<in> set (queue_rows d)" for q
    using in_expired [of q c i locked "max 0 v" "max 1 b" d]
    unfolding filter_set_map selected_id [OF assms that] by auto
  have bad: "seen c q \<and> item_id q \<in> set ?bad \<and> status q = Processing \<longleftrightarrow>
      q \<in> set ?sel \<and> attempts q > MAX_ATTEMPTS" if "q \<in> set (queue_rows d)" for q
    using in_expired [of q c i locked "max 0 v" "max 1 b" d]
    unfolding filter_set_map selected_id [OF assms that] by auto
  let ?d1 = "if ?rel \<noteq> [] then requeue_expired c i ?rel d else d"
  have d1: "queue_rows ?d1 = map (\<lambda>q. if q \<in> set ?sel \<and> attempts q \<le> MAX_ATTEMPTS
      then expired_to_queue i q else q) (queue_rows d)"
    unfolding requeue_if_any update_where_def by (rule map_cong [OF refl]) (simp only: rel)
  let ?then_fail = "\<lambda>q. if seen c q \<and> item_id q \<in> set ?bad \<and> status q = Processing
    then expired_to_failed i q else q"
  have point: "?then_fail (if q \<in> set ?sel \<and> attempts q \<le> MAX_ATTEMPTS then expired_to_queue i q else q) =
      (if q \<in> set ?sel
       then (if attempts q \<le> MAX_ATTEMPTS then expired_to_queue i q else expired_to_failed i q)
       else q)" if "q \<in> set (queue_rows d)" for q
  proof -
    consider "q \<in> set ?sel \<and> attempts q \<le> MAX_ATTEMPTS" | "q \<in> set ?sel \<and> attempts q > MAX_ATTEMPTS"
      | "q \<notin> set ?sel"
      by linarith
    then show ?thesis
      by cases (use bad [OF that] in \<open>auto simp: expired_to_queue_def simp del: set_map set_filter\<close>)
  qed
  have "queue_rows (if ?bad \<noteq> [] then fail_expired c i ?bad ?d1 else ?d1) =
      update_where (\<lambda>q. seen c q \<and> item_id q \<in> set ?bad \<and> status q = Processing)
        (expired_to_failed i) (queue_rows ?d1)"
    by (rule fail_if_any)
  also have "\<dots> = map (\<lambda>q. if q \<in> set ?sel
      then (if attempts q \<le> MAX_ATTEMPTS then expired_to_queue i q else expired_to_failed i q)
      else q) (queue_rows d)"
    unfolding d1 update_where_def map_map
    by (rule map_cong [OF refl]) (simp only: comp_apply point)
  finally show ?thesis
    by (simp add: release_expired_def Let_def)
qed

lemma release_expired_rest:
  "tenants (snd (release_expired c i locked v b d)) = tenants d"
  by (simp add: release_expired_def Let_def requeue_expired_def fail_expired_def on_rows_def)

lemma release_expired_move:
  assumes "distinct (map item_id (queue_rows d))"
  shows "db_move t t' d (snd (release_expired c i locked v b d))"
  by (rule db_moveI)
     (auto simp: release_expired_rows [OF assms] rows_move_def list_all2_conv_all_nth
        intro: move_stay move_requeue move_expire dest!: in_expired)

lemma finish_landed_cases:
  obtains
    (held) q where "q \<in> set (queue_rows d)" "seen c q" "item_id q = k" "holds n l q"
      "finish_landed c i k n l r d =
         (Inr (landed i r q), snd (update_item c k (holds n l) (landed i r) d))"
  | (lost) "\<And>q. q \<in> set (queue_rows d) \<Longrightarrow> seen c q \<Longrightarrow> item_id q = k \<Longrightarrow> \<not> holds n l q"
      "finish_landed c i k n l r d = (Inl (raise_lost_lease c k d), d)"
proof (cases "fst (update_item c k (holds n l) (landed i r) d)")
  case None
  then show ?thesis
    unfolding update_item_None
    by (intro lost) (auto simp: finish_landed_def update_item_lost [OF None])
next
  case (Some x)
  then show ?thesis
    using update_item_Some [OF Some] by (auto simp: finish_landed_def case_prod_beta intro: held)
qed

lemma fail_or_retry_cases:
  obtains
    (held) q where "q \<in> set (queue_rows d)" "seen c q" "item_id q = k" "holds n l q"
      "fail_or_retry c i k n l f d =
         (Inr (ended i (retryable f \<and> n < MAX_ATTEMPTS) f q),
          snd (update_item c k (holds n l) (ended i (retryable f \<and> n < MAX_ATTEMPTS) f) d))"
  | (lost) "\<And>q. q \<in> set (queue_rows d) \<Longrightarrow> seen c q \<Longrightarrow> item_id q = k \<Longrightarrow> \<not> holds n l q"
      "fail_or_retry c i k n l f d = (Inl (raise_lost_lease c k d), d)"
proof (cases "fst (update_item c k (holds n l) (ended i (retryable f \<and> n < MAX_ATTEMPTS) f) d)")
  case None
  then show ?thesis
    unfolding update_item_None
    by (intro lost) (auto simp: fail_or_retry_def Let_def update_item_lost [OF None])
next
  case (Some x)
  then show ?thesis
    using update_item_Some [OF Some]
    by (auto simp: fail_or_retry_def Let_def case_prod_beta intro: held)
qed

lemma finish_landed_move: "db_move t t' d (snd (finish_landed c i k n l r d))"
  by (rule finish_landed_cases [of d c k n l i r])
     (auto simp: holds_def db_move_refl intro!: update_item_move move_land)

lemma fail_or_retry_move: "db_move t t' d (snd (fail_or_retry c i k n l f d))"
  by (rule fail_or_retry_cases [of d c k n l i f])
     (auto simp: holds_def db_move_refl intro!: update_item_move move_end)

lemma release_claim_snd:
  "snd (release_claim c i k l d) = snd (update_item c k
     (\<lambda>q. status q = Processing \<and> lease_started_at q = Some l) (handed_back i) d)"
  by (simp add: release_claim_def split: prod.splits)

lemma release_claim_move: "db_move t t' d (snd (release_claim c i k l d))"
  unfolding release_claim_snd by (rule update_item_move) (simp add: move_release)

lemma retry_failed_rows:
  "queue_rows (snd (retry_failed c i k d)) =
     queue_rows (snd (update_item c k (\<lambda>q. status q = Failed) (requeued i) d))"
  "tenants (snd (retry_failed c i k d)) = tenants d"
  using rest_of_update_item(1) [of c k "\<lambda>q. status q = Failed" "requeued i" d]
  by (auto simp: retry_failed_def split: prod.splits option.splits)

lemma retry_failed_move: "db_move t t' d (snd (retry_failed c i k d))"
  using update_item_move [of d c k "\<lambda>q. status q = Failed" t t' "requeued i"]
  by (auto simp: db_move_def retry_failed_rows move_retry)

section \<open>Runs of the queue\<close>

text \<open>
  Another transaction may open and close erasures, and add or change tenants without touching the
  queue; it never takes a tenant row away and stamps no later claim than its own time.
\<close>

definition env_change :: "timestamp \<Rightarrow> db \<Rightarrow> db \<Rightarrow> bool" where
  "env_change t' d d' \<longleftrightarrow> queue_rows d' = queue_rows d \<and> distinct (map tenant_pk (tenants d')) \<and>
     tenant_pk ` set (tenants d) \<subseteq> tenant_pk ` set (tenants d') \<and>
     (\<forall>x \<in> set (tenants d'). case last_claimed_at x of None \<Rightarrow> True | Some s \<Rightarrow> s \<le> t')"

text \<open>The clock a statement reads advances past every earlier one; \<open>now()\<close> may lag.\<close>

definition ticks :: "timestamp \<Rightarrow> instants \<Rightarrow> timestamp \<Rightarrow> bool" where
  "ticks t i t' \<longleftrightarrow> t < clock_lease i \<and> clock_lease i \<le> t' \<and> t < clock_served i \<and> clock_served i \<le> t'"

text \<open>The statements the program runs on the queue, and the database each leaves.\<close>

datatype command =
    Enqueue enqueue_args
  | RecordExtraction uuid json_object
  | ClaimNext "uuid list" int
  | ReleaseExpired "uuid list" int int
  | FinishLanded uuid nat timestamp landing
  | FailOrRetry uuid nat timestamp failure
  | ReleaseClaim uuid timestamp
  | RetryFailed uuid

fun run_command :: "conn \<Rightarrow> instants \<Rightarrow> command \<Rightarrow> db \<Rightarrow> db" where
  "run_command c i (Enqueue a) d = snd (enqueue c i a d)"
| "run_command c i (RecordExtraction k v) d = record_extraction c k v d"
| "run_command c i (ClaimNext locked b) d = snd (claim_next c i locked b d)"
| "run_command c i (ReleaseExpired locked v b) d = snd (release_expired c i locked v b d)"
| "run_command c i (FinishLanded k n l r) d = snd (finish_landed c i k n l r d)"
| "run_command c i (FailOrRetry k n l f) d = snd (fail_or_retry c i k n l f d)"
| "run_command c i (ReleaseClaim k l) d = snd (release_claim c i k l d)"
| "run_command c i (RetryFailed k) d = snd (retry_failed c i k d)"

inductive queue_step :: "timestamp \<times> db \<Rightarrow> timestamp \<times> db \<Rightarrow> bool" where
  step_command: "ticks t i t' \<Longrightarrow> queue_step (t, d) (t', run_command c i cmd d)"
| step_env: "t < t' \<Longrightarrow> env_change t' d d' \<Longrightarrow> queue_step (t, d) (t', d')"

inductive_cases queue_stepE: "queue_step (t, d) (t', d')"

definition queue_ok :: "timestamp \<Rightarrow> db \<Rightarrow> bool" where
  "queue_ok t d \<longleftrightarrow> declared_constraints d \<and> (\<forall>q \<in> set (queue_rows d). row_ok t q) \<and>
     (\<forall>x \<in> set (tenants d). case last_claimed_at x of None \<Rightarrow> True | Some s \<Rightarrow> s \<le> t)"

lemma step_time: "queue_step (t, d) (t', d') \<Longrightarrow> t < t'"
  by (erule queue_stepE) (auto simp: ticks_def)

lemma run_command_tenants:
  assumes "ticks t i t'"
  shows "tenants (run_command c i cmd d) = tenants d \<or>
    (\<exists>k s. t < s \<and> s \<le> t' \<and> tenants (run_command c i cmd d) =
       update_where (\<lambda>x. tenant_pk x = k) (\<lambda>x. x\<lparr>last_claimed_at := Some s\<rparr>) (tenants d))"
proof (cases cmd)
  case (ClaimNext locked b)
  then show ?thesis
    using assms by (cases rule: claim_next_cases [of c i locked d b]) (auto simp: ticks_def)
next
  case (FinishLanded k n l r)
  then show ?thesis
    by (cases rule: finish_landed_cases [of d c k n l i r]) (auto simp: rest_of_update_item)
next
  case (FailOrRetry k n l f)
  then show ?thesis
    by (cases rule: fail_or_retry_cases [of d c k n l i f]) (auto simp: rest_of_update_item)
qed (simp_all add: enqueue_snd record_extraction_def rest_of_update_item release_expired_rest
       release_claim_snd retry_failed_rows)

lemma run_command_move:
  assumes "ticks t i t'" "distinct (map item_id (queue_rows d))"
  shows "db_move t t' d (run_command c i cmd d)"
  using assms
  by (cases cmd)
     (simp_all add: ticks_def enqueue_move record_extraction_move claim_next_move
        release_expired_move finish_landed_move fail_or_retry_move release_claim_move
        retry_failed_move)

lemma step_tenants:
  assumes "queue_step (t, d) (t', d')"
  shows "tenants d' = tenants d \<or>
    (\<exists>k s. t < s \<and> s \<le> t' \<and> tenants d' =
       update_where (\<lambda>x. tenant_pk x = k) (\<lambda>x. x\<lparr>last_claimed_at := Some s\<rparr>) (tenants d)) \<or>
    env_change t' d d'"
  using assms by (rule queue_stepE) (use run_command_tenants in blast)+

lemma step_db_move:
  assumes "queue_step (t, d) (t', d')" "distinct (map item_id (queue_rows d))"
  shows "db_move t t' d d'"
  using assms(1)
  by (rule queue_stepE)
     (use run_command_move [OF _ assms(2)] in \<open>auto simp: env_change_def db_move_refl\<close>)

end
