(* ===== verification/Fencing.thy ===== *)
theory Fencing
  imports Prelude
begin

text \<open>
  The contract between a worker and a store that leases it work. The store gives a lease stamped
  with the time it was taken; the worker ends its work by an operation that names the lease. The
  laws are per step; what the worker relies on, that a lease once lost is lost for good and that
  work ended under a lost lease changes nothing, is proved once from them.
\<close>

locale lease_store =
  fixes step :: "'s \<Rightarrow> 's \<Rightarrow> bool"
    and ok :: "'s \<Rightarrow> bool"
    and time_of :: "'s \<Rightarrow> int"
    and live :: "'k \<Rightarrow> int \<Rightarrow> 's \<Rightarrow> bool"
    and finish :: "'k \<Rightarrow> int \<Rightarrow> 'w \<Rightarrow> 's \<Rightarrow> exn option \<times> 's"
  assumes ok_step: "step s s' \<Longrightarrow> ok s \<Longrightarrow> ok s'"
    and time_step: "step s s' \<Longrightarrow> time_of s \<le> time_of s'"
    and no_revival: "step s s' \<Longrightarrow> ok s \<Longrightarrow> l \<le> time_of s \<Longrightarrow> live k l s' \<Longrightarrow> live k l s"
    and fenced: "\<not> live k l s \<Longrightarrow> snd (finish k l w s) = s \<and> fst (finish k l w s) \<noteq> None"
begin

abbreviation run :: "'s \<Rightarrow> 's \<Rightarrow> bool" where
  "run \<equiv> step\<^sup>*\<^sup>*"

lemma ok_run: "run s s' \<Longrightarrow> ok s \<Longrightarrow> ok s'"
  by (induction rule: rtranclp_induct) (auto intro: ok_step)

lemma time_run: "run s s' \<Longrightarrow> time_of s \<le> time_of s'"
  by (induction rule: rtranclp_induct) (auto dest: time_step)

lemma lost_stays_lost:
  assumes "run s s'" "ok s" "l \<le> time_of s" "\<not> live k l s"
  shows "\<not> live k l s'"
  using assms(1)
proof (induction rule: rtranclp_induct)
  case base
  show ?case
    by (rule assms(4))
next
  case (step y z)
  have "l \<le> time_of y"
    using time_run [OF step.hyps(1)] assms(3) by linarith
  then show ?case
    using no_revival [OF step.hyps(2) ok_run [OF step.hyps(1) assms(2)]] step.IH by blast
qed

lemma stale_worker_is_harmless:
  assumes "run s s'" "ok s" "l \<le> time_of s" "\<not> live k l s"
  shows "\<exists>e. finish k l w s' = (Some e, s')"
  using fenced [OF lost_stays_lost [OF assms], of w] by (metis not_None_eq prod.collapse)

end

end
