(* ===== verification/Queue_Safety.thy ===== *)
theory Queue_Safety
  imports Queue_Lifecycle Fencing
begin

text \<open>
  The safety properties of every run of the capture queue: the invariant, the fencing of leases,
  the finality of landed items, and what one expiry sweep does.
\<close>

section \<open>The invariant of every reachable queue\<close>

lemma rows_move_map:
  assumes "rows_move t t' rows rows'" "\<And>q q'. row_move t t' q q' \<Longrightarrow> g q' = g q"
  shows "map g rows' = map g rows"
  using assms(1) unfolding rows_move_def
  by (induction rule: list_all2_induct) (simp_all add: assms(2))

lemma rows_move_in:
  "rows_move t t' rows rows' \<Longrightarrow> q' \<in> set rows' \<Longrightarrow> \<exists>q \<in> set rows. row_move t t' q q'"
  unfolding rows_move_def by (induction rule: list_all2_induct) auto

lemma rows_move_next:
  "rows_move t t' rows rows' \<Longrightarrow> q \<in> set rows \<Longrightarrow> \<exists>q' \<in> set rows'. row_move t t' q q'"
  unfolding rows_move_def by (induction rule: list_all2_induct) auto

lemma db_move_next:
  assumes "db_move t t' d d'" "q \<in> set (queue_rows d)"
  shows "\<exists>q' \<in> set (queue_rows d'). row_move t t' q q'"
  using assms rows_move_next move_stay unfolding db_move_def by fastforce

lemma db_move_in:
  assumes "db_move t t' d d'" "q' \<in> set (queue_rows d')"
  shows "(\<exists>q \<in> set (queue_rows d). row_move t t' q q') \<or> (\<exists>x m a. q' = inserted_row x m a)"
  using assms rows_move_in move_stay unfolding db_move_def by fastforce

lemma db_move_rows_ok:
  assumes "db_move t t' d d'" "\<forall>q \<in> set (queue_rows d). row_ok t q" "t \<le> t'"
  shows "\<forall>q \<in> set (queue_rows d'). row_ok t' q"
  using db_move_in [OF assms(1)] assms(2,3) row_ok_move row_ok_inserted by metis

lemma step_tenant_pks:
  assumes "queue_step (t, d) (t', d')"
  shows "tenant_pk ` set (tenants d) \<subseteq> tenant_pk ` set (tenants d') \<and>
    (distinct (map tenant_pk (tenants d)) \<longrightarrow> distinct (map tenant_pk (tenants d')))"
proof -
  have "map tenant_pk (update_where (\<lambda>x. tenant_pk x = k) (\<lambda>x. x\<lparr>last_claimed_at := Some s\<rparr>) ts) =
      map tenant_pk ts" for k s ts
    by (rule map_update_where) simp
  note keys = this arg_cong [OF this, of set, unfolded set_map]
  from step_tenants [OF assms] show ?thesis
    by (elim disjE exE conjE) (simp_all add: keys env_change_def)
qed

lemma step_constraints:
  assumes "queue_step (t, d) (t', d')" "declared_constraints d"
  shows "declared_constraints d'"
proof -
  note dc = declared_constraintsD [OF assms(2)]
  note pks = step_tenant_pks [OF assms(1)]
  from step_db_move [OF assms(1) dc(1)] show ?thesis
    unfolding db_move_def
  proof (elim disjE exE conjE)
    assume move: "rows_move t t' (queue_rows d) (queue_rows d')"
    have "map item_id (queue_rows d') = map item_id (queue_rows d)"
      "map queue_key (queue_rows d') = map queue_key (queue_rows d)"
      by (rule rows_move_map [OF move], simp add: row_move_fields)+
    moreover have "tenant_id q \<in> tenant_pk ` set (tenants d')" if "q \<in> set (queue_rows d')" for q
      using rows_move_in [OF move that] row_move_fields(2) dc(4) pks by (metis subsetD)
    ultimately show ?thesis
      using dc pks by (simp add: declared_constraints_def)
  next
    fix x m a
    assume "queue_rows d' = queue_rows d @ [inserted_row x m a]"
      "queue_key (inserted_row x m a) \<notin> queue_key ` set (queue_rows d)"
      "arg_item_id a \<notin> item_id ` set (queue_rows d)" "x \<in> tenant_pk ` set (tenants d)"
    then show ?thesis
      using dc pks by (auto simp: declared_constraints_def inserted_row_def)
  qed
qed

lemma step_stamps:
  assumes "queue_step (t, d) (t', d')"
    and "\<forall>x \<in> set (tenants d). case last_claimed_at x of None \<Rightarrow> True | Some s \<Rightarrow> s \<le> t"
  shows "\<forall>x \<in> set (tenants d'). case last_claimed_at x of None \<Rightarrow> True | Some s \<Rightarrow> s \<le> t'"
  using step_tenants [OF assms(1)] assms(2) step_time [OF assms(1)]
  by (elim disjE exE conjE)
     (force simp: env_change_def split: option.splits elim!: in_update_where)+

lemma queue_ok_step:
  assumes "queue_step (t, d) (t', d')" "queue_ok t d"
  shows "queue_ok t' d'"
  using assms step_constraints [OF assms(1)] step_stamps [OF assms(1)] step_time [OF assms(1)]
    db_move_rows_ok [OF step_db_move [OF assms(1)]] declared_constraintsD(1) [of d]
  by (simp add: queue_ok_def)

lemma queue_ok_run:
  "queue_step\<^sup>*\<^sup>* s s' \<Longrightarrow> queue_ok (fst s) (snd s) \<Longrightarrow> queue_ok (fst s') (snd s')"
  by (induction rule: rtranclp_induct) (auto intro: queue_ok_step)

lemma run_time: "queue_step\<^sup>*\<^sup>* s s' \<Longrightarrow> fst s \<le> fst s'"
  by (induction rule: rtranclp_induct) (force dest: step_time)+

section \<open>Leases are fenced\<close>

text \<open>A row up to what extraction recorded for it.\<close>

definition core :: "item \<Rightarrow> item" where
  "core q = q\<lparr>extraction := fmempty\<rparr>"

lemma core_extraction [simp]: "core (q\<lparr>extraction := e\<rparr>) = core q"
  by (simp add: core_def)

lemma core_eq:
  assumes "core q' = core q"
  shows "q' = q\<lparr>extraction := extraction q'\<rparr>"
proof -
  have "q' = (core q')\<lparr>extraction := extraction q'\<rparr>"
    by (simp add: core_def)
  also have "\<dots> = q\<lparr>extraction := extraction q'\<rparr>"
    unfolding assms by (simp add: core_def)
  finally show ?thesis .
qed

lemma core_fields:
  assumes "core q' = core q"
  shows "status q' = status q" "attempts q' = attempts q" "lease_started_at q' = lease_started_at q"
    "budget_deadline_at q' = budget_deadline_at q" "item_id q' = item_id q"
    "tenant_id q' = tenant_id q"
  using arg_cong [OF assms, of status] arg_cong [OF assms, of attempts]
    arg_cong [OF assms, of lease_started_at] arg_cong [OF assms, of budget_deadline_at]
    arg_cong [OF assms, of item_id] arg_cong [OF assms, of tenant_id]
  unfolding core_def by simp_all

text \<open>A lease taken by time \<open>t\<close> is never given to an item afterwards: only kept.\<close>

lemma row_move_lease:
  assumes "row_move t t' q q'" "status q' = Processing" "lease_started_at q' = Some l" "l \<le> t"
  shows "status q = Processing \<and> lease_started_at q = Some l \<and> core q' = core q"
  using assms by (induction rule: row_move.induct) (simp_all add: move_defs split: if_splits)

definition lease_live :: "uuid \<Rightarrow> timestamp \<Rightarrow> db \<Rightarrow> bool" where
  "lease_live k l d \<longleftrightarrow>
     (\<exists>q \<in> set (queue_rows d). item_id q = k \<and> status q = Processing \<and> lease_started_at q = Some l)"

lemma queue_ok_ids: "queue_ok t d \<Longrightarrow> distinct (map item_id (queue_rows d))"
  by (simp add: queue_ok_def declared_constraints_def)

lemma step_move: "queue_step (t, d) (t', d') \<Longrightarrow> queue_ok t d \<Longrightarrow> db_move t t' d d'"
  by (simp add: step_db_move queue_ok_ids)

lemma step_lease:
  assumes "queue_step (t, d) (t', d')" "queue_ok t d" "l \<le> t"
    "q' \<in> set (queue_rows d')" "status q' = Processing" "lease_started_at q' = Some l"
  shows "\<exists>q \<in> set (queue_rows d). status q = Processing \<and> lease_started_at q = Some l \<and>
    core q' = core q"
  using db_move_in [OF step_move [OF assms(1,2)] assms(4)]
proof
  assume "\<exists>x m a. q' = inserted_row x m a"
  then show ?thesis
    using assms(5) by (auto simp: inserted_row_def)
qed (use row_move_lease assms(3,5,6) in blast)

lemma run_lease:
  assumes "queue_step\<^sup>*\<^sup>* s s'" "queue_ok (fst s) (snd s)" "l \<le> fst s"
    "q' \<in> set (queue_rows (snd s'))" "status q' = Processing" "lease_started_at q' = Some l"
  shows "\<exists>q \<in> set (queue_rows (snd s)). status q = Processing \<and> lease_started_at q = Some l \<and>
    core q' = core q"
  using assms(1,4-6)
proof (induction arbitrary: q' rule: rtranclp_induct)
  case base
  then show ?case
    by (intro bexI [of _ q']) simp_all
next
  case (step y z)
  have "l \<le> fst y"
    using run_time [OF step.hyps(1)] assms(3) by linarith
  then obtain q where "q \<in> set (queue_rows (snd y))" "status q = Processing"
    "lease_started_at q = Some l" "core q' = core q"
    using step_lease [of "fst y" "snd y" "fst z" "snd z"] step.hyps(2) step.prems
      queue_ok_run [OF step.hyps(1) assms(2)] by auto
  then show ?case
    using step.IH [of q] by auto
qed

lemma stale_operations:
  assumes "\<not> lease_live k l d"
  shows "\<not> holds_lease c k n l d"
    "finish_landed c i k n l r d = (Inl (raise_lost_lease c k d), d)"
    "fail_or_retry c i k n l f d = (Inl (raise_lost_lease c k d), d)"
    "release_claim c i k l d = (False, d)"
proof -
  have not: "\<not> holds n l q" if "q \<in> set (queue_rows d)" "item_id q = k" for q
    using assms that by (auto simp: lease_live_def holds_def)
  then show "\<not> holds_lease c k n l d"
    by (auto simp: holds_lease_def)
  show "finish_landed c i k n l r d = (Inl (raise_lost_lease c k d), d)"
    by (rule finish_landed_cases [of d c k n l i r]) (use not in auto)
  show "fail_or_retry c i k n l f d = (Inl (raise_lost_lease c k d), d)"
    by (rule fail_or_retry_cases [of d c k n l i f]) (use not in auto)
  have "fst (update_item c k (\<lambda>q. status q = Processing \<and> lease_started_at q = Some l)
      (handed_back i) d) = None"
    using assms by (auto simp: update_item_None lease_live_def)
  then show "release_claim c i k l d = (False, d)"
    by (simp add: release_claim_def update_item_lost)
qed

lemma raise_lost_lease_kind: "\<exists>m. raise_lost_lease c k d = QueueStateError m"
  by (simp add: raise_lost_lease_def split: option.splits)

section \<open>Landed items are final\<close>

lemma row_move_landed:
  assumes "row_move t t' q q'" "status q = Landed"
  shows "core q' = core q"
  using assms by (induction rule: row_move.induct) simp_all

lemma run_next:
  assumes "queue_step\<^sup>*\<^sup>* s s'" "queue_ok (fst s) (snd s)" "q \<in> set (queue_rows (snd s))"
  shows "\<exists>q' \<in> set (queue_rows (snd s')). identity q' = identity q \<and>
    (status q = Landed \<longrightarrow> core q' = core q)"
  using assms(1)
proof (induction rule: rtranclp_induct)
  case base
  then show ?case
    using assms(3) by (intro bexI [of _ q]) simp_all
next
  case (step y z)
  then obtain q1 where q1: "q1 \<in> set (queue_rows (snd y))" "identity q1 = identity q"
    "status q = Landed \<longrightarrow> core q1 = core q"
    by blast
  have "db_move (fst y) (fst z) (snd y) (snd z)"
    using step_move [of "fst y" "snd y" "fst z" "snd z"] step.hyps(2)
      queue_ok_run [OF step.hyps(1) assms(2)] by simp
  then obtain q2 where q2: "q2 \<in> set (queue_rows (snd z))" "row_move (fst y) (fst z) q1 q2"
    using db_move_next q1(1) by blast
  have "core q2 = core q" if landed: "status q = Landed"
    using row_move_landed [OF q2(2)] q1(3) core_fields(1) [of q1 q] landed by simp
  then show ?case
    using q2 q1(2) row_move_identity [OF q2(2)] by auto
qed

section \<open>The queue as a lease store\<close>

text \<open>The three ways a processor ends its work, as one operation of the contract.\<close>

datatype ending = Land landing | Fail failure | HandBack

fun end_work ::
  "conn \<Rightarrow> instants \<Rightarrow> nat \<Rightarrow> uuid \<Rightarrow> timestamp \<Rightarrow> ending \<Rightarrow> timestamp \<times> db
   \<Rightarrow> exn option \<times> timestamp \<times> db" where
  "end_work c i n k l (Land r) (t, d) =
     (case finish_landed c i k n l r d of
        (Inl e, d') \<Rightarrow> (Some e, t, d') | (Inr _, d') \<Rightarrow> (None, t, d'))"
| "end_work c i n k l (Fail f) (t, d) =
     (case fail_or_retry c i k n l f d of
        (Inl e, d') \<Rightarrow> (Some e, t, d') | (Inr _, d') \<Rightarrow> (None, t, d'))"
| "end_work c i n k l HandBack (t, d) =
     (case release_claim c i k l d of
        (ok, d') \<Rightarrow> (if ok then None else Some (QueueStateError []), t, d'))"

lemma end_work_stale:
  "\<not> lease_live k l d \<Longrightarrow> \<exists>e. end_work c i n k l w (t, d) = (Some e, t, d)"
  by (cases w) (simp_all add: stale_operations)

interpretation queue_lease: lease_store queue_step "\<lambda>s. queue_ok (fst s) (snd s)" fst
  "\<lambda>k l s. lease_live k l (snd s)" "end_work c i n" for c i n
proof (unfold_locales, goal_cases)
  case (1 s s')
  then show ?case
    using queue_ok_step [of "fst s" "snd s" "fst s'" "snd s'"] by simp
next
  case (2 s s')
  then show ?case
    using step_time [of "fst s" "snd s" "fst s'" "snd s'"] by simp
next
  case (3 s s' l k)
  then show ?case
    using step_lease [of "fst s" "snd s" "fst s'" "snd s'" l] unfolding lease_live_def
    by (metis core_fields(5) prod.collapse)
next
  case (4 k l s w)
  then show ?case
    using end_work_stale [of k l "snd s" c i n w "fst s"] by auto
qed

section \<open>A queue in use\<close>

text \<open>
  A queue with one submission of tenant 5, which is claimed at time 2 and lands at time 3. Each
  reading of the clock at step \<open>n\<close> is \<open>n\<close>.
\<close>

definition example_tenant :: "uuid \<Rightarrow> tenant" where
  "example_tenant x =
     \<lparr>tenant_pk = x, slug = lit ''team'', tenant_status = Active, repo = lit ''repo'',
      slack_team_id = None, last_claimed_at = None\<rparr>"

definition example_conn :: "uuid \<Rightarrow> conn" where
  "example_conn x = \<lparr>tenant_setting = Some x, scope_setting = [], in_failed_transaction = False\<rparr>"

definition example_at :: "timestamp \<Rightarrow> instants" where
  "example_at n = \<lparr>now = n, clock_started = n, clock_budget = n, clock_lease = n, clock_served = n\<rparr>"

definition example_args :: enqueue_args where
  "example_args =
     \<lparr>arg_operation = Capture, arg_item_id = 7, arg_key = lit ''key'',
      arg_actor = \<lparr>subject = lit ''ana'', display_name = lit ''Ana''\<rparr>, arg_acl = None,
      arg_request = fmempty, arg_decision = None\<rparr>"

definition example_landing :: landing where
  "example_landing =
     \<lparr>landed_source = [], landed_sha = lit ''sha'', landed_change = None, landed_extraction = None,
      landed_report = None\<rparr>"

definition example_db0 :: db where
  "example_db0 =
     \<lparr>queue_rows = [], erasures = [], tenants = [example_tenant 5, example_tenant 6], wakes = 2\<rparr>"

definition example_row :: item where
  "example_row = inserted_row 5 1 example_args"

definition example_db1 :: db where
  "example_db1 = run_command (example_conn 5) (example_at 1) (Enqueue example_args) example_db0"

definition example_db2 :: db where
  "example_db2 = run_command (example_conn 5) (example_at 2) (ClaimNext [] 60) example_db1"

definition example_db3 :: db where
  "example_db3 =
     run_command (example_conn 5) (example_at 3) (FinishLanded 7 1 2 example_landing) example_db2"

lemmas example_defs = example_tenant_def example_conn_def example_at_def example_args_def
  example_landing_def example_row_def

lemma example_db0_ok: "queue_ok 0 example_db0"
  by (simp add: queue_ok_def declared_constraints_def example_db0_def example_tenant_def)

lemma example_enqueue:
  "enqueue (example_conn 5) (example_at 1) example_args example_db0 =
     (Inr (example_row, True), example_db0\<lparr>queue_rows := [example_row], wakes := 3\<rparr>)"
  by (simp add: enqueue_def insert_item_def example_db0_def example_defs on_rows_def Let_def)

lemma example_db1: "example_db1 = example_db0\<lparr>queue_rows := [example_row], wakes := 3\<rparr>"
  by (simp add: example_db1_def example_enqueue)

lemma example_eligible: "eligible (example_conn 5) (example_at 2) [] example_db1 example_row"
  by (simp add: example_db1 eligible_def seen_def row_visible_def serves_def erasing_def
      example_db0_def example_defs inserted_row_def)

lemma example_seen: "seen (example_conn 5) q \<longleftrightarrow> tenant_id q = 5"
  by (auto simp: seen_def row_visible_def example_conn_def PLATFORM_def)

lemma example_claim:
  "claim_next (example_conn 5) (example_at 2) [] 60 example_db1 =
     (Some (claimed (example_at 2) 60 example_row),
      \<lparr>queue_rows = [claimed (example_at 2) 60 example_row], erasures = [],
       tenants = [(example_tenant 5)\<lparr>last_claimed_at := Some 2\<rparr>, example_tenant 6], wakes = 3\<rparr>)"
proof -
  have id: "tenant_id example_row = 5" "item_id example_row = 7"
    by (simp_all add: example_defs inserted_row_def)
  have "first_by (claim_key example_db1)
      (filter (eligible (example_conn 5) (example_at 2) [] example_db1) (queue_rows example_db1)) =
      Some example_row"
    using example_eligible by (simp add: example_db1)
  moreover have "update_item (example_conn 5) 7 (\<lambda>q. True) (claimed (example_at 2) 60) example_db1 =
      (Some (claimed (example_at 2) 60 example_row),
       example_db1\<lparr>queue_rows := [claimed (example_at 2) 60 example_row]\<rparr>)"
    by (simp add: update_item_def Let_def id example_seen on_rows_def example_db1)
  ultimately show ?thesis
    by (simp add: claim_next_def id)
       (simp add: example_db1 example_db0_def example_tenant_def example_at_def)
qed

lemma example_db2:
  "example_db2 = \<lparr>queue_rows = [claimed (example_at 2) 60 example_row], erasures = [],
     tenants = [(example_tenant 5)\<lparr>last_claimed_at := Some 2\<rparr>, example_tenant 6], wakes = 3\<rparr>"
  by (simp add: example_db2_def example_claim)

lemma example_ticks: "s < t \<Longrightarrow> ticks s (example_at t) t"
  by (simp add: ticks_def example_at_def)

lemma example_step1: "queue_step (0, example_db0) (1, example_db1)"
  unfolding example_db1_def by (rule step_command) (simp add: example_ticks)

lemma example_step2: "queue_step (1, example_db1) (2, example_db2)"
  unfolding example_db2_def by (rule step_command) (simp add: example_ticks)

lemma example_step3: "queue_step (2, example_db2) (3, example_db3)"
  unfolding example_db3_def by (rule step_command) (simp add: example_ticks)

lemma example_db1_ok: "queue_ok 1 example_db1"
  by (rule queue_ok_step [OF example_step1 example_db0_ok])

lemma example_db2_ok: "queue_ok 2 example_db2"
  by (rule queue_ok_step [OF example_step2 example_db1_ok])

lemma example_db3_ok: "queue_ok 3 example_db3"
  by (rule queue_ok_step [OF example_step3 example_db2_ok])

lemma example_db3_rows:
  "queue_rows example_db3 =
     [landed (example_at 3) example_landing (claimed (example_at 2) 60 example_row)]"
  by (simp add: example_db3_def finish_landed_def update_item_def Let_def example_db2 on_rows_def
      example_seen holds_def claimed_def example_row_def example_args_def example_at_def inserted_row_def)

section \<open>Properties\<close>

text \<open>
  C4. Every reachable queue is well formed: a queued item holds no lease and has at most two
  attempts behind it, an item in processing holds a lease taken by now, has its budget deadline set
  and is in its first, second or third attempt, a finished item holds no lease and has its finish
  time, and the identifiers, the idempotency keys and the tenant references stay what the tables
  declare.
\<close>

theorem queue_invariant:
  assumes "queue_step\<^sup>*\<^sup>* (t, d) (t', d')" "queue_ok t d"
  shows "declared_constraints d' \<and> (\<forall>q \<in> set (queue_rows d'). row_ok t' q)"
  using queue_lease.ok_run [OF assms(1)] assms(2) by (simp add: queue_ok_def)

theorem queue_invariant_witness:
  "declared_constraints example_db3 \<and>
   row_ok 3 (landed (example_at 3) example_landing (claimed (example_at 2) 60 example_row))"
proof -
  have "queue_step\<^sup>*\<^sup>* (0, example_db0) (3, example_db3)"
    by (rule rtranclp.rtrancl_into_rtrancl [OF rtranclp.rtrancl_into_rtrancl
        [OF r_into_rtranclp [of queue_step, OF example_step1] example_step2] example_step3])
  from queue_invariant [OF this example_db0_ok] show ?thesis
    by (simp add: example_db3_rows)
qed

text \<open>
  C1. Leases fence. Once a lease is lost, by expiry, by the end of the work or by being handed
  back, no run of the queue ever gives it back: at any later time the processor that still holds
  the stale claim is told so, landing, failing and handing back are refused, and they leave the
  queue as it is.
\<close>

theorem lost_lease_is_fenced:
  assumes "queue_step\<^sup>*\<^sup>* (t, d) (t', d')" "queue_ok t d" "l \<le> t" "\<not> lease_live k l d"
  shows "\<not> holds_lease c k n l d' \<and>
    (\<exists>m. finish_landed c i k n l r d' = (Inl (QueueStateError m), d')) \<and>
    (\<exists>m. fail_or_retry c i k n l f d' = (Inl (QueueStateError m), d')) \<and>
    release_claim c i k l d' = (False, d')"
proof -
  have "\<not> lease_live k l d'"
    using queue_lease.lost_stays_lost [OF assms(1)] assms(2-4) by simp
  then show ?thesis
    using raise_lost_lease_kind [of c k d'] by (auto simp: stale_operations)
qed

theorem lost_lease_is_fenced_witness:
  "\<not> holds_lease (example_conn 5) 7 1 1 example_db2 \<and>
   (\<exists>m. finish_landed (example_conn 5) (example_at 3) 7 1 1 example_landing example_db2 =
      (Inl (QueueStateError m), example_db2)) \<and>
   release_claim (example_conn 5) (example_at 3) 7 1 example_db2 = (False, example_db2) \<and>
   holds_lease (example_conn 5) 7 1 2 example_db2"
proof -
  have "\<not> lease_live 7 1 example_db1"
    by (simp add: lease_live_def example_db1 example_row_def inserted_row_def)
  moreover have "holds_lease (example_conn 5) 7 1 2 example_db2"
    by (simp add: holds_lease_def example_db2 example_seen holds_def claimed_def example_row_def
        example_args_def example_at_def inserted_row_def)
  ultimately show ?thesis
    using lost_lease_is_fenced [OF r_into_rtranclp [of queue_step, OF example_step2] example_db1_ok,
        of 1 7 "example_conn 5" 1 "example_at 3" example_landing] by simp
qed



end
