(* ===== verification/Queue_Claim.thy ===== *)
theory Queue_Claim
  imports Queue_Safety
begin

text \<open>
  What a claim picks and in which order tenants are served, what an expiry sweep does, and what
  enqueueing under an idempotency key and the row policy guarantee.
\<close>

section \<open>The claim\<close>

text \<open>When a tenant was last served, if it is active and ever was.\<close>

definition stamp :: "db \<Rightarrow> uuid \<Rightarrow> timestamp option" where
  "stamp d x = Option.bind (find (\<lambda>t. tenant_pk t = x \<and> tenant_status t = Active) (tenants d))
     last_claimed_at"

lemma claim_key_stamp: "claim_key d q = (stamp d (tenant_id q), created_at q, item_id q)"
  by (simp add: claim_key_def stamp_def serves_def)

lemma claim_next_picks:
  assumes "claim_next c i locked b d = (Some r, d')" "distinct (map item_id (queue_rows d))"
  shows "\<exists>q \<in> set (queue_rows d). eligible c i locked d q \<and> r = claimed i (max 1 b) q \<and>
    (\<forall>x \<in> set (queue_rows d). eligible c i locked d x \<longrightarrow> claim_key d q \<le> claim_key d x) \<and>
    queue_rows d' = update_where (\<lambda>x. x = q) (claimed i (max 1 b)) (queue_rows d) \<and>
    tenants d' = update_where (\<lambda>t. tenant_pk t = tenant_id q)
         (\<lambda>t. t\<lparr>last_claimed_at := Some (clock_served i)\<rparr>) (tenants d)"
proof (cases rule: claim_next_cases [of c i locked d b])
  case none
  then show ?thesis
    using assms(1) by simp
next
  case (one q d1)
  have seen: "seen c q"
    using one(2) by (simp add: eligible_def)
  have "update_where (\<lambda>r. seen c r \<and> item_id r = item_id q) (claimed i (max 1 b)) (queue_rows d) =
      update_where (\<lambda>x. x = q) (claimed i (max 1 b)) (queue_rows d)"
    unfolding update_where_def
    by (rule map_cong [OF refl]) (use distinct_ids [OF assms(2) _ one(1)] seen in auto)
  then show ?thesis
    using one assms(1) update_item_unique [OF assms(2) one(1) seen, of "\<lambda>_. True"] by auto
qed

lemma claim_next_None:
  "fst (claim_next c i locked b d) = None \<Longrightarrow> distinct (map item_id (queue_rows d)) \<Longrightarrow>
     (\<forall>q \<in> set (queue_rows d). \<not> eligible c i locked d q) \<and> snd (claim_next c i locked b d) = d"
proof (cases rule: claim_next_cases [of c i locked d b])
  case (one q d')
  assume "fst (claim_next c i locked b d) = None" "distinct (map item_id (queue_rows d))"
  with one show ?thesis
    using update_item_unique [of d q c "\<lambda>_. True"] by (simp add: eligible_def)
qed (simp add: filter_empty_conv)

section \<open>Tenants take turns\<close>

text \<open>
  A stretch of the queue's life in which the writer's claims serve the tenants listed, other
  statements come in between, and tenant \<open>B\<close> has due work at every claim.
\<close>

inductive serving :: "conn \<Rightarrow> uuid \<Rightarrow> timestamp \<times> db \<Rightarrow> uuid list \<Rightarrow> timestamp \<times> db \<Rightarrow> bool"
  for c B s where
  serving_nil: "serving c B s [] s"
| serving_other: "serving c B s xs (t, d) \<Longrightarrow> queue_step (t, d) (t', d') \<Longrightarrow>
    tenants d' = tenants d \<Longrightarrow> serving c B s xs (t', d')"
| serving_claim: "serving c B s xs (t, d) \<Longrightarrow> ticks t i t' \<Longrightarrow>
    (\<exists>q \<in> set (queue_rows d). tenant_id q = B \<and> eligible c i locked d q) \<Longrightarrow>
    claim_next c i locked b d = (Some r, d') \<Longrightarrow> serving c B s (xs @ [tenant_id r]) (t', d')"

lemma serving_run: "serving c B s xs s' \<Longrightarrow> queue_step\<^sup>*\<^sup>* s s'"
proof (induction rule: serving.induct)
  case (serving_claim xs t d i t' locked b r d')
  have "queue_step (t, d) (t', run_command c i (ClaimNext locked b) d)"
    using serving_claim.hyps(2) by (rule step_command)
  then show ?case
    using serving_claim.IH serving_claim.hyps(4) by (simp add: rtranclp.rtrancl_into_rtrancl)
qed (auto intro: rtranclp.rtrancl_into_rtrancl)

lemma find_update_where_tenant:
  assumes "distinct (map tenant_pk ts)"
  shows "find (\<lambda>t. tenant_pk t = x \<and> tenant_status t = Active)
      (update_where (\<lambda>t. tenant_pk t = k) (\<lambda>t. t\<lparr>last_claimed_at := s\<rparr>) ts) =
    map_option (\<lambda>t. if x = k then t\<lparr>last_claimed_at := s\<rparr> else t)
      (find (\<lambda>t. tenant_pk t = x \<and> tenant_status t = Active) ts)"
  by (induction ts) auto

lemma stamp_after_claim:
  assumes "claim_next c i locked b d = (Some r, d')" "queue_ok t d"
  shows "stamp d' (tenant_id r) = Some (clock_served i)"
    "x \<noteq> tenant_id r \<Longrightarrow> stamp d' x = stamp d x"
    "tenant_id r \<in> tenant_pk ` set (tenants d)" "map tenant_pk (tenants d') = map tenant_pk (tenants d)"
    "\<And>q. q \<in> set (queue_rows d) \<Longrightarrow> eligible c i locked d q \<Longrightarrow> stamp d (tenant_id r) \<le> stamp d (tenant_id q)"
proof -
  have dc: "declared_constraints d"
    using assms(2) by (simp add: queue_ok_def)
  obtain q where q: "q \<in> set (queue_rows d)" "eligible c i locked d q" "r = claimed i (max 1 b) q"
    "\<forall>x \<in> set (queue_rows d). eligible c i locked d x \<longrightarrow> claim_key d q \<le> claim_key d x"
    "tenants d' = update_where (\<lambda>t. tenant_pk t = tenant_id q)
         (\<lambda>t. t\<lparr>last_claimed_at := Some (clock_served i)\<rparr>) (tenants d)"
    using claim_next_picks [OF assms(1) declared_constraintsD(1) [OF dc]] by blast
  have tid: "tenant_id r = tenant_id q"
    by (simp add: q(3) claimed_def)
  note find = find_update_where_tenant [OF declared_constraintsD(3) [OF dc]]
  obtain u where u: "serves d q = Some u"
    using q(2) by (auto simp: eligible_def)
  then show "stamp d' (tenant_id r) = Some (clock_served i)"
    by (simp add: stamp_def q(5) tid find serves_def)
  show "stamp d' x = stamp d x" if "x \<noteq> tenant_id r"
    using that by (simp add: stamp_def q(5) tid find option.map_id0 flip: id_def)
  show "tenant_id r \<in> tenant_pk ` set (tenants d)"
    using u by (force simp: tid serves_def dest!: find_eq_Some_in)
  show "map tenant_pk (tenants d') = map tenant_pk (tenants d)"
    unfolding q(5) by (rule map_update_where) simp
  show "stamp d (tenant_id r) \<le> stamp d (tenant_id x)"
    if "x \<in> set (queue_rows d)" "eligible c i locked d x" for x
    using q(4) that by (auto simp: claim_key_stamp tid less_eq_prod_def)
qed

lemma stamp_bound:
  assumes "queue_ok t d" "stamp d x = Some s"
  shows "s \<le> t"
  using assms by (auto simp: queue_ok_def stamp_def bind_eq_Some_conv dest!: find_eq_Some_in)

lemma serving_turns:
  assumes "serving c B (t0, d0) xs (t, d)" "queue_ok t0 d0" "B \<notin> set xs"
  shows "distinct xs \<and> set xs \<subseteq> tenant_pk ` set (tenants d0) - {B} \<and>
    (\<forall>x \<in> set xs. stamp d B < stamp d x) \<and>
    map tenant_pk (tenants d) = map tenant_pk (tenants d0) \<and>
    (xs \<noteq> [] \<longrightarrow> B \<in> tenant_pk ` set (tenants d0))"
  using assms(1,3)
proof (induction xs "(t, d)" arbitrary: t d rule: serving.induct)
  case (serving_other xs t d t' d')
  then show ?case
    by (simp add: stamp_def)
next
  case (serving_claim xs t d i t' locked b r d')
  have ok: "queue_ok t d"
    using queue_ok_run [OF serving_run [OF serving_claim.hyps(1)]] assms(2) by simp
  note after = stamp_after_claim [OF serving_claim.hyps(5) ok]
  obtain q where q: "q \<in> set (queue_rows d)" "tenant_id q = B" "eligible c i locked d q"
    using serving_claim.hyps(4) by blast
  have IH: "distinct xs" "set xs \<subseteq> tenant_pk ` set (tenants d0) - {B}"
    "\<forall>x \<in> set xs. stamp d B < stamp d x"
    "map tenant_pk (tenants d) = map tenant_pk (tenants d0)"
    using serving_claim.hyps(2) serving_claim.prems by auto
  have B: "B \<noteq> tenant_id r"
    using serving_claim.prems by auto
  have new: "tenant_id r \<notin> set xs"
    using after(5) [OF q(1,3)] IH(3) q(2) by (auto dest: leD)
  have "stamp d B < Some (clock_served i)"
    using stamp_bound [OF ok, of B] serving_claim.hyps(3) by (cases "stamp d B") (auto simp: ticks_def)
  then have "\<forall>x \<in> set (xs @ [tenant_id r]). stamp d' B < stamp d' x"
    using IH(3) new after(1) after(2) [of B] after(2) B by (auto simp: neq_commute)
      (metis after(2) B new)
  moreover have "tenant_pk ` set (tenants d) = tenant_pk ` set (tenants d0)"
    using arg_cong [OF IH(4), of set] by simp
  moreover have "B \<in> tenant_pk ` set (tenants d)"
    using q(3) by (auto simp: eligible_def serves_def q(2) dest!: find_eq_Some_in)
  ultimately show ?case
    using IH new after(3,4) B by auto
qed simp

section \<open>Idempotency\<close>

lemma enqueue_created:
  assumes "enqueue c i a d = (Inr (r, True), d')"
  shows "\<exists>x. tenant_setting c = Some x \<and> r = inserted_row x (now i) a \<and>
    queue_rows d' = queue_rows d @ [r]"
  using assms
  by (auto simp: enqueue_def insert_item_def Let_def on_rows_def find_idempotent_def and_then_def
      split: option.splits if_splits prod.splits sum.splits)

lemma keys_unique:
  assumes "queue_ok t d" "q \<in> set (queue_rows d)" "r \<in> set (queue_rows d)" "queue_key q = queue_key r"
  shows "q = r"
  using assms by (auto simp: queue_ok_def declared_constraints_def distinct_map dest: inj_onD)

lemma find_unique:
  assumes "q \<in> set rows" "P q" "\<And>r. r \<in> set rows \<Longrightarrow> P r \<Longrightarrow> r = q"
  shows "find P rows = Some q"
proof (cases "find P rows")
  case None
  then show ?thesis
    using assms(1,2) by (auto simp: find_None_iff)
next
  case (Some r)
  then show ?thesis
    using find_eq_Some_in [OF Some] assms(3) by blast
qed

lemma enqueue_known_key:
  assumes "queue_ok t d" "q \<in> set (queue_rows d)" "acts_for c x"
    and "queue_key q = (x, subject (arg_actor a), arg_key a)"
  shows "enqueue c i a d =
    (if operation q = arg_operation a \<and> equivalent_request (request q) (arg_request a)
     then Inr (q, False)
     else Inl (SubmissionRejected
            (lit ''idempotency key was already used for a different request'')), d)"
proof -
  have tenant: "tenant_setting c = Some x"
    using assms(3) by (simp add: acts_for_def)
  have "queue_key (inserted_row x (now i) a) = queue_key q"
    using assms(4) by (simp add: inserted_row_def queue_key_def)
  then have insert: "insert_item c i a d = (Inr None, d)"
    using assms(2) by (simp add: insert_item_def tenant Let_def)
  have "find (\<lambda>q. seen c q \<and> submitted_by q = subject (arg_actor a) \<and> idempotency_key q = arg_key a)
      (queue_rows d) = Some q"
  proof (rule find_unique [OF assms(2)])
    show "seen c q \<and> submitted_by q = subject (arg_actor a) \<and> idempotency_key q = arg_key a"
      using assms(3,4) by (simp add: seen_def acts_for_visible queue_key_def)
    show "r = q" if "r \<in> set (queue_rows d)"
      "seen c r \<and> submitted_by r = subject (arg_actor a) \<and> idempotency_key r = arg_key a" for r
      using keys_unique [OF assms(1) that(1) assms(2)] that(2) assms(3,4)
      by (simp add: seen_def acts_for_visible queue_key_def)
  qed
  then show ?thesis
    by (simp add: enqueue_def insert find_idempotent_def)
qed

section \<open>Isolation\<close>

definition others :: "uuid \<Rightarrow> db \<Rightarrow> item list" where
  "others x d = filter (\<lambda>q. tenant_id q \<noteq> x) (queue_rows d)"

lemma others_update:
  assumes "\<And>q. P q \<Longrightarrow> tenant_id q = x" "\<And>q. tenant_id (f q) = tenant_id q"
  shows "filter (\<lambda>q. tenant_id q \<noteq> x) (update_where P f rows) = filter (\<lambda>q. tenant_id q \<noteq> x) rows"
  by (rule filter_update_where) (use assms in auto)

lemma acts_for_seen: "acts_for c x \<Longrightarrow> seen c q \<longleftrightarrow> tenant_id q = x"
  by (simp add: seen_def acts_for_visible)

lemma others_update_item:
  assumes "acts_for c x" "\<And>q. tenant_id (f q) = tenant_id q"
  shows "others x (snd (update_item c k P f d)) = others x d"
  unfolding others_def rows_of_update_item
  by (rule others_update) (auto simp: assms acts_for_seen [OF assms(1)])

lemma others_run_command:
  assumes "acts_for c x" "distinct (map item_id (queue_rows d))"
  shows "others x (run_command c i cmd d) = others x d"
proof (cases cmd)
  case (Enqueue a)
  then show ?thesis
    using enqueue_rows [of c i a d] assms(1) by (auto simp: others_def acts_for_def inserted_row_def)
next
  case (ClaimNext locked b)
  then show ?thesis
  proof (cases rule: claim_next_cases [of c i locked d b])
    case (one q d')
    then show ?thesis
      using others_update [of "\<lambda>r. seen c r \<and> item_id r = item_id q" x "claimed i (max 1 b)"]
      by (simp add: ClaimNext others_def acts_for_seen [OF assms(1)] claimed_def)
  qed simp
next
  case (ReleaseExpired locked v b)
  have "queue_rows (run_command c i cmd d) =
      update_where (\<lambda>q. q \<in> set (expired c i locked (max 0 v) (max 1 b) d))
        (\<lambda>q. if attempts q \<le> MAX_ATTEMPTS then expired_to_queue i q else expired_to_failed i q)
        (queue_rows d)"
    by (simp add: ReleaseExpired release_expired_rows [OF assms(2)] update_where_def)
  moreover have "tenant_id q = x" if "q \<in> set (expired c i locked (max 0 v) (max 1 b) d)" for q
    using in_expired [OF that] acts_for_seen [OF assms(1)] by simp
  ultimately show ?thesis
    unfolding others_def
    by (simp only:) (rule others_update, simp_all add: expired_to_queue_def expired_to_failed_def)
next
  case (FinishLanded k n l r)
  then show ?thesis
    by (cases rule: finish_landed_cases [of d c k n l i r])
       (simp_all add: others_update_item [OF assms(1)] landed_def)
next
  case (FailOrRetry k n l f)
  then show ?thesis
    by (cases rule: fail_or_retry_cases [of d c k n l i f])
       (simp_all add: others_update_item [OF assms(1)] ended_def)
next
  case (RetryFailed k)
  then show ?thesis
    using others_update_item [OF assms(1), of "requeued i" k "\<lambda>q. status q = Failed" d]
    by (simp add: others_def retry_failed_rows requeued_def)
qed (simp_all add: record_extraction_def release_claim_snd others_update_item [OF assms(1)]
       handed_back_def)

section \<open>Equivalent requests\<close>

definition volatile_keys :: "pystr set" where
  "volatile_keys = {lit ''capture_id'', lit ''operation_id'', lit ''idempotency_key''}"

lemma origin_not_volatile: "lit ''origin'' \<notin> volatile_keys"
  by (simp add: volatile_keys_def)

lemma origin_of_normalized:
  "origin_of (fmdrop (lit ''idempotency_key'') (fmdrop (lit ''operation_id'')
     (fmdrop (lit ''capture_id'') v))) = origin_of v"
  by (simp add: origin_of_def)

lemma lookup_semantic:
  "fmlookup (semantic v) k =
     (if k \<in> volatile_keys then None
      else if k = lit ''origin'' \<and> fmdrop (lit ''captured_at'') (origin_of v) \<noteq> fmempty
      then Some (JObject (fmdrop (lit ''captured_at'') (origin_of v)))
      else fmlookup v k)"
  using origin_not_volatile
  by (auto simp: semantic_def Let_def origin_of_normalized volatile_keys_def simp del: lit_Cons lit_Nil)

section \<open>Expiry\<close>

definition due :: "conn \<Rightarrow> instants \<Rightarrow> uuid list \<Rightarrow> int \<Rightarrow> db \<Rightarrow> item set" where
  "due c i locked v d = {q \<in> set (queue_rows d). seen c q \<and> status q = Processing \<and>
     lease_expired i v q \<and> item_id q \<notin> set locked}"

lemma distinct_rows: "distinct (map item_id rows) \<Longrightarrow> distinct rows"
  by (simp add: distinct_map)

lemma length_expired:
  assumes "distinct (map item_id (queue_rows d))"
  shows "length (expired c i locked v b d) = min (nat b) (card (due c i locked v d))"
    "set (expired c i locked v b d) \<subseteq> due c i locked v d"
proof -
  let ?all = "filter (\<lambda>q. item_id q \<notin> set locked) (sort_key started_key
    (filter (\<lambda>q. seen c q \<and> status q = Processing \<and> lease_expired i v q) (queue_rows d)))"
  have "distinct ?all"
    using distinct_rows [OF assms] by simp
  moreover have "set ?all = due c i locked v d"
    by (auto simp: due_def)
  ultimately have all: "length ?all = card (due c i locked v d)"
    using distinct_card [of ?all] by simp
  show "length (expired c i locked v b d) = min (nat b) (card (due c i locked v d))"
    unfolding expired_def length_take all by (rule min.commute)
  show "set (expired c i locked v b d) \<subseteq> due c i locked v d"
    using in_expired by (fastforce simp: due_def)
qed

lemma release_expired_counts:
  "fst (release_expired c i locked v b d) =
     (length (filter (\<lambda>q. attempts q \<le> MAX_ATTEMPTS) (expired c i locked (max 0 v) (max 1 b) d)),
      length (filter (\<lambda>q. attempts q > MAX_ATTEMPTS) (expired c i locked (max 0 v) (max 1 b) d)))"
  by (simp add: release_expired_def Let_def)

lemma length_filter_split:
  "length (filter (\<lambda>q. f q \<le> (n::nat)) xs) + length (filter (\<lambda>q. f q > n) xs) = length xs"
  by (induction xs) auto

section \<open>Properties\<close>

text \<open>
  The claim picks fairly and completely: it returns nothing only when no due item is eligible,
  and then changes nothing; otherwise it returns an eligible item that is least by the time its
  tenant was last served, its creation time and its identifier, marked as in processing under a
  fresh lease with one more attempt and with the budget deadline of its first claim, and it changes
  no other row.
\<close>

theorem claim_next_picks_least:
  assumes "queue_ok t d"
  shows "case claim_next c i locked b d of
      (None, d') \<Rightarrow> d' = d \<and> \<not> (\<exists>q \<in> set (queue_rows d). eligible c i locked d q)
    | (Some r, d') \<Rightarrow> (\<exists>q \<in> set (queue_rows d). eligible c i locked d q \<and>
        r = claimed i (max 1 b) q \<and>
        \<not> (\<exists>x \<in> set (queue_rows d). eligible c i locked d x \<and> claim_key d x < claim_key d q) \<and>
        queue_rows d' = map (\<lambda>x. if x = q then r else x) (queue_rows d))"
proof (cases "claim_next c i locked b d")
  case (Pair o1 d')
  note ids = queue_ok_ids [OF assms]
  show ?thesis
  proof (cases o1)
    case None
    then show ?thesis
      using claim_next_None [OF _ ids, of c i locked b] Pair by auto
  next
    case (Some r)
    then show ?thesis
      using claim_next_picks [OF _ ids, of c i locked b r d'] Pair
      by (fastforce simp: update_where_def not_less)
  qed
qed

theorem claim_next_picks_least_witness:
  "\<exists>q \<in> set (queue_rows example_db1). eligible (example_conn 5) (example_at 2) [] example_db1 q \<and>
     claimed (example_at 2) 60 example_row = claimed (example_at 2) 60 q"
  using claim_next_picks_least [OF example_db1_ok, of "example_conn 5" "example_at 2" "[]" 60]
  by (simp add: example_claim) blast

text \<open>
  C3. Tenants take turns: while a tenant has due work at every claim and is not served, no other
  tenant is served twice, so it waits for fewer claims than there are tenants, whatever backlog the
  others have and whatever other statements come in between.
\<close>

theorem claims_take_turns:
  assumes "serving c B (t, d) xs (t', d')" "queue_ok t d" "B \<notin> set xs"
  shows "distinct xs \<and> length xs \<le> length (tenants d) - 1"
proof -
  note turns = serving_turns [OF assms]
  let ?pks = "tenant_pk ` set (tenants d)"
  have "length xs = card (set xs)"
    using turns by (simp add: distinct_card)
  also have "\<dots> \<le> card (?pks - {B})"
    using turns by (intro card_mono) auto
  also have "\<dots> \<le> length (tenants d) - 1" if "xs \<noteq> []"
    using turns that card_image_le [of "set (tenants d)" tenant_pk] card_length [of "tenants d"]
    by (simp add: card_Diff_singleton)
  finally show ?thesis
    using turns by (cases "xs = []") auto
qed

text \<open>The writer sees every tenant; tenant 6 submits while tenant 5's item waits.\<close>

definition example_platform :: conn where
  "example_platform =
     \<lparr>tenant_setting = None, scope_setting = PLATFORM, in_failed_transaction = False\<rparr>"

definition example_row6 :: item where
  "example_row6 = inserted_row 6 2 (example_args\<lparr>arg_item_id := 8\<rparr>)"

definition example_db6 :: db where
  "example_db6 =
     run_command (example_conn 6) (example_at 2) (Enqueue (example_args\<lparr>arg_item_id := 8\<rparr>)) example_db1"

lemma example_rows_fields:
  "item_id example_row = 7" "tenant_id example_row = 5" "status example_row = Queued"
  "next_attempt_at example_row = 1" "created_at example_row = 1" "item_acl example_row = None"
  "item_id example_row6 = 8" "tenant_id example_row6 = 6" "status example_row6 = Queued"
  "next_attempt_at example_row6 = 2" "created_at example_row6 = 2" "item_acl example_row6 = None"
  by (simp_all add: example_row_def example_row6_def inserted_row_def example_args_def)

lemma example_db6_rows:
  "queue_rows example_db6 = [example_row, example_row6]" "erasures example_db6 = []"
  "tenants example_db6 = [example_tenant 5, example_tenant 6]"
proof -
  have "queue_key example_row \<noteq> queue_key (inserted_row 6 2 (example_args\<lparr>arg_item_id := 8\<rparr>))"
    by (simp add: queue_key_def example_row_def inserted_row_def)
  then have "insert_item (example_conn 6) (example_at 2) (example_args\<lparr>arg_item_id := 8\<rparr>) example_db1 =
      (Inr (Some example_row6), example_db1\<lparr>queue_rows := [example_row, example_row6]\<rparr>)"
    by (simp add: insert_item_def example_db1 example_conn_def Let_def example_at_def on_rows_def
        example_row6_def example_rows_fields example_db0_def example_tenant_def)
       (simp add: inserted_row_def example_args_def)
  then show "queue_rows example_db6 = [example_row, example_row6]" "erasures example_db6 = []"
    "tenants example_db6 = [example_tenant 5, example_tenant 6]"
    by (simp_all add: example_db6_def enqueue_def example_db1 example_db0_def)
qed

lemma example_db6_ok: "queue_ok 2 example_db6"
proof (rule queue_ok_step [OF _ example_db1_ok])
  show "queue_step (1, example_db1) (2, example_db6)"
    unfolding example_db6_def by (rule step_command) (simp add: example_ticks)
qed

lemma example_db6_eligible:
  "q \<in> {example_row, example_row6} \<Longrightarrow>
     eligible example_platform (example_at 3) [] example_db6 q"
  by (auto simp: eligible_def seen_def row_visible_def example_platform_def example_rows_fields
      example_at_def serves_def erasing_def example_db6_rows example_tenant_def)

theorem claims_take_turns_witness:
  "\<exists>r d'. claim_next example_platform (example_at 3) [] 60 example_db6 = (Some r, d') \<and>
     tenant_id r = 5 \<and> distinct [tenant_id r] \<and> length [tenant_id r] \<le> 2 - 1"
proof -
  have "first_by (claim_key example_db6) (filter (eligible example_platform (example_at 3) [] example_db6)
      (queue_rows example_db6)) = Some example_row"
    by (simp add: example_db6_rows example_db6_eligible claim_key_stamp example_rows_fields stamp_def
        example_tenant_def less_eq_prod_def)
  then obtain r d' where claim: "claim_next example_platform (example_at 3) [] 60 example_db6 = (Some r, d')"
    "tenant_id r = 5"
    using update_item_unique [OF queue_ok_ids [OF example_db6_ok], of example_row example_platform
        "\<lambda>q. True" "claimed (example_at 3) 60"] example_db6_eligible [of example_row]
    by (auto simp: claim_next_def example_db6_rows eligible_def claimed_def example_rows_fields
        case_prod_beta)
  have "serving example_platform 6 (2, example_db6) ([] @ [tenant_id r]) (3, d')"
    by (rule serving_claim [OF serving_nil _ _ claim(1)])
       (use example_db6_eligible [of example_row6] in \<open>auto simp: example_ticks example_db6_rows
          example_rows_fields\<close>)
  from claims_take_turns [OF this example_db6_ok] claim show ?thesis
    by (simp add: example_db6_rows)
qed



text \<open>
  Two capture requests are the same submission exactly when they agree on every field but the
  generated identifiers, the idempotency key and the capture time inside their origin.
\<close>

theorem equivalent_request_iff:
  assumes "fmdrop (lit ''captured_at'') (origin_of l) \<noteq> fmempty"
    and "fmdrop (lit ''captured_at'') (origin_of r) \<noteq> fmempty"
  shows "equivalent_request l r \<longleftrightarrow>
    (\<forall>k. k \<notin> insert (lit ''origin'') volatile_keys \<longrightarrow> fmlookup l k = fmlookup r k) \<and>
    fmdrop (lit ''captured_at'') (origin_of l) = fmdrop (lit ''captured_at'') (origin_of r)"
proof
  assume "equivalent_request l r"
  then have same: "fmlookup (semantic l) k = fmlookup (semantic r) k" for k
    by (simp add: equivalent_request_def)
  have "fmlookup l k = fmlookup r k" if "k \<notin> insert (lit ''origin'') volatile_keys" for k
    using same [of k] that unfolding lookup_semantic by (simp del: lit_Cons lit_Nil)
  moreover have "fmdrop (lit ''captured_at'') (origin_of l) = fmdrop (lit ''captured_at'') (origin_of r)"
    using same [of "lit ''origin''"] assms origin_not_volatile unfolding lookup_semantic
    by (simp del: lit_Cons lit_Nil)
  ultimately show "(\<forall>k. k \<notin> insert (lit ''origin'') volatile_keys \<longrightarrow> fmlookup l k = fmlookup r k) \<and>
    fmdrop (lit ''captured_at'') (origin_of l) = fmdrop (lit ''captured_at'') (origin_of r)"
    by blast
next
  assume "(\<forall>k. k \<notin> insert (lit ''origin'') volatile_keys \<longrightarrow> fmlookup l k = fmlookup r k) \<and>
    fmdrop (lit ''captured_at'') (origin_of l) = fmdrop (lit ''captured_at'') (origin_of r)"
  then have "semantic l = semantic r"
    using assms by (intro fmap_ext) (auto simp: lookup_semantic)
  then show "equivalent_request l r"
    by (simp add: equivalent_request_def)
qed

theorem equivalent_request_iff_witness:
  "equivalent_request
     (fmupd (lit ''capture_id'') (JNum 1) (fmupd (lit ''origin'')
        (JObject (fmupd (lit ''captured_at'') (JNum 10) (fmupd (lit ''adapter'') JNull fmempty))) fmempty))
     (fmupd (lit ''capture_id'') (JNum 2) (fmupd (lit ''origin'')
        (JObject (fmupd (lit ''captured_at'') (JNum 20) (fmupd (lit ''adapter'') JNull fmempty))) fmempty))"
  (is "equivalent_request ?l ?r")
proof -
  have origin: "fmdrop (lit ''captured_at'') (origin_of (fmupd (lit ''capture_id'') x (fmupd (lit ''origin'')
      (JObject (fmupd (lit ''captured_at'') y (fmupd (lit ''adapter'') JNull fmempty))) fmempty))) =
    fmupd (lit ''adapter'') JNull fmempty" for x y
    by (simp add: origin_of_def) (rule fmap_ext, simp)
  show ?thesis
    using equivalent_request_iff [of ?l ?r] unfolding origin
    by (simp add: volatile_keys_def)
qed

text \<open>
  An expiry sweep: it takes up to a batch of the unlocked items whose lease has expired, and
  all of them when they fit, requeues those within their attempts and fails those beyond them,
  counts both, and leaves every other row alone.
\<close>

theorem expiry_sweep:
  assumes "queue_ok t d" "release_expired c i locked v b d = ((released, failed), d')"
  shows "\<exists>S. S \<subseteq> due c i locked (max 0 v) d \<and>
    released + failed = min (nat (max 1 b)) (card (due c i locked (max 0 v) d)) \<and>
    card S = released + failed \<and> released = card {q \<in> S. attempts q \<le> 2} \<and>
    queue_rows d' = map (\<lambda>q. if q \<notin> S then q
      else if attempts q \<le> 2 then expired_to_queue i q else expired_to_failed i q) (queue_rows d)"
proof -
  note ids = queue_ok_ids [OF assms(1)]
  let ?sel = "expired c i locked (max 0 v) (max 1 b) d"
  have distinct: "distinct ?sel"
    using distinct_expired [OF ids] by (rule distinct_rows)
  have counts: "released = length (filter (\<lambda>q. attempts q \<le> MAX_ATTEMPTS) ?sel)"
    "failed = length (filter (\<lambda>q. attempts q > MAX_ATTEMPTS) ?sel)"
    using release_expired_counts [of c i locked v b d] assms(2) by simp_all
  have total: "released + failed = length ?sel"
    unfolding counts by (rule length_filter_split)
  show ?thesis
  proof (intro exI conjI)
    show "set ?sel \<subseteq> due c i locked (max 0 v) d"
      by (rule length_expired(2) [OF ids])
    show "released + failed = min (nat (max 1 b)) (card (due c i locked (max 0 v) d))"
      unfolding total by (rule length_expired(1) [OF ids])
    show "card (set ?sel) = released + failed"
      unfolding total by (rule distinct_card [OF distinct])
    show "released = card {q \<in> set ?sel. attempts q \<le> 2}"
      using distinct_card [of "filter (\<lambda>q. attempts q \<le> MAX_ATTEMPTS) ?sel"] distinct
      unfolding counts(1) by (simp add: MAX_ATTEMPTS_def)
    show "queue_rows d' = map (\<lambda>q. if q \<notin> set ?sel then q
        else if attempts q \<le> 2 then expired_to_queue i q else expired_to_failed i q) (queue_rows d)"
      using release_expired_rows [OF ids, of c i locked v b] assms(2)
      by (auto simp: MAX_ATTEMPTS_def intro!: map_cong)
  qed
qed

theorem expiry_sweep_witness:
  "\<exists>S. S \<subseteq> due (example_conn 5) (example_at 2000000000) [] 900 example_db2 \<and> card S = 1 \<and>
     1 = card {q \<in> S. attempts q \<le> 2}"
proof -
  let ?row = "claimed (example_at 2) 60 example_row"
  have row: "tenant_id ?row = 5" "status ?row = Processing" "lease_started_at ?row = Some 2"
    "item_id ?row = 7" "attempts ?row = 1"
    by (simp_all add: claimed_def example_rows_fields example_at_def)
       (simp add: example_row_def inserted_row_def)
  have now: "now (example_at 2000000000) = 2000000000"
    by (simp add: example_at_def)
  have "expired (example_conn 5) (example_at 2000000000) [] 900 100 example_db2 = [?row]"
    by (simp add: expired_def example_db2 example_seen row lease_expired_def now
        make_interval_def)
  then have "fst (release_expired (example_conn 5) (example_at 2000000000) [] 900 100 example_db2) = (1, 0)"
    by (simp add: release_expired_counts row MAX_ATTEMPTS_def)
  then have "release_expired (example_conn 5) (example_at 2000000000) [] 900 100 example_db2 =
      ((1, 0), snd (release_expired (example_conn 5) (example_at 2000000000) [] 900 100 example_db2))"
    by (metis prod.collapse)
  from expiry_sweep [OF example_db2_ok this] show ?thesis
    by auto
qed

text \<open>
  C7. Tenants are isolated in the queue: a connection that acts for one tenant leaves every other
  tenant's rows as they were, whatever statement it runs and whatever identifiers it passes, and
  everything it reads belongs to its tenant.
\<close>

theorem queue_isolates_tenants:
  assumes "acts_for c x" "queue_ok t d"
  shows "filter (\<lambda>q. tenant_id q \<noteq> x) (queue_rows (run_command c i cmd d)) =
      filter (\<lambda>q. tenant_id q \<noteq> x) (queue_rows d) \<and>
    \<not> (\<exists>q. get_submission_trace c k submitter d = Some q \<and> tenant_id q \<noteq> x) \<and>
    \<not> (\<exists>qs q. query_submissions c submitter ss ds limit offset d = Inr qs \<and> q \<in> set qs \<and>
          tenant_id q \<noteq> x)"
  using others_run_command [OF assms(1) queue_ok_ids [OF assms(2)], of i cmd]
  by (auto simp: others_def get_submission_trace_def query_submissions_def
      acts_for_seen [OF assms(1)] split: if_splits dest!: find_eq_Some_in in_set_takeD in_set_dropD)

theorem queue_isolates_tenants_witness:
  "filter (\<lambda>q. tenant_id q \<noteq> 6) (queue_rows (run_command (example_conn 6) (example_at 2)
     (RecordExtraction 7 fmempty) example_db1)) = [example_row]"
proof -
  have "acts_for (example_conn 6) 6"
    by (simp add: acts_for_def example_conn_def)
  from queue_isolates_tenants [OF this example_db1_ok, of "example_at 2" "RecordExtraction 7 fmempty"]
  show ?thesis
    by (simp add: example_db1 example_rows_fields)
qed

end
