(* ===== verification/Py_Num.thy ===== *)
theory Py_Num
  imports Py_Text
begin

text \<open>Decimal numerals: \<open>str(n)\<close> of a natural number and \<open>int(s)\<close> of a run of ASCII digits.\<close>

function str_nat :: "nat \<Rightarrow> pystr" where
  "str_nat n = (if n < 10 then [48 + int n] else str_nat (n div 10) @ [48 + int (n mod 10)])"
  by pat_completeness auto
termination
  by (relation "measure id") auto

declare str_nat.simps [simp del]

definition digits_value :: "pystr \<Rightarrow> nat" where
  "digits_value = foldl (\<lambda>n c. 10 * n + nat (c - 48)) 0"

lemma str_nat_not_Nil [simp]: "str_nat n \<noteq> []"
  by (subst str_nat.simps) simp

lemma str_nat_digits: "c \<in> set (str_nat n) \<Longrightarrow> 48 \<le> c \<and> c \<le> 57"
proof (induction n rule: str_nat.induct)
  case (1 n)
  then show ?case
    by (subst (asm) (2) str_nat.simps) (auto split: if_splits)
qed

lemma digits_value_snoc: "digits_value (s @ [c]) = 10 * digits_value s + nat (c - 48)"
  by (simp add: digits_value_def)

lemma digits_value_str_nat [simp]: "digits_value (str_nat n) = n"
proof (induction n rule: str_nat.induct)
  case (1 n)
  show ?case
  proof (cases "n < 10")
    case True
    then show ?thesis
      by (subst str_nat.simps) (simp add: digits_value_def)
  next
    case False
    then show ?thesis
      using 1 by (subst str_nat.simps) (simp add: digits_value_snoc)
  qed
qed

lemma str_nat_inject [simp]: "str_nat m = str_nat n \<longleftrightarrow> m = n"
  by (metis digits_value_str_nat)

end
