(* ===== verification/Layer_Bodies.thy ===== *)
theory Layer_Bodies
  imports Layer_Paths "HOL-Library.Option_ord" "HOL-Library.Product_Lexorder" "HOL-Library.List_Lexorder" Py_Num
begin

text \<open>
  The bodies of layered pages: parsing a body into sections and units, rendering it back, separating
  a layer's additions from the public page, and fusing the pages of several layers into the one a
  reader sees. This is the second half of \<open>stigmergy/kernel/layers.py\<close>. The line loop of
  \<open>parse_body\<close> is a recursion over the remaining lines with the loop's variables as a record, and a
  date is its ISO digits read as a number, which orders dates as \<open>datetime.date\<close> does.
\<close>

section \<open>Unit keys\<close>

definition punctuation :: "int \<Rightarrow> int" where
  "punctuation c =
     (if c \<in> {8208, 8209, 8210, 8211, 8212, 8722} then 45
      else if c \<in> {8216, 8217} then 39
      else if c \<in> {8220, 8221} then 34
      else c)"

definition unit_key :: "unicode \<Rightarrow> pystr \<Rightarrow> pystr" where
  "unit_key u value = join [SP] (split_ws (map punctuation (nfkc u value)))"

section \<open>The shapes of lines\<close>

abbreviation HASH :: int where "HASH \<equiv> 35"

definition HEADING_RE :: "pystr \<Rightarrow> bool" where
  "HEADING_RE line \<longleftrightarrow>
     (let hashes = takeWhile (\<lambda>c. c = HASH) line; rest = dropWhile (\<lambda>c. c = HASH) line
      in 2 \<le> length hashes \<and> length hashes \<le> 6 \<and>
         takeWhile is_space rest \<noteq> [] \<and> dropWhile is_space rest \<noteq> [])"

text \<open>The bullet or number at the head of a text, without the space that must follow it.\<close>

definition bullet :: "unicode \<Rightarrow> pystr \<Rightarrow> nat option" where
  "bullet u s =
     (case s of
        [] \<Rightarrow> None
      | c # _ \<Rightarrow>
          if c \<in> {45, 42, 43} then Some 1
          else let digits = takeWhile (is_decimal u) s; rest = drop (length digits) s
               in if 1 \<le> length digits \<and> length digits \<le> 9 \<and> rest \<noteq> [] \<and> hd rest \<in> {46, 41}
                  then Some (Suc (length digits)) else None)"

text \<open>Where a match of \<open>_ITEM_RE\<close> ends.\<close>

definition ITEM_RE :: "unicode \<Rightarrow> pystr \<Rightarrow> nat option" where
  "ITEM_RE u s =
     (case bullet u s of
        None \<Rightarrow> None
      | Some n \<Rightarrow>
          let spaces = takeWhile is_space (drop n s)
          in if spaces = [] then None else Some (n + length spaces))"

definition CALLOUT_START :: pystr where
  "CALLOUT_START = lit ''<!-- stigmergy-contradiction-start:''"

definition CALLOUT_END :: pystr where
  "CALLOUT_END = lit ''<!-- stigmergy-contradiction-end:''"

definition fence :: pystr where "fence = [96, 96, 96]"

definition is_fence :: "pystr \<Rightarrow> bool" where
  "is_fence line \<longleftrightarrow> starts_with fence (strip line)"

text \<open>The date digits after optional space and bold marks: \<open>\s*(?:\*\*)?(\d{4}-\d{2}-\d{2})\b\<close>.\<close>

definition date_digits :: "unicode \<Rightarrow> pystr \<Rightarrow> pystr option" where
  "date_digits u s =
     (let t = dropWhile is_space s;
          r = (if starts_with [42, 42] t then drop 2 t else t);
          d = take 10 r; after = drop 10 r
      in if length d = 10 \<and>
            list_all (is_decimal u) (take 4 d @ take 2 (drop 5 d) @ drop 8 d) \<and>
            d ! 4 = 45 \<and> d ! 7 = 45 \<and> (after = [] \<or> \<not> is_word u (hd after))
         then Some d else None)"

definition DATE_RE :: "unicode \<Rightarrow> pystr \<Rightarrow> pystr option" where
  "DATE_RE u s =
     (case bullet u s of
        None \<Rightarrow> date_digits u s
      | Some n \<Rightarrow> (case date_digits u (drop n s) of Some d \<Rightarrow> Some d | None \<Rightarrow> date_digits u s))"

text \<open>The target of the first wikilink: \<open>\[\[([^\[\]|#]+)\<close>.\<close>

definition target_char :: "int \<Rightarrow> bool" where
  "target_char c \<longleftrightarrow> c \<notin> {91, 93, 124, 35}"

fun WIKILINK_RE :: "pystr \<Rightarrow> pystr option" where
  "WIKILINK_RE [] = None"
| "WIKILINK_RE (c # s) =
     (if starts_with [91, 91] (c # s) \<and> takeWhile target_char (drop 2 (c # s)) \<noteq> []
      then Some (takeWhile target_char (drop 2 (c # s)))
      else WIKILINK_RE s)"

section \<open>Bodies\<close>

datatype unit_kind = Item | Paragraph | Callout

record body_unit =
  kind_of :: unit_kind
  text_of :: pystr
  layer_of :: pystr

record section_block =
  heading :: "pystr option"
  units :: "body_unit list"

record body =
  title_line :: pystr
  sections :: "section_block list"

definition ukey :: "unicode \<Rightarrow> body_unit \<Rightarrow> pystr" where
  "ukey u x = unit_key u (text_of x)"

definition section_key :: "unicode \<Rightarrow> section_block \<Rightarrow> pystr option" where
  "section_key u s = map_option (\<lambda>h. casefold u (unit_key u h)) (heading s)"

section \<open>Parsing\<close>

text \<open>
  The loop's variables: the sections so far, the last of which is open, and the lines and kind of
  the unit being read.
\<close>

record scan =
  before :: "section_block list"
  open_section :: section_block
  current :: "pystr list"
  kind :: "unit_kind option"
  fenced :: bool

definition add_unit :: "body_unit \<Rightarrow> scan \<Rightarrow> scan" where
  "add_unit x st = st\<lparr>open_section := (open_section st)\<lparr>units := units (open_section st) @ [x]\<rparr>\<rparr>"

definition flush :: "pystr \<Rightarrow> scan \<Rightarrow> scan" where
  "flush layer st =
     (let st' = (if list_ex (\<lambda>line. \<not> blank line) (current st)
                 then add_unit \<lparr>kind_of = (case kind st of None \<Rightarrow> Paragraph | Some k \<Rightarrow> k),
                        text_of = strip_chars [NL] (join [NL] (current st)), layer_of = layer\<rparr> st
                 else st)
      in st'\<lparr>current := [], kind := None\<rparr>)"

definition open_heading :: "pystr \<Rightarrow> scan \<Rightarrow> scan" where
  "open_heading line st =
     st\<lparr>before := before st @ [open_section st],
        open_section := \<lparr>heading = Some (rstrip line), units = []\<rparr>\<rparr>"

definition push :: "pystr \<Rightarrow> scan \<Rightarrow> scan" where
  "push line st = st\<lparr>current := current st @ [line]\<rparr>"

text \<open>The inner loop of a callout: its lines up to the end mark, and the lines after it.\<close>

fun callout_lines :: "pystr list \<Rightarrow> pystr list \<times> pystr list" where
  "callout_lines [] = ([], [])"
| "callout_lines (line # rest) =
     (if starts_with CALLOUT_END line then ([line], rest)
      else let (block, after) = callout_lines rest in (line # block, after))"

lemma length_callout_lines: "length (snd (callout_lines rest)) \<le> length rest"
  by (induction rest) (auto split: prod.splits)

function scan_lines :: "unicode \<Rightarrow> pystr \<Rightarrow> pystr list \<Rightarrow> scan \<Rightarrow> scan" where
  "scan_lines u layer [] st = st"
| "scan_lines u layer (line # rest) st =
     (if fenced st
      then scan_lines u layer rest ((push line st)\<lparr>fenced := \<not> is_fence line\<rparr>)
      else if starts_with CALLOUT_START line
      then scan_lines u layer (snd (callout_lines rest))
             (add_unit \<lparr>kind_of = Callout, text_of = join [NL] (line # fst (callout_lines rest)),
                        layer_of = layer\<rparr> (flush layer st))
      else if is_fence line
      then scan_lines u layer rest
             ((push line (if kind st \<noteq> Some Item then (flush layer st)\<lparr>kind := Some Paragraph\<rparr> else st))
                \<lparr>fenced := True\<rparr>)
      else if HEADING_RE line
      then scan_lines u layer rest (open_heading line (flush layer st))
      else if blank line then scan_lines u layer rest (flush layer st)
      else if ITEM_RE u line \<noteq> None
      then scan_lines u layer rest (push line ((flush layer st)\<lparr>kind := Some Item\<rparr>))
      else scan_lines u layer rest
             (push line (if current st = [] then st\<lparr>kind := Some Paragraph\<rparr> else st)))"
  by pat_completeness auto
termination
  by (relation "measure (\<lambda>(u, layer, lines, st). length lines)")
     (auto simp: le_imp_less_Suc length_callout_lines)

definition H1 :: pystr where "H1 = lit ''# ''"

definition parse_body :: "unicode \<Rightarrow> pystr \<Rightarrow> pystr \<Rightarrow> body" where
  "parse_body u layer text =
     (let lines = dropWhile blank (split_on NL (strip_chars [NL] text));
          (title, rest) = (case lines of
              line # rest \<Rightarrow> if starts_with H1 line then (rstrip line, rest) else ([], lines)
            | [] \<Rightarrow> ([], []));
          st = flush layer (scan_lines u layer rest
                 \<lparr>before = [], open_section = \<lparr>heading = None, units = []\<rparr>, current = [],
                  kind = None, fenced = False\<rparr>)
      in \<lparr>title_line = title,
          sections = filter (\<lambda>s. heading s \<noteq> None \<or> units s \<noteq> [])
                       (before st @ [open_section st])\<rparr>)"

section \<open>Rendering\<close>

definition layer_tag :: "pystr \<Rightarrow> pystr" where
  "layer_tag layer = marker_open @ layer @ marker_close"

definition marked :: "unicode \<Rightarrow> body_unit \<Rightarrow> pystr" where
  "marked u x =
     (let text = escape_markers (text_of x) in
      if layer_of x = PUBLIC \<or> kind_of x = Callout then text
      else case ITEM_RE u text of
             Some n \<Rightarrow> take n text @ layer_tag (layer_of x) @ drop n text
           | None \<Rightarrow> layer_tag (layer_of x) @ text)"

text \<open>The units of one section: items in a run are one line apart, other units a blank line.\<close>

fun render_units :: "(body_unit \<Rightarrow> pystr) \<Rightarrow> unit_kind option \<Rightarrow> body_unit list \<Rightarrow> pystr" where
  "render_units f previous [] = []"
| "render_units f previous (x # xs) =
     (case previous of
        None \<Rightarrow> []
      | Some k \<Rightarrow> if k = Item \<and> kind_of x = Item then [NL] else [NL, NL])
     @ f x @ render_units f (Some (kind_of x)) xs"

definition render_section :: "(body_unit \<Rightarrow> pystr) \<Rightarrow> section_block \<Rightarrow> pystr option" where
  "render_section f s =
     (if units s = [] \<and> heading s \<noteq> None then None
      else let rendered = render_units f None (units s);
               chunk = (case heading s of None \<Rightarrow> [] | Some h \<Rightarrow> [h]) @
                       (if rendered \<noteq> [] then [rendered] else [])
           in if chunk \<noteq> [] then Some (join [NL] chunk) else None)"

definition render_body :: "unicode \<Rightarrow> bool \<Rightarrow> body \<Rightarrow> pystr" where
  "render_body u mark b =
     (let parts = (if title_line b \<noteq> [] then [title_line b] else []) @
            List.map_filter (render_section (if mark then marked u else text_of)) (sections b)
      in if parts \<noteq> [] then strip (join [NL, NL] parts) @ [NL] else [])"

section \<open>Combining bodies\<close>

definition valid_date :: "nat \<Rightarrow> nat \<Rightarrow> nat \<Rightarrow> bool" where
  "valid_date y mo d \<longleftrightarrow> 1 \<le> y \<and> 1 \<le> mo \<and> mo \<le> 12 \<and> 1 \<le> d \<and>
     d \<le> (if mo = 2 then (if 4 dvd y \<and> (\<not> 100 dvd y \<or> 400 dvd y) then 29 else 28)
          else if mo \<in> {4, 6, 9, 11} then 30 else 31)"

text \<open>\<open>date.fromisoformat\<close> of \<open>YYYY-MM-DD\<close>, which takes ASCII digits only.\<close>

definition iso_date :: "pystr \<Rightarrow> nat option" where
  "iso_date s =
     (let y = take 4 s; mo = take 2 (drop 5 s); d = drop 8 s in
      if list_all ascii_digit (y @ mo @ d) \<and> valid_date (digits_value y) (digits_value mo) (digits_value d)
      then Some (10000 * digits_value y + 100 * digits_value mo + digits_value d) else None)"

definition leading_date :: "unicode \<Rightarrow> body_unit \<Rightarrow> nat option" where
  "leading_date u x = Option.bind (DATE_RE u (text_of x)) iso_date"

fun dedupe_from ::
  "unicode \<Rightarrow> bool \<Rightarrow> pystr list \<Rightarrow> pystr list \<Rightarrow> body_unit list \<Rightarrow> body_unit list" where
  "dedupe_from u connections keys targets [] = []"
| "dedupe_from u connections keys targets (x # xs) =
     (if ukey u x \<in> set keys then dedupe_from u connections keys targets xs
      else let target = (if connections \<and> kind_of x = Item
                         then map_option (\<lambda>t. casefold u (strip t)) (WIKILINK_RE (text_of x))
                         else None)
           in case target of
                Some t \<Rightarrow>
                  if t \<in> set targets then dedupe_from u connections keys targets xs
                  else x # dedupe_from u connections (ukey u x # keys) (t # targets) xs
              | None \<Rightarrow> x # dedupe_from u connections (ukey u x # keys) targets xs)"

definition dedupe :: "unicode \<Rightarrow> bool \<Rightarrow> body_unit list \<Rightarrow> body_unit list" where
  "dedupe u connections xs = dedupe_from u connections [] [] xs"

definition dates_of :: "unicode \<Rightarrow> body_unit list \<Rightarrow> nat list option" where
  "dates_of u xs =
     (if list_all (\<lambda>x. leading_date u x \<noteq> None) xs then Some (map (\<lambda>x. the (leading_date u x)) xs)
      else None)"

text \<open>A section keeps the direction its first page wrote its dates in.\<close>

definition newest_first :: "unicode \<Rightarrow> section_block \<Rightarrow> bool" where
  "newest_first u s =
     (case dates_of u (units s) of
        None \<Rightarrow> False
      | Some dates \<Rightarrow> 1 < length (fromkeys dates) \<and> sorted (rev dates))"

definition by_date :: "unicode \<Rightarrow> bool \<Rightarrow> body_unit list \<Rightarrow> body_unit list" where
  "by_date u newest xs =
     (case dates_of u xs of
        None \<Rightarrow> xs
      | Some _ \<Rightarrow>
          if newest then sort_key (\<lambda>x. - int (the (leading_date u x))) xs
          else sort_key (\<lambda>x. the (leading_date u x)) xs)"

definition CONNECTIONS :: pystr where "CONNECTIONS = lit ''## connections''"

definition combine_section :: "unicode \<Rightarrow> bool \<Rightarrow> section_block list \<Rightarrow> pystr option \<Rightarrow> section_block" where
  "combine_section u date_order all k =
     (let same = filter (\<lambda>s. section_key u s = k) all;
          kept = dedupe u (k = Some CONNECTIONS) (concat (map units same))
      in \<lparr>heading = heading (hd same),
          units = (if date_order then by_date u (newest_first u (hd same)) kept else kept)\<rparr>)"

definition combine :: "unicode \<Rightarrow> bool \<Rightarrow> body list \<Rightarrow> body" where
  "combine u date_order bodies =
     (let all = concat (map sections bodies) in
      \<lparr>title_line = (case find (\<lambda>t. t \<noteq> []) (map title_line bodies) of None \<Rightarrow> [] | Some t \<Rightarrow> t),
       sections = map (combine_section u date_order all) (fromkeys (map (section_key u) all))\<rparr>)"

section \<open>What readers and the writer see\<close>

definition merge_for_writing :: "unicode \<Rightarrow> pystr \<Rightarrow> pystr \<Rightarrow> pystr \<Rightarrow> pystr" where
  "merge_for_writing u layer public layer_body =
     render_body u False (combine u False [parse_body u PUBLIC public, parse_body u layer layer_body])"

definition new_sections :: "unicode \<Rightarrow> body \<Rightarrow> body \<Rightarrow> section_block list" where
  "new_sections u parsed public =
     (let known = map (ukey u) (concat (map units (sections public))) in
      filter (\<lambda>s. units s \<noteq> [])
        (map (\<lambda>s. s\<lparr>units := filter (\<lambda>x. ukey u x \<notin> set known) (units s)\<rparr>) (sections parsed)))"

definition split_from_public :: "unicode \<Rightarrow> pystr \<Rightarrow> pystr \<Rightarrow> pystr" where
  "split_from_public u text public =
     (let parsed = parse_body u PUBLIC text; kept = new_sections u parsed (parse_body u PUBLIC public)
      in if kept = [] then [] else render_body u False \<lparr>title_line = title_line parsed, sections = kept\<rparr>)"

definition fuse_for_reading :: "unicode \<Rightarrow> (pystr \<times> pystr) list \<Rightarrow> pystr" where
  "fuse_for_reading u parts =
     render_body u True (combine u True (map (\<lambda>(layer, text). parse_body u layer text) parts))"

definition reading_text :: "unicode \<Rightarrow> pystr \<Rightarrow> pystr \<Rightarrow> pystr" where
  "reading_text u layer text =
     (if layer = PUBLIC then escape_markers text else fuse_for_reading u [(layer, text)])"

end
