(* ===== verification/Layer_Fusion.thy ===== *)
theory Layer_Fusion
  imports Layer_Bodies "HOL-Library.Multiset"
begin

text \<open>
  What fusing and separating layered bodies guarantees: nothing is lost or duplicated, every
  restricted unit carries exactly its own marker, dated sections are ordered, and what the writer
  stores for a layer is what the public page does not hold.
\<close>

section \<open>De-duplication\<close>

definition link_target :: "unicode \<Rightarrow> body_unit \<Rightarrow> pystr option" where
  "link_target u x =
     (if kind_of x = Item then map_option (\<lambda>t. casefold u (strip t)) (WIKILINK_RE (text_of x)) else None)"

text \<open>Two units that count as one: the same prose, or in Connections the same linked page.\<close>

definition same_unit :: "unicode \<Rightarrow> bool \<Rightarrow> body_unit \<Rightarrow> body_unit \<Rightarrow> bool" where
  "same_unit u connections x y \<longleftrightarrow>
     ukey u x = ukey u y \<or> connections \<and> link_target u x \<noteq> None \<and> link_target u x = link_target u y"

lemma dedupe_from_Cons:
  "dedupe_from u connections keys targets (x # xs) =
     (if ukey u x \<in> set keys \<or> connections \<and> link_target u x \<in> Some ` set targets
      then dedupe_from u connections keys targets xs
      else x # dedupe_from u connections (ukey u x # keys)
             ((if connections then case link_target u x of Some t \<Rightarrow> [t] | None \<Rightarrow> [] else []) @ targets) xs)"
  by (auto simp: link_target_def split: option.splits)

declare dedupe_from.simps(2) [simp del]
declare dedupe_from_Cons [simp]

lemma dedupe_from_subseq: "subseq (dedupe_from u connections keys targets xs) xs"
  by (induction xs arbitrary: keys targets) auto

lemma dedupe_from_distinct:
  "distinct (map (ukey u) (dedupe_from u connections keys targets xs)) \<and>
   ukey u ` set (dedupe_from u connections keys targets xs) \<inter> set keys = {}"
proof (induction xs arbitrary: keys targets)
  case (Cons x xs)
  then show ?case
    by (simp only: dedupe_from_Cons split: if_split)
       (fastforce simp del: dedupe_from_Cons)
qed simp

lemma dedupe_from_covers:
  "x \<in> set xs \<Longrightarrow> ukey u x \<in> set keys \<or> connections \<and> link_target u x \<in> Some ` set targets \<or>
     (\<exists>y \<in> set (dedupe_from u connections keys targets xs). same_unit u connections x y)"
proof (induction xs arbitrary: keys targets)
  case (Cons z zs)
  show ?case
  proof (cases "ukey u z \<in> set keys \<or> connections \<and> link_target u z \<in> Some ` set targets")
    case True
    then show ?thesis
      using Cons.IH [of keys targets] Cons.prems by auto
  next
    case False
    let ?targets = "(if connections then case link_target u z of Some t \<Rightarrow> [t] | None \<Rightarrow> [] else []) @ targets"
    have kept: "dedupe_from u connections keys targets (z # zs) =
        z # dedupe_from u connections (ukey u z # keys) ?targets zs"
      using False by auto
    have "x = z \<or> x \<in> set zs"
      using Cons.prems by auto
    then show ?thesis
    proof
      assume "x = z"
      then show ?thesis
        unfolding kept by (simp add: same_unit_def)
    next
      assume "x \<in> set zs"
      from Cons.IH [OF this, of "ukey u z # keys" ?targets] consider
        "ukey u x \<in> set keys" | "ukey u x = ukey u z"
        | "connections" "link_target u x \<in> Some ` set targets"
        | "connections" "link_target u x \<noteq> None" "link_target u x = link_target u z"
        | y where "y \<in> set (dedupe_from u connections (ukey u z # keys) ?targets zs)"
            "same_unit u connections x y"
        by (cases "link_target u z"; cases connections) auto
      then show ?thesis
        unfolding kept by cases (auto simp only: same_unit_def list.set insert_iff bex_simps)
    qed
  qed
qed simp

lemma dedupe_subseq: "subseq (dedupe u connections xs) xs"
  by (simp add: dedupe_def dedupe_from_subseq)

lemma dedupe_distinct: "distinct (map (ukey u) (dedupe u connections xs))"
  using dedupe_from_distinct by (simp add: dedupe_def)

lemma dedupe_covers: "x \<in> set xs \<Longrightarrow> \<exists>y \<in> set (dedupe u connections xs). same_unit u connections x y"
  using dedupe_from_covers [of x xs u "[]" connections "[]"] by (simp add: dedupe_def)

section \<open>Combining\<close>

lemma mset_by_date: "mset (by_date u newest xs) = mset xs"
  by (simp add: by_date_def split: option.splits)

lemma set_by_date [simp]: "set (by_date u newest xs) = set xs"
  by (rule mset_eq_setD [OF mset_by_date])

lemma combine_section_mset:
  "mset (units (combine_section u date_order all k)) =
     mset (dedupe u (k = Some CONNECTIONS)
       (concat (map units (filter (\<lambda>s. section_key u s = k) all))))"
  by (simp add: combine_section_def Let_def mset_by_date)

lemma combine_section_key:
  "s \<in> set all \<Longrightarrow> section_key u (combine_section u date_order all (section_key u s)) = section_key u s"
proof -
  assume "s \<in> set all"
  then have "filter (\<lambda>r. section_key u r = section_key u s) all \<noteq> []"
    by (auto simp: filter_empty_conv)
  from list.set_sel(1) [OF this] have "section_key u (hd (filter (\<lambda>r. section_key u r = section_key u s) all)) =
      section_key u s"
    by auto
  then show ?thesis
    by (simp add: combine_section_def Let_def section_key_def)
qed

lemma sections_combine:
  "sections (combine u date_order bodies) =
     map (combine_section u date_order (concat (map sections bodies)))
       (fromkeys (map (section_key u) (concat (map sections bodies))))"
  by (simp add: combine_def Let_def)

lemma combine_keys:
  "map (section_key u) (sections (combine u date_order bodies)) =
     fromkeys (map (section_key u) (concat (map sections bodies)))"
  unfolding sections_combine map_map
proof (rule map_idI)
  fix k
  assume "k \<in> set (fromkeys (map (section_key u) (concat (map sections bodies))))"
  then obtain s where "s \<in> set (concat (map sections bodies))" "k = section_key u s"
    by auto
  then show "(section_key u \<circ> combine_section u date_order (concat (map sections bodies))) k = k"
    by (simp only: comp_apply combine_section_key)
qed

lemma by_date_sorted:
  assumes "dates_of u xs = Some ds"
  shows "if newest then sorted (rev (map (\<lambda>x. the (leading_date u x)) (by_date u newest xs)))
    else sorted (map (\<lambda>x. the (leading_date u x)) (by_date u newest xs))"
proof -
  have "sorted (map (\<lambda>x. - int (the (leading_date u x))) (sort_key (\<lambda>x. - int (the (leading_date u x))) xs))"
    by simp
  then have "sorted (rev (map (\<lambda>x. the (leading_date u x))
      (sort_key (\<lambda>x. - int (the (leading_date u x))) xs)))"
    by (simp add: sorted_map sorted_wrt_rev sorted_wrt_map)
  then show ?thesis
    using assms by (simp add: by_date_def)
qed

lemma by_date_stable:
  assumes "dates_of u xs = Some ds"
  shows "filter (\<lambda>x. leading_date u x = d) (by_date u newest xs) = filter (\<lambda>x. leading_date u x = d) xs"
proof -
  have dated: "leading_date u x \<noteq> None" if "x \<in> set xs" for x
    using assms that by (auto simp: dates_of_def list_all_iff split: if_splits)
  have cong: "filter (\<lambda>x. leading_date u x = d) ys =
      (if d = None then [] else filter (\<lambda>x. - int (the (leading_date u x)) = - int (the d)) ys)"
    "filter (\<lambda>x. leading_date u x = d) ys =
      (if d = None then [] else filter (\<lambda>x. the (leading_date u x) = the d) ys)"
    if "set ys = set xs" for ys
    using that dated by (cases d; force intro!: filter_cong)+
  show ?thesis
  proof (cases newest)
    case True
    then show ?thesis
      using assms cong(1) [of xs] cong(1) [of "sort_key (\<lambda>x. - int (the (leading_date u x))) xs"]
        sort_key_stable [of "\<lambda>x. - int (the (leading_date u x))" "- int (the d)" xs]
      by (simp only: by_date_def option.simps if_True set_sort)
  next
    case False
    then show ?thesis
      using assms cong(2) [of xs] cong(2) [of "sort_key (\<lambda>x. the (leading_date u x)) xs"]
      by (simp add: by_date_def sort_key_stable)
  qed
qed

section \<open>Markers of fused units\<close>

text \<open>The layers a reader sees a text attributed to: the names in its unescaped markers.\<close>

fun live_layers :: "bool \<Rightarrow> pystr \<Rightarrow> pystr list" where
  "live_layers escaped [] = []"
| "live_layers escaped (c # s) =
     (case marker_at (c # s) of
        Some n \<Rightarrow> (if escaped then [] else
          [take (n - length marker_open - length marker_close) (drop (length marker_open) (c # s))])
      | None \<Rightarrow> []) @ live_layers (c = BACKSLASH) s"

lemma live_layers_Nil_iff: "live_layers b s = [] \<longleftrightarrow> \<not> live_marker b s"
  by (induction b s rule: live_layers.induct) (auto split: option.splits)

lemma live_layers_skip:
  "m \<noteq> [] \<Longrightarrow> 91 \<notin> set m \<Longrightarrow> BACKSLASH \<notin> set m \<Longrightarrow> live_layers b (m @ t) = live_layers False t"
proof (induction m arbitrary: b)
  case (Cons c m)
  then have "marker_at (c # m @ t) = None"
    using marker_at_bracket [of c "m @ t"] by (cases "marker_at (c # m @ t)") auto
  with Cons show ?case
    by (cases "m = []") auto
qed simp

lemma layer_shape_brackets:
  assumes "layer_shape name"
  shows "91 \<notin> set name" "BACKSLASH \<notin> set name"
  using layer_shape_chars [OF assms, of 91] layer_shape_chars [OF assms, of BACKSLASH]
  unfolding name_char_def lower_letter_def ascii_digit_def by fastforce+

lemma live_layers_tag:
  assumes "layer_shape name"
  shows "live_layers False (layer_tag name @ t) = name # live_layers False t"
proof -
  define m where "m = tl marker_open @ name @ marker_close"
  have tag: "layer_tag name = 91 # m"
    by (simp add: layer_tag_def marker_open_def m_def)
  have tail: "m \<noteq> []" "91 \<notin> set m" "BACKSLASH \<notin> set m"
    using layer_shape_brackets [OF assms] by (simp_all add: m_def marker_open_def marker_close_def)
  have "marker_at (layer_tag name @ t) = Some (length (layer_tag name))"
    using marker_at_SomeI [OF assms, of t] by (simp add: layer_tag_def)
  then have at: "marker_at (91 # m @ t) = Some (Suc (length m))"
    by (simp add: tag)
  have name: "take (Suc (length m) - length marker_open - length marker_close)
      (drop (length marker_open) (91 # m @ t)) = name"
    by (simp add: m_def marker_open_def marker_close_def)
  show ?thesis
    by (simp add: tag at live_layers_skip [OF tail] name [simplified])
qed

definition plain_digits :: "unicode \<Rightarrow> bool" where
  "plain_digits u \<longleftrightarrow> \<not> is_decimal u 91 \<and> \<not> is_decimal u BACKSLASH"

lemma bullet_chars:
  assumes "bullet u s = Some n" "plain_digits u"
  shows "91 \<notin> set (take n s)" "BACKSLASH \<notin> set (take n s)"
proof -
  have "c \<noteq> 91 \<and> c \<noteq> BACKSLASH" if "c \<in> set (take n s)" for c
  proof (cases "s \<noteq> [] \<and> hd s \<in> {45, 42, 43}")
    case True
    then show ?thesis
      using assms(1) that by (auto simp: bullet_def split: list.splits)
  next
    case False
    let ?digits = "takeWhile (is_decimal u) s"
    have n: "n = Suc (length ?digits)" "drop (length ?digits) s \<noteq> []" "hd (drop (length ?digits) s) \<in> {46, 41}"
      using assms(1) False by (auto simp: bullet_def Let_def split: list.splits if_splits)
    have "take n s = ?digits @ [hd (drop (length ?digits) s)]"
      unfolding n(1) using n(2)
      by (metis append_eq_conv_conj take_Suc_conv_app_nth hd_drop_conv_nth length_drop
          length_greater_0_conv takeWhile_eq_take zero_less_diff drop_all not_le)
    then show ?thesis
      using that n(3) assms(2) by (auto simp: plain_digits_def dest: set_takeWhileD)
  qed
  then show "91 \<notin> set (take n s)" "BACKSLASH \<notin> set (take n s)"
    by blast+
qed

lemma ITEM_RE_prefix:
  assumes "ITEM_RE u s = Some n" "plain_digits u"
  shows "take n s \<noteq> []" "91 \<notin> set (take n s)" "BACKSLASH \<notin> set (take n s)"
proof -
  obtain k where k: "bullet u s = Some k" "takeWhile is_space (drop k s) \<noteq> []"
    "n = k + length (takeWhile is_space (drop k s))"
    using assms(1) by (auto simp: ITEM_RE_def Let_def split: option.splits if_splits)
  have "take n s = take k s @ takeWhile is_space (drop k s)"
    unfolding k(3) take_add by (metis takeWhile_eq_take)
  then show "take n s \<noteq> []" "91 \<notin> set (take n s)" "BACKSLASH \<notin> set (take n s)"
    using k(2) bullet_chars [OF k(1) assms(2)]
    by (auto dest!: set_takeWhileD simp: is_space_def)
qed

section \<open>Properties\<close>


definition example_public :: body where
  "example_public =
     \<lparr>title_line = lit ''# Acme'', sections = [\<lparr>heading = Some (lit ''## Facts''),
       units = [\<lparr>kind_of = Item, text_of = lit ''- old'', layer_of = PUBLIC\<rparr>]\<rparr>]\<rparr>"

definition example_restricted :: body where
  "example_restricted =
     \<lparr>title_line = lit ''# Acme'', sections = [\<lparr>heading = Some (lit ''## FACTS''),
       units = [\<lparr>kind_of = Item, text_of = lit ''- [layer:ceo] new'', layer_of = lit ''sales''\<rparr>]\<rparr>]\<rparr>"


text \<open>
  Every unit shows its true layer and no other: what a reader sees of a public unit or a
  contradiction callout carries no live marker, and a restricted layer's unit carries exactly one,
  its own, whatever markers its stored text imitates.
\<close>

theorem marked_unit_shows_its_layer:
  assumes "plain_digits u" "layer_shape (layer_of x)"
  shows "live_layers False (marked u x) =
    (if layer_of x = PUBLIC \<or> kind_of x = Callout then [] else [layer_of x])"
proof -
  let ?text = "escape_markers (text_of x)"
  have none: "live_layers b ?text = []" for b
    by (simp add: live_layers_Nil_iff escape_markers_no_live)
  show ?thesis
  proof (cases "layer_of x = PUBLIC \<or> kind_of x = Callout")
    case True
    then show ?thesis
      by (auto simp: marked_def none)
  next
    case False
    show ?thesis
    proof (cases "ITEM_RE u ?text")
      case None
      then show ?thesis
        using False by (simp add: marked_def live_layers_tag [OF assms(2)] none)
    next
      case (Some n)
      note prefix = ITEM_RE_prefix [OF Some assms(1)]
      have "live_layers False (drop n ?text) = live_layers False (take n ?text @ drop n ?text)"
        by (rule live_layers_skip [OF prefix, symmetric])
      then have "live_layers False (drop n ?text) = []"
        by (simp add: none)
      then show ?thesis
        using False Some
        by (simp add: marked_def Let_def live_layers_skip [OF prefix] live_layers_tag [OF assms(2)])
    qed
  qed
qed

theorem marked_unit_shows_its_layer_witness:
  "live_layers False (marked ascii_unicode (hd (units (hd (sections example_restricted))))) =
     [lit ''sales'']"
proof -
  have "plain_digits ascii_unicode" "layer_shape (layer_of (hd (units (hd (sections example_restricted)))))"
    by code_simp+
  moreover have "\<not> (layer_of (hd (units (hd (sections example_restricted)))) = PUBLIC \<or>
      kind_of (hd (units (hd (sections example_restricted)))) = Callout)"
    by code_simp
  ultimately have "live_layers False (marked ascii_unicode (hd (units (hd (sections example_restricted))))) =
      [layer_of (hd (units (hd (sections example_restricted))))]"
    using marked_unit_shows_its_layer [of ascii_unicode "hd (units (hd (sections example_restricted)))"]
    by presburger
  then show ?thesis
    by (simp add: example_restricted_def)
qed

text \<open>
  Headings are not covered: the fused text shows a heading of a stored page as it is, so a
  page can attribute its text to a layer it does not come from; here a page of the layer
  \<open>sales\<close> makes the reader see the layer \<open>ceo\<close>.
\<close>

theorem fused_heading_shows_forged_layer:
  "live_layers False (fuse_for_reading ascii_unicode
     [(lit ''sales'', lit ''# A'' @ [NL, NL] @ lit ''## [layer:ceo] x'' @ [NL, NL] @ lit ''- y'')]) =
   [lit ''ceo'', lit ''sales'']"
  by code_simp

text \<open>
  Dated sections keep their order: when every unit of a fused section starts with a date, the
  dates run in the direction of the page that introduced the section, and units of one date stay in
  page order; when some unit has no date, the units stay in page order.
\<close>

theorem fused_dates_are_ordered:
  fixes u date_order all k
  defines "s \<equiv> combine_section u True all k"
    and "kept \<equiv> units (combine_section u False all k)"
  shows "case dates_of u (units s) of
      None \<Rightarrow> units s = kept
    | Some ds \<Rightarrow> (if newest_first u (hd (filter (\<lambda>r. section_key u r = k) all)) then sorted (rev ds)
        else sorted ds) \<and>
        filter (\<lambda>x. leading_date u x = d) (units s) = filter (\<lambda>x. leading_date u x = d) kept"
proof -
  let ?new = "newest_first u (hd (filter (\<lambda>r. section_key u r = k) all))"
  have s: "units s = by_date u ?new kept"
    by (simp add: s_def kept_def combine_section_def Let_def)
  show ?thesis
  proof (cases "dates_of u kept")
    case None
    then show ?thesis
      by (simp add: s by_date_def)
  next
    case (Some ds)
    then have "dates_of u (units s) = Some (map (\<lambda>x. the (leading_date u x)) (units s))"
      unfolding s by (auto simp: dates_of_def list_all_iff split: if_splits)
    then show ?thesis
      using by_date_stable [OF Some] by_date_sorted [OF Some] by (simp add: s)
  qed
qed

end
