(* ===== verification/Layer_Roundtrip.thy ===== *)
theory Layer_Roundtrip
  imports Layer_Fusion
begin

text \<open>
  Parsing reads back what rendering wrote: for every well-formed body, \<open>parse_body\<close> of
  \<open>render_body\<close> is the body. The well-formedness condition is stated on the lines of each unit and
  says what the line loop keeps together; it is executable.
\<close>

section \<open>Well-formed units\<close>

definition plain_line :: "unicode \<Rightarrow> pystr \<Rightarrow> bool" where
  "plain_line u l \<longleftrightarrow> \<not> starts_with CALLOUT_START l \<and> \<not> is_fence l \<and> \<not> HEADING_RE l \<and> \<not> blank l \<and>
     ITEM_RE u l = None"

text \<open>The lines after the first of a unit, with code fences opened and closed; only items hold them.\<close>

fun rest_ok :: "unicode \<Rightarrow> bool \<Rightarrow> bool \<Rightarrow> pystr list \<Rightarrow> bool" where
  "rest_ok u item in_fence [] = (\<not> in_fence)"
| "rest_ok u item in_fence (l # ls) =
     (if in_fence then rest_ok u item (\<not> is_fence l) ls
      else if is_fence l then item \<and> \<not> starts_with CALLOUT_START l \<and> rest_ok u item True ls
      else plain_line u l \<and> rest_ok u item False ls)"

fun lines_ok :: "unicode \<Rightarrow> unit_kind \<Rightarrow> pystr list \<Rightarrow> bool" where
  "lines_ok u k [] = False"
| "lines_ok u Item (l # ls) =
     (\<not> starts_with CALLOUT_START l \<and> \<not> is_fence l \<and> \<not> HEADING_RE l \<and> \<not> blank l \<and>
      ITEM_RE u l \<noteq> None \<and> rest_ok u True False ls)"
| "lines_ok u Paragraph (l # ls) =
     (if is_fence l then \<not> starts_with CALLOUT_START l \<and> rest_ok u False True ls
      else plain_line u l \<and> rest_ok u False False ls)"
| "lines_ok u Callout (l # ls) =
     (starts_with CALLOUT_START l \<and> ls \<noteq> [] \<and> starts_with CALLOUT_END (last ls) \<and>
      list_all (\<lambda>m. \<not> starts_with CALLOUT_END m) (butlast ls))"

definition unit_ok :: "unicode \<Rightarrow> pystr \<Rightarrow> body_unit \<Rightarrow> bool" where
  "unit_ok u layer x \<longleftrightarrow> layer_of x = layer \<and> lines_ok u (kind_of x) (split_on NL (text_of x)) \<and>
     strip_chars [NL] (text_of x) = text_of x"

section \<open>Scanning one unit\<close>

definition clean :: "scan \<Rightarrow> bool" where
  "clean st \<longleftrightarrow> current st = [] \<and> kind st = None \<and> \<not> fenced st"

lemma flush_clean: "clean st \<Longrightarrow> flush layer st = st"
  by (simp add: clean_def flush_def)

lemma flush_is_clean: "\<not> fenced st \<Longrightarrow> clean (flush layer st)"
  by (simp add: clean_def flush_def add_unit_def)

lemma flush_idem [simp]: "flush layer (flush layer st) = flush layer st"
  by (simp add: flush_def add_unit_def)

lemma scan_rest:
  "rest_ok u item in_fence ls \<Longrightarrow> fenced st = in_fence \<Longrightarrow> (item \<Longrightarrow> kind st = Some Item) \<Longrightarrow>
     current st \<noteq> [] \<Longrightarrow>
     scan_lines u layer (ls @ rest) st =
       scan_lines u layer rest (st\<lparr>current := current st @ ls, fenced := False\<rparr>)"
proof (induction u item in_fence ls arbitrary: st rule: rest_ok.induct)
  case (1 u item in_fence)
  then show ?case
    by (cases st) simp
next
  case (2 u item in_fence l ls)
  show ?case
  proof (cases in_fence)
    case True
    then show ?thesis
      using 2 by (simp add: push_def)
  next
    case False
    show ?thesis
    proof (cases "is_fence l")
      case True
      then have "kind st = Some Item" "\<not> starts_with CALLOUT_START l" "rest_ok u item True ls" "item"
        using 2 False by auto
      then show ?thesis
        using 2(2) [OF False True, of "st\<lparr>current := current st @ [l], fenced := True\<rparr>"] 2 False True
        by (simp add: push_def)
    next
      case no_fence: False
      then have "plain_line u l" "rest_ok u item False ls"
        using 2 False by auto
      then show ?thesis
        using 2(3) [OF False no_fence, of "st\<lparr>current := current st @ [l]\<rparr>"] 2 False no_fence
        by (simp add: push_def plain_line_def)
    qed
  qed
qed

lemma scan_unit:
  assumes "lines_ok u k ls" "k \<noteq> Callout" "clean st"
  shows "scan_lines u layer (ls @ rest) st =
    scan_lines u layer rest (st\<lparr>current := ls, kind := Some k\<rparr>)"
proof (cases ls)
  case (Cons l ls')
  obtain B S where st: "st = \<lparr>before = B, open_section = S, current = [], kind = None, fenced = False\<rparr>"
    using assms(3) by (cases st) (simp add: clean_def)
  have flush: "flush layer st = st"
    by (rule flush_clean [OF assms(3)])
  show ?thesis
  proof (cases k)
    case Item
    then show ?thesis
      using assms(1) flush scan_rest [of u True False ls' "st\<lparr>current := [l], kind := Some Item\<rparr>" layer rest]
      by (simp add: Cons push_def st)
  next
    case Paragraph
    then show ?thesis
      using assms(1) flush
        scan_rest [of u False True ls' "st\<lparr>current := [l], kind := Some Paragraph, fenced := True\<rparr>" layer rest]
        scan_rest [of u False False ls' "st\<lparr>current := [l], kind := Some Paragraph\<rparr>" layer rest]
      by (simp add: Cons push_def plain_line_def st split: if_splits)
  qed (use assms(2) in simp)
qed (use assms(1) in simp)

lemma callout_lines_block:
  "ls \<noteq> [] \<Longrightarrow> starts_with CALLOUT_END (last ls) \<Longrightarrow>
     list_all (\<lambda>m. \<not> starts_with CALLOUT_END m) (butlast ls) \<Longrightarrow> callout_lines (ls @ rest) = (ls, rest)"
  by (induction ls) (auto split: if_splits)

lemma scan_callout:
  assumes "lines_ok u Callout ls" "\<not> fenced st"
  shows "scan_lines u layer (ls @ rest) st =
    scan_lines u layer rest (add_unit \<lparr>kind_of = Callout, text_of = join [NL] ls, layer_of = layer\<rparr>
      (flush layer st))"
  using assms by (cases ls) (simp_all add: callout_lines_block)

lemma lines_ok_nonblank: "lines_ok u k (l # ls) \<Longrightarrow> \<not> blank l"
proof -
  have "\<not> blank l" if "is_fence l"
  proof
    assume "blank l"
    then have "strip l = []"
      by (simp add: strip_eq_Nil)
    with that show False
      by (simp add: is_fence_def fence_def)
  qed
  moreover have "\<not> blank l" if "starts_with CALLOUT_START l"
    using that by (auto simp: CALLOUT_START_def blank_def is_space_def prefix_def)
  moreover assume "lines_ok u k (l # ls)"
  ultimately show ?thesis
    by (cases k) (auto simp: plain_line_def split: if_splits)
qed

text \<open>Flushing a scanned unit adds it.\<close>

lemma flush_unit:
  assumes "unit_ok u layer x" "kind_of x \<noteq> Callout" "clean st"
  shows "flush layer (st\<lparr>current := split_on NL (text_of x), kind := Some (kind_of x)\<rparr>) = add_unit x st"
proof -
  obtain l ls where ls: "split_on NL (text_of x) = l # ls" "lines_ok u (kind_of x) (l # ls)"
    using assms(1) by (cases "split_on NL (text_of x)") (auto simp: unit_ok_def)
  have "list_ex (\<lambda>line. \<not> blank line) (split_on NL (text_of x))"
    using lines_ok_nonblank [OF ls(2)] by (simp add: ls(1))
  moreover have "strip_chars [NL] (join [NL] (split_on NL (text_of x))) = text_of x"
    using assms(1) by (simp add: join_split_on unit_ok_def)
  ultimately show ?thesis
    using assms by (cases x) (simp add: flush_def add_unit_def clean_def unit_ok_def)
qed

text \<open>Before an item line the loop flushes.\<close>

lemma scan_item_flushes:
  assumes "lines_ok u Item (l # ls)" "\<not> fenced st"
  shows "scan_lines u layer ((l # ls) @ rest) st = scan_lines u layer ((l # ls) @ rest) (flush layer st)"
  using assms flush_is_clean [OF assms(2), of layer] by (simp add: clean_def)

section \<open>Scanning the units of a section\<close>

fun units_lines :: "unit_kind option \<Rightarrow> body_unit list \<Rightarrow> pystr list" where
  "units_lines p [] = []"
| "units_lines p (x # xs) =
     (case p of None \<Rightarrow> [] | Some k \<Rightarrow> if k = Item \<and> kind_of x = Item then [] else [[]]) @
     split_on NL (text_of x) @ units_lines (Some (kind_of x)) xs"

definition add_units :: "body_unit list \<Rightarrow> scan \<Rightarrow> scan" where
  "add_units xs st = st\<lparr>open_section := (open_section st)\<lparr>units := units (open_section st) @ xs\<rparr>\<rparr>"

lemma add_units_Nil [simp]: "add_units [] st = st"
  by (simp add: add_units_def)

lemma add_units_Cons: "add_units (x # xs) st = add_units xs (add_unit x st)"
  by (simp add: add_units_def add_unit_def)

lemma scan_blank: "\<not> fenced st \<Longrightarrow> scan_lines u layer ([] # rest) st = scan_lines u layer rest (flush layer st)"
  by (simp add: CALLOUT_START_def is_fence_def fence_def strip_def lstrip_def rstrip_def HEADING_RE_def)

lemma scan_separated:
  assumes "unit_ok u layer x" "\<not> fenced st" "p = None \<Longrightarrow> clean st"
  shows "scan_lines u layer
      ((case p of None \<Rightarrow> [] | Some k \<Rightarrow> if k = Item \<and> kind_of x = Item then [] else [[]]) @
       split_on NL (text_of x) @ rest) st =
    scan_lines u layer (split_on NL (text_of x) @ rest) (flush layer st)"
proof (cases p)
  case None
  then show ?thesis
    using assms(3) by (simp add: flush_clean)
next
  case (Some k)
  show ?thesis
  proof (cases "k = Item \<and> kind_of x = Item")
    case True
    then obtain l ls where ls: "split_on NL (text_of x) = l # ls" "lines_ok u Item (l # ls)"
      using assms(1) by (cases "split_on NL (text_of x)") (auto simp: unit_ok_def)
    then show ?thesis
      using True Some scan_item_flushes [OF ls(2) assms(2)] by (simp only: option.simps if_True append_Nil simp_thms)
  next
    case False
    show ?thesis
      unfolding Some option.simps if_not_P [OF False] append_Cons append_Nil
      by (rule scan_blank [OF assms(2)])
  qed
qed

lemma scan_one:
  assumes "unit_ok u layer x" "clean st"
  shows "\<exists>st1. scan_lines u layer (split_on NL (text_of x) @ rest) st = scan_lines u layer rest st1 \<and>
    \<not> fenced st1 \<and> flush layer st1 = add_unit x st"
proof (cases "kind_of x = Callout")
  case True
  have nf: "\<not> fenced st"
    using assms(2) by (simp add: clean_def)
  have "\<lparr>kind_of = Callout, text_of = join [NL] (split_on NL (text_of x)), layer_of = layer\<rparr> = x"
    using assms(1) True by (cases x) (simp add: join_split_on unit_ok_def)
  moreover have "lines_ok u Callout (split_on NL (text_of x))"
    using assms(1) True by (simp add: unit_ok_def)
  ultimately have "scan_lines u layer (split_on NL (text_of x) @ rest) st =
      scan_lines u layer rest (add_unit x st)"
    using scan_callout [OF _ nf, of u "split_on NL (text_of x)" layer rest] flush_clean [OF assms(2)] by simp
  moreover have "clean (add_unit x st)"
    using assms(2) by (simp add: clean_def add_unit_def)
  ultimately show ?thesis
    by (intro exI [of _ "add_unit x st"]) (simp add: flush_clean clean_def)
next
  case False
  have "lines_ok u (kind_of x) (split_on NL (text_of x))"
    using assms(1) by (simp add: unit_ok_def)
  from scan_unit [OF this False assms(2)] show ?thesis
    using flush_unit [OF assms(1) False assms(2)] assms(2)
    by (intro exI [of _ "st\<lparr>current := split_on NL (text_of x), kind := Some (kind_of x)\<rparr>"])
       (simp add: clean_def)
qed

lemma scan_units:
  "\<forall>x \<in> set xs. unit_ok u layer x \<Longrightarrow> \<not> fenced st \<Longrightarrow> (p = None \<Longrightarrow> clean st) \<Longrightarrow>
     \<exists>st1. scan_lines u layer (units_lines p xs @ rest) st = scan_lines u layer rest st1 \<and>
       \<not> fenced st1 \<and> flush layer st1 = add_units xs (flush layer st)"
proof (induction xs arbitrary: p st)
  case Nil
  then show ?case
    by (intro exI [of _ st]) simp
next
  case (Cons x xs)
  let ?R = "units_lines (Some (kind_of x)) xs @ rest"
  have ok: "unit_ok u layer x" "\<forall>y \<in> set xs. unit_ok u layer y"
    using Cons.prems(1) by simp_all
  obtain st2 where st2: "scan_lines u layer (split_on NL (text_of x) @ ?R) (flush layer st) =
      scan_lines u layer ?R st2" "\<not> fenced st2" "flush layer st2 = add_unit x (flush layer st)"
    using scan_one [OF ok(1) flush_is_clean [OF Cons.prems(2)], of ?R] by blast
  obtain st1 where st1: "scan_lines u layer ?R st2 = scan_lines u layer rest st1" "\<not> fenced st1"
    "flush layer st1 = add_units xs (flush layer st2)"
    using Cons.IH [OF ok(2) st2(2), of "Some (kind_of x)"] by auto
  have "scan_lines u layer (units_lines p (x # xs) @ rest) st = scan_lines u layer rest st1"
    using scan_separated [OF ok(1) Cons.prems(2,3), of p ?R] st2(1) st1(1) by simp
  then show ?case
    using st1(2,3) st2(3) by (auto simp: add_units_Cons)
qed

section \<open>Scanning sections\<close>

definition heading_ok :: "pystr \<Rightarrow> bool" where
  "heading_ok h \<longleftrightarrow> HEADING_RE h \<and> rstrip h = h \<and> NL \<notin> set h"

definition section_lines :: "section_block \<Rightarrow> pystr list" where
  "section_lines s = (case heading s of None \<Rightarrow> [] | Some h \<Rightarrow> [h]) @ units_lines None (units s)"

fun sections_lines :: "section_block list \<Rightarrow> pystr list" where
  "sections_lines [] = []"
| "sections_lines (s # ss) = [] # section_lines s @ sections_lines ss"

definition section_ok :: "unicode \<Rightarrow> pystr \<Rightarrow> section_block \<Rightarrow> bool" where
  "section_ok u layer s \<longleftrightarrow> units s \<noteq> [] \<and> list_all (unit_ok u layer) (units s) \<and>
     (case heading s of None \<Rightarrow> True | Some h \<Rightarrow> heading_ok h)"

lemma heading_line:
  assumes "heading_ok h"
  shows "h \<noteq> []" "hd h = HASH" "\<not> starts_with CALLOUT_START h" "\<not> is_fence h" "\<not> blank h"
proof -
  have re: "2 \<le> length (takeWhile (\<lambda>c. c = HASH) h)"
    using assms by (simp add: heading_ok_def HEADING_RE_def Let_def)
  then obtain t where h: "h = HASH # t"
    by (cases h) (auto split: if_splits)
  show "h \<noteq> []" "hd h = HASH"
    by (simp_all add: h)
  show "\<not> starts_with CALLOUT_START h" "\<not> blank h"
    by (simp_all add: h CALLOUT_START_def blank_def is_space_def)
  have "\<exists>r. strip h = HASH # r"
    using rstrip_Cons_nonspace [of HASH t] by (auto simp: h strip_def lstrip_def is_space_def)
  then show "\<not> is_fence h"
    by (auto simp: is_fence_def fence_def)
qed

text \<open>A headed section after a clean or pending state.\<close>

lemma scan_section:
  assumes "section_ok u layer s" "heading s = Some h" "\<not> fenced st"
  shows "\<exists>st1. scan_lines u layer ([] # section_lines s @ rest) st = scan_lines u layer rest st1 \<and>
    \<not> fenced st1 \<and> before (flush layer st1) = before (flush layer st) @ [open_section (flush layer st)] \<and>
    open_section (flush layer st1) = s"
proof -
  let ?st = "flush layer st"
  have ok: "heading_ok h" "\<forall>x \<in> set (units s). unit_ok u layer x"
    using assms(1,2) by (auto simp: section_ok_def list_all_iff)
  have clean: "clean ?st"
    by (rule flush_is_clean [OF assms(3)])
  have clean2: "clean (open_heading h ?st)"
    using clean by (simp add: clean_def open_heading_def)
  have "scan_lines u layer (h # units_lines None (units s) @ rest) ?st =
      scan_lines u layer (units_lines None (units s) @ rest) (open_heading h ?st)"
    using heading_line [OF ok(1)] ok(1) clean by (simp add: heading_ok_def clean_def)
  moreover obtain st1 where "scan_lines u layer (units_lines None (units s) @ rest) (open_heading h ?st) =
      scan_lines u layer rest st1" "\<not> fenced st1"
    "flush layer st1 = add_units (units s) (flush layer (open_heading h ?st))"
    using scan_units [OF ok(2), of "open_heading h ?st" None rest] clean2 by (auto simp: clean_def)
  moreover have "add_units (units s) (flush layer (open_heading h ?st)) =
      ?st\<lparr>before := before ?st @ [open_section ?st], open_section := s\<rparr>"
    using assms(2) flush_clean [OF clean2] ok(1)
    by (cases s) (simp add: add_units_def open_heading_def heading_ok_def)
  ultimately show ?thesis
    by (intro exI [of _ st1]) (simp add: scan_blank [OF assms(3)] section_lines_def assms(2)
        del: scan_lines.simps)
qed

lemma scan_sections:
  "list_all (\<lambda>s. section_ok u layer s \<and> heading s \<noteq> None) ss \<Longrightarrow> \<not> fenced st \<Longrightarrow>
     (let st1 = flush layer (scan_lines u layer (sections_lines ss) st) in
      before st1 @ [open_section st1] = before (flush layer st) @ [open_section (flush layer st)] @ ss)"
proof (induction ss arbitrary: st)
  case (Cons s ss)
  then obtain h where h: "section_ok u layer s" "heading s = Some h"
    by auto
  obtain st1 where st1: "scan_lines u layer ([] # section_lines s @ sections_lines ss) st =
      scan_lines u layer (sections_lines ss) st1" "\<not> fenced st1"
    "before (flush layer st1) = before (flush layer st) @ [open_section (flush layer st)]"
    "open_section (flush layer st1) = s"
    using scan_section [OF h Cons.prems(2)] by blast
  then show ?case
    using Cons.IH [OF _ st1(2)] Cons.prems(1) by (simp add: Let_def)
qed simp

section \<open>The lines of a rendered body\<close>

lemma split_on_append_sep: "split_on sep (s @ sep # t) = split_on sep s @ split_on sep t"
proof (induction s)
  case (Cons c s)
  obtain p ps where "split_on sep s = p # ps"
    by (meson list.exhaust split_on_not_Nil)
  with Cons show ?case
    by simp
qed simp

lemma split_render_units:
  "split_on NL (t @ render_units text_of (Some k) xs) = split_on NL t @ units_lines (Some k) xs"
proof (induction xs arbitrary: t k)
  case (Cons x xs)
  have "split_on NL (text_of x @ render_units text_of (Some (kind_of x)) xs) =
      split_on NL (text_of x) @ units_lines (Some (kind_of x)) xs"
    by (rule Cons.IH)
  then show ?case
    using split_on_append_sep [of NL t] split_on_append_sep [of NL "[]"]
    by (cases "k = Item \<and> kind_of x = Item") auto
qed simp

lemma unit_ok_text: "unit_ok u layer x \<Longrightarrow> text_of x \<noteq> []"
  using lines_ok_nonblank [of u "kind_of x" "[]" "[]"] by (auto simp: unit_ok_def)

lemma render_section_ok:
  assumes "section_ok u layer s"
  shows "\<exists>t. render_section text_of s = Some t \<and> split_on NL t = section_lines s"
proof -
  obtain x xs where units: "units s = x # xs"
    using assms by (cases "units s") (auto simp: section_ok_def)
  have x: "text_of x \<noteq> []"
    using assms units unit_ok_text by (auto simp: section_ok_def)
  have rendered: "split_on NL (render_units text_of None (units s)) = units_lines None (units s)"
    "render_units text_of None (units s) \<noteq> []"
    using x by (simp_all add: units split_render_units)
  show ?thesis
  proof (cases "heading s")
    case None
    then show ?thesis
      using rendered by (simp add: render_section_def section_lines_def Let_def)
  next
    case (Some h)
    then have "NL \<notin> set h"
      using assms by (simp add: section_ok_def heading_ok_def)
    then show ?thesis
      using rendered Some units split_on_append [of NL h "render_units text_of None (units s)"]
      by (simp add: render_section_def section_lines_def Let_def del: render_units.simps)
  qed
qed

definition body_text :: "body \<Rightarrow> pystr" where
  "body_text b =
     join [NL, NL] ((if title_line b \<noteq> [] then [title_line b] else []) @
       List.map_filter (render_section text_of) (sections b))"

lemma split_sections:
  "list_all (section_ok u layer) ss \<Longrightarrow>
     split_on NL (t @ concat (map (\<lambda>p. [NL, NL] @ p) (List.map_filter (render_section text_of) ss))) =
     split_on NL t @ sections_lines ss"
proof (induction ss arbitrary: t)
  case (Cons s ss)
  then obtain p where p: "render_section text_of s = Some p" "split_on NL p = section_lines s"
    using render_section_ok [of u layer s] by auto
  have "split_on NL (p @ concat (map (\<lambda>p. [NL, NL] @ p) (List.map_filter (render_section text_of) ss))) =
      split_on NL p @ sections_lines ss"
    using Cons by simp
  then show ?case
    using split_on_append_sep [of NL t] split_on_append_sep [of NL "[]"] p
    by (simp add: List.map_filter_simps)
qed (simp add: List.map_filter_simps)

lemma join_Cons: "join sep (p # ps) = p @ concat (map (\<lambda>q. sep @ q) ps)"
  by (induction sep "p # ps" arbitrary: p ps rule: join.induct) auto

section \<open>Well-formed bodies\<close>

definition body_wf :: "unicode \<Rightarrow> pystr \<Rightarrow> body \<Rightarrow> bool" where
  "body_wf u layer b \<longleftrightarrow>
     (if title_line b = [] then \<not> starts_with H1 (body_text b)
      else starts_with H1 (title_line b) \<and> rstrip (title_line b) = title_line b \<and>
           NL \<notin> set (title_line b)) \<and>
     list_all (section_ok u layer) (sections b) \<and>
     list_all (\<lambda>s. heading s \<noteq> None) (tl (sections b)) \<and>
     strip (body_text b) = body_text b"

lemma body_lines:
  assumes "body_wf u layer b"
  shows "split_on NL (body_text b) =
    (if title_line b \<noteq> [] then title_line b # sections_lines (sections b)
     else if sections b = [] then [[]] else tl (sections_lines (sections b)))"
proof -
  have ok: "list_all (section_ok u layer) (sections b)"
    using assms by (simp add: body_wf_def)
  show ?thesis
  proof (cases "title_line b = []")
    case False
    then have "NL \<notin> set (title_line b)"
      using assms by (simp add: body_wf_def)
    then show ?thesis
      using False split_sections [OF ok, of "title_line b"] split_on_free [of NL "title_line b"]
      by (simp add: body_text_def join_Cons)
  next
    case True
    show ?thesis
    proof (cases "sections b")
      case Nil
      then show ?thesis
        using True by (simp add: body_text_def List.map_filter_simps)
    next
      case (Cons s ss)
      then obtain p where p: "render_section text_of s = Some p" "split_on NL p = section_lines s"
        using ok render_section_ok [of u layer s] by auto
      then show ?thesis
        using True ok Cons split_sections [of u layer ss p]
        by (simp add: body_text_def List.map_filter_simps join_Cons)
    qed
  qed
qed

lemma first_line_nonblank:
  assumes "section_ok u layer s"
  shows "\<exists>l ls. section_lines s = l # ls \<and> \<not> blank l"
proof (cases "heading s")
  case None
  obtain x xs where units: "units s = x # xs" "unit_ok u layer x"
    using assms by (cases "units s") (auto simp: section_ok_def)
  then obtain l ls where "split_on NL (text_of x) = l # ls" "lines_ok u (kind_of x) (l # ls)"
    by (cases "split_on NL (text_of x)") (auto simp: unit_ok_def)
  then show ?thesis
    using None units lines_ok_nonblank by (auto simp: section_lines_def)
next
  case (Some h)
  then show ?thesis
    using assms heading_line(5) [of h] by (auto simp: section_lines_def section_ok_def)
qed

lemma strip_fixed:
  assumes "strip s = s" "s \<noteq> []"
  shows "\<not> is_space (hd s)" "\<not> is_space (last s)"
proof -
  have "length (rstrip (lstrip s)) \<le> length (lstrip s)" "length (lstrip s) \<le> length s"
    by (simp_all add: rstrip_def lstrip_def length_dropWhile_le le_trans [OF length_dropWhile_le])
  then have len: "length (lstrip s) = length s"
    using assms(1) by (simp add: strip_def)
  then have l: "lstrip s = s"
    by (metis append_eq_append_conv lstrip_def takeWhile_dropWhile_id append_Nil length_0_conv
        append_eq_conv_conj drop0 dropWhile_eq_drop self_append_conv2)
  then show "\<not> is_space (hd s)"
    using assms(2) hd_dropWhile [of is_space s] by (simp add: lstrip_def)
  have "rstrip s = s"
    using assms(1) l by (simp add: strip_def)
  then have "dropWhile is_space (rev s) = rev s"
    by (metis rev_rev_ident rstrip_def)
  then show "\<not> is_space (last s)"
    using assms(2) hd_dropWhile [of is_space "rev s"] by (simp add: hd_rev)
qed

lemma strip_chars_fixed:
  assumes "strip s = s"
  shows "strip_chars [NL] (s @ [NL]) = s"
proof (cases "s = []")
  case False
  have ends: "hd s \<noteq> NL" "hd (rev s) \<noteq> NL"
    using strip_fixed [OF assms False] by (auto simp: hd_rev)
  obtain c t where s: "s = c # t" "c \<noteq> NL"
    using False ends(1) by (cases s) simp_all
  obtain d r where r: "rev s = d # r" "d \<noteq> NL"
    using False ends(2) by (cases "rev s") simp_all
  have "dropWhile (\<lambda>c. c \<in> set [NL]) (s @ [NL]) = s @ [NL]"
    using s by simp
  moreover have "dropWhile (\<lambda>c. c \<in> set [NL]) (rev (s @ [NL])) = rev s"
    using r by simp
  ultimately show ?thesis
    by (simp only: strip_chars_def rev_rev_ident)
qed (simp add: strip_chars_def)

section \<open>Parsing a rendered body\<close>

definition start :: scan where
  "start = \<lparr>before = [], open_section = \<lparr>heading = None, units = []\<rparr>, current = [], kind = None,
     fenced = False\<rparr>"

lemma clean_start: "clean start"
  by (simp add: clean_def start_def)

definition scanned_sections :: "unicode \<Rightarrow> pystr \<Rightarrow> pystr list \<Rightarrow> section_block list" where
  "scanned_sections u layer lines =
     (let st = flush layer (scan_lines u layer lines start) in
      filter (\<lambda>s. heading s \<noteq> None \<or> units s \<noteq> []) (before st @ [open_section st]))"

lemma parse_body_lines:
  assumes "dropWhile blank (split_on NL (strip_chars [NL] t)) = lines"
  shows "parse_body u layer t = (case lines of
      line # rest \<Rightarrow> if starts_with H1 line
        then \<lparr>title_line = rstrip line, sections = scanned_sections u layer rest\<rparr>
        else \<lparr>title_line = [], sections = scanned_sections u layer lines\<rparr>
    | [] \<Rightarrow> \<lparr>title_line = [], sections = scanned_sections u layer []\<rparr>)"
  unfolding parse_body_def scanned_sections_def start_def assms Let_def
  by (simp split: list.split)

lemma kept_sections:
  "list_all (section_ok u layer) ss \<Longrightarrow> filter (\<lambda>s. heading s \<noteq> None \<or> units s \<noteq> []) ss = ss"
  by (auto simp: filter_id_conv list_all_iff section_ok_def)

lemma scan_all_sections:
  assumes "list_all (section_ok u layer) ss" "list_all (\<lambda>s. heading s \<noteq> None) (tl ss)"
  shows "scanned_sections u layer (sections_lines ss) = ss"
proof (cases "ss \<noteq> [] \<and> heading (hd ss) = None")
  case False
  then have "list_all (\<lambda>s. section_ok u layer s \<and> heading s \<noteq> None) ss"
    using assms by (cases ss) (auto simp: list_all_iff)
  from scan_sections [OF this, of start]
  have "before (flush layer (scan_lines u layer (sections_lines ss) start)) @
      [open_section (flush layer (scan_lines u layer (sections_lines ss) start))] =
      \<lparr>heading = None, units = []\<rparr> # ss"
    using flush_clean [OF clean_start, of layer] clean_start by (simp add: Let_def clean_def start_def)
  then show ?thesis
    unfolding scanned_sections_def Let_def
    by (simp only: filter.simps section_block.simps simp_thms if_False kept_sections [OF assms(1)])
next
  case True
  then obtain s ss' where ss: "ss = s # ss'" "heading s = None"
    by (cases ss) auto
  have ok: "\<forall>x \<in> set (units s). unit_ok u layer x"
    using assms(1) by (simp add: ss section_ok_def list_all_iff)
  obtain st1 where st1: "scan_lines u layer (units_lines None (units s) @ sections_lines ss') start =
      scan_lines u layer (sections_lines ss') st1" "\<not> fenced st1"
    "flush layer st1 = add_units (units s) start"
    using scan_units [OF ok, of start None "sections_lines ss'"] clean_start flush_clean [OF clean_start, of layer]
    by (auto simp: clean_def)
  have "scan_lines u layer (sections_lines ss) start = scan_lines u layer (sections_lines ss') st1"
    using st1(1) scan_blank [of start u layer] flush_clean [OF clean_start, of layer] clean_start
    by (simp add: ss section_lines_def clean_def del: scan_lines.simps)
  moreover have "add_units (units s) start = start\<lparr>open_section := s\<rparr>"
    using ss(2) by (cases s) (simp add: add_units_def start_def)
  moreover have "list_all (\<lambda>s. section_ok u layer s \<and> heading s \<noteq> None) ss'"
    using assms by (simp add: ss list_all_iff)
  ultimately have "before (flush layer (scan_lines u layer (sections_lines ss) start)) @
      [open_section (flush layer (scan_lines u layer (sections_lines ss) start))] = ss"
    using scan_sections [OF _ st1(2), of u layer ss'] st1(3) by (simp add: Let_def start_def ss(1))
  then show ?thesis
    unfolding scanned_sections_def Let_def by (simp only: kept_sections [OF assms(1)])
qed

lemma scan_tl_sections:
  assumes "ss \<noteq> []"
  shows "scanned_sections u layer (tl (sections_lines ss)) = scanned_sections u layer (sections_lines ss)"
  unfolding scanned_sections_def using assms scan_blank [of start u layer] flush_clean [OF clean_start, of layer] clean_start
  by (cases ss) (simp_all add: clean_def del: scan_lines.simps)

lemma first_line_prefix:
  assumes "split_on NL t = l # ls"
  shows "prefix l t"
proof (cases ls)
  case Nil
  then show ?thesis
    using join_split_on [of NL t] assms by simp
next
  case (Cons m ms)
  then show ?thesis
    using join_split_on [of NL t] assms by (auto simp: prefix_def)
qed

lemma H1_nonblank: "starts_with H1 l \<Longrightarrow> \<not> blank l"
  by (auto simp: H1_def prefix_def blank_def is_space_def)

text \<open>
  C16. Rendering loses nothing: parsing the rendered text of a well-formed body gives the body back,
  title, headings, units, their kinds and their text. So what the writer stores for a layer is read
  back as the units it separated.
\<close>

theorem parse_rendered_body:
  assumes "body_wf u layer b"
  shows "parse_body u layer (render_body u False b) = b"
proof -
  have strip: "strip (body_text b) = body_text b"
    using assms by (simp add: body_wf_def)
  have rendered: "strip_chars [NL] (render_body u False b) = body_text b"
    using strip_chars_fixed [OF strip] strip
    by (auto simp: render_body_def body_text_def Let_def strip_chars_def)
  have ok: "list_all (section_ok u layer) (sections b)" "list_all (\<lambda>s. heading s \<noteq> None) (tl (sections b))"
    using assms by (simp_all add: body_wf_def)
  note scanned = scan_all_sections [OF ok]
  note lines = body_lines [OF assms]
  show ?thesis
  proof (cases "title_line b = []")
    case False
    then have title: "starts_with H1 (title_line b)" "rstrip (title_line b) = title_line b"
      using assms by (simp_all add: body_wf_def)
    have "dropWhile blank (split_on NL (strip_chars [NL] (render_body u False b))) =
        title_line b # sections_lines (sections b)"
      using lines False H1_nonblank [OF title(1)] by (simp add: rendered)
    from parse_body_lines [OF this] show ?thesis
      by (simp add: title scanned)
  next
    case True
    show ?thesis
    proof (cases "sections b")
      case Nil
      then have "dropWhile blank (split_on NL (strip_chars [NL] (render_body u False b))) = []"
        using lines True by (simp add: rendered)
      from parse_body_lines [OF this] show ?thesis
        using scanned Nil True by (cases b) simp
    next
      case (Cons s ss)
      then obtain l ls where l: "section_lines s = l # ls" "\<not> blank l"
        using ok(1) first_line_nonblank [of u layer s] by auto
      then have first: "split_on NL (body_text b) = l # ls @ sections_lines ss"
        using True lines Cons by simp
      then have "dropWhile blank (split_on NL (strip_chars [NL] (render_body u False b))) =
          l # ls @ sections_lines ss"
        using l(2) by (simp add: rendered)
      moreover have "\<not> starts_with H1 l"
        using assms True prefix_order.trans [OF _ first_line_prefix [OF first]] by (auto simp: body_wf_def)
      moreover have "scanned_sections u layer (l # ls @ sections_lines ss) = sections b"
        using scan_tl_sections [of "sections b" u layer] Cons l scanned by simp
      ultimately show ?thesis
        using parse_body_lines [of "render_body u False b"] True by simp
    qed
  qed
qed

text \<open>A page with a title, an introduction, items with code, a paragraph and a callout.\<close>

definition example_body :: body where
  "example_body =
     \<lparr>title_line = lit ''# Plan'',
      sections =
        [\<lparr>heading = None,
          units = [\<lparr>kind_of = Paragraph, text_of = lit ''An opening.'', layer_of = PUBLIC\<rparr>]\<rparr>,
         \<lparr>heading = Some (lit ''## Steps''),
          units =
            [\<lparr>kind_of = Item, text_of = join [NL] [lit ''- first'', fence, [], lit ''code'', fence, lit ''end''],
              layer_of = PUBLIC\<rparr>,
             \<lparr>kind_of = Item, text_of = lit ''2. second'', layer_of = PUBLIC\<rparr>,
             \<lparr>kind_of = Paragraph, text_of = join [NL] [lit ''More'', lit ''text''], layer_of = PUBLIC\<rparr>,
             \<lparr>kind_of = Callout, text_of = join [NL] [CALLOUT_START, lit ''- x'', CALLOUT_END],
              layer_of = PUBLIC\<rparr>]\<rparr>]\<rparr>"

lemma example_body_wf: "body_wf ascii_unicode PUBLIC example_body"
  by code_simp

theorem parse_rendered_body_witness:
  "parse_body ascii_unicode PUBLIC (render_body ascii_unicode False example_body) = example_body"
  by (rule parse_rendered_body [OF example_body_wf])

section \<open>What the writer stores for a layer\<close>

text \<open>A titled body whose units do not end in whitespace.\<close>

definition tidy :: "body \<Rightarrow> bool" where
  "tidy b \<longleftrightarrow> title_line b \<noteq> [] \<and>
     list_all (\<lambda>s. list_all (\<lambda>x. \<not> is_space (last (text_of x))) (units s)) (sections b)"

lemma last_render_units:
  "xs \<noteq> [] \<Longrightarrow> text_of (last xs) \<noteq> [] \<Longrightarrow>
     render_units text_of p xs \<noteq> [] \<and> last (render_units text_of p xs) = last (text_of (last xs))"
proof (induction xs arbitrary: p)
  case (Cons x xs)
  then show ?case
    by (cases "xs = []") auto
qed simp

lemma render_section_last:
  assumes "section_ok u layer s" "list_all (\<lambda>x. \<not> is_space (last (text_of x))) (units s)"
  shows "\<exists>t. render_section text_of s = Some t \<and> t \<noteq> [] \<and> \<not> is_space (last t)"
proof -
  have units: "units s \<noteq> []" "last (units s) \<in> set (units s)"
    using assms(1) by (simp_all add: section_ok_def)
  then have ok: "unit_ok u layer (last (units s))" "\<not> is_space (last (text_of (last (units s))))"
    using assms by (auto simp: section_ok_def list_all_iff)
  then have "render_units text_of None (units s) \<noteq> [] \<and>
      last (render_units text_of None (units s)) = last (text_of (last (units s)))"
    by (intro last_render_units [OF units(1) unit_ok_text])
  then show ?thesis
    using units(1) ok(2) by (cases "heading s") (auto simp: render_section_def Let_def)
qed

lemma strip_id:
  assumes "s \<noteq> []" "\<not> is_space (hd s)" "\<not> is_space (last s)"
  shows "strip s = s"
proof -
  obtain c t where "s = c # t" "\<not> is_space c"
    using assms by (cases s) auto
  then have "lstrip s = s"
    by (simp add: lstrip_def)
  moreover obtain d r where "rev s = d # r" "\<not> is_space d"
    using assms by (cases "rev s") (auto simp flip: hd_rev)
  then have "rstrip s = s"
    by (metis dropWhile.simps(2) rev_rev_ident rstrip_def)
  ultimately show ?thesis
    by (simp add: strip_def)
qed

lemma last_join_parts:
  "list_all (\<lambda>s. \<exists>t. render_section text_of s = Some t \<and> t \<noteq> [] \<and> \<not> is_space (last t)) ss \<Longrightarrow>
     \<not> is_space (last t) \<Longrightarrow>
     \<not> is_space (last (t @ concat (map (\<lambda>p. [NL, NL] @ p) (List.map_filter (render_section text_of) ss))))"
proof (induction ss arbitrary: t)
  case (Cons s ss)
  then obtain p where p: "render_section text_of s = Some p" "p \<noteq> []" "\<not> is_space (last p)"
    by auto
  then show ?case
    using Cons.IH [of "t @ [NL, NL] @ p"] Cons.prems by (simp add: List.map_filter_simps)
qed (simp add: List.map_filter_simps)

lemma titled_body_wf:
  assumes "starts_with H1 (title_line b)" "rstrip (title_line b) = title_line b" "NL \<notin> set (title_line b)"
    and "list_all (section_ok u layer) (sections b)" "list_all (\<lambda>s. heading s \<noteq> None) (tl (sections b))"
    and "tidy b"
  shows "body_wf u layer b"
proof -
  let ?rest = "concat (map (\<lambda>p. [NL, NL] @ p) (List.map_filter (render_section text_of) (sections b)))"
  have title: "title_line b \<noteq> []" "hd (title_line b) = HASH"
    using assms(1) by (auto simp: H1_def prefix_def)
  have body: "body_text b = title_line b @ ?rest"
    using title by (simp add: body_text_def join_Cons)
  have "\<not> is_space (last (title_line b))"
    using assms(2) title(1) hd_dropWhile [of is_space "rev (title_line b)"]
    by (metis hd_rev rev_is_Nil_conv rev_rev_ident rstrip_def)
  moreover have "list_all (\<lambda>s. \<exists>t. render_section text_of s = Some t \<and> t \<noteq> [] \<and> \<not> is_space (last t))
      (sections b)"
    using assms(4,6) render_section_last unfolding tidy_def list_all_iff by blast
  ultimately have "\<not> is_space (last (body_text b))"
    unfolding body by (intro last_join_parts)
  then have "strip (body_text b) = body_text b"
    using title by (intro strip_id) (simp_all add: body is_space_def)
  then show ?thesis
    using assms title(1) by (simp add: body_wf_def)
qed

definition all_units :: "body \<Rightarrow> body_unit list" where
  "all_units b = concat (map units (sections b))"

lemma new_sections_units:
  "concat (map units (new_sections u b public)) =
     filter (\<lambda>x. ukey u x \<notin> ukey u ` set (all_units public)) (all_units b)"
proof -
  have "concat (map units (filter (\<lambda>s. units s \<noteq> []) (map (\<lambda>s. s\<lparr>units := filter P (units s)\<rparr>) ss))) =
      filter P (concat (map units ss))" for P ss
    by (induction ss) auto
  then show ?thesis
    by (simp add: new_sections_def all_units_def Let_def image_image)
qed

lemma list_all_tl: "list_all P xs \<Longrightarrow> list_all P (tl xs)"
  by (cases xs) auto

lemma new_sections_ok:
  assumes "list_all (section_ok u layer) (sections b)" "list_all (\<lambda>s. heading s \<noteq> None) (tl (sections b))"
    and "tidy b"
  shows "list_all (section_ok u layer) (new_sections u b public)"
    "list_all (\<lambda>s. heading s \<noteq> None) (tl (new_sections u b public))"
    "tidy (b\<lparr>sections := new_sections u b public\<rparr>)"
proof -
  let ?cut = "\<lambda>s. s\<lparr>units := filter (\<lambda>x. ukey u x \<notin> ukey u ` set (all_units public)) (units s)\<rparr>"
  have new: "new_sections u b public = filter (\<lambda>s. units s \<noteq> []) (map ?cut (sections b))"
    by (simp add: new_sections_def all_units_def Let_def image_image)
  show "list_all (section_ok u layer) (new_sections u b public)"
    using assms(1) unfolding new by (auto simp: list_all_iff section_ok_def)
  have headed: "list_all (\<lambda>s. heading s \<noteq> None) (filter Q (map ?cut ss))"
    if "list_all (\<lambda>s. heading s \<noteq> None) ss" for Q ss
    using that by (auto simp: list_all_iff)
  show "list_all (\<lambda>s. heading s \<noteq> None) (tl (new_sections u b public))"
  proof (cases "sections b")
    case (Cons s ss)
    then have "list_all (\<lambda>s. heading s \<noteq> None) (filter (\<lambda>s. units s \<noteq> []) (map ?cut ss))"
      using assms(2) headed by simp
    then show ?thesis
      unfolding new Cons list.map filter.simps by (simp add: list_all_tl del: map_map filter_map)
  qed (simp add: new)
  show "tidy (b\<lparr>sections := new_sections u b public\<rparr>)"
    using assms(3) unfolding tidy_def new by (auto simp: list_all_iff)
qed

text \<open>
  C17. What the writer stores for a layer is exactly what the public page does not hold: reading
  back the text that \<open>split_from_public\<close> makes of a page gives, under their headings and in order,
  the units of that page whose prose the public page lacks, and nothing else; it stores nothing
  when there are none.
\<close>

theorem split_stores_exactly_the_new:
  fixes u b public
  defines "stored \<equiv> split_from_public u (render_body u False b) (render_body u False public)"
  assumes "body_wf u PUBLIC b" "body_wf u PUBLIC public" "tidy b"
  shows "all_units (parse_body u PUBLIC stored) =
      filter (\<lambda>x. ukey u x \<notin> ukey u ` set (all_units public)) (all_units b) \<and>
    sections (parse_body u PUBLIC stored) = new_sections u b public \<and>
    (stored = [] \<longleftrightarrow> set (map (ukey u) (all_units b)) \<subseteq> ukey u ` set (all_units public))"
proof -
  let ?new = "new_sections u b public"
  let ?stored = "b\<lparr>sections := ?new\<rparr>"
  have stored: "stored = (if ?new = [] then [] else render_body u False ?stored)"
    using parse_rendered_body [OF assms(2)] parse_rendered_body [OF assms(3)]
    by (cases b) (simp add: stored_def split_from_public_def Let_def)
  have title: "starts_with H1 (title_line b)" "rstrip (title_line b) = title_line b" "NL \<notin> set (title_line b)"
    using assms(2,4) by (simp_all add: body_wf_def tidy_def)
  have ok: "list_all (section_ok u PUBLIC) (sections b)" "list_all (\<lambda>s. heading s \<noteq> None) (tl (sections b))"
    using assms(2) by (simp_all add: body_wf_def)
  have wf: "body_wf u PUBLIC ?stored"
    using titled_body_wf [of ?stored u PUBLIC] new_sections_ok [OF ok assms(4)] title by simp
  have empty: "sections (parse_body u PUBLIC []) = []"
    using parse_body_lines [of "[]" "[]" u PUBLIC] scan_all_sections [of u PUBLIC "[]"]
    by (simp add: strip_chars_def)
  have sections: "sections (parse_body u PUBLIC stored) = ?new"
    using parse_rendered_body [OF wf] empty by (simp add: stored)
  have "render_body u False ?stored \<noteq> []"
    using title(1) by (auto simp: render_body_def H1_def)
  then have "stored = [] \<longleftrightarrow> concat (map units ?new) = []"
    using stored new_sections_ok(1) [OF ok assms(4), of public] by (auto simp: section_ok_def list_all_iff)
  moreover have "all_units (parse_body u PUBLIC stored) = concat (map units ?new)"
    unfolding all_units_def sections ..
  ultimately show ?thesis
    using sections by (auto simp: new_sections_units filter_empty_conv)
qed

theorem split_stores_exactly_the_new_witness:
  "all_units (parse_body ascii_unicode PUBLIC (split_from_public ascii_unicode
      (render_body ascii_unicode False example_body)
      (render_body ascii_unicode False (example_body\<lparr>sections := [hd (sections example_body)]\<rparr>)))) =
   units (sections example_body ! 1)"
proof -
  have "body_wf ascii_unicode PUBLIC (example_body\<lparr>sections := [hd (sections example_body)]\<rparr>)"
    by code_simp
  moreover have "tidy example_body"
    by code_simp
  moreover have "filter (\<lambda>x. ukey ascii_unicode x \<notin> ukey ascii_unicode ` set (all_units
      (example_body\<lparr>sections := [hd (sections example_body)]\<rparr>))) (all_units example_body) =
      units (sections example_body ! 1)"
    by code_simp
  ultimately show ?thesis
    using split_stores_exactly_the_new [OF example_body_wf] by metis
qed

end
