(* ===== verification/Erasure_Requests.thy ===== *)
theory Erasure_Requests
  imports Capture_Queue Layer_Paths
begin

text \<open>
  Requests to erase a layer, \<open>stigmergy/ops/erasure.py\<close>, and the part of \<open>stigmergy/ops/erase_layer.py\<close>
  that decides how a run of one ends. The table is \<open>erasures\<close> of the database. The JSON array of
  evidence references is kept in order of arrival; only its members matter.
\<close>

definition ERASURE_MAX_ATTEMPTS :: nat where "ERASURE_MAX_ATTEMPTS = 3"
definition BACKOFF_BASE_S :: int where "BACKOFF_BASE_S = 30"
definition BACKOFF_CAP_S :: int where "BACKOFF_CAP_S = 900"

definition on_erasures :: "(erasure list \<Rightarrow> erasure list) \<Rightarrow> db \<Rightarrow> db" where
  "on_erasures f d = d\<lparr>erasures := f (erasures d)\<rparr>"

definition sees :: "conn \<Rightarrow> erasure \<Rightarrow> bool" where
  "sees c e \<longleftrightarrow> row_visible c (erasure_tenant e)"

definition update_erasure :: "conn \<Rightarrow> uuid \<Rightarrow> (erasure \<Rightarrow> erasure) \<Rightarrow> db \<Rightarrow> db" where
  "update_erasure c k f = on_erasures (update_where (\<lambda>e. sees c e \<and> erasure_id e = k) f)"

definition erasure_prefix :: "pystr \<Rightarrow> pystr" where
  "erasure_prefix layer = LAYER_ROOT @ [SLASH] @ layer @ [SLASH]"

definition is_erasing :: "conn \<Rightarrow> pystr \<Rightarrow> db \<Rightarrow> bool" where
  "is_erasing c layer d = layer_closed c layer d"

section \<open>Requesting\<close>

definition requested_row :: "uuid \<Rightarrow> uuid \<Rightarrow> timestamp \<Rightarrow> pystr \<Rightarrow> pystr \<Rightarrow> erasure" where
  "requested_row k tenant moment layer actor =
     \<lparr>erasure_id = k, erasure_tenant = tenant, erasure_layer = layer, requested_by = actor,
      requested_at = moment, erasure_status = ErasureQueued, erasure_attempts = 0,
      erasure_next_attempt_at = moment, erasure_started_at = None, erasure_finished_at = None,
      names = [], old_head = [], new_head = [], rewrite = fmempty, pushed = False, garbage = [],
      counts = fmempty, receipt = fmempty, erasure_error = []\<rparr>"

text \<open>
  \<open>request\<close>: \<open>k\<close> is the fresh identifier \<open>uuid.uuid4\<close> gives, \<open>roster\<close> the layer names the
  connection sees in \<open>roster_groups\<close>.
\<close>

definition request_erasure ::
  "conn \<Rightarrow> instants \<Rightarrow> pystr list \<Rightarrow> uuid \<Rightarrow> pystr \<Rightarrow> pystr \<Rightarrow> db \<Rightarrow> erasure result \<times> db" where
  "request_erasure c i roster k layer actor d =
     (let name = strip layer in
      if name = PUBLIC \<or> \<not> is_layer_name name
      then (Inl (ErasureRefused (lit ''only a restricted layer can be erased'')), d)
      else if name \<notin> set roster then (Inl (ErasureRefused (lit ''that layer does not exist'')), d)
      else case tenant_setting c of
        None \<Rightarrow> (Inl (DatabaseError (lit ''null value in column tenant_id'')), d)
      | Some tenant \<Rightarrow>
          if \<exists>e \<in> set (erasures d). erasure_tenant e = tenant \<and> erasure_layer e = name \<and>
               erasure_open (erasure_status e)
          then (Inl (ErasureRefused (lit ''an erasure of this layer is already under way'')), d)
          else if k \<in> erasure_id ` set (erasures d)
          then (Inl (DatabaseError (lit ''duplicate key value: id'')), d)
          else let row = requested_row k tenant (now i) name actor in
            (Inr row, (on_erasures (\<lambda>rows. rows @ [row]) d)\<lparr>wakes := wakes d + 1\<rparr>))"

definition latest :: "conn \<Rightarrow> pystr \<Rightarrow> db \<Rightarrow> erasure option" where
  "latest c layer d =
     first_by (\<lambda>e. - requested_at e) (filter (\<lambda>e. sees c e \<and> erasure_layer e = layer) (erasures d))"

definition open_layers :: "conn \<Rightarrow> db \<Rightarrow> pystr set" where
  "open_layers c d =
     erasure_layer ` {e \<in> set (erasures d). sees c e \<and> erasure_open (erasure_status e)}"

section \<open>Claiming\<close>

text \<open>A rewrite that may be pushed: recorded, or known to be pushed.\<close>

definition recorded :: "erasure \<Rightarrow> bool" where
  "recorded e \<longleftrightarrow> pushed e \<or> new_head e \<noteq> []"

definition is_due :: "conn \<Rightarrow> instants \<Rightarrow> db \<Rightarrow> erasure \<Rightarrow> bool" where
  "is_due c i d e \<longleftrightarrow>
     sees c e \<and> erasure_open (erasure_status e) \<and> erasure_next_attempt_at e \<le> now i \<and>
     (pushed e \<or> new_head e \<noteq> [] \<or>
      \<not> (\<exists>other \<in> set (erasures d). sees c other \<and> erasure_tenant other = erasure_tenant e \<and>
           recorded other \<and> erasure_open (erasure_status other)))"

definition pending_erasure :: "conn \<Rightarrow> instants \<Rightarrow> db \<Rightarrow> bool" where
  "pending_erasure c i d \<longleftrightarrow> (\<exists>e \<in> set (erasures d). is_due c i d e)"

definition given_up :: "erasure \<Rightarrow> bool" where
  "given_up e \<longleftrightarrow> erasure_status e = ErasureRunning \<and> \<not> pushed e \<and> new_head e = [] \<and>
     ERASURE_MAX_ATTEMPTS \<le> erasure_attempts e"

definition give_up :: "instants \<Rightarrow> erasure \<Rightarrow> erasure" where
  "give_up i e =
     e\<lparr>erasure_status := ErasureFailed, erasure_finished_at := Some (now i),
       erasure_error := if erasure_error e = [] then lit ''the writer stopped during every attempt''
                        else erasure_error e,
       names := []\<rparr>"

definition backoff_s :: "nat \<Rightarrow> int" where
  "backoff_s n = min BACKOFF_CAP_S (BACKOFF_BASE_S * 2 ^ min n 16)"

definition started :: "instants \<Rightarrow> erasure \<Rightarrow> erasure" where
  "started i e =
     e\<lparr>erasure_status := ErasureRunning, erasure_attempts := erasure_attempts e + 1,
       erasure_started_at := coalesce (erasure_started_at e) (now i), erasure_error := [],
       erasure_next_attempt_at := now i + make_interval (backoff_s (erasure_attempts e))\<rparr>"

definition claim_erasure :: "conn \<Rightarrow> instants \<Rightarrow> uuid list \<Rightarrow> db \<Rightarrow> erasure option \<times> db" where
  "claim_erasure c i locked d =
     (let d1 = on_erasures (update_where (\<lambda>e. sees c e \<and> given_up e) (give_up i)) d in
      case first_by requested_at
             (filter (\<lambda>e. is_due c i d1 e \<and> erasure_id e \<notin> set locked) (erasures d1)) of
        None \<Rightarrow> (None, d1)
      | Some e \<Rightarrow> (Some (started i e), update_erasure c (erasure_id e) (started i) d1))"

section \<open>Recording the run\<close>

definition record_names :: "conn \<Rightarrow> uuid \<Rightarrow> pystr list \<Rightarrow> db \<Rightarrow> db" where
  "record_names c k value = update_erasure c k (\<lambda>e. e\<lparr>names := value\<rparr>)"

definition record_rewrite :: "conn \<Rightarrow> uuid \<Rightarrow> sha \<Rightarrow> sha \<Rightarrow> json_object \<Rightarrow> db \<Rightarrow> db" where
  "record_rewrite c k old new value =
     update_erasure c k (\<lambda>e. e\<lparr>old_head := old, new_head := new, rewrite := value\<rparr>)"

definition mark_pushed :: "conn \<Rightarrow> uuid \<Rightarrow> db \<Rightarrow> db" where
  "mark_pushed c k = update_erasure c k (\<lambda>e. e\<lparr>pushed := True\<rparr>)"

definition add_garbage :: "conn \<Rightarrow> uuid \<Rightarrow> pystr list \<Rightarrow> db \<Rightarrow> db" where
  "add_garbage c k refs = update_erasure c k (\<lambda>e. e\<lparr>garbage := fromkeys (garbage e @ refs)\<rparr>)"

fun added_counts :: "(pystr, int) fmap \<Rightarrow> (pystr \<times> int) list \<Rightarrow> (pystr, int) fmap" where
  "added_counts totals [] = totals"
| "added_counts totals ((key, value) # rest) =
     added_counts (fmupd key ((case fmlookup totals key of None \<Rightarrow> 0 | Some n \<Rightarrow> n) + value) totals) rest"

definition add_counts :: "conn \<Rightarrow> uuid \<Rightarrow> (pystr \<times> int) list \<Rightarrow> db \<Rightarrow> db" where
  "add_counts c k extra = update_erasure c k (\<lambda>e. e\<lparr>counts := added_counts (counts e) extra\<rparr>)"

definition clear_garbage :: "conn \<Rightarrow> uuid \<Rightarrow> db \<Rightarrow> db" where
  "clear_garbage c k = update_erasure c k (\<lambda>e. e\<lparr>garbage := []\<rparr>)"

text \<open>\<open>finish\<close>: the row and its audit record change in one transaction, or neither does.\<close>

definition finished :: "instants \<Rightarrow> json_object \<Rightarrow> erasure \<Rightarrow> erasure" where
  "finished i value e =
     e\<lparr>erasure_status := ErasureSucceeded, erasure_finished_at := Some (now i), receipt := value,
       rewrite := fmempty, names := []\<rparr>"

definition finish_erasure ::
  "conn \<Rightarrow> instants \<Rightarrow> uuid \<Rightarrow> json_object \<Rightarrow> unit result \<Rightarrow> db \<Rightarrow> unit result \<times> db" where
  "finish_erasure c i k value audited d =
     (case audited of
        Inl e \<Rightarrow> (Inl e, d)
      | Inr _ \<Rightarrow> (Inr (), update_erasure c k (finished i value) d))"

definition failed_for_good :: "instants \<Rightarrow> pystr \<Rightarrow> erasure \<Rightarrow> erasure" where
  "failed_for_good i message e =
     e\<lparr>erasure_status := ErasureFailed, erasure_error := take 500 message,
       erasure_finished_at := Some (now i), names := [], rewrite := fmempty, new_head := [],
       garbage := []\<rparr>"

definition fail_erasure :: "conn \<Rightarrow> instants \<Rightarrow> uuid \<Rightarrow> pystr \<Rightarrow> bool \<Rightarrow> db \<Rightarrow> db" where
  "fail_erasure c i k message final =
     update_erasure c k (if final then failed_for_good i message
       else (\<lambda>e. e\<lparr>erasure_status := ErasureQueued, erasure_error := take 500 message\<rparr>))"

section \<open>How a run ends\<close>

text \<open>
  \<open>_reached\<close>: whether the remote holds the stored rewrite. \<open>remote\<close> is what \<open>git ls-remote\<close> lists,
  \<open>ancestor\<close> what \<open>git merge-base --is-ancestor\<close> says of the branch after a fetch.
\<close>

definition reached ::
  "pystr \<Rightarrow> (pystr, sha) fmap \<Rightarrow> (pystr, sha) fmap \<Rightarrow> (sha \<Rightarrow> bool) \<Rightarrow> bool" where
  "reached branch after remote ancestor =
     (let target = lit ''refs/heads/'' @ branch;
          value = (\<lambda>ref. case fmlookup remote ref of None \<Rightarrow> [] | Some v \<Rightarrow> v) in
      if \<exists>ref \<in> fset (fmdom after). ref \<noteq> target \<and> Some (value ref) \<noteq> fmlookup after ref then False
      else case fmlookup after target of
             None \<Rightarrow> True
           | Some head \<Rightarrow> fmlookup remote target = Some head \<or> ancestor head)"

text \<open>\<open>_may_be_pushed\<close>; \<open>None\<close> is a \<open>_reached\<close> that raised.\<close>

definition may_be_pushed :: "erasure \<Rightarrow> bool option \<Rightarrow> bool" where
  "may_be_pushed e answer \<longleftrightarrow>
     pushed e \<or> new_head e \<noteq> [] \<and> (case answer of None \<Rightarrow> True | Some r \<Rightarrow> r)"

text \<open>
  \<open>run_claimed\<close>: \<open>erase\<close> is the run itself, which ends in its receipt or an error and leaves its own
  records behind; \<open>answer\<close> is what \<open>_reached\<close> says after a failure.
\<close>

definition run_claimed ::
  "conn \<Rightarrow> instants \<Rightarrow> erasure \<Rightarrow> (db \<Rightarrow> (pystr + json_object) \<times> db) \<Rightarrow> bool option \<Rightarrow> unit result
   \<Rightarrow> db \<Rightarrow> erasure option result \<times> db" where
  "run_claimed c i item erase answer audited d =
     (case erase d of
        (Inl message, d1) \<Rightarrow>
          (case (if ERASURE_MAX_ATTEMPTS \<le> erasure_attempts item
                 then (case latest c (erasure_layer item) d1 of
                         None \<Rightarrow> Inl (ValueError (lit ''NoneType object is not subscriptable''))
                       | Some e \<Rightarrow> Inr (\<not> may_be_pushed e answer))
                 else Inr False) of
             Inl e \<Rightarrow> (Inl e, d1)
           | Inr final \<Rightarrow>
               let d2 = fail_erasure c i (erasure_id item) message final d1
               in (Inr (latest c (erasure_layer item) d2), d2))
      | (Inr value, d1) \<Rightarrow>
          (case finish_erasure c i (erasure_id item) value audited d1 of
             (Inl e, d2) \<Rightarrow> (Inl e, d2)
           | (Inr _, d2) \<Rightarrow> (Inr (latest c (erasure_layer item) d2), d2)))"

end
