(* ===== verification/Erasure_Safety.thy ===== *)
theory Erasure_Safety
  imports Erasure_Requests Queue_Safety
begin

text \<open>
  The runs of erasure requests as a step relation: requests come in at any time, one writer claims
  one request at a time and records its progress, and it may stop between any two statements. Which
  rewrites really reached the remote is a ghost component of the state. The invariant of every
  reachable state gives the promises of the module: at most one open request per layer, one recorded
  rewrite per tenant, and no request fails once its rewritten history reached the remote. A rewrite that
  is recorded names a new head, as \<open>git\<close> gives it: never the empty text.
\<close>

section \<open>Steps\<close>

record run_state =
  store :: db
  active :: "uuid option"
  reached_remote :: "uuid set"

definition row_of :: "run_state \<Rightarrow> uuid \<Rightarrow> erasure \<Rightarrow> bool" where
  "row_of s k e \<longleftrightarrow> e \<in> set (erasures (store s)) \<and> erasure_id e = k"

text \<open>
  An honest \<open>_reached\<close>: it denies only what did not happen.
\<close>

inductive erasure_step :: "run_state \<Rightarrow> run_state \<Rightarrow> bool" where
  step_request: "erasure_step s (s\<lparr>store := snd (request_erasure c i roster k layer actor (store s))\<rparr>)"
| step_claim: "active s = None \<Longrightarrow> claim_erasure c i locked (store s) = (found, d) \<Longrightarrow>
    erasure_step s (s\<lparr>store := d, active := map_option erasure_id found\<rparr>)"
| step_names: "active s = Some k \<Longrightarrow> erasure_step s (s\<lparr>store := record_names c k value (store s)\<rparr>)"
| step_rewrite: "active s = Some k \<Longrightarrow> new \<noteq> [] \<Longrightarrow>
    erasure_step s (s\<lparr>store := record_rewrite c k old new value (store s)\<rparr>)"
| step_push: "active s = Some k \<Longrightarrow> row_of s k e \<Longrightarrow> new_head e \<noteq> [] \<Longrightarrow>
    erasure_step s (s\<lparr>reached_remote := insert k (reached_remote s)\<rparr>)"
| step_mark: "active s = Some k \<Longrightarrow> k \<in> reached_remote s \<Longrightarrow>
    erasure_step s (s\<lparr>store := mark_pushed c k (store s)\<rparr>)"
| step_garbage: "active s = Some k \<Longrightarrow> row_of s k e \<Longrightarrow> pushed e \<Longrightarrow>
    erasure_step s (s\<lparr>store := add_garbage c k refs (store s)\<rparr>)"
| step_clear: "active s = Some k \<Longrightarrow> erasure_step s (s\<lparr>store := clear_garbage c k (store s)\<rparr>)"
| step_counts: "active s = Some k \<Longrightarrow> erasure_step s (s\<lparr>store := add_counts c k extra (store s)\<rparr>)"
| step_finish: "active s = Some k \<Longrightarrow>
    erasure_step s (s\<lparr>store := snd (finish_erasure c i k value audited (store s)), active := None\<rparr>)"
| step_fail: "active s = Some k \<Longrightarrow> row_of s k e \<Longrightarrow>
    (answer = Some False \<Longrightarrow> k \<notin> reached_remote s) \<Longrightarrow>
    final = (ERASURE_MAX_ATTEMPTS \<le> erasure_attempts e \<and> \<not> may_be_pushed e answer) \<Longrightarrow>
    erasure_step s (s\<lparr>store := fail_erasure c i k message final (store s), active := None\<rparr>)"
| step_stop: "erasure_step s (s\<lparr>active := None\<rparr>)"

section \<open>The invariant\<close>

definition is_open :: "erasure \<Rightarrow> bool" where
  "is_open e \<longleftrightarrow> erasure_open (erasure_status e)"

text \<open>At most one row of a group satisfies a predicate.\<close>

definition only_one :: "(erasure \<Rightarrow> 'g) \<Rightarrow> (erasure \<Rightarrow> bool) \<Rightarrow> erasure list \<Rightarrow> bool" where
  "only_one g P rows \<longleftrightarrow>
     (\<forall>e \<in> set rows. \<forall>f \<in> set rows. P e \<longrightarrow> P f \<longrightarrow> g e = g f \<longrightarrow> erasure_id e = erasure_id f)"

definition request_ok :: "uuid set \<Rightarrow> erasure \<Rightarrow> bool" where
  "request_ok sent e \<longleftrightarrow>
     (pushed e \<longrightarrow> erasure_id e \<in> sent) \<and>
     (\<not> pushed e \<longrightarrow> garbage e = []) \<and>
     (erasure_id e \<in> sent \<longrightarrow> new_head e \<noteq> [] \<and> erasure_status e \<noteq> ErasureFailed) \<and>
     (is_open e \<and> new_head e = [] \<longrightarrow> rewrite e = fmempty) \<and>
     (erasure_status e = ErasureFailed \<longrightarrow> \<not> pushed e \<and> names e = [] \<and> new_head e = [] \<and>
        rewrite e = fmempty \<and> garbage e = []) \<and>
     (\<not> recorded e \<longrightarrow> (erasure_status e = ErasureQueued \<longrightarrow> erasure_attempts e < 3) \<and>
        (erasure_status e = ErasureRunning \<longrightarrow> erasure_attempts e \<le> 3))"

definition run_ok :: "run_state \<Rightarrow> bool" where
  "run_ok s \<longleftrightarrow>
     distinct (map erasure_id (erasures (store s))) \<and>
     only_one (\<lambda>e. (erasure_tenant e, erasure_layer e)) is_open (erasures (store s)) \<and>
     only_one erasure_tenant (\<lambda>e. is_open e \<and> recorded e) (erasures (store s)) \<and>
     (\<forall>e \<in> set (erasures (store s)). request_ok (reached_remote s) e) \<and>
     reached_remote s \<subseteq> erasure_id ` set (erasures (store s)) \<and>
     (\<forall>k. active s = Some k \<longrightarrow>
        (\<exists>e. row_of s k e \<and> erasure_status e = ErasureRunning \<and>
           (\<forall>f \<in> set (erasures (store s)). is_open f \<longrightarrow> recorded f \<longrightarrow>
              erasure_tenant f = erasure_tenant e \<longrightarrow> f = e)))"

lemma run_okD:
  assumes "run_ok s"
  shows "distinct (map erasure_id (erasures (store s)))"
    "only_one (\<lambda>e. (erasure_tenant e, erasure_layer e)) is_open (erasures (store s))"
    "only_one erasure_tenant (\<lambda>e. is_open e \<and> recorded e) (erasures (store s))"
    "e \<in> set (erasures (store s)) \<Longrightarrow> request_ok (reached_remote s) e"
    "reached_remote s \<subseteq> erasure_id ` set (erasures (store s))"
    "active s = Some k \<Longrightarrow> \<exists>e \<in> set (erasures (store s)). erasure_id e = k \<and>
       erasure_status e = ErasureRunning \<and>
       (\<forall>f \<in> set (erasures (store s)). is_open f \<longrightarrow> recorded f \<longrightarrow>
          erasure_tenant f = erasure_tenant e \<longrightarrow> f = e)"
  using assms by (simp_all add: run_ok_def row_of_def Bex_def conj_assoc)

lemma distinct_erasures:
  "distinct (map erasure_id rows) \<Longrightarrow> e \<in> set rows \<Longrightarrow> f \<in> set rows \<Longrightarrow>
     erasure_id e = erasure_id f \<Longrightarrow> e = f"
  by (metis distinct_map inj_onD)

text \<open>A change of the rows in place keeps who each row is.\<close>

definition in_place :: "(erasure \<Rightarrow> erasure) \<Rightarrow> erasure list \<Rightarrow> bool" where
  "in_place g rows \<longleftrightarrow> (\<forall>e \<in> set rows. erasure_id (g e) = erasure_id e \<and>
     erasure_tenant (g e) = erasure_tenant e \<and> erasure_layer (g e) = erasure_layer e)"

lemma only_one_map:
  assumes "only_one f P rows" "\<And>e. e \<in> set rows \<Longrightarrow> P (g e) \<Longrightarrow> P e"
    and "\<And>e. e \<in> set rows \<Longrightarrow> f (g e) = f e" "in_place g rows"
  shows "only_one f P (map g rows)"
  unfolding only_one_def
proof (intro ballI impI)
  fix e' f'
  assume "e' \<in> set (map g rows)" "f' \<in> set (map g rows)" "P e'" "P f'" "f e' = f f'"
  then obtain e1 e2 where e: "e1 \<in> set rows" "e2 \<in> set rows" "e' = g e1" "f' = g e2"
    by auto
  have "P e1" "P e2" "f e1 = f e2"
    using e \<open>P e'\<close> \<open>P f'\<close> \<open>f e' = f f'\<close> assms(2) [of e1] assms(2) [of e2]
      assms(3) [of e1] assms(3) [of e2] by simp_all
  then have "erasure_id e1 = erasure_id e2"
    using assms(1) e unfolding only_one_def by blast
  then show "erasure_id e' = erasure_id f'"
    using assms(4) e by (simp add: in_place_def)
qed

lemma only_one_append:
  assumes one: "only_one f P rows"
    and row: "\<And>e. e \<in> set rows \<Longrightarrow> P e \<Longrightarrow> P row \<Longrightarrow> f e \<noteq> f row"
  shows "only_one f P (rows @ [row])"
  unfolding only_one_def
proof (intro ballI impI)
  fix e e'
  assume "e \<in> set (rows @ [row])" "e' \<in> set (rows @ [row])" "P e" "P e'" "f e = f e'"
  moreover have "f e \<noteq> f e'" if "e \<in> set rows" "e' = row"
    using row [of e] that \<open>P e\<close> \<open>P e'\<close> by simp
  moreover have "f e' \<noteq> f e" if "e' \<in> set rows" "e = row"
    using row [of e'] that \<open>P e\<close> \<open>P e'\<close> by simp
  ultimately show "erasure_id e = erasure_id e'"
    using one unfolding only_one_def set_append by (metis Un_iff empty_iff insert_iff list.set)
qed

lemma ids_map: "in_place g rows \<Longrightarrow> map erasure_id (map g rows) = map erasure_id rows"
  by (simp add: in_place_def)

lemma run_ok_map:
  assumes ok: "run_ok s" and d: "erasures d = map g (erasures (store s))"
    and place: "in_place g (erasures (store s))"
    and open_kept: "\<And>e. e \<in> set (erasures (store s)) \<Longrightarrow> is_open (g e) \<Longrightarrow> is_open e"
    and rec: "\<And>e. e \<in> set (erasures (store s)) \<Longrightarrow> is_open (g e) \<Longrightarrow> recorded (g e) \<Longrightarrow>
      recorded e \<or> active s = Some (erasure_id e)"
    and row: "\<And>e. e \<in> set (erasures (store s)) \<Longrightarrow> request_ok (reached_remote s) e \<Longrightarrow>
      request_ok (reached_remote s) (g e)"
    and act: "k' = None \<or> k' = active s \<and>
      (\<forall>e \<in> set (erasures (store s)). active s = Some (erasure_id e) \<longrightarrow>
         erasure_status e = ErasureRunning \<longrightarrow> erasure_status (g e) = ErasureRunning)"
  shows "run_ok (s\<lparr>store := d, active := k'\<rparr>)"
proof -
  let ?rows = "erasures (store s)"
  have distinct: "distinct (map erasure_id ?rows)"
    using ok by (simp add: run_ok_def)
  have ids: "map erasure_id (erasures d) = map erasure_id ?rows"
    unfolding d by (rule ids_map [OF place])
  have same: "erasure_id (g e) = erasure_id e" "erasure_tenant (g e) = erasure_tenant e"
    "erasure_layer (g e) = erasure_layer e" if "e \<in> set ?rows" for e
    using place that by (simp_all add: in_place_def)
  have running: "f = e" if "active s = Some (erasure_id e)" "e \<in> set ?rows" "f \<in> set ?rows" "is_open f"
    "recorded f" "erasure_tenant f = erasure_tenant e" for e f
  proof -
    note active = that(1)
    obtain e0 where "e0 \<in> set ?rows" "erasure_id e0 = erasure_id e"
      "\<forall>f \<in> set ?rows. is_open f \<longrightarrow> recorded f \<longrightarrow> erasure_tenant f = erasure_tenant e0 \<longrightarrow> f = e0"
      using run_okD(6) [OF ok active] by blast
    then show ?thesis
      using that distinct_erasures [OF distinct, of e0 e] by blast
  qed
  have alone: "erasure_id e = erasure_id f" if "e \<in> set ?rows" "f \<in> set ?rows" "is_open (g e)" "is_open (g f)"
    "recorded (g e)" "recorded (g f)" "erasure_tenant e = erasure_tenant f" for e f
  proof -
    have rec': "recorded e \<or> active s = Some (erasure_id e)" "recorded f \<or> active s = Some (erasure_id f)"
      by (rule rec; use that in simp)+
    have opened: "is_open e" "is_open f"
      by (rule open_kept; use that in simp)+
    show ?thesis
    proof (cases "recorded e \<and> recorded f")
      case True
      then show ?thesis
        using run_okD(3) [OF ok] that(1,2,7) opened unfolding only_one_def by blast
    next
      case False
      then consider (left) "active s = Some (erasure_id e)" "recorded f"
        | (right) "active s = Some (erasure_id f)" "recorded e"
        | (both) "active s = Some (erasure_id e)" "active s = Some (erasure_id f)"
        using rec' by blast
      then show ?thesis
      proof cases
        case left
        then have "f = e"
          by (intro running) (use that(1,2,7) opened in simp_all)
        then show ?thesis
          by simp
      next
        case right
        then have "e = f"
          by (intro running) (use that(1,2,7) opened in simp_all)
        then show ?thesis
          by simp
      next
        case both
        then show ?thesis
          by simp
      qed
    qed
  qed
  have layers: "only_one (\<lambda>e. (erasure_tenant e, erasure_layer e)) is_open (erasures d)"
    unfolding d
  proof (rule only_one_map [OF run_okD(2) [OF ok] _ _ place])
    show "is_open e" if "e \<in> set ?rows" "is_open (g e)" for e
      using that by (rule open_kept)
    show "(erasure_tenant (g e), erasure_layer (g e)) = (erasure_tenant e, erasure_layer e)"
      if "e \<in> set ?rows" for e
      using same that by simp
  qed
  have tenants: "only_one erasure_tenant (\<lambda>e. is_open e \<and> recorded e) (erasures d)"
    unfolding d only_one_def set_map
  proof (intro ballI impI; elim imageE; hypsubst)
    fix e f
    assume ef: "e \<in> set ?rows" "f \<in> set ?rows" "is_open (g e) \<and> recorded (g e)"
      "is_open (g f) \<and> recorded (g f)" "erasure_tenant (g e) = erasure_tenant (g f)"
    then have "erasure_id e = erasure_id f"
      by (intro alone) (simp_all add: same)
    then show "erasure_id (g e) = erasure_id (g f)"
      using same ef by simp
  qed
  have each: "\<forall>e \<in> set (erasures d). request_ok (reached_remote s) e"
    unfolding d set_map using row run_okD(4) [OF ok] by blast
  have remote: "reached_remote s \<subseteq> erasure_id ` set (erasures d)"
    using run_okD(5) [OF ok] arg_cong [OF ids, of set] unfolding set_map by simp
  have actives: "\<exists>e \<in> set (erasures d). erasure_id e = k \<and> erasure_status e = ErasureRunning \<and>
      (\<forall>f \<in> set (erasures d). is_open f \<longrightarrow> recorded f \<longrightarrow> erasure_tenant f = erasure_tenant e \<longrightarrow> f = e)"
    if "k' = Some k" for k
  proof -
    have k: "active s = Some k"
      using act that by auto
    obtain e where e: "e \<in> set ?rows" "erasure_id e = k" "erasure_status e = ErasureRunning"
      using run_okD(6) [OF ok k] by blast
    have "erasure_status (g e) = ErasureRunning"
      using act that k e by auto
    moreover have "g f = g e" if f: "f \<in> set ?rows" "is_open (g f)" "recorded (g f)"
      "erasure_tenant f = erasure_tenant e" for f
    proof -
      have opened: "is_open f"
        by (rule open_kept; use f in simp)
      have "recorded f \<or> active s = Some (erasure_id f)"
        by (rule rec; use f in simp)
      then have "f = e"
      proof
        assume "recorded f"
        then show ?thesis
          by (intro running) (use e k f opened in simp_all)
      next
        assume "active s = Some (erasure_id f)"
        then show ?thesis
          by (intro distinct_erasures [OF distinct]) (use e k f in simp_all)
      qed
      then show ?thesis
        by simp
    qed
    ultimately show ?thesis
      unfolding d set_map using e same by (intro bexI [of _ "g e"]) simp_all
  qed
  have "distinct (map erasure_id (erasures d))"
    using ids distinct by simp
  then show ?thesis
    unfolding run_ok_def using layers tenants each remote actives by (simp add: row_of_def) blast
qed

text \<open>A statement of the running request on its own row.\<close>

lemma erasures_update: "erasures (update_erasure c k f d) =
    map (\<lambda>e. if sees c e \<and> erasure_id e = k then f e else e) (erasures d)"
  by (simp add: update_erasure_def on_erasures_def update_where_def)

lemma active_row_running:
  assumes "run_ok s" "active s = Some k" "row_of s k e"
  shows "erasure_status e = ErasureRunning"
proof -
  obtain e0 where "row_of s k e0" "erasure_status e0 = ErasureRunning"
    using run_okD(6) [OF assms(1,2)] by (auto simp: row_of_def)
  moreover have "e0 = e"
    using distinct_erasures [of "erasures (store s)" e0 e] assms(1,3) calculation(1)
    by (simp add: run_ok_def row_of_def)
  ultimately show ?thesis
    by simp
qed

lemma running_open: "erasure_status e = ErasureRunning \<Longrightarrow> is_open e"
  by (simp add: is_open_def erasure_open_def)

lemma run_ok_active:
  assumes ok: "run_ok s" and k: "active s = Some k"
    and ident: "\<And>e. erasure_id (f e) = erasure_id e \<and> erasure_tenant (f e) = erasure_tenant e \<and>
      erasure_layer (f e) = erasure_layer e"
    and row: "\<And>e. row_of s k e \<Longrightarrow> erasure_status e = ErasureRunning \<Longrightarrow>
      request_ok (reached_remote s) e \<Longrightarrow> request_ok (reached_remote s) (f e)"
    and act: "k' = None \<or> k' = Some k \<and> (\<forall>e. erasure_status (f e) = erasure_status e)"
  shows "run_ok (s\<lparr>store := update_erasure c k f (store s), active := k'\<rparr>)"
proof (rule run_ok_map [OF ok erasures_update])
  show "in_place (\<lambda>e. if sees c e \<and> erasure_id e = k then f e else e) (erasures (store s))"
    using ident by (simp add: in_place_def)
  fix e
  assume e: "e \<in> set (erasures (store s))"
  show "is_open e" if "is_open (if sees c e \<and> erasure_id e = k then f e else e)"
    using that active_row_running [OF ok k, of e] e running_open by (auto simp: row_of_def split: if_splits)
  show "recorded e \<or> active s = Some (erasure_id e)"
    if "recorded (if sees c e \<and> erasure_id e = k then f e else e)"
    using that k by (auto split: if_splits)
  show "request_ok (reached_remote s) (if sees c e \<and> erasure_id e = k then f e else e)"
    if "request_ok (reached_remote s) e"
    using that row [of e] active_row_running [OF ok k, of e] e by (auto simp: row_of_def)
next
  show "k' = None \<or> k' = active s \<and> (\<forall>e \<in> set (erasures (store s)). active s = Some (erasure_id e) \<longrightarrow>
      erasure_status e = ErasureRunning \<longrightarrow>
      erasure_status (if sees c e \<and> erasure_id e = k then f e else e) = ErasureRunning)"
    using act k by auto
qed

section \<open>Every step keeps the invariant\<close>

lemmas request_simps = request_ok_def recorded_def is_open_def erasure_open_def

text \<open>A new row that is open, unsent and not recorded.\<close>

lemma run_ok_append:
  assumes ok: "run_ok s" and d: "erasures d = erasures (store s) @ [row]"
    and fresh: "erasure_id row \<notin> erasure_id ` set (erasures (store s))"
    and free: "\<And>e. e \<in> set (erasures (store s)) \<Longrightarrow> is_open e \<Longrightarrow> erasure_tenant e = erasure_tenant row \<Longrightarrow>
      erasure_layer e \<noteq> erasure_layer row"
    and new: "\<not> recorded row" "request_ok (reached_remote s) row"
  shows "run_ok (s\<lparr>store := d\<rparr>)"
proof -
  let ?rows = "erasures (store s)"
  have "distinct (map erasure_id (erasures d))"
    using run_okD(1) [OF ok] fresh by (simp add: d)
  moreover have "only_one (\<lambda>e. (erasure_tenant e, erasure_layer e)) is_open (erasures d)"
    unfolding d by (rule only_one_append [OF run_okD(2) [OF ok]]) (use free in simp)
  moreover have "only_one erasure_tenant (\<lambda>e. is_open e \<and> recorded e) (erasures d)"
    unfolding d by (rule only_one_append [OF run_okD(3) [OF ok]]) (use new(1) in simp)
  moreover have "\<forall>e \<in> set (erasures d). request_ok (reached_remote s) e"
    using run_okD(4) [OF ok] new(2) by (simp add: d)
  moreover have "reached_remote s \<subseteq> erasure_id ` set (erasures d)"
    using run_okD(5) [OF ok] by (auto simp: d)
  moreover have "\<exists>e. (e \<in> set (erasures d) \<and> erasure_id e = k) \<and> erasure_status e = ErasureRunning \<and>
      (\<forall>f \<in> set (erasures d). is_open f \<longrightarrow> recorded f \<longrightarrow> erasure_tenant f = erasure_tenant e \<longrightarrow> f = e)"
    if k: "active s = Some k" for k
  proof -
    have old: "f \<in> set ?rows" if "f \<in> set (erasures d)" "recorded f" for f
      using that new(1) by (auto simp: d)
    have kept: "f \<in> set (erasures d)" if "f \<in> set ?rows" for f
      using that by (simp add: d)
    show ?thesis
      using run_okD(6) [OF ok k] old kept by blast
  qed
  ultimately show ?thesis
    by (simp add: run_ok_def row_of_def)
qed

lemma run_ok_request:
  assumes ok: "run_ok s"
  shows "run_ok (s\<lparr>store := snd (request_erasure c i roster k layer actor (store s))\<rparr>)"
proof -
  let ?name = "strip layer" and ?rows = "erasures (store s)"
  show ?thesis
  proof (cases "?name = PUBLIC \<or> \<not> is_layer_name ?name \<or> ?name \<notin> set roster")
    case True
    then show ?thesis
      using ok by (auto simp: request_erasure_def Let_def)
  next
    case asked: False
    show ?thesis
    proof (cases "tenant_setting c")
      case None
      then show ?thesis
        using ok asked by (simp add: request_erasure_def)
    next
      case (Some t)
      show ?thesis
      proof (cases "(\<exists>e \<in> set ?rows. erasure_tenant e = t \<and> erasure_layer e = ?name \<and>
          erasure_open (erasure_status e)) \<or> k \<in> erasure_id ` set ?rows")
        case True
        then have "snd (request_erasure c i roster k layer actor (store s)) = store s"
          using asked Some by (auto simp: request_erasure_def Let_def)
        then show ?thesis
          using ok by simp
      next
        case False
        let ?row = "requested_row k t (now i) ?name actor"
        have "erasures (snd (request_erasure c i roster k layer actor (store s))) = ?rows @ [?row]"
          using asked Some False by (simp add: request_erasure_def Let_def on_erasures_def)
        then show ?thesis
        proof (rule run_ok_append [OF ok])
          show "\<not> recorded ?row" "request_ok (reached_remote s) ?row"
            using False run_okD(5) [OF ok] by (auto simp: requested_row_def request_simps)
        qed (use False in \<open>auto simp: requested_row_def is_open_def\<close>)
      qed
    qed
  qed
qed

lemma run_ok_idle: "run_ok s \<Longrightarrow> run_ok (s\<lparr>active := None\<rparr>)"
  by (simp add: run_ok_def)

lemma run_ok_take:
  assumes "run_ok s" "row_of s k e" "erasure_status e = ErasureRunning"
    and "\<And>f. f \<in> set (erasures (store s)) \<Longrightarrow> is_open f \<Longrightarrow> recorded f \<Longrightarrow>
      erasure_tenant f = erasure_tenant e \<Longrightarrow> f = e"
  shows "run_ok (s\<lparr>active := Some k\<rparr>)"
  unfolding run_ok_def
  using assms run_okD(1-3,5) [OF assms(1)] run_okD(4) [OF assms(1)]
  by (simp add: row_of_def) blast

lemma run_ok_give_up:
  assumes ok: "run_ok s"
  shows "run_ok (s\<lparr>store := on_erasures (update_where (\<lambda>e. sees c e \<and> given_up e) (give_up i)) (store s),
    active := None\<rparr>)"
proof (rule run_ok_map [OF ok, of _ "\<lambda>e. if sees c e \<and> given_up e then give_up i e else e"])
  show "in_place (\<lambda>e. if sees c e \<and> given_up e then give_up i e else e) (erasures (store s))"
    by (simp add: in_place_def give_up_def)
  show "request_ok (reached_remote s) (if sees c e \<and> given_up e then give_up i e else e)"
    if "request_ok (reached_remote s) e" for e
    using that by (auto simp: request_simps given_up_def give_up_def)
qed (auto simp: on_erasures_def update_where_def give_up_def request_simps split: if_splits)

lemma started_simps:
  "erasure_id (started i e) = erasure_id e" "erasure_tenant (started i e) = erasure_tenant e"
  "erasure_layer (started i e) = erasure_layer e" "recorded (started i e) = recorded e"
  "erasure_status (started i e) = ErasureRunning"
  by (simp_all add: started_def recorded_def)

lemma run_ok_start:
  assumes ok: "run_ok s" and idle: "active s = None"
    and e: "e \<in> set (erasures (store s))" "is_due c i (store s) e" "\<not> (sees c e \<and> given_up e)"
  shows "run_ok (s\<lparr>store := update_erasure c (erasure_id e) (started i) (store s), active := Some (erasure_id e)\<rparr>)"
proof -
  let ?rows = "erasures (store s)"
  let ?d = "update_erasure c (erasure_id e) (started i) (store s)"
  let ?g = "\<lambda>r. if sees c r \<and> erasure_id r = erasure_id e then started i r else r"
  have due: "sees c e" "is_open e"
    using e(2) by (simp_all add: is_due_def is_open_def)
  have itself: "r = e" if "r \<in> set ?rows" "erasure_id r = erasure_id e" for r
    using distinct_erasures [OF run_okD(1) [OF ok]] e(1) that by blast
  have started: "run_ok (s\<lparr>store := ?d, active := None\<rparr>)"
  proof (rule run_ok_map [OF ok erasures_update])
    show "in_place ?g ?rows"
      by (simp add: in_place_def started_simps)
    fix r
    assume r: "r \<in> set ?rows"
    show "is_open r" if "is_open (?g r)"
      using that itself [OF r] due by (auto split: if_splits)
    show "recorded r \<or> active s = Some (erasure_id r)" if "recorded (?g r)"
      using that by (auto simp: started_simps split: if_splits)
    show "request_ok (reached_remote s) (?g r)" if "request_ok (reached_remote s) r"
      using that itself [OF r] due e(3)
      by (auto simp: request_simps started_def given_up_def ERASURE_MAX_ATTEMPTS_def)
  qed simp
  have alone: "f = e" if f: "f \<in> set ?rows" "is_open f" "recorded f" "erasure_tenant f = erasure_tenant e" for f
  proof -
    have "sees c f"
      using f(4) due by (simp add: sees_def)
    then have "recorded e"
      using e(2) f unfolding is_due_def recorded_def is_open_def by blast
    then have "erasure_id f = erasure_id e"
      using run_okD(3) [OF ok] f e(1) due unfolding only_one_def by blast
    then show ?thesis
      using itself f(1) by blast
  qed
  have "run_ok (s\<lparr>store := ?d, active := None, active := Some (erasure_id e)\<rparr>)"
  proof (rule run_ok_take [OF started])
    show "row_of (s\<lparr>store := ?d, active := None\<rparr>) (erasure_id e) (started i e)"
      using e(1) due by (force simp: row_of_def erasures_update started_simps)
    fix f
    assume f: "f \<in> set (erasures (store (s\<lparr>store := ?d, active := None\<rparr>)))" "is_open f" "recorded f"
      "erasure_tenant f = erasure_tenant (started i e)"
    then obtain r where r: "r \<in> set ?rows" "f = ?g r"
      by (auto simp: erasures_update)
    have "is_open r \<and> recorded r \<and> erasure_tenant r = erasure_tenant e"
      using f r itself [OF r(1)] due by (auto simp: started_simps split: if_splits)
    then have "r = e"
      using alone r(1) by blast
    then show "f = started i e"
      using r due by simp
  qed (simp add: started_simps)
  then show ?thesis
    by simp
qed

lemma run_ok_claim:
  assumes ok: "run_ok s" and idle: "active s = None"
    and claim: "claim_erasure c i locked (store s) = (found, d)"
  shows "run_ok (s\<lparr>store := d, active := map_option erasure_id found\<rparr>)"
proof -
  let ?d1 = "on_erasures (update_where (\<lambda>e. sees c e \<and> given_up e) (give_up i)) (store s)"
  let ?s1 = "s\<lparr>store := ?d1, active := None\<rparr>"
  have ok1: "run_ok ?s1"
    by (rule run_ok_give_up [OF ok])
  show ?thesis
  proof (cases "first_by requested_at (filter (\<lambda>e. is_due c i ?d1 e \<and> erasure_id e \<notin> set locked) (erasures ?d1))")
    case None
    then show ?thesis
      using claim ok1 by (simp add: claim_erasure_def Let_def del: first_by_None)
  next
    case (Some e)
    then have e: "e \<in> set (erasures ?d1)" "is_due c i ?d1 e"
      using first_by_Some [OF Some] by simp_all
    have "\<not> (sees c e \<and> given_up e)"
      using e(1) by (auto simp: on_erasures_def give_up_def given_up_def elim!: in_update_where)
    then have "run_ok (?s1\<lparr>store := update_erasure c (erasure_id e) (started i) (store ?s1),
        active := Some (erasure_id e)\<rparr>)"
      using e by (intro run_ok_start [OF ok1]) simp_all
    then show ?thesis
      using claim Some by (auto simp: claim_erasure_def Let_def started_simps)
  qed
qed

lemma run_ok_own_row:
  assumes ok: "run_ok s" and k: "active s = Some k" and e: "row_of s k e"
    and same: "erasure_id (f e) = erasure_id e" "erasure_tenant (f e) = erasure_tenant e"
      "erasure_layer (f e) = erasure_layer e"
    and row: "erasure_status e = ErasureRunning \<Longrightarrow> request_ok (reached_remote s) e \<Longrightarrow>
      request_ok (reached_remote s) (f e)"
    and act: "k' = None \<or> k' = Some k \<and> erasure_status (f e) = erasure_status e"
  shows "run_ok (s\<lparr>store := update_erasure c k f (store s), active := k'\<rparr>)"
proof -
  let ?f = "\<lambda>x. if x = e then f x else x"
  have one: "x = e" if "x \<in> set (erasures (store s))" "erasure_id x = k" for x
    using distinct_erasures [OF run_okD(1) [OF ok] that(1), of e] e that(2) by (simp add: row_of_def)
  then have "erasures (update_erasure c k f (store s)) = erasures (update_erasure c k ?f (store s))"
    by (auto simp: erasures_update)
  then have "update_erasure c k f (store s) = update_erasure c k ?f (store s)"
    by (simp add: update_erasure_def on_erasures_def)
  moreover have "run_ok (s\<lparr>store := update_erasure c k ?f (store s), active := k'\<rparr>)"
    by (rule run_ok_active [OF ok k]) (use same row act in auto)
  ultimately show ?thesis
    by simp
qed

lemma same_active: "active s = k' \<Longrightarrow> s\<lparr>store := d, active := k'\<rparr> = s\<lparr>store := d\<rparr>"
  by (cases s) simp

lemma active_row:
  assumes "run_ok s" "active s = Some k"
  obtains e where "row_of s k e"
  using run_okD(6) [OF assms] by (auto simp: row_of_def)

lemma run_ok_own:
  assumes ok: "run_ok s" and k: "active s = Some k"
    and same: "\<And>e. erasure_id (f e) = erasure_id e \<and> erasure_tenant (f e) = erasure_tenant e \<and>
      erasure_layer (f e) = erasure_layer e \<and> erasure_status (f e) = erasure_status e"
    and row: "\<And>e. row_of s k e \<Longrightarrow> erasure_status e = ErasureRunning \<Longrightarrow> request_ok (reached_remote s) e \<Longrightarrow>
      request_ok (reached_remote s) (f e)"
  shows "run_ok (s\<lparr>store := update_erasure c k f (store s)\<rparr>)"
proof -
  obtain e where e: "row_of s k e"
    using active_row [OF ok k] .
  have "run_ok (s\<lparr>store := update_erasure c k f (store s), active := Some k\<rparr>)"
    by (rule run_ok_own_row [OF ok k e]) (use same row [OF e] in simp_all)
  then show ?thesis
    by (simp only: same_active [OF k])
qed

lemma run_ok_step: "erasure_step s s' \<Longrightarrow> run_ok s \<Longrightarrow> run_ok s'"
proof (induction rule: erasure_step.induct)
  case (step_request s c i roster k layer actor)
  then show ?case
    by (rule run_ok_request)
next
  case (step_claim s c i locked found d)
  then show ?case
    by (intro run_ok_claim)
next
  case (step_names s k c v)
  show ?case
    unfolding record_names_def
    by (rule run_ok_own [OF step_names(2,1)]) (auto simp: request_simps)
next
  case (step_rewrite s k new c old v)
  show ?case
    unfolding record_rewrite_def
    by (rule run_ok_own [OF step_rewrite(3,1)]) (use step_rewrite(2) in \<open>auto simp: request_simps\<close>)
next
  case (step_push s k e)
  then have "erasure_status e = ErasureRunning"
    using active_row_running by blast
  moreover have "x = e" if "x \<in> set (erasures (store s))" "erasure_id x = k" for x
    using distinct_erasures [OF run_okD(1) [OF step_push(4)] that(1), of e] step_push(2) that(2)
    by (simp add: row_of_def)
  ultimately have "request_ok (insert k (reached_remote s)) x"
    if "x \<in> set (erasures (store s))" for x
    using run_okD(4) [OF step_push(4) that] step_push(3) that by (auto simp: request_simps)
  then show ?case
    using step_push(2) run_okD(1-3,5) [OF step_push(4)] run_okD(6) [OF step_push(4)]
    unfolding run_ok_def row_of_def by (auto simp: Bex_def)
next
  case (step_mark s k c)
  show ?case
    unfolding mark_pushed_def
    by (rule run_ok_own [OF step_mark(3,1)]) (use step_mark(2) in \<open>auto simp: request_simps row_of_def\<close>)
next
  case (step_garbage s k e c refs)
  have "run_ok (s\<lparr>store := add_garbage c k refs (store s), active := Some k\<rparr>)"
    unfolding add_garbage_def
    by (rule run_ok_own_row [OF step_garbage(4,1,2)]) (use step_garbage(3) in \<open>auto simp: request_simps\<close>)
  then show ?case
    by (simp only: same_active [OF step_garbage(1)])
next
  case (step_clear s k c)
  show ?case
    unfolding clear_garbage_def
    by (rule run_ok_own [OF step_clear(2,1)]) (auto simp: request_simps)
next
  case (step_counts s k c extra)
  show ?case
    unfolding add_counts_def
    by (rule run_ok_own [OF step_counts(2,1)]) (auto simp: request_simps)
next
  case (step_finish s k c i v audited)
  obtain e where e: "row_of s k e"
    using active_row [OF step_finish(2,1)] .
  show ?case
  proof (cases audited)
    case (Inl x)
    then show ?thesis
      using step_finish(2) by (simp add: finish_erasure_def run_ok_idle)
  next
    case (Inr x)
    have "run_ok (s\<lparr>store := update_erasure c k (finished i v) (store s), active := None\<rparr>)"
      by (rule run_ok_own_row [OF step_finish(2,1) e]) (auto simp: finished_def request_simps)
    then show ?thesis
      using Inr by (simp add: finish_erasure_def)
  qed
next
  case (step_fail s k e answer final c i message)
  have same: "request_ok (reached_remote s) e" "erasure_id e = k"
    using run_okD(4) [OF step_fail(5)] step_fail(2) by (auto simp: row_of_def)
  show ?case
    unfolding fail_erasure_def
  proof (rule run_ok_own_row [OF step_fail(5,1,2)])
    show "request_ok (reached_remote s) ((if final then failed_for_good i message else
        (\<lambda>e. e\<lparr>erasure_status := ErasureQueued, erasure_error := take 500 message\<rparr>)) e)"
    proof (cases final)
      case True
      then have "\<not> may_be_pushed e answer"
        using step_fail(4) by simp
      then have "k \<notin> reached_remote s" "\<not> pushed e"
        using step_fail(3) same by (auto simp: may_be_pushed_def request_ok_def split: option.splits)
      then show ?thesis
        using True same by (simp add: failed_for_good_def request_simps)
    next
      case False
      then have "erasure_attempts e < 3 \<or> recorded e"
        using step_fail(4) by (auto simp: may_be_pushed_def recorded_def ERASURE_MAX_ATTEMPTS_def)
      then show ?thesis
        using False same step_fail(1,2,5) active_row_running by (auto simp: request_simps)
    qed
  qed (simp_all add: failed_for_good_def)
next
  case (step_stop s)
  then show ?case
    by (rule run_ok_idle)
qed

lemma run_ok_runs: "erasure_step\<^sup>*\<^sup>* s s' \<Longrightarrow> run_ok s \<Longrightarrow> run_ok s'"
  by (induction rule: rtranclp_induct) (auto intro: run_ok_step)

definition unused :: "run_state \<Rightarrow> bool" where
  "unused s \<longleftrightarrow> erasures (store s) = [] \<and> active s = None \<and> reached_remote s = {}"

lemma run_ok_unused: "unused s \<Longrightarrow> run_ok s"
  by (simp add: unused_def run_ok_def only_one_def)

lemma run_ok_reachable: "unused s \<Longrightarrow> erasure_step\<^sup>*\<^sup>* s s' \<Longrightarrow> run_ok s'"
  using run_ok_runs run_ok_unused by blast

section \<open>A concrete run\<close>

abbreviation "hr \<equiv> lit ''hr''"

definition example_request :: erasure where
  "example_request = started (example_at 2) (requested_row 7 5 1 hr (lit ''ann''))"

definition example_rewritten :: erasure where
  "example_rewritten = example_request\<lparr>old_head := lit ''a'', new_head := lit ''b'', rewrite := fmempty\<rparr>"

definition example_idle :: run_state where
  "example_idle = \<lparr>store = example_db0, active = None, reached_remote = {}\<rparr>"

definition example_pushed :: run_state where
  "example_pushed = \<lparr>store = example_db0\<lparr>erasures := [example_rewritten], wakes := 3\<rparr>,
     active = Some 7, reached_remote = {7}\<rparr>"

lemma hr_layer: "strip hr = hr" "hr \<noteq> PUBLIC" "is_layer_name hr"
  by code_simp+

lemma example_requested:
  "snd (request_erasure (example_conn 5) (example_at 1) [hr] 7 hr (lit ''ann'') example_db0) =
     example_db0\<lparr>erasures := [requested_row 7 5 1 hr (lit ''ann'')], wakes := 3\<rparr>"
  using hr_layer
  by (simp add: request_erasure_def example_conn_def example_db0_def on_erasures_def example_at_def Let_def
      del: lit_Cons lit_Nil)

lemma example_claimed:
  "claim_erasure (example_conn 5) (example_at 2) []
     (example_db0\<lparr>erasures := [requested_row 7 5 1 hr (lit ''ann'')], wakes := 3\<rparr>) =
   (Some example_request, example_db0\<lparr>erasures := [example_request], wakes := 3\<rparr>)"
  by (simp add: claim_erasure_def on_erasures_def update_erasure_def given_up_def is_due_def sees_def
      row_visible_def example_conn_def erasure_open_def requested_row_def recorded_def
      example_at_def example_request_def del: lit_Cons lit_Nil)

definition example_asked :: run_state where
  "example_asked = example_idle\<lparr>store := example_db0\<lparr>erasures := [requested_row 7 5 1 hr (lit ''ann'')],
     wakes := 3\<rparr>\<rparr>"

lemma example_asks: "erasure_step\<^sup>*\<^sup>* example_idle example_asked"
proof (rule r_into_rtranclp)
  have "store example_idle = example_db0"
    by (simp add: example_idle_def)
  then show "erasure_step example_idle example_asked"
    using step_request [of example_idle "example_conn 5" "example_at 1" "[hr]" 7 hr "lit ''ann''"]
    by (simp only: example_requested example_asked_def)
qed

lemma example_runs: "erasure_step\<^sup>*\<^sup>* example_idle example_pushed"
proof -
  let ?c = "example_conn 5"
  let ?s1 = "example_idle\<lparr>store := example_db0\<lparr>erasures := [requested_row 7 5 1 hr (lit ''ann'')], wakes := 3\<rparr>\<rparr>"
  let ?s2 = "?s1\<lparr>store := example_db0\<lparr>erasures := [example_request], wakes := 3\<rparr>, active := Some 7\<rparr>"
  let ?s3 = "?s2\<lparr>store := record_rewrite ?c 7 (lit ''a'') (lit ''b'') fmempty (store ?s2)\<rparr>"
  have a: "erasure_step\<^sup>*\<^sup>* example_idle ?s1"
    using example_asks by (simp add: example_asked_def)
  have b: "erasure_step ?s1 ?s2"
    using step_claim [of ?s1 ?c "example_at 2" "[]"] example_claimed
    by (simp add: example_idle_def example_request_def started_simps requested_row_def del: lit_Cons lit_Nil)
  have c: "erasure_step ?s2 ?s3"
    by (rule step_rewrite) simp_all
  have s3: "?s3 = example_pushed\<lparr>reached_remote := {}\<rparr>"
    by (simp add: example_pushed_def example_idle_def record_rewrite_def update_erasure_def on_erasures_def
        example_rewritten_def example_request_def started_def requested_row_def sees_def row_visible_def
        example_conn_def example_db0_def del: lit_Cons lit_Nil)
  have e: "erasure_step (example_pushed\<lparr>reached_remote := {}\<rparr>) example_pushed"
    using step_push [of "example_pushed\<lparr>reached_remote := {}\<rparr>" 7 example_rewritten]
    by (simp add: example_pushed_def row_of_def example_rewritten_def example_request_def started_def
        requested_row_def)
  show ?thesis
    using rtranclp.rtrancl_into_rtrancl [of erasure_step, OF rtranclp.rtrancl_into_rtrancl [of erasure_step,
        OF rtranclp.rtrancl_into_rtrancl [of erasure_step, OF a b] c [unfolded s3]] e] .
qed

lemma example_idle_unused: "unused example_idle"
  by (simp add: unused_def example_idle_def example_db0_def)

section \<open>What a reachable run promises\<close>



text \<open>
  C14. Requests never overlap: at most one request of a layer is open, and of all open requests of a
  tenant at most one has a rewrite recorded or pushed, so no rewrite moves the history another
  request's stored commit map points into. A request that recorded no rewrite has at most three
  attempts, and fewer while it waits.
\<close>

theorem erasures_never_overlap:
  assumes "unused s" "erasure_step\<^sup>*\<^sup>* s s'"
    and "e \<in> set (erasures (store s'))" "is_open e" "f \<in> set (erasures (store s'))" "is_open f"
    and "erasure_tenant e = erasure_tenant f"
  shows "(erasure_layer e = erasure_layer f \<or> recorded e \<and> recorded f \<longrightarrow> e = f) \<and>
    (recorded e \<or> erasure_attempts e < ERASURE_MAX_ATTEMPTS \<or>
     erasure_attempts e = ERASURE_MAX_ATTEMPTS \<and> erasure_status e = ErasureRunning)"
proof
  have ok: "run_ok s'"
    by (rule run_ok_reachable [OF assms(1,2)])
  note same = distinct_erasures [OF run_okD(1) [OF ok] assms(3,5)]
  show "erasure_layer e = erasure_layer f \<or> recorded e \<and> recorded f \<longrightarrow> e = f"
    using run_okD(2,3) [OF ok] assms(3-7) same unfolding only_one_def by blast
  show "recorded e \<or> erasure_attempts e < ERASURE_MAX_ATTEMPTS \<or>
      erasure_attempts e = ERASURE_MAX_ATTEMPTS \<and> erasure_status e = ErasureRunning"
    using run_okD(4) [OF ok assms(3)] assms(4)
    by (cases "erasure_status e") (auto simp: request_simps ERASURE_MAX_ATTEMPTS_def)
qed

theorem erasures_never_overlap_witness:
  "let e = requested_row 7 5 1 hr (lit ''ann'')
   in recorded e \<or> erasure_attempts e < 3 \<or> erasure_attempts e = 3 \<and> erasure_status e = ErasureRunning"
  using erasures_never_overlap [OF example_idle_unused example_asks,
      of "requested_row 7 5 1 hr (lit ''ann'')" "requested_row 7 5 1 hr (lit ''ann'')"]
  by (simp add: example_asked_def requested_row_def is_open_def erasure_open_def ERASURE_MAX_ATTEMPTS_def
      del: lit_Cons lit_Nil)

section \<open>Backing off\<close>

lemma backoff_bounds: "BACKOFF_BASE_S \<le> backoff_s n \<and> backoff_s n \<le> BACKOFF_CAP_S"
  by (simp add: backoff_s_def BACKOFF_BASE_S_def BACKOFF_CAP_S_def)

lemma backoff_mono: "m \<le> n \<Longrightarrow> backoff_s m \<le> backoff_s n"
  unfolding backoff_s_def BACKOFF_BASE_S_def
  by (intro min.mono order_refl mult_left_mono power_increasing) simp_all

text \<open>
  A claim takes a request that is due, counts the attempt and pushes the next one back by thirty
  seconds to fifteen minutes, never less than the attempt before; until then no claim takes the
  request, whether the writer reported a failure or died.
\<close>

theorem claimed_erasure_waits:
  assumes "claim_erasure c i locked d = (Some e, d')"
  shows "(\<exists>r. e = started i r \<and> erasure_next_attempt_at r \<le> now i) \<and>
    erasure_status e = ErasureRunning \<and> e \<in> set (erasures d') \<and>
    now i + make_interval BACKOFF_BASE_S \<le> erasure_next_attempt_at e \<and>
    erasure_next_attempt_at e \<le> now i + make_interval BACKOFF_CAP_S \<and>
    \<not> (now i \<le> now j \<and> now j < now i + make_interval BACKOFF_BASE_S \<and> is_due c' j d'' e)"
proof -
  let ?d1 = "on_erasures (update_where (\<lambda>e. sees c e \<and> given_up e) (give_up i)) d"
  obtain r where r: "first_by requested_at (filter (\<lambda>e. is_due c i ?d1 e \<and> erasure_id e \<notin> set locked) (erasures ?d1)) = Some r"
      and e: "e = started i r" and d': "d' = update_erasure c (erasure_id r) (started i) ?d1"
    using assms by (auto simp: claim_erasure_def Let_def split: option.splits)
  have due: "is_due c i ?d1 r" "r \<in> set (erasures ?d1)"
    using first_by_Some [OF r] by simp_all
  have "e \<in> set (erasures d')"
    using due e d' by (force simp: erasures_update is_due_def)
  moreover have "now i + make_interval BACKOFF_BASE_S \<le> erasure_next_attempt_at e"
    "erasure_next_attempt_at e \<le> now i + make_interval BACKOFF_CAP_S"
    using backoff_bounds [of "erasure_attempts r"] by (simp_all add: e started_def make_interval_def)
  moreover have "erasure_next_attempt_at r \<le> now i"
    using due by (simp add: is_due_def)
  ultimately show ?thesis
    using e by (auto simp: is_due_def started_simps)
qed

theorem claimed_erasure_waits_witness:
  "2 + make_interval 30 \<le> erasure_next_attempt_at example_request"
  using claimed_erasure_waits [OF example_claimed] by (simp add: example_at_def BACKOFF_BASE_S_def)

section \<open>When the remote moved\<close>

text \<open>
  A request whose rewrite reached the remote, on a repository with a second branch: since the push
  someone committed to that branch.
\<close>

definition example_moved :: erasure where
  "example_moved = example_rewritten\<lparr>erasure_attempts := 3\<rparr>"

definition example_after :: "(pystr, sha) fmap" where
  "example_after = fmap_of_list [(lit ''refs/heads/main'', lit ''b''), (lit ''refs/heads/dev'', lit ''d'')]"

definition example_remote :: "(pystr, sha) fmap" where
  "example_remote = fmap_of_list [(lit ''refs/heads/main'', lit ''b''), (lit ''refs/heads/dev'', lit ''e'')]"


end
