(* ===== verification/Py_Regex.thy ===== *)
theory Py_Regex
  imports Py_Text
begin

text \<open>
  Python's \<open>re\<close> as the modelled modules use it: a backtracking matcher over patterns given as
  terms, which lists every way to match in the order the engine tries them, so the first one is the
  match Python reports. A position is the text before it, reversed, and the text after it; a group
  is remembered with the text it captured last.
\<close>

section \<open>Patterns\<close>

datatype regex =
    Eps
  | Sat "int \<Rightarrow> bool"
  | Seq regex regex
  | Alt regex regex
  | Star bool regex
  | Group nat regex
  | Ahead bool regex
  | Behind bool "int \<Rightarrow> bool"
  | Bol
  | Eol
  | Backref nat

text \<open>\<open>Star True\<close> is greedy; \<open>Ahead False\<close> and \<open>Behind False\<close> are the negative assertions.\<close>

definition chr :: "int \<Rightarrow> regex" where "chr c = Sat (\<lambda>d. d = c)"
definition any_of :: "int list \<Rightarrow> regex" where "any_of cs = Sat (\<lambda>d. d \<in> set cs)"
definition none_of :: "int list \<Rightarrow> regex" where "none_of cs = Sat (\<lambda>d. d \<notin> set cs)"
definition opt :: "regex \<Rightarrow> regex" where "opt r = Alt r Eps"
definition plus :: "regex \<Rightarrow> regex" where "plus r = Seq r (Star True r)"

fun word :: "pystr \<Rightarrow> regex" where
  "word [] = Eps"
| "word (c # cs) = Seq (chr c) (word cs)"

fun seq :: "regex list \<Rightarrow> regex" where
  "seq [] = Eps"
| "seq [r] = r"
| "seq (r # rs) = Seq r (seq rs)"

fun alt :: "regex list \<Rightarrow> regex" where
  "alt [] = Sat (\<lambda>_. False)"
| "alt [r] = r"
| "alt (r # rs) = Alt r (alt rs)"

fun exactly :: "nat \<Rightarrow> regex \<Rightarrow> regex" where
  "exactly 0 r = Eps"
| "exactly (Suc n) r = Seq r (exactly n r)"

fun upto_times :: "bool \<Rightarrow> nat \<Rightarrow> regex \<Rightarrow> regex" where
  "upto_times g 0 r = Eps"
| "upto_times g (Suc n) r =
     (if g then Alt (Seq r (upto_times g n r)) Eps else Alt Eps (Seq r (upto_times g n r)))"

definition between :: "bool \<Rightarrow> nat \<Rightarrow> nat \<Rightarrow> regex \<Rightarrow> regex" where
  "between g low high r = Seq (exactly low r) (upto_times g (high - low) r)"

section \<open>Matching\<close>

record position =
  behind :: pystr
  ahead :: pystr
  groups :: "(nat \<times> pystr) list"

definition position_at :: "pystr \<Rightarrow> nat \<Rightarrow> position" where
  "position_at s n = \<lparr>behind = rev (take n s), ahead = drop n s, groups = []\<rparr>"

fun step_over :: "pystr \<Rightarrow> position \<Rightarrow> position option" where
  "step_over [] p = Some p"
| "step_over (c # cs) p =
     (case ahead p of
        [] \<Rightarrow> None
      | d # rest \<Rightarrow> if c = d then step_over cs (p\<lparr>behind := d # behind p, ahead := rest\<rparr>) else None)"

function ways :: "regex \<Rightarrow> position \<Rightarrow> position list" where
  "ways Eps p = [p]"
| "ways (Sat P) p =
     (case ahead p of
        [] \<Rightarrow> []
      | c # rest \<Rightarrow> if P c then [p\<lparr>behind := c # behind p, ahead := rest\<rparr>] else [])"
| "ways (Seq r s) p = concat (map (ways s) (ways r p))"
| "ways (Alt r s) p = ways r p @ ways s p"
| "ways (Star greedy r) p =
     (let more = concat (map (\<lambda>q. if length (ahead q) < length (ahead p) then ways (Star greedy r) q else [])
                       (ways r p))
      in if greedy then more @ [p] else p # more)"
| "ways (Group n r) p =
     map (\<lambda>q. q\<lparr>groups := (n, take (length (ahead p) - length (ahead q)) (ahead p)) # groups q\<rparr>) (ways r p)"
| "ways (Ahead yes r) p = (if (ways r p \<noteq> []) = yes then [p] else [])"
| "ways (Behind yes P) p =
     (if (case behind p of [] \<Rightarrow> False | c # _ \<Rightarrow> P c) = yes then [p] else [])"
| "ways Bol p = (if behind p = [] then [p] else [])"
| "ways Eol p = (if ahead p = [] \<or> ahead p = [NL] then [p] else [])"
| "ways (Backref n) p =
     (case map_of (groups p) n of
        None \<Rightarrow> []
      | Some s \<Rightarrow> (case step_over s p of None \<Rightarrow> [] | Some q \<Rightarrow> [q]))"
  by pat_completeness auto
termination
  by (relation "measures [\<lambda>(r, p). size r, \<lambda>(r, p). length (ahead p)]") auto

declare ways.simps(5) [simp del]

section \<open>The functions of the module\<close>

record found =
  from_pos :: nat
  to_pos :: nat
  captured :: "(nat \<times> pystr) list"

text \<open>\<open>pattern.match(s, n)\<close>: the first way from offset \<open>n\<close>.\<close>

definition match_at :: "regex \<Rightarrow> pystr \<Rightarrow> nat \<Rightarrow> found option" where
  "match_at r s n =
     (case ways r (position_at s n) of
        [] \<Rightarrow> None
      | q # _ \<Rightarrow> Some \<lparr>from_pos = n, to_pos = length s - length (ahead q), captured = groups q\<rparr>)"

definition fullmatch :: "regex \<Rightarrow> pystr \<Rightarrow> found option" where
  "fullmatch r s =
     (case filter (\<lambda>q. ahead q = []) (ways r (position_at s 0)) of
        [] \<Rightarrow> None
      | q # _ \<Rightarrow> Some \<lparr>from_pos = 0, to_pos = length s, captured = groups q\<rparr>)"

definition group_of :: "found \<Rightarrow> nat \<Rightarrow> pystr option" where
  "group_of m n = map_of (captured m) n"

text \<open>\<open>finditer\<close>, by the offset the search has reached; no match the patterns here report is empty
  more than once at one place, since the search moves on past an empty match.\<close>

function finditer_from :: "regex \<Rightarrow> pystr \<Rightarrow> nat \<Rightarrow> found list" where
  "finditer_from r s n =
     (if length s < n then []
      else case match_at r s n of
        None \<Rightarrow> finditer_from r s (Suc n)
      | Some m \<Rightarrow> m # finditer_from r s (max (Suc n) (to_pos m)))"
  by pat_completeness auto
termination
  by (relation "measure (\<lambda>(r, s, n). Suc (length s) - n)") auto

declare finditer_from.simps [simp del]

definition finditer :: "regex \<Rightarrow> pystr \<Rightarrow> found list" where
  "finditer r s = finditer_from r s 0"

definition search :: "regex \<Rightarrow> pystr \<Rightarrow> found option" where
  "search r s = (case finditer r s of [] \<Rightarrow> None | m # _ \<Rightarrow> Some m)"

definition slice :: "pystr \<Rightarrow> nat \<Rightarrow> nat \<Rightarrow> pystr" where
  "slice s i j = take (j - i) (drop i s)"

lemma slice_append: "i \<le> j \<Longrightarrow> j \<le> k \<Longrightarrow> slice s i k = slice s i j @ slice s j k"
  using take_add [of "j - i" "k - j" "drop i s"] by (simp add: slice_def)

lemma slice_same [simp]: "slice s i i = []"
  by (simp add: slice_def)

lemma length_slice: "length (slice s i j) = min j (length s) - i"
  by (simp add: slice_def)

lemma slice_nth: "i + k < min j (length s) \<Longrightarrow> slice s i j ! k = s ! (i + k)"
  by (auto simp: slice_def less_diff_conv add.commute)

lemma slice_all [simp]: "slice s 0 (length s) = s"
  by (simp add: slice_def)

definition matched :: "pystr \<Rightarrow> found \<Rightarrow> pystr" where
  "matched s m = slice s (from_pos m) (to_pos m)"

text \<open>\<open>pattern.sub(f, s)\<close>: the text between the matches with the replacement of each.\<close>

fun splice :: "(found \<Rightarrow> pystr) \<Rightarrow> pystr \<Rightarrow> nat \<Rightarrow> found list \<Rightarrow> pystr" where
  "splice f s n [] = drop n s"
| "splice f s n (m # ms) = slice s n (from_pos m) @ f m @ splice f s (to_pos m) ms"

definition re_sub :: "regex \<Rightarrow> (found \<Rightarrow> pystr) \<Rightarrow> pystr \<Rightarrow> pystr" where
  "re_sub r f s = splice f s 0 (finditer r s)"

section \<open>What every match satisfies\<close>

lemma step_over_text:
  "step_over cs p = Some q \<Longrightarrow> behind q = rev cs @ behind p \<and> ahead p = cs @ ahead q"
  by (induction cs p rule: step_over.induct) (auto split: list.splits if_splits)

lemma ways_text: "q \<in> set (ways r p) \<Longrightarrow> rev (behind q) @ ahead q = rev (behind p) @ ahead p \<and> suffix (ahead q) (ahead p)"
proof (induction r p arbitrary: q rule: ways.induct)
  case (2 P p)
  then show ?case
    by (cases "ahead p") (auto split: if_splits intro: suffix_ConsI)
next
  case (3 r s p)
  then show ?case
    by (fastforce dest: suffix_order.trans)
next
  case (5 greedy r p)
  have "q = p \<or> (\<exists>q1 \<in> set (ways r p). length (ahead q1) < length (ahead p) \<and> q \<in> set (ways (Star greedy r) q1))"
    using "5.prems" unfolding ways.simps(5) [of greedy r p] by (auto simp: Let_def split: if_splits)
  then show ?case
  proof
    assume "\<exists>q1 \<in> set (ways r p). length (ahead q1) < length (ahead p) \<and> q \<in> set (ways (Star greedy r) q1)"
    then obtain q1 where "q1 \<in> set (ways r p)" "length (ahead q1) < length (ahead p)" "q \<in> set (ways (Star greedy r) q1)"
      by blast
    then show ?thesis
      using "5.IH"(1) [of q1] "5.IH"(2) [of q1 q] by (metis suffix_order.trans)
  qed simp
next
  case (11 n p)
  then show ?case
    by (cases "map_of (groups p) n"; cases "step_over (the (map_of (groups p) n)) p")
       (auto dest: step_over_text simp: suffix_def)
qed (auto split: if_splits)

lemma match_at_bounds:
  assumes "match_at r s n = Some m" "n \<le> length s"
  shows "from_pos m = n \<and> n \<le> to_pos m \<and> to_pos m \<le> length s"
proof -
  obtain q where q: "q \<in> set (ways r (position_at s n))" "m = \<lparr>from_pos = n, to_pos = length s - length (ahead q), captured = groups q\<rparr>"
    using assms(1) by (auto simp: match_at_def split: list.splits)
  have "suffix (ahead q) (drop n s)"
    using ways_text [OF q(1)] by (simp add: position_at_def)
  then have "length (ahead q) \<le> length s - n"
    using suffix_length_le by fastforce
  then show ?thesis
    using q(2) assms(2) by simp
qed

lemma ways_exactly:
  "ways (exactly n (Sat P)) p =
     (if n \<le> length (ahead p) \<and> list_all P (take n (ahead p))
      then [p\<lparr>behind := rev (take n (ahead p)) @ behind p, ahead := drop n (ahead p)\<rparr>] else [])"
proof (induction n arbitrary: p)
  case (Suc n)
  show ?case
    by (cases "ahead p") (simp_all add: Suc.IH)
qed simp

lemma fullmatch_exactly: "fullmatch (exactly n (Sat P)) s \<noteq> None \<longleftrightarrow> length s = n \<and> list_all P s"
  by (auto simp: fullmatch_def ways_exactly position_at_def)

end
