(* ===== verification/Fragments.thy ===== *)
theory Fragments
  imports Py_Regex Py_Num
begin

text \<open>
  \<open>stigmergy/index/fragments.py\<close>: a stored page is cut into fragments at its headings and by length.
  A span is a pair of character offsets into the body; sizes are UTF-8 bytes. The loops of the
  source are recursive functions over the same variables, with their termination proved.
\<close>

definition SHORT_PAGE_WORDS :: nat where "SHORT_PAGE_WORDS = 400"
definition SECTION_MAX_WORDS :: nat where "SECTION_MAX_WORDS = 400"
definition WINDOW_WORDS :: nat where "WINDOW_WORDS = 350"
definition OVERLAP_WORDS :: nat where "OVERLAP_WORDS = 50"
definition OVERLAP_CAP_WORDS :: nat where "OVERLAP_CAP_WORDS = 100"
definition MIN_SECTION_WORDS :: nat where "MIN_SECTION_WORDS = 40"
definition MAX_FRAGMENT_BYTES :: nat where "MAX_FRAGMENT_BYTES = 4000"
definition TITLE_CHARS :: nat where "TITLE_CHARS = 200"
definition HEADING_CHARS :: nat where "HEADING_CHARS = 120"
definition TRAIL_CHARS :: nat where "TRAIL_CHARS = 300"

lemmas fragment_bounds = SHORT_PAGE_WORDS_def SECTION_MAX_WORDS_def WINDOW_WORDS_def OVERLAP_WORDS_def
  OVERLAP_CAP_WORDS_def MIN_SECTION_WORDS_def MAX_FRAGMENT_BYTES_def

definition HEADING :: regex where
  "HEADING = seq [Bol, Group 1 (between True 1 6 (chr 35)), plus (any_of [32, 9]),
     Group 2 (Seq (Sat (\<lambda>c. \<not> is_space c)) (Star False (none_of [NL]))), Star True (any_of [32, 9, 35]), Eol]"

definition REFERENCE :: regex where
  "REFERENCE = seq [Bol, Group 1 (Seq (plus (none_of [NL])) (word (lit ''.md''))), chr 35,
     Group 2 (Seq (Sat (\<lambda>c. 49 \<le> c \<and> c \<le> 57)) (between True 0 5 (Sat ascii_digit))), Eol]"

definition FENCE :: regex where
  "FENCE = seq [Bol, between True 0 3 (Sat is_space), alt [word [96, 96, 96], word [126, 126, 126]]]"

record frag =
  ordinal :: nat
  f_from :: nat
  f_to :: nat
  trail :: pystr
  f_text :: pystr

record frag_line =
  l_from :: nat
  l_to :: nat
  l_words :: nat
  l_blank :: bool
  l_size :: nat

record frag_section =
  s_first :: nat
  s_last :: nat
  s_trail :: pystr

section \<open>References\<close>

definition reference :: "pystr \<Rightarrow> nat \<Rightarrow> pystr" where
  "reference path number = path @ [35] @ str_nat number"

definition parse_reference :: "pystr \<Rightarrow> pystr \<times> nat option" where
  "parse_reference text =
     (case match_at REFERENCE text 0 of
        None \<Rightarrow> (text, None)
      | Some m \<Rightarrow> (the (group_of m 1), Some (digits_value (the (group_of m 2)))))"

definition embed_text :: "pystr \<Rightarrow> frag \<Rightarrow> pystr" where
  "embed_text title f =
     (if trail f \<noteq> [] then take TITLE_CHARS title @ [SP, 8250, SP] @ trail f else take TITLE_CHARS title)
     @ [NL] @ f_text f"

section \<open>Lines and pieces of long lines\<close>

text \<open>The first run of non-whitespace within \<open>raw[i:j]\<close>, as offsets.\<close>

definition run_of :: "(int \<Rightarrow> bool) \<Rightarrow> pystr \<Rightarrow> nat \<Rightarrow> nat \<Rightarrow> nat" where
  "run_of P raw i j = i + length (takeWhile P (slice raw i j))"

definition word_from :: "pystr \<Rightarrow> nat \<Rightarrow> nat \<Rightarrow> (nat \<times> nat) option" where
  "word_from raw i j =
     (let a = run_of is_space raw i j in
      if min j (length raw) \<le> a then None else Some (a, run_of (\<lambda>c. \<not> is_space c) raw a j))"

lemma run_of_bounds: "i \<le> run_of P raw i j" "run_of P raw i j \<le> max i (min j (length raw))"
  using length_takeWhile_le [of P "slice raw i j"] by (auto simp: run_of_def slice_def)

lemma word_from_bounds:
  assumes "word_from raw i j = Some (a, b)"
  shows "i \<le> a \<and> a < b \<and> b \<le> length raw \<and> b \<le> j"
proof -
  have a: "a = run_of is_space raw i j" "a < min j (length raw)" and b: "b = run_of (\<lambda>c. \<not> is_space c) raw a j"
    using assms by (auto simp: word_from_def Let_def not_le split: if_splits)
  have "\<not> is_space (raw ! a)"
  proof -
    let ?s = "slice raw i j" and ?n = "length (takeWhile is_space (slice raw i j))"
    have i: "i + ?n = a" "i + ?n < min j (length raw)"
      using a by (simp_all add: run_of_def)
    then have "?n < length ?s"
      by (simp add: length_slice) linarith
    then have "\<not> is_space (?s ! ?n)"
      by (rule nth_length_takeWhile)
    then show ?thesis
      using slice_nth [OF i(2)] i(1) by simp
  qed
  moreover have "slice raw a j \<noteq> []" "hd (slice raw a j) = raw ! a"
    using a by (auto simp: slice_def hd_drop_conv_nth)
  ultimately have "a < b"
    unfolding b run_of_def by (cases "slice raw a j") auto
  then show ?thesis
    using a b run_of_bounds(1) [of i is_space raw j] run_of_bounds(2) [of "\<lambda>c. \<not> is_space c" raw a j] by simp
qed

text \<open>The loop over the words of a piece, from the end of the last word that fits.\<close>

function grow :: "pystr \<Rightarrow> nat \<Rightarrow> nat \<Rightarrow> nat \<Rightarrow> nat \<Rightarrow> nat \<times> nat \<times> nat" where
  "grow raw limit stop count bytes =
     (case word_from raw stop limit of
        None \<Rightarrow> (stop, count, bytes)
      | Some (a, b) \<Rightarrow>
          let grown = bytes + utf8_size (slice raw stop b) in
          if count = OVERLAP_CAP_WORDS \<or> MAX_FRAGMENT_BYTES < grown then (stop, count, bytes)
          else grow raw limit b (count + 1) grown)"
  by pat_completeness auto
termination
  by (relation "measure (\<lambda>(raw, limit, stop, count, bytes). length raw - stop)")
     (auto dest!: word_from_bounds)

declare grow.simps [simp del]

text \<open>\<open>_within\<close>: decoding with errors ignored drops a character the byte limit cuts.\<close>

fun fitting :: "nat \<Rightarrow> pystr \<Rightarrow> nat" where
  "fitting limit [] = 0"
| "fitting limit (c # s) = (if utf8_width c \<le> limit then Suc (fitting (limit - utf8_width c) s) else 0)"

definition within :: "pystr \<Rightarrow> nat \<Rightarrow> nat \<Rightarrow> nat" where
  "within text start limit = start + fitting limit (slice text start (start + limit))"

text \<open>One turn of the loop of \<open>_pieces\<close>: the end of the piece at \<open>start\<close> and its number of words.\<close>

definition piece_end :: "pystr \<Rightarrow> nat \<Rightarrow> nat \<times> nat" where
  "piece_end raw start =
     (let reach = MAX_FRAGMENT_BYTES + 1;
          (stop0, count, bytes0) = grow raw (start + reach) start 0 0;
          stop = (if stop0 = start then within raw start MAX_FRAGMENT_BYTES else stop0);
          bytes = (if stop0 = start then utf8_size (slice raw start stop) else bytes0);
          end0 = (case word_from raw stop (stop + reach) of
                    Some (a, _) \<Rightarrow> a | None \<Rightarrow> min (length raw) (stop + reach))
      in (if MAX_FRAGMENT_BYTES < bytes + utf8_size (slice raw stop end0) then stop else end0, count))"

lemma grow_bounds:
  "grow raw limit stop count bytes = (stop', count', bytes') \<Longrightarrow> stop \<le> length raw \<Longrightarrow> bytes \<le> MAX_FRAGMENT_BYTES \<Longrightarrow>
     stop \<le> stop' \<and> stop' \<le> length raw \<and> bytes' = bytes + utf8_size (slice raw stop stop') \<and>
     bytes' \<le> MAX_FRAGMENT_BYTES"
proof (induction raw limit stop count bytes rule: grow.induct)
  case (1 raw limit stop count bytes)
  show ?case
  proof (cases "word_from raw stop limit")
    case None
    then show ?thesis
      using "1.prems" by (subst (asm) (1) grow.simps) (simp add: slice_def)
  next
    case (Some w)
    obtain a b where w: "w = (a, b)"
      by force
    let ?grown = "bytes + utf8_size (slice raw stop b)"
    have ab: "stop \<le> a" "a < b" "b \<le> length raw"
      using word_from_bounds Some w by auto
    show ?thesis
    proof (cases "count = OVERLAP_CAP_WORDS \<or> MAX_FRAGMENT_BYTES < ?grown")
      case True
      then show ?thesis
        using "1.prems" Some w by (subst (asm) (1) grow.simps) (simp add: slice_def)
    next
      case False
      then have rest: "grow raw limit b (count + 1) ?grown = (stop', count', bytes')"
        using "1.prems"(1) Some w by (subst (asm) (1) grow.simps) simp
      have "b \<le> stop' \<and> stop' \<le> length raw \<and> bytes' = ?grown + utf8_size (slice raw b stop') \<and>
          bytes' \<le> MAX_FRAGMENT_BYTES"
        by (rule "1.IH" [OF Some w [symmetric] refl False rest ab(3)]) (use False in simp)
      moreover have "slice raw stop stop' = slice raw stop b @ slice raw b stop'" if "b \<le> stop'"
        using ab that by (intro slice_append) simp_all
      ultimately show ?thesis
        using ab by simp
    qed
  qed
qed

lemma fitting_le: "fitting limit s \<le> length s \<and> utf8_size (take (fitting limit s) s) \<le> limit"
proof (induction limit s rule: fitting.induct)
  case (2 limit c s)
  then show ?case
    by auto
qed simp

lemma fitting_pos: "s \<noteq> [] \<Longrightarrow> 4 \<le> limit \<Longrightarrow> 0 < fitting limit s"
  using utf8_width_bounds(2) by (cases s) (auto intro: le_trans)

lemma within_bounds:
  assumes "start < length raw" "4 \<le> limit"
  shows "start < within raw start limit \<and> within raw start limit \<le> length raw \<and>
    utf8_size (slice raw start (within raw start limit)) \<le> limit"
proof -
  let ?s = "slice raw start (start + limit)"
  have "?s \<noteq> []"
    using assms by (simp add: slice_def)
  moreover have n: "fitting limit ?s \<le> length ?s" "utf8_size (take (fitting limit ?s) ?s) \<le> limit"
    using fitting_le [of limit ?s] by simp_all
  moreover have "take (fitting limit ?s) ?s = slice raw start (start + fitting limit ?s)"
  proof -
    have "fitting limit ?s \<le> limit"
      using n(1) by (simp add: slice_def)
    then show ?thesis
      by (simp add: slice_def min_absorb1)
  qed
  ultimately show ?thesis
    using fitting_pos [of ?s limit] assms n by (simp add: within_def length_slice)
qed

lemma piece_end_bounds:
  assumes "piece_end raw start = (stop, count)" "start < length raw"
  shows "start < stop \<and> stop \<le> length raw \<and> utf8_size (slice raw start stop) \<le> MAX_FRAGMENT_BYTES"
proof -
  let ?reach = "MAX_FRAGMENT_BYTES + 1"
  obtain stop0 count0 bytes0 where g: "grow raw (start + ?reach) start 0 0 = (stop0, count0, bytes0)"
    using prod_cases3 by blast
  let ?stop = "if stop0 = start then within raw start MAX_FRAGMENT_BYTES else stop0"
  let ?bytes = "if stop0 = start then utf8_size (slice raw start ?stop) else bytes0"
  let ?till = "case word_from raw ?stop (?stop + ?reach) of Some (a, _) \<Rightarrow> a | None \<Rightarrow> min (length raw) (?stop + ?reach)"
  have g': "start \<le> stop0" "stop0 \<le> length raw" "bytes0 = utf8_size (slice raw start stop0)" "bytes0 \<le> MAX_FRAGMENT_BYTES"
    using grow_bounds [OF g] assms(2) by simp_all
  have s: "start < ?stop" "?stop \<le> length raw" "?bytes = utf8_size (slice raw start ?stop)" "?bytes \<le> MAX_FRAGMENT_BYTES"
    using g' within_bounds [OF assms(2), of MAX_FRAGMENT_BYTES] by (simp_all add: fragment_bounds)
  have e: "?stop \<le> ?till" "?till \<le> length raw"
    using s(2) by (auto split: option.splits dest!: word_from_bounds)
  have stop: "stop = (if MAX_FRAGMENT_BYTES < ?bytes + utf8_size (slice raw ?stop ?till) then ?stop else ?till)"
    using assms(1) unfolding piece_end_def Let_def g by simp
  show ?thesis
  proof (cases "MAX_FRAGMENT_BYTES < ?bytes + utf8_size (slice raw ?stop ?till)")
    case True
    then have "stop = ?stop"
      using stop by simp
    then show ?thesis
      using s by simp
  next
    case False
    then have "stop = ?till"
      using stop by simp
    moreover have "slice raw start ?till = slice raw start ?stop @ slice raw ?stop ?till"
      using s(1) e(1) by (intro slice_append) simp_all
    ultimately show ?thesis
      using False s e by simp
  qed
qed

text \<open>\<open>_pieces\<close>: a long line as pieces, each at most the byte limit.\<close>

function pieces_from :: "pystr \<Rightarrow> nat \<Rightarrow> nat \<Rightarrow> frag_line list" where
  "pieces_from raw offset start =
     (if length raw \<le> start then []
      else let (stop, count) = piece_end raw start in
        \<lparr>l_from = offset + start, l_to = offset + stop, l_words = max 1 count, l_blank = False,
         l_size = utf8_size (slice raw start stop)\<rparr> # pieces_from raw offset stop)"
  by pat_completeness auto
termination
  by (relation "measure (\<lambda>(raw, offset, start). length raw - start)")
     (auto dest!: piece_end_bounds [OF sym])

declare pieces_from.simps [simp del]

fun frag_lines :: "nat \<Rightarrow> pystr list \<Rightarrow> frag_line list" where
  "frag_lines offset [] = []"
| "frag_lines offset (raw # raws) =
     (let w = length (split_ws raw); b = utf8_size raw in
      (if w \<le> WINDOW_WORDS \<and> b \<le> MAX_FRAGMENT_BYTES
       then [\<lparr>l_from = offset, l_to = offset + length raw, l_words = w, l_blank = (w = 0), l_size = b\<rparr>]
       else pieces_from raw offset 0) @ frag_lines (offset + length raw) raws)"

section \<open>Sections\<close>

text \<open>\<open>text.rstrip("\r\n")\<close>.\<close>

definition rstrip_eol :: "pystr \<Rightarrow> pystr" where
  "rstrip_eol s = rev (dropWhile (\<lambda>c. c = 13 \<or> c = 10) (rev s))"

definition ARROW :: pystr where "ARROW = [SP, 8250, SP]"

text \<open>A heading at line \<open>index\<close> of level \<open>level\<close> puts its name on the trail of the ones above it.\<close>

definition on_trail :: "nat \<Rightarrow> pystr \<Rightarrow> (nat \<times> pystr) list \<Rightarrow> (nat \<times> pystr) list" where
  "on_trail level name t = filter (\<lambda>(depth, _). depth < level) t @ [(level, take HEADING_CHARS (strip name))]"

definition trail_name :: "bool \<Rightarrow> (nat \<times> pystr) list \<Rightarrow> pystr" where
  "trail_name source t =
     take TRAIL_CHARS (join ARROW (map snd (filter (\<lambda>(depth, _). source \<or> 2 \<le> depth) (sort_key fst t))))"

fun section_starts ::
  "pystr \<Rightarrow> bool \<Rightarrow> nat \<Rightarrow> frag_line list \<Rightarrow> (nat \<times> pystr) list \<Rightarrow> bool \<Rightarrow> (nat \<times> pystr) list
   \<Rightarrow> (nat \<times> pystr) list" where
  "section_starts body source index [] t fenced starts = starts"
| "section_starts body source index (line # lines) t fenced starts =
     (let text = rstrip_eol (slice body (l_from line) (l_to line)) in
      if match_at FENCE text 0 \<noteq> None then section_starts body source (index + 1) lines t (\<not> fenced) starts
      else case (if fenced then None else match_at HEADING text 0) of
        None \<Rightarrow> section_starts body source (index + 1) lines t fenced starts
      | Some m \<Rightarrow>
          let level = length (the (group_of m 1)) in
          if \<not> source \<and> level \<notin> {2, 3} then section_starts body source (index + 1) lines t fenced starts
          else let t' = on_trail level (the (group_of m 2)) t; name = trail_name source t' in
            section_starts body source (index + 1) lines t' fenced
              (if index = 0 then starts[0 := (0, name)] else starts @ [(index, name)]))"

definition frag_sections :: "pystr \<Rightarrow> frag_line list \<Rightarrow> bool \<Rightarrow> frag_section list" where
  "frag_sections body lines source =
     (let starts = section_starts body source 0 lines [] False [(0, [])];
          bounds = map fst (tl starts) @ [length lines]
      in map (\<lambda>((first, name), last). \<lparr>s_first = first, s_last = last, s_trail = name\<rparr>)
           (filter (\<lambda>((first, _), last). first < last) (zip starts bounds)))"

definition words_in :: "frag_line list \<Rightarrow> nat \<Rightarrow> nat \<Rightarrow> nat" where
  "words_in lines i j = sum_list (map l_words (take (j - i) (drop i lines)))"

definition bytes_in :: "frag_line list \<Rightarrow> nat \<Rightarrow> nat \<Rightarrow> nat" where
  "bytes_in lines i j = sum_list (map l_size (take (j - i) (drop i lines)))"

definition joined :: "pystr \<Rightarrow> pystr \<Rightarrow> pystr" where
  "joined first second =
     (if first = [] \<or> starts_with first second then second
      else if second = [] \<or> starts_with second first then first
      else take TRAIL_CHARS (first @ lit '', '' @ second))"

fun merge_sections ::
  "frag_line list \<Rightarrow> frag_section option \<Rightarrow> frag_section list \<Rightarrow> frag_section list \<Rightarrow> frag_section list" where
  "merge_sections lines pending merged [] =
     (case pending of
        None \<Rightarrow> merged
      | Some p \<Rightarrow>
          if merged = [] then [p]
          else butlast merged @ [\<lparr>s_first = s_first (last merged), s_last = s_last p,
            s_trail = joined (s_trail (last merged)) (s_trail p)\<rparr>])"
| "merge_sections lines pending merged (s # ss) =
     (let s' = (case pending of
                  None \<Rightarrow> s
                | Some p \<Rightarrow> \<lparr>s_first = s_first p, s_last = s_last s, s_trail = joined (s_trail p) (s_trail s)\<rparr>)
      in if words_in lines (s_first s') (s_last s') < MIN_SECTION_WORDS
         then merge_sections lines (Some s') merged ss
         else merge_sections lines None (merged @ [s']) ss)"

section \<open>Windows\<close>

text \<open>The inner loop: lines join the window while they fit, the first one always.\<close>

function widen :: "frag_line list \<Rightarrow> nat \<Rightarrow> nat \<Rightarrow> nat \<Rightarrow> nat \<Rightarrow> nat \<times> nat" where
  "widen lines final start stop words =
     (if stop < final \<and> (stop = start \<or> words + l_words (lines ! stop) \<le> WINDOW_WORDS \<and>
           bytes_in lines start (stop + 1) \<le> MAX_FRAGMENT_BYTES)
      then widen lines final start (stop + 1) (words + l_words (lines ! stop))
      else (stop, words))"
  by pat_completeness auto
termination
  by (relation "measure (\<lambda>(lines, final, start, stop, words). final - stop)") auto

declare widen.simps [simp del]

text \<open>The last blank line after the first line of a window, if enough words come before it.\<close>

definition paragraph_end :: "frag_line list \<Rightarrow> nat \<Rightarrow> nat \<Rightarrow> nat option" where
  "paragraph_end lines start stop =
     (case filter (\<lambda>i. l_blank (lines ! i)) [start + 1..<stop] of
        [] \<Rightarrow> None
      | i # is \<Rightarrow> (let p = last (i # is) in if 6 * WINDOW_WORDS \<le> 10 * words_in lines start p then Some p else None))"

definition window_end :: "frag_line list \<Rightarrow> nat \<Rightarrow> nat \<Rightarrow> nat \<times> nat" where
  "window_end lines final start =
     (let (stop, words) = widen lines final start start 0 in
      if stop < final then
        (case paragraph_end lines start stop of
           None \<Rightarrow> (stop, words)
         | Some p \<Rightarrow> (p + 1, words_in lines start (p + 1)))
      else (stop, words))"

text \<open>The lines of a window that the next one repeats.\<close>

function retreat :: "frag_line list \<Rightarrow> nat \<Rightarrow> nat \<Rightarrow> nat \<Rightarrow> nat \<Rightarrow> nat \<Rightarrow> nat \<Rightarrow> nat \<times> nat" where
  "retreat lines start stop word_room byte_room low carried =
     (if start + 1 < low \<and> carried < OVERLAP_WORDS \<and>
         carried + l_words (lines ! (low - 1)) \<le> word_room \<and> bytes_in lines (low - 1) stop \<le> byte_room
      then retreat lines start stop word_room byte_room (low - 1) (carried + l_words (lines ! (low - 1)))
      else (low, carried))"
  by pat_completeness auto
termination
  by (relation "measure (\<lambda>(lines, start, stop, wr, br, low, carried). low)") auto

declare retreat.simps [simp del]

definition next_begin :: "frag_line list \<Rightarrow> nat \<Rightarrow> nat \<Rightarrow> nat \<Rightarrow> nat" where
  "next_begin lines start stop words =
     (let (low, carried) = retreat lines start stop (min OVERLAP_CAP_WORDS (words div 4))
                              (bytes_in lines start stop div 4) stop 0
      in if WINDOW_WORDS < carried + l_words (lines ! stop) \<or> MAX_FRAGMENT_BYTES < bytes_in lines low (stop + 1)
         then stop else low)"

lemma widen_bounds:
  "widen lines final start stop words = (stop', words') \<Longrightarrow> stop \<le> final \<Longrightarrow> stop \<le> stop' \<and> stop' \<le> final"
proof (induction lines final start stop words rule: widen.induct)
  case (1 lines final start stop words)
  let ?go = "stop < final \<and> (stop = start \<or> words + l_words (lines ! stop) \<le> WINDOW_WORDS \<and>
      bytes_in lines start (stop + 1) \<le> MAX_FRAGMENT_BYTES)"
  show ?case
  proof (cases ?go)
    case True
    then have "widen lines final start (stop + 1) (words + l_words (lines ! stop)) = (stop', words')"
      using "1.prems"(1) by (subst (asm) widen.simps) simp
    then show ?thesis
      using "1.IH" [OF True] True by simp
  next
    case False
    then have "(stop, words) = (stop', words')"
      using "1.prems"(1) by (subst (asm) widen.simps) auto
    then show ?thesis
      using "1.prems"(2) by simp
  qed
qed

lemma widen_progress:
  assumes "widen lines final start start 0 = (stop, words)" "start < final"
  shows "start < stop \<and> stop \<le> final"
proof -
  have "widen lines final start (start + 1) (l_words (lines ! start)) = (stop, words)"
    using assms by (subst (asm) widen.simps) simp
  then show ?thesis
    using widen_bounds assms(2) by fastforce
qed

lemma paragraph_end_bounds: "paragraph_end lines start stop = Some p \<Longrightarrow> start < p \<and> p < stop"
proof -
  assume "paragraph_end lines start stop = Some p"
  then have "p = last (filter (\<lambda>i. l_blank (lines ! i)) [start + 1..<stop])"
      "filter (\<lambda>i. l_blank (lines ! i)) [start + 1..<stop] \<noteq> []"
    unfolding paragraph_end_def Let_def by (auto split: list.splits if_split_asm simp del: upt_Suc last.simps)
  then have "p \<in> set (filter (\<lambda>i. l_blank (lines ! i)) [start + 1..<stop])"
    by (metis last_in_set)
  then show ?thesis
    by simp
qed

lemma window_end_bounds:
  assumes "window_end lines final start = (stop, words)" "start < final"
  shows "start < stop \<and> stop \<le> final"
proof -
  obtain stop0 words0 where e: "widen lines final start start 0 = (stop0, words0)"
    by force
  have "start < stop0 \<and> stop0 \<le> final"
    by (rule widen_progress [OF e assms(2)])
  then show ?thesis
    using assms(1) e paragraph_end_bounds
    by (fastforce simp: window_end_def split: if_splits option.splits)
qed

lemma retreat_bounds:
  "retreat lines start stop wr br low carried = (low', carried') \<Longrightarrow> start < low \<Longrightarrow> start < low' \<and> low' \<le> low"
proof (induction lines start stop wr br low carried rule: retreat.induct)
  case (1 lines start stop wr br low carried)
  show ?case
  proof (cases "start + 1 < low \<and> carried < OVERLAP_WORDS \<and> carried + l_words (lines ! (low - 1)) \<le> wr \<and>
      bytes_in lines (low - 1) stop \<le> br")
    case True
    then show ?thesis
      using 1 by (subst (asm) (2) retreat.simps) fastforce
  next
    case False
    then show ?thesis
      using 1 by (subst (asm) (2) retreat.simps) auto
  qed
qed

lemma next_begin_bounds:
  assumes "start < stop"
  shows "start < next_begin lines start stop words \<and> next_begin lines start stop words \<le> stop"
proof -
  obtain low carried where r: "retreat lines start stop (min OVERLAP_CAP_WORDS (words div 4))
      (bytes_in lines start stop div 4) stop 0 = (low, carried)"
    by force
  then show ?thesis
    using retreat_bounds [OF r assms] assms by (simp add: next_begin_def)
qed

function windows_from :: "frag_line list \<Rightarrow> nat \<Rightarrow> nat \<Rightarrow> (nat \<times> nat) list" where
  "windows_from lines final start =
     (if start < final then
        let (stop, words) = window_end lines final start in
        (l_from (lines ! start), l_to (lines ! (stop - 1))) #
        (if final \<le> stop then [] else windows_from lines final (next_begin lines start stop words))
      else [])"
  by pat_completeness auto
termination
proof (relation "measure (\<lambda>(lines, final, start). final - start)")
  fix lines :: "frag_line list" and final start w stop words
  assume "start < final" "w = window_end lines final start" "(stop, words) = w"
  then have "start < next_begin lines start stop words"
    using window_end_bounds [of lines final start stop words] next_begin_bounds [of start stop lines words] by simp
  then show "((lines, final, next_begin lines start stop words), lines, final, start) \<in> measure (\<lambda>(lines, final, start). final - start)"
    using \<open>start < final\<close> by simp
qed simp

declare windows_from.simps [simp del]

definition windows :: "frag_line list \<Rightarrow> frag_section \<Rightarrow> (nat \<times> nat \<times> pystr) list" where
  "windows lines s =
     (if words_in lines (s_first s) (s_last s) \<le> SECTION_MAX_WORDS \<and>
         bytes_in lines (s_first s) (s_last s) \<le> MAX_FRAGMENT_BYTES
      then [(l_from (lines ! s_first s), l_to (lines ! (s_last s - 1)), s_trail s)]
      else map (\<lambda>(i, j). (i, j, s_trail s)) (windows_from lines (s_last s) (s_first s)))"

section \<open>Fragments\<close>

fun numbered :: "pystr \<Rightarrow> nat \<Rightarrow> (nat \<times> nat \<times> pystr) list \<Rightarrow> frag list" where
  "numbered body n [] = []"
| "numbered body n ((i, j, t) # spans) =
     \<lparr>ordinal = n, f_from = i, f_to = j, trail = t, f_text = slice body i j\<rparr> # numbered body (n + 1) spans"

definition whole :: "pystr \<Rightarrow> frag list" where
  "whole body = [\<lparr>ordinal = 0, f_from = 0, f_to = length body, trail = [], f_text = body\<rparr>]"

definition frag_spans :: "pystr \<Rightarrow> bool \<Rightarrow> (nat \<times> nat \<times> pystr) list" where
  "frag_spans body source =
     (let lines = frag_lines 0 (splitlines_keep body) in
      concat (map (windows lines) (merge_sections lines None [] (frag_sections body lines source))))"

definition fragment :: "pystr \<Rightarrow> bool \<Rightarrow> frag list" where
  "fragment body source =
     (if body = [] then []
      else let lines = frag_lines 0 (splitlines_keep body) in
        if sum_list (map l_words lines) \<le> SHORT_PAGE_WORDS \<and> utf8_size body \<le> MAX_FRAGMENT_BYTES
        then whole body
        else numbered body 0 (frag_spans body source))"

text \<open>\<open>pieces_of\<close>; \<open>kind\<close> is the page's type.\<close>

definition pieces_of :: "pystr \<Rightarrow> pystr \<Rightarrow> bool \<Rightarrow> frag list" where
  "pieces_of kind body cutting =
     (if body = [] then []
      else if kind = lit ''entity'' \<and> \<not> cutting then whole body
      else fragment body (kind = lit ''source''))"

end
