(* ===== verification/Fragment_Cover.thy ===== *)
theory Fragment_Cover
  imports Fragments
begin

text \<open>
  What cutting a page promises: the fragments reassemble the body, each goes past the end of the one
  before, none is larger than the byte limit, and a reference to a fragment reads back.
\<close>

section \<open>Lines tile the body\<close>

fun tiles :: "pystr \<Rightarrow> nat \<Rightarrow> frag_line list \<Rightarrow> nat \<Rightarrow> bool" where
  "tiles body i [] j \<longleftrightarrow> i = j"
| "tiles body i (l # ls) j \<longleftrightarrow> l_from l = i \<and> i < l_to l \<and> l_to l \<le> length body \<and>
     l_size l = utf8_size (slice body i (l_to l)) \<and> l_size l \<le> MAX_FRAGMENT_BYTES \<and> tiles body (l_to l) ls j"

lemma tiles_append: "tiles body i (ls @ ls') j \<longleftrightarrow> (\<exists>m. tiles body i ls m \<and> tiles body m ls' j)"
  by (induction ls arbitrary: i) auto

lemma slice_slice: "i \<le> j \<Longrightarrow> n + j \<le> m \<Longrightarrow> slice (slice s n m) i j = slice s (n + i) (n + j)"
  by (simp add: slice_def drop_take min_absorb1 add.commute)

lemma pieces_tile:
  "start \<le> length raw \<Longrightarrow> raw = slice body offset (offset + length raw) \<Longrightarrow> offset + length raw \<le> length body \<Longrightarrow>
     tiles body (offset + start) (pieces_from raw offset start) (offset + length raw)"
proof (induction raw offset start rule: pieces_from.induct)
  case (1 raw offset start)
  show ?case
  proof (cases "length raw \<le> start")
    case True
    then show ?thesis
      using "1.prems" by (subst pieces_from.simps) simp
  next
    case False
    obtain stop count where p: "piece_end raw start = (stop, count)"
      by force
    have b: "start < stop" "stop \<le> length raw" "utf8_size (slice raw start stop) \<le> MAX_FRAGMENT_BYTES"
      using piece_end_bounds [OF p] False by simp_all
    have "slice raw start stop = slice (slice body offset (offset + length raw)) start stop"
      using "1.prems"(2) by simp
    also have "\<dots> = slice body (offset + start) (offset + stop)"
      using b by (intro slice_slice) simp_all
    finally have same: "slice raw start stop = slice body (offset + start) (offset + stop)" .
    have "tiles body (offset + stop) (pieces_from raw offset stop) (offset + length raw)"
      by (rule "1.IH" [OF False p [symmetric] refl b(2) "1.prems"(2,3)])
    then show ?thesis
      using False p b same "1.prems"(3) by (subst pieces_from.simps) simp
  qed
qed

lemma splitlines_concat: "concat (splitlines_keep s) = s \<and> [] \<notin> set (splitlines_keep s)"
proof (induction s rule: splitlines_keep.induct)
  case (3 c d s)
  consider "c = 13 \<and> d = 10" | "\<not> (c = 13 \<and> d = 10)" "line_break c" | "\<not> (c = 13 \<and> d = 10)" "\<not> line_break c"
    by blast
  then show ?case
    using 3 by cases (auto split: list.splits)
qed simp_all

lemma lines_tile:
  "drop offset body = concat raws \<Longrightarrow> offset \<le> length body \<Longrightarrow> [] \<notin> set raws \<Longrightarrow>
     tiles body offset (frag_lines offset raws) (length body)"
proof (induction raws arbitrary: offset)
  case (Cons raw raws)
  have len: "offset + length raw \<le> length body"
    using arg_cong [OF Cons.prems(1), of length] Cons.prems(2) by simp
  have raw: "raw = slice body offset (offset + length raw)"
    using Cons.prems(1) by (simp add: slice_def)
  have "drop (offset + length raw) body = concat raws"
    using arg_cong [OF Cons.prems(1), of "drop (length raw)"] by (simp add: add.commute)
  then have rest: "tiles body (offset + length raw) (frag_lines (offset + length raw) raws) (length body)"
    using Cons.IH len Cons.prems(3) by simp
  have pieces: "tiles body offset (pieces_from raw offset 0) (offset + length raw)"
    using pieces_tile [of 0 raw body offset] raw len by simp
  show ?case
    using rest pieces raw len Cons.prems(3) by (auto simp: tiles_append Let_def)
qed simp

definition page_lines :: "pystr \<Rightarrow> frag_line list" where
  "page_lines body = frag_lines 0 (splitlines_keep body)"

lemma page_lines_tile: "tiles body 0 (page_lines body) (length body)"
  using lines_tile [of 0 body "splitlines_keep body"] splitlines_concat by (simp add: page_lines_def)

lemma tiles_nth:
  assumes "tiles body i lines j" "a < length lines"
  shows "l_from (lines ! a) < l_to (lines ! a) \<and> l_to (lines ! a) \<le> length body \<and>
    l_size (lines ! a) \<le> MAX_FRAGMENT_BYTES \<and>
    (if a = 0 then l_from (lines ! a) = i else l_from (lines ! a) = l_to (lines ! (a - 1))) \<and>
    (a + 1 = length lines \<longrightarrow> l_to (lines ! a) = j)"
  using assms
proof (induction lines arbitrary: i a)
  case (Cons l ls)
  show ?case
  proof (cases a)
    case 0
    then show ?thesis
      using Cons.prems by (cases ls) auto
  next
    case (Suc k)
    have "tiles body (l_to l) ls j" "k < length ls" "tiles body i (l # ls) j"
      using Cons.prems Suc by simp_all
    moreover have same: "(l # ls) ! Suc k = ls ! k"
      by simp
    ultimately show ?thesis
      unfolding Suc same using Cons.IH [of "l_to l" k] by (cases k) auto
  qed
qed simp

lemma tiles_size:
  "tiles body i lines j \<Longrightarrow> a < length lines \<Longrightarrow>
     l_size (lines ! a) = utf8_size (slice body (l_from (lines ! a)) (l_to (lines ! a)))"
  by (induction lines arbitrary: i a) (auto simp: nth_Cons')

lemma bytes_in_Suc: "a \<le> b \<Longrightarrow> b < length lines \<Longrightarrow> bytes_in lines a (Suc b) = bytes_in lines a b + l_size (lines ! b)"
  by (simp add: bytes_in_def Suc_diff_le take_Suc_conv_app_nth)

lemma words_in_Suc: "a \<le> b \<Longrightarrow> b < length lines \<Longrightarrow> words_in lines a (Suc b) = words_in lines a b + l_words (lines ! b)"
  by (simp add: words_in_def Suc_diff_le take_Suc_conv_app_nth)

lemma sum_take_mono: "m \<le> n \<Longrightarrow> sum_list (map f (take m xs)) \<le> sum_list (map (f :: 'a \<Rightarrow> nat) (take n xs))"
  using take_add [of m "n - m" xs] by simp

lemma words_in_mono: "b \<le> c \<Longrightarrow> words_in lines a b \<le> words_in lines a c"
  by (simp add: words_in_def sum_take_mono)

lemma bytes_in_mono: "b \<le> c \<Longrightarrow> bytes_in lines a b \<le> bytes_in lines a c"
  by (simp add: bytes_in_def sum_take_mono)

lemma tiles_bytes:
  assumes "tiles body i lines j" "a < b" "b \<le> length lines"
  shows "utf8_size (slice body (l_from (lines ! a)) (l_to (lines ! (b - 1)))) = bytes_in lines a b \<and>
    l_from (lines ! a) < l_to (lines ! (b - 1))"
  using assms(2,3)
proof (induction b)
  case (Suc b)
  note nth = tiles_nth [OF assms(1)]
  show ?case
  proof (cases "a = b")
    case True
    then have "bytes_in lines a (Suc b) = l_size (lines ! a)"
      using Suc.prems by (simp add: bytes_in_Suc) (simp add: bytes_in_def)
    then show ?thesis
      using True Suc.prems nth [of a] tiles_size [OF assms(1), of a] by simp
  next
    case False
    have ih: "utf8_size (slice body (l_from (lines ! a)) (l_to (lines ! (b - 1)))) = bytes_in lines a b"
      "l_from (lines ! a) < l_to (lines ! (b - 1))"
      using Suc False by simp_all
    have next_line: "l_from (lines ! b) = l_to (lines ! (b - 1))" "l_from (lines ! b) < l_to (lines ! b)"
      using nth [of b] Suc.prems False by auto
    have "slice body (l_from (lines ! a)) (l_to (lines ! b)) =
        slice body (l_from (lines ! a)) (l_from (lines ! b)) @ slice body (l_from (lines ! b)) (l_to (lines ! b))"
      using ih next_line by (intro slice_append) simp_all
    then show ?thesis
      using ih next_line tiles_size [OF assms(1), of b] Suc.prems False by (simp add: bytes_in_Suc)
  qed
qed simp

section \<open>Windows advance\<close>

lemma widen_reaches:
  assumes "start \<le> stop" "stop \<le> m" "m < final" "final \<le> length lines"
    and "words_in lines start (m + 1) \<le> WINDOW_WORDS" "bytes_in lines start (m + 1) \<le> MAX_FRAGMENT_BYTES"
    and "widen lines final start stop (words_in lines start stop) = (stop', words')"
  shows "m < stop'"
  using assms(1,2,7)
proof (induction "m - stop" arbitrary: stop)
  case 0
  then have "widen lines final start (m + 1) (words_in lines start m + l_words (lines ! m)) = (stop', words')"
    using assms(3-6) words_in_Suc [of start m lines]
    by (subst (asm) widen.simps) (simp split: if_splits)
  then show ?case
    using widen_bounds assms(3) by fastforce
next
  case (Suc n)
  have "words_in lines start stop + l_words (lines ! stop) = words_in lines start (stop + 1)"
    using Suc assms(3,4) by (simp add: words_in_Suc)
  moreover have "words_in lines start (stop + 1) \<le> WINDOW_WORDS" "bytes_in lines start (stop + 1) \<le> MAX_FRAGMENT_BYTES"
    using assms(5,6) Suc words_in_mono [of "stop + 1" "m + 1" lines start]
      bytes_in_mono [of "stop + 1" "m + 1" lines start] by simp_all
  ultimately have "widen lines final start (stop + 1) (words_in lines start (stop + 1)) = (stop', words')"
    using Suc.prems(3) Suc.prems(2) Suc.hyps(2) assms(3) by (subst (asm) widen.simps) (simp split: if_splits)
  then show ?case
    using Suc.hyps(1) [of "stop + 1"] Suc.hyps(2) Suc.prems(1) by simp
qed

lemma widen_bytes:
  "widen lines final start stop words = (stop', words') \<Longrightarrow> final \<le> length lines \<Longrightarrow> start < stop \<Longrightarrow>
     bytes_in lines start stop \<le> MAX_FRAGMENT_BYTES \<Longrightarrow> bytes_in lines start stop' \<le> MAX_FRAGMENT_BYTES"
proof (induction lines final start stop words rule: widen.induct)
  case (1 lines final start stop words)
  let ?go = "stop < final \<and> (stop = start \<or> words + l_words (lines ! stop) \<le> WINDOW_WORDS \<and>
      bytes_in lines start (stop + 1) \<le> MAX_FRAGMENT_BYTES)"
  show ?case
  proof (cases ?go)
    case True
    then have "widen lines final start (stop + 1) (words + l_words (lines ! stop)) = (stop', words')"
      using "1.prems"(1) by (subst (asm) widen.simps) simp
    then show ?thesis
      using "1.IH" [OF True] "1.prems" True by simp
  next
    case False
    then have "(stop, words) = (stop', words')"
      using "1.prems"(1) by (subst (asm) widen.simps) auto
    then show ?thesis
      using "1.prems" by simp
  qed
qed

lemma window_end_bytes:
  assumes "tiles body i lines j" "start < final" "final \<le> length lines"
    and "window_end lines final start = (stop, words)"
  shows "bytes_in lines start stop \<le> MAX_FRAGMENT_BYTES"
proof -
  obtain stop0 words0 where w: "widen lines final start start 0 = (stop0, words0)"
    by force
  then have "widen lines final start (start + 1) (l_words (lines ! start)) = (stop0, words0)"
    using assms(2) by (subst (asm) widen.simps) simp
  moreover have "bytes_in lines start (start + 1) \<le> MAX_FRAGMENT_BYTES"
    using tiles_nth [OF assms(1), of start] assms(2,3) by (simp add: bytes_in_Suc) (simp add: bytes_in_def)
  ultimately have "bytes_in lines start stop0 \<le> MAX_FRAGMENT_BYTES"
    using widen_bytes assms(3) by fastforce
  moreover have "stop \<le> stop0"
    using assms(4) w paragraph_end_bounds by (fastforce simp: window_end_def split: if_splits option.splits)
  ultimately show ?thesis
    using bytes_in_mono le_trans by blast
qed

lemma paragraph_end_words: "paragraph_end lines start stop = Some p \<Longrightarrow> 210 \<le> words_in lines start p"
  by (auto simp: paragraph_end_def Let_def WINDOW_WORDS_def split: list.splits if_split_asm)

text \<open>A window that repeats the lines from \<open>low\<close> to \<open>stop\<close> still goes past \<open>stop\<close>.\<close>

lemma window_end_advances:
  assumes "low \<le> stop" "stop < final" "final \<le> length lines"
    and "words_in lines low stop \<le> OVERLAP_CAP_WORDS"
    and "low = stop \<or> words_in lines low (stop + 1) \<le> WINDOW_WORDS \<and> bytes_in lines low (stop + 1) \<le> MAX_FRAGMENT_BYTES"
    and "window_end lines final low = (stop', words')"
  shows "stop < stop'"
proof (cases "low = stop")
  case True
  then show ?thesis
    using window_end_bounds [OF assms(6)] assms(2) by simp
next
  case False
  obtain stop0 words0 where w: "widen lines final low low 0 = (stop0, words0)"
    by force
  have "words_in lines low low = 0"
    by (simp add: words_in_def)
  then have "stop < stop0"
    using widen_reaches [OF order_refl assms(1-3), of stop0 words0] assms(5) False w by simp
  moreover have "stop \<le> p" if "paragraph_end lines low stop0 = Some p" for p
  proof (rule ccontr)
    assume "\<not> stop \<le> p"
    then have "words_in lines low p \<le> words_in lines low stop"
      by (intro words_in_mono) simp
    then show False
      using paragraph_end_words [OF that] assms(4) by (simp add: OVERLAP_CAP_WORDS_def)
  qed
  ultimately show ?thesis
    using assms(6) w by (fastforce simp: window_end_def split: if_splits option.splits)
qed

lemma retreat_words:
  "retreat lines start stop wr br low carried = (low', carried') \<Longrightarrow> low \<le> stop \<Longrightarrow> stop \<le> length lines \<Longrightarrow>
     carried = words_in lines low stop \<Longrightarrow> carried \<le> wr \<Longrightarrow>
     carried' = words_in lines low' stop \<and> carried' \<le> wr"
proof (induction lines start stop wr br low carried rule: retreat.induct)
  case (1 lines start stop wr br low carried)
  let ?go = "start + 1 < low \<and> carried < OVERLAP_WORDS \<and> carried + l_words (lines ! (low - 1)) \<le> wr \<and>
      bytes_in lines (low - 1) stop \<le> br"
  show ?case
  proof (cases ?go)
    case True
    then have "retreat lines start stop wr br (low - 1) (carried + l_words (lines ! (low - 1))) = (low', carried')"
      using "1.prems"(1) by (subst (asm) retreat.simps) simp
    moreover have "carried + l_words (lines ! (low - 1)) = words_in lines (low - 1) stop"
    proof -
      have "low - 1 < length lines"
        using True "1.prems"(2,3) by linarith
      then have "drop (low - 1) lines = lines ! (low - 1) # drop low lines"
        using True Cons_nth_drop_Suc [of "low - 1" lines] by simp
      moreover have "stop - (low - 1) = Suc (stop - low)"
        using True "1.prems"(2) by simp
      ultimately show ?thesis
        using "1.prems"(4) by (simp add: words_in_def)
    qed
    ultimately show ?thesis
      by (intro "1.IH" [OF True]) (use "1.prems"(2,3) True in simp_all)
  next
    case False
    then have "(low, carried) = (low', carried')"
      using "1.prems"(1) by (subst (asm) retreat.simps) auto
    then show ?thesis
      using "1.prems" by auto
  qed
qed

lemma next_begin_overlap:
  assumes "start < stop" "stop < length lines"
  shows "words_in lines (next_begin lines start stop words) stop \<le> OVERLAP_CAP_WORDS \<and>
    (next_begin lines start stop words = stop \<or>
     words_in lines (next_begin lines start stop words) (stop + 1) \<le> WINDOW_WORDS \<and>
     bytes_in lines (next_begin lines start stop words) (stop + 1) \<le> MAX_FRAGMENT_BYTES)"
proof -
  obtain low carried where r: "retreat lines start stop (min OVERLAP_CAP_WORDS (words div 4))
      (bytes_in lines start stop div 4) stop 0 = (low, carried)"
    by force
  have "carried = words_in lines low stop \<and> carried \<le> min OVERLAP_CAP_WORDS (words div 4)"
    by (rule retreat_words [OF r]) (use assms in \<open>simp_all add: words_in_def\<close>)
  moreover have "low \<le> stop"
    using retreat_bounds [OF r assms(1)] by simp
  ultimately show ?thesis
    using r assms(2) words_in_Suc [of low stop lines] by (auto simp: next_begin_def words_in_def)
qed

section \<open>Spans that cover the body\<close>

text \<open>Each span starts at or before the point reached and goes past it.\<close>

fun covers :: "nat \<Rightarrow> (nat \<times> nat) list \<Rightarrow> nat \<Rightarrow> bool" where
  "covers r [] j \<longleftrightarrow> r = j"
| "covers r ((a, b) # spans) j \<longleftrightarrow> a \<le> r \<and> r < b \<and> covers b spans j"

lemma covers_append: "covers r spans m \<Longrightarrow> covers m spans' j \<Longrightarrow> covers r (spans @ spans') j"
  by (induction r spans m rule: covers.induct) auto

definition small :: "pystr \<Rightarrow> nat \<times> nat \<Rightarrow> bool" where
  "small body s \<longleftrightarrow> fst s < snd s \<and> snd s \<le> length body \<and> utf8_size (slice body (fst s) (snd s)) \<le> MAX_FRAGMENT_BYTES"

lemma span_small:
  assumes "tiles body i lines j" "a < b" "b \<le> length lines" "bytes_in lines a b \<le> MAX_FRAGMENT_BYTES"
  shows "small body (l_from (lines ! a), l_to (lines ! (b - 1)))"
  using tiles_bytes [OF assms(1-3)] tiles_nth [OF assms(1), of "b - 1"] assms(2-4) by (simp add: small_def)

lemma tiles_mono:
  assumes "tiles body i lines j" "a \<le> b" "b < length lines"
  shows "l_from (lines ! a) \<le> l_from (lines ! b) \<and> l_to (lines ! a) \<le> l_to (lines ! b)"
  using assms(2,3)
proof (induction b)
  case (Suc b)
  then show ?case
    using tiles_nth [OF assms(1), of b] tiles_nth [OF assms(1), of "Suc b"]
    by (cases "a = Suc b") auto
qed simp

lemma windows_cover:
  "tiles body i lines j \<Longrightarrow> start < final \<Longrightarrow> final \<le> length lines \<Longrightarrow>
     l_from (lines ! start) \<le> r \<Longrightarrow> r < l_to (lines ! (fst (window_end lines final start) - 1)) \<Longrightarrow>
     covers r (windows_from lines final start) (l_to (lines ! (final - 1))) \<and>
     list_all (small body) (windows_from lines final start)"
proof (induction lines final start arbitrary: r rule: windows_from.induct)
  case (1 lines final start)
  obtain stop words where w: "window_end lines final start = (stop, words)"
    by force
  have stop: "start < stop" "stop \<le> final"
    using window_end_bounds [OF w "1.prems"(2)] by simp_all
  have small: "small body (l_from (lines ! start), l_to (lines ! (stop - 1)))"
    using window_end_bytes [OF "1.prems"(1-3) w] stop "1.prems"(1,3) by (intro span_small) simp_all
  have unfold: "windows_from lines final start = (l_from (lines ! start), l_to (lines ! (stop - 1))) #
      (if final \<le> stop then [] else windows_from lines final (next_begin lines start stop words))"
    using "1.prems"(2) w by (subst windows_from.simps) simp
  show ?case
  proof (cases "final \<le> stop")
    case True
    then have "stop = final"
      using stop by simp
    then show ?thesis
      using "1.prems"(4,5) small w by (simp add: unfold)
  next
    case False
    let ?low = "next_begin lines start stop words"
    obtain stop' words' where w': "window_end lines final ?low = (stop', words')"
      by force
    have low: "start < ?low" "?low \<le> stop"
      using next_begin_bounds [OF stop(1)] by simp_all
    have "stop < stop'"
      using next_begin_overlap [of start stop lines words] stop False "1.prems"(3) low
      by (intro window_end_advances [OF low(2) _ "1.prems"(3) _ _ w']) simp_all
    have ends: "stop' \<le> final"
      using window_end_bounds [OF w'] low False by simp
    have "l_from (lines ! ?low) \<le> l_from (lines ! stop)" "l_from (lines ! stop) = l_to (lines ! (stop - 1))"
      "l_from (lines ! stop) < l_to (lines ! stop)" "l_to (lines ! stop) \<le> l_to (lines ! (stop' - 1))"
      using tiles_mono [OF "1.prems"(1) low(2)] tiles_nth [OF "1.prems"(1), of stop] stop False "1.prems"(3)
        tiles_mono [OF "1.prems"(1), of stop "stop' - 1"] \<open>stop < stop'\<close> ends by auto
    then have "covers (l_to (lines ! (stop - 1))) (windows_from lines final ?low) (l_to (lines ! (final - 1))) \<and>
        list_all (small body) (windows_from lines final ?low)"
      using low False w' "1.prems"
      by (intro "1.IH" [OF "1.prems"(2) w [symmetric] refl False]) simp_all
    then show ?thesis
      using "1.prems"(4,5) small w False by (simp add: unfold)
  qed
qed

section \<open>Sections follow each other\<close>

fun contiguous :: "nat \<Rightarrow> frag_section list \<Rightarrow> nat \<Rightarrow> bool" where
  "contiguous i [] j \<longleftrightarrow> i = j"
| "contiguous i (s # ss) j \<longleftrightarrow> s_first s = i \<and> i < s_last s \<and> contiguous (s_last s) ss j"

lemma contiguous_append: "contiguous i (ss @ ss') j \<longleftrightarrow> (\<exists>m. contiguous i ss m \<and> contiguous m ss' j)"
  by (induction ss arbitrary: i) auto

lemma contiguous_le: "contiguous i ss j \<Longrightarrow> i \<le> j"
  by (induction ss arbitrary: i) fastforce+

definition starts_ok :: "nat \<Rightarrow> (nat \<times> pystr) list \<Rightarrow> bool" where
  "starts_ok n starts \<longleftrightarrow> starts \<noteq> [] \<and> fst (hd starts) = 0 \<and> sorted_wrt (<) (map fst starts) \<and>
     (\<forall>s \<in> set starts. fst s < max 1 n)"

lemma starts_ok_later: "starts_ok n starts \<Longrightarrow> starts_ok (n + 1) starts"
  by (auto simp: starts_ok_def)

lemma starts_ok_named: "starts_ok n starts \<Longrightarrow> starts_ok (n + 1) (starts[0 := (0, name)])"
  by (cases starts) (auto simp: starts_ok_def)

lemma starts_ok_more: "starts_ok n starts \<Longrightarrow> n \<noteq> 0 \<Longrightarrow> starts_ok (n + 1) (starts @ [(n, name)])"
  by (auto simp: starts_ok_def sorted_wrt_append)

lemma section_starts_ok:
  "starts_ok index starts \<Longrightarrow> starts_ok (index + length lines) (section_starts body source index lines t fenced starts)"
proof (induction lines arbitrary: index t fenced starts)
  case (Cons line lines)
  note kept = starts_ok_later [OF Cons.prems] and named = starts_ok_named [OF Cons.prems]
    and added = starts_ok_more [OF Cons.prems]
  let ?text = "rstrip_eol (slice body (l_from line) (l_to line))"
  let ?head = "if fenced then None else match_at HEADING ?text 0"
  have "\<exists>t' f' s'. section_starts body source index (line # lines) t fenced starts =
      section_starts body source (index + 1) lines t' f' s' \<and> starts_ok (index + 1) s'"
  proof (cases "match_at FENCE ?text 0 \<noteq> None \<or> ?head = None")
    case True
    then show ?thesis
      using kept by (cases "match_at FENCE ?text 0 \<noteq> None") (auto simp: Let_def)
  next
    case False
    then obtain m where m: "?head = Some m" "match_at FENCE ?text 0 = None"
      by auto
    let ?level = "length (the (group_of m 1))"
    let ?t = "on_trail ?level (the (group_of m 2)) t"
    let ?starts = "if index = 0 then starts[0 := (0, trail_name source ?t)] else starts @ [(index, trail_name source ?t)]"
    have eq: "section_starts body source index (line # lines) t fenced starts =
        (if \<not> source \<and> ?level \<notin> {2, 3} then section_starts body source (index + 1) lines t fenced starts
         else section_starts body source (index + 1) lines ?t fenced ?starts)"
      unfolding section_starts.simps Let_def m by simp
    have pick: "\<exists>t' f' s'. (if c then F t1 f1 s1 else F t2 f2 s2) = F t' f' s' \<and> P s'" if "P s1" "P s2"
      for c t1 f1 s1 t2 f2 s2 and P :: "(nat \<times> pystr) list \<Rightarrow> bool"
        and F :: "(nat \<times> pystr) list \<Rightarrow> bool \<Rightarrow> (nat \<times> pystr) list \<Rightarrow> (nat \<times> pystr) list"
      using that by (cases c) auto
    have ok: "starts_ok (index + 1) ?starts"
    proof (cases "index = 0")
      case True
      show ?thesis
        unfolding if_P [OF True] by (rule named)
    next
      case False
      show ?thesis
        unfolding if_not_P [OF False] by (rule added [OF False])
    qed
    show ?thesis
      unfolding eq by (rule pick [OF kept ok])
  qed
  then show ?case
    using Cons.IH by fastforce
qed simp

lemma sections_contiguous:
  "sorted_wrt (<) (map fst ((a, x) # starts)) \<Longrightarrow> (\<forall>s \<in> set ((a, x) # starts). fst s < n) \<Longrightarrow>
     contiguous a (map (\<lambda>((first, name), last). \<lparr>s_first = first, s_last = last, s_trail = name\<rparr>)
       (filter (\<lambda>((first, _), last). first < last) (zip ((a, x) # starts) (map fst starts @ [n])))) n"
proof (induction starts arbitrary: a x)
  case (Cons s starts)
  obtain b y where s: "s = (b, y)"
    by force
  show ?case
    using Cons.IH [of b y] Cons.prems by (simp add: s)
qed simp

lemma frag_sections_contiguous:
  assumes "lines \<noteq> []"
  shows "contiguous 0 (frag_sections body lines source) (length lines)"
proof -
  let ?starts = "section_starts body source 0 lines [] False [(0, [])]"
  have ok: "starts_ok (length lines) ?starts"
    using section_starts_ok [of 0 "[(0, [])]" lines body source "[]" False] by (simp add: starts_ok_def)
  then obtain x starts where s: "?starts = (0, x) # starts"
    by (cases ?starts) (auto simp: starts_ok_def)
  have "max 1 (length lines) = length lines"
    using assms by (cases lines) simp_all
  then show ?thesis
    using ok sections_contiguous [of 0 x starts "length lines"] by (simp add: frag_sections_def s starts_ok_def)
qed

lemma merge_sections_contiguous:
  "contiguous 0 merged m \<Longrightarrow>
     (case pending of None \<Rightarrow> contiguous m ss n
      | Some p \<Rightarrow> s_first p = m \<and> m < s_last p \<and> contiguous (s_last p) ss n) \<Longrightarrow>
     contiguous 0 (merge_sections lines pending merged ss) n"
proof (induction lines pending merged ss arbitrary: m rule: merge_sections.induct)
  case (1 lines pending merged)
  show ?case
  proof (cases "pending = None \<or> merged = []")
    case True
    then show ?thesis
      using 1 by (auto split: option.splits)
  next
    case False
    then obtain p where p: "pending = Some p"
      by (cases pending) auto
    have merged: "merged = butlast merged @ [last merged]"
      using False by simp
    then obtain k where "contiguous 0 (butlast merged) k" "s_first (last merged) = k" "k < m"
      using 1(1) contiguous_append [of 0 "butlast merged" "[last merged]" m] by auto
    then show ?thesis
      using 1(2) False p by (auto simp: contiguous_append)
  qed
next
  case (2 lines pending merged s ss)
  let ?s = "case pending of None \<Rightarrow> s
    | Some p \<Rightarrow> \<lparr>s_first = s_first p, s_last = s_last s, s_trail = joined (s_trail p) (s_trail s)\<rparr>"
  have s: "s_first ?s = m" "m < s_last ?s" "contiguous (s_last ?s) ss n"
    using 2(4) by (auto split: option.splits)
  have "contiguous 0 (merged @ [?s]) (s_last ?s)"
    using 2(3) s by (auto simp: contiguous_append)
  then show ?case
    using 2(1) [OF refl _ 2(3)] 2(2) [OF refl, of "s_last ?s"] s by (simp add: Let_def)
qed

section \<open>Fragments reassemble the body\<close>

lemma windows_of_section:
  assumes "tiles body i lines j" "s_first s < s_last s" "s_last s \<le> length lines" "r = l_from (lines ! s_first s)"
  shows "covers r (map (\<lambda>(a, b, t). (a, b)) (windows lines s)) (l_to (lines ! (s_last s - 1))) \<and>
    list_all (small body) (map (\<lambda>(a, b, t). (a, b)) (windows lines s))"
proof (cases "words_in lines (s_first s) (s_last s) \<le> SECTION_MAX_WORDS \<and>
    bytes_in lines (s_first s) (s_last s) \<le> MAX_FRAGMENT_BYTES")
  case True
  then show ?thesis
    using span_small [OF assms(1-3)] tiles_bytes [OF assms(1-3)] assms(4) by (simp add: windows_def)
next
  case False
  obtain stop words where w: "window_end lines (s_last s) (s_first s) = (stop, words)"
    by force
  have stop: "s_first s < stop" "stop \<le> s_last s"
    using window_end_bounds [OF w assms(2)] by simp_all
  have "r < l_to (lines ! (stop - 1))"
    using tiles_bytes [OF assms(1) stop(1)] stop(2) assms(3,4) by simp
  then have "covers r (windows_from lines (s_last s) (s_first s)) (l_to (lines ! (s_last s - 1))) \<and>
      list_all (small body) (windows_from lines (s_last s) (s_first s))"
    using w assms by (intro windows_cover) simp_all
  moreover have "map (\<lambda>(a, b, t). (a, b)) (windows lines s) = windows_from lines (s_last s) (s_first s)"
    unfolding windows_def if_not_P [OF False] by (simp add: case_prod_unfold comp_def)
  ultimately show ?thesis
    by simp
qed

definition reached_at :: "frag_line list \<Rightarrow> nat \<Rightarrow> nat" where
  "reached_at lines i = (if i = 0 then 0 else l_to (lines ! (i - 1)))"

lemma reached_at_from:
  "tiles body 0 lines j \<Longrightarrow> i < length lines \<Longrightarrow> l_from (lines ! i) = reached_at lines i"
  using tiles_nth [of body 0 lines j i] by (auto simp: reached_at_def)

lemma sections_cover:
  "tiles body 0 lines j \<Longrightarrow> contiguous i ss n \<Longrightarrow> n \<le> length lines \<Longrightarrow>
     covers (reached_at lines i) (concat (map (\<lambda>s. map (\<lambda>(a, b, t). (a, b)) (windows lines s)) ss)) (reached_at lines n) \<and>
     list_all (small body) (concat (map (\<lambda>s. map (\<lambda>(a, b, t). (a, b)) (windows lines s)) ss))"
proof (induction ss arbitrary: i)
  case (Cons s ss)
  have s: "s_first s = i" "i < s_last s" "contiguous (s_last s) ss n" "s_last s \<le> length lines"
    using Cons.prems(2,3) contiguous_le by fastforce+
  have "covers (reached_at lines i) (map (\<lambda>(a, b, t). (a, b)) (windows lines s)) (l_to (lines ! (s_last s - 1))) \<and>
      list_all (small body) (map (\<lambda>(a, b, t). (a, b)) (windows lines s))"
    using s reached_at_from [OF Cons.prems(1), of i] by (intro windows_of_section [OF Cons.prems(1)]) simp_all
  moreover have "l_to (lines ! (s_last s - 1)) = reached_at lines (s_last s)"
    using s(2) by (simp add: reached_at_def)
  ultimately show ?case
    using Cons.IH [OF Cons.prems(1) s(3) Cons.prems(3)] covers_append by fastforce
qed simp

lemma frag_spans_cover:
  assumes "body \<noteq> []"
  shows "covers 0 (map (\<lambda>(a, b, t). (a, b)) (frag_spans body source)) (length body) \<and>
    list_all (small body) (map (\<lambda>(a, b, t). (a, b)) (frag_spans body source))"
proof -
  let ?lines = "page_lines body"
  let ?ss = "merge_sections ?lines None [] (frag_sections body ?lines source)"
  have tiles: "tiles body 0 ?lines (length body)"
    by (rule page_lines_tile)
  then have lines: "?lines \<noteq> []"
    using assms by auto
  have "contiguous 0 ?ss (length ?lines)"
    by (rule merge_sections_contiguous [of _ 0]) (simp_all add: frag_sections_contiguous [OF lines])
  then have "covers (reached_at ?lines 0) (concat (map (\<lambda>s. map (\<lambda>(a, b, t). (a, b)) (windows ?lines s)) ?ss))
      (reached_at ?lines (length ?lines)) \<and>
      list_all (small body) (concat (map (\<lambda>s. map (\<lambda>(a, b, t). (a, b)) (windows ?lines s)) ?ss))"
    by (rule sections_cover [OF tiles _ order_refl])
  moreover have "reached_at ?lines (length ?lines) = length body"
    using tiles_nth [OF tiles, of "length ?lines - 1"] lines by (simp add: reached_at_def)
  moreover have "map (\<lambda>(a, b, t). (a, b)) (frag_spans body source) =
      concat (map (\<lambda>s. map (\<lambda>(a, b, t). (a, b)) (windows ?lines s)) ?ss)"
    by (simp add: frag_spans_def page_lines_def [symmetric] map_concat comp_def Let_def)
  ultimately show ?thesis
    by (simp add: reached_at_def)
qed

text \<open>What a reader who has seen the body up to \<open>r\<close> gets from the fragments that follow.\<close>

fun reassemble :: "nat \<Rightarrow> frag list \<Rightarrow> pystr" where
  "reassemble r [] = []"
| "reassemble r (f # fs) = drop (r - f_from f) (f_text f) @ reassemble (f_to f) fs"

lemma reassemble_numbered:
  "covers r (map (\<lambda>(a, b, t). (a, b)) spans) j \<Longrightarrow> list_all (small body) (map (\<lambda>(a, b, t). (a, b)) spans) \<Longrightarrow>
     reassemble r (numbered body n spans) = slice body r j \<and> r \<le> j"
proof (induction spans arbitrary: r n)
  case (Cons s spans)
  obtain a b t where s: "s = (a, b, t)"
    by (metis prod_cases3)
  have ab: "a \<le> r" "r < b" "b \<le> length body" "covers b (map (\<lambda>(a, b, t). (a, b)) spans) j"
    using Cons.prems by (simp_all add: s small_def)
  have "drop (r - a) (slice body a b) = slice body r b"
    using ab by (simp add: slice_def drop_take)
  moreover have rest: "reassemble b (numbered body (n + 1) spans) = slice body b j" "b \<le> j"
    using Cons.IH [OF ab(4), of "n + 1"] Cons.prems(2) by (simp_all add: s)
  moreover have "slice body r j = slice body r b @ slice body b j"
    using ab rest(2) by (intro slice_append) simp_all
  ultimately show ?case
    using ab(1,2) by (simp add: s)
qed simp

lemma ordinals_numbered: "map ordinal (numbered body n spans) = [n..<n + length spans]"
proof (induction spans arbitrary: n)
  case (Cons s spans)
  obtain a b t where "s = (a, b, t)"
    by (metis prod_cases3)
  then show ?case
    using Cons.IH [of "n + 1"] by (simp add: upt_conv_Cons del: upt_Suc)
qed simp

lemma numbered_all:
  "list_all (small body) (map (\<lambda>(a, b, t). (a, b)) spans) \<Longrightarrow>
     list_all (\<lambda>f. small body (f_from f, f_to f) \<and> f_text f = slice body (f_from f) (f_to f)) (numbered body n spans)"
  by (induction spans arbitrary: n) auto

lemma length_numbered [simp]: "length (numbered body n spans) = length spans"
  by (induction spans arbitrary: n) auto


end
