(* ===== verification/Rate_Limits.thy ===== *)
theory Rate_Limits
  imports Prelude Complex_Main "HOL-Library.Finite_Map"
begin

text \<open>
  \<open>stigmergy/server/ratelimit.py\<close>: per-identity token buckets and the throttle of failed
  authentications. Times are seconds of a monotonic clock and tokens are numbers; both are rationals
  here, so the rounding of floats is not modelled. The two locks make each operation atomic.
\<close>

section \<open>Buckets\<close>

record bucket =
  capacity :: nat
  tokens :: rat
  refilled :: rat

definition new_bucket :: "nat \<Rightarrow> rat \<Rightarrow> bucket" where
  "new_bucket cap time = \<lparr>capacity = cap, tokens = of_nat cap, refilled = time\<rparr>"

text \<open>\<open>available\<close> refills the bucket, whatever it answers.\<close>

definition refill :: "rat \<Rightarrow> bucket \<Rightarrow> bucket" where
  "refill time b =
     b\<lparr>tokens := min (of_nat (capacity b)) (tokens b + max 0 (time - refilled b) * (of_nat (capacity b) / 60)),
       refilled := time\<rparr>"

definition available :: "bucket \<Rightarrow> bool" where
  "available b \<longleftrightarrow> 1 \<le> tokens b"

definition consume :: "bucket \<Rightarrow> bucket" where
  "consume b = b\<lparr>tokens := tokens b - 1\<rparr>"

section \<open>The limiter\<close>

definition DEFAULT_OVERALL_PER_MIN :: nat where "DEFAULT_OVERALL_PER_MIN = 120"
definition DEFAULT_ASK_PER_MIN :: nat where "DEFAULT_ASK_PER_MIN = 10"
definition DEFAULT_DELETE_PER_MIN :: nat where "DEFAULT_DELETE_PER_MIN = 3"
definition DEFAULT_CAPTURE_PER_MIN :: nat where "DEFAULT_CAPTURE_PER_MIN = 30"

text \<open>
  The extra budgets by name: \<open>brain_submit\<close> and \<open>brain_upload_finalize\<close> share the one of captures.
\<close>

datatype budget = Overall | Ask | Delete_Budget | Captures

fun extra_budget :: "pystr \<Rightarrow> budget option" where
  "extra_budget tool =
     (if tool = lit ''ask'' then Some Ask
      else if tool = lit ''brain_delete'' then Some Delete_Budget
      else if tool = lit ''brain_submit'' \<or> tool = lit ''brain_upload_finalize'' then Some Captures
      else None)"

record limiter =
  per_min :: "budget \<Rightarrow> nat"
  buckets :: "(budget \<times> pystr, bucket) fmap"

definition new_limiter :: "nat \<Rightarrow> nat \<Rightarrow> nat \<Rightarrow> nat \<Rightarrow> limiter" where
  "new_limiter overall ask delete captures =
     \<lparr>per_min = (\<lambda>b. case b of Overall \<Rightarrow> overall | Ask \<Rightarrow> ask | Delete_Budget \<Rightarrow> delete | Captures \<Rightarrow> captures),
      buckets = fmempty\<rparr>"

text \<open>\<open>_bucket\<close>: the identity's bucket, created full on first use.\<close>

definition bucket_of :: "limiter \<Rightarrow> budget \<Rightarrow> pystr \<Rightarrow> rat \<Rightarrow> bucket" where
  "bucket_of l b who time =
     (case fmlookup (buckets l) (b, who) of Some k \<Rightarrow> k | None \<Rightarrow> new_bucket (per_min l b) time)"

definition put :: "budget \<Rightarrow> pystr \<Rightarrow> bucket \<Rightarrow> limiter \<Rightarrow> limiter" where
  "put b who k l = l\<lparr>buckets := fmupd (b, who) k (buckets l)\<rparr>"

text \<open>
  \<open>_check\<close>: the extra bucket is looked up, and so created, before the overall one is asked; when the
  overall bucket refuses, the extra one is not refilled.
\<close>

definition check :: "pystr \<Rightarrow> pystr \<Rightarrow> rat \<Rightarrow> limiter \<Rightarrow> unit result \<times> limiter" where
  "check who tool time l =
     (let overall = refill time (bucket_of l Overall who time) in
      case extra_budget tool of
        None \<Rightarrow>
          if available overall then (Inr (), put Overall who (consume overall) l)
          else (Inl (RateLimitError (lit ''rate limited'')), put Overall who overall l)
      | Some b \<Rightarrow>
          let extra0 = bucket_of l b who time; extra = refill time extra0 in
          if \<not> available overall
          then (Inl (RateLimitError (lit ''rate limited'')), put b who extra0 (put Overall who overall l))
          else if \<not> available extra
          then (Inl (RateLimitError (lit ''rate limited'')), put b who extra (put Overall who overall l))
          else (Inr (), put b who (consume extra) (put Overall who (consume overall) l)))"

section \<open>The throttle\<close>

definition AUTH_FAILURES :: nat where "AUTH_FAILURES = 10"
definition AUTH_FAILURE_WINDOW_SECONDS :: rat where "AUTH_FAILURE_WINDOW_SECONDS = 15 * 60"
definition MAX_TRACKED_ADDRESSES :: nat where "MAX_TRACKED_ADDRESSES = 10000"

text \<open>\<open>OrderedDict\<close> as an association list in its order, each address with the times of its failures.\<close>

type_synonym throttle = "(pystr \<times> rat list) list"

definition stamps_of :: "throttle \<Rightarrow> pystr \<Rightarrow> rat \<Rightarrow> rat list" where
  "stamps_of seen address time =
     (case map_of seen address of
        None \<Rightarrow> []
      | Some stamps \<Rightarrow> dropWhile (\<lambda>t. AUTH_FAILURE_WINDOW_SECONDS < time - t) stamps)"

text \<open>\<open>_recent\<close> drops the old stamps of a known address in place.\<close>

definition pruned :: "throttle \<Rightarrow> pystr \<Rightarrow> rat \<Rightarrow> throttle" where
  "pruned seen address time =
     map (\<lambda>(a, stamps). (a, if a = address then stamps_of seen address time else stamps)) seen"

definition blocked :: "pystr \<Rightarrow> rat \<Rightarrow> throttle \<Rightarrow> bool \<times> throttle" where
  "blocked address time seen =
     (AUTH_FAILURES \<le> length (stamps_of seen address time), pruned seen address time)"

definition failed :: "pystr \<Rightarrow> rat \<Rightarrow> throttle \<Rightarrow> throttle" where
  "failed address time seen =
     (let moved = filter (\<lambda>(a, _). a \<noteq> address) seen @ [(address, stamps_of seen address time @ [time])]
      in drop (length moved - MAX_TRACKED_ADDRESSES) moved)"

section \<open>Runs\<close>

record call =
  caller :: pystr
  called :: pystr
  at_time :: rat

definition draws_on :: "budget \<Rightarrow> pystr \<Rightarrow> bool" where
  "draws_on b tool \<longleftrightarrow> b = Overall \<or> extra_budget tool = Some b"

fun run_checks :: "call list \<Rightarrow> limiter \<Rightarrow> limiter" where
  "run_checks [] l = l"
| "run_checks (c # cs) l = run_checks cs (snd (check (caller c) (called c) (at_time c) l))"

text \<open>How many of an identity's calls that draw on a budget are let through.\<close>

fun granted :: "budget \<Rightarrow> pystr \<Rightarrow> call list \<Rightarrow> limiter \<Rightarrow> nat" where
  "granted b who [] l = 0"
| "granted b who (c # cs) l =
     (let (r, l') = check (caller c) (called c) (at_time c) l in
      (if r = Inr () \<and> caller c = who \<and> draws_on b (called c) then 1 else 0) + granted b who cs l')"

section \<open>The budget is never exceeded\<close>

definition bucket_ok :: "limiter \<Rightarrow> rat \<Rightarrow> budget \<Rightarrow> pystr \<Rightarrow> bool" where
  "bucket_ok l time b who \<longleftrightarrow>
     (case fmlookup (buckets l) (b, who) of
        None \<Rightarrow> True
      | Some k \<Rightarrow> capacity k = per_min l b \<and> tokens k \<le> of_nat (capacity k) \<and> refilled k \<le> time)"

definition limiter_ok :: "limiter \<Rightarrow> rat \<Rightarrow> bool" where
  "limiter_ok l time \<longleftrightarrow> (\<forall>b who. bucket_ok l time b who)"

text \<open>What a budget can give an identity from \<open>time\<close> to \<open>until\<close>.\<close>

definition holding :: "limiter \<Rightarrow> rat \<Rightarrow> budget \<Rightarrow> pystr \<Rightarrow> rat" where
  "holding l time b who = tokens (refill time (bucket_of l b who time))"

definition rate :: "limiter \<Rightarrow> budget \<Rightarrow> rat" where
  "rate l b = of_nat (per_min l b) / 60"

lemma per_min_check [simp]: "per_min (snd (check who tool time l)) = per_min l"
  by (auto simp: check_def put_def Let_def split: option.splits)

lemma per_min_run [simp]: "per_min (run_checks cs l) = per_min l"
  by (induction cs arbitrary: l) simp_all

lemma holding_le_capacity: "limiter_ok l time' \<Longrightarrow> holding l time b who \<le> of_nat (per_min l b)"
  by (auto simp: holding_def refill_def bucket_of_def new_bucket_def limiter_ok_def bucket_ok_def
      split: option.splits dest!: spec [of _ b] spec [of _ who])

lemma bucket_of_ok:
  assumes "limiter_ok l time'" "time' \<le> time"
  shows "capacity (bucket_of l b who time) = per_min l b \<and>
    tokens (bucket_of l b who time) \<le> of_nat (per_min l b) \<and> refilled (bucket_of l b who time) \<le> time"
proof (cases "fmlookup (buckets l) (b, who)")
  case (Some k)
  then show ?thesis
    using assms(1) [unfolded limiter_ok_def, rule_format, of b who] assms(2)
    by (simp add: bucket_of_def bucket_ok_def)
qed (simp add: bucket_of_def new_bucket_def)

lemma rate_nonneg: "0 \<le> rate l b"
  by (simp add: rate_def)

lemma capped_growth:
  fixes cap x d :: rat
  assumes "0 \<le> d"
  shows "min cap (x + d) \<le> min cap x + d"
  using assms by (auto simp: min_def)

text \<open>Time passing adds at most the refill rate.\<close>

lemma holding_later:
  assumes "limiter_ok l time'" "time' \<le> s" "s \<le> t"
  shows "holding l t b who \<le> holding l s b who + (t - s) * rate l b"
proof (cases "fmlookup (buckets l) (b, who)")
  case None
  then show ?thesis
    using assms(3) rate_nonneg [of l b] by (simp add: holding_def bucket_of_def refill_def new_bucket_def)
next
  case (Some k)
  have k: "capacity k = per_min l b" "refilled k \<le> s"
    using assms(1) [unfolded limiter_ok_def, rule_format, of b who] assms(2) Some by (simp_all add: bucket_ok_def)
  have "tokens k + (t - refilled k) * rate l b = tokens k + (s - refilled k) * rate l b + (t - s) * rate l b"
    by (simp add: algebra_simps)
  moreover have "0 \<le> (t - s) * rate l b"
    using assms(3) rate_nonneg by simp
  moreover have "holding l x b who = min (of_nat (per_min l b)) (tokens k + (x - refilled k) * rate l b)"
    if "refilled k \<le> x" for x
    using Some k(1) that by (simp add: holding_def bucket_of_def refill_def rate_def)
  ultimately show ?thesis
    using k(2) assms(3) capped_growth [of "(t - s) * rate l b" "of_nat (per_min l b)" "tokens k + (s - refilled k) * rate l b"]
    by simp
qed

lemma refill_twice:
  "tokens b \<le> of_nat (capacity b) \<Longrightarrow> refill time (refill time b) = refill time b"
  by (simp add: refill_def)

lemma refill_new [simp]: "refill time (new_bucket cap time) = new_bucket cap time"
  by (simp add: refill_def new_bucket_def)

lemma bucket_of_put [simp]:
  "bucket_of (put b who k l) b' who' time = (if b' = b \<and> who' = who then k else bucket_of l b' who' time)"
  by (auto simp: bucket_of_def put_def split: option.split)

lemma tokens_refill_refill [simp]: "refill time (refill time b) = refill time b"
  by (simp add: refill_def)

lemma refill_consume: "1 \<le> tokens (refill time b) \<Longrightarrow>
    tokens (refill time (consume (refill time b))) = tokens (refill time b) - 1"
  by (simp add: consume_def refill_def)

lemma holding_put:
  "holding (put b who k l) time b' who' = (if b' = b \<and> who' = who then tokens (refill time k) else holding l time b' who')"
  by (simp add: holding_def)

lemma extra_not_overall: "extra_budget tool \<noteq> Some Overall"
  by simp

lemma holding_check:
  assumes "check who tool time l = (r, l')"
  shows "holding l' time b who' =
    holding l time b who' - (if r = Inr () \<and> who = who' \<and> draws_on b tool then 1 else 0)"
proof (cases "extra_budget tool")
  case None
  then show ?thesis
    using assms
    by (auto simp: check_def Let_def draws_on_def holding_put available_def refill_consume holding_def
        simp del: extra_budget.simps split: if_splits)
next
  case (Some x)
  then have "x \<noteq> Overall"
    using extra_not_overall by blast
  then show ?thesis
    using assms Some
    by (auto simp: check_def Let_def draws_on_def holding_put available_def refill_consume holding_def
        simp del: extra_budget.simps split: if_splits)
qed

lemma admits_one:
  assumes "check who tool time l = (r, l')" "r = Inr () \<and> who = who' \<and> draws_on b tool"
  shows "1 \<le> holding l time b who'"
  using assms
  by (auto simp: check_def Let_def draws_on_def available_def holding_def simp del: extra_budget.simps
      split: if_splits option.splits)

lemma put_ok:
  assumes "limiter_ok l time" "capacity k = per_min l b" "tokens k \<le> of_nat (capacity k)" "refilled k \<le> time"
  shows "limiter_ok (put b who k l) time"
  unfolding limiter_ok_def
proof (intro allI)
  fix b' who'
  show "bucket_ok (put b who k l) time b' who'"
    using assms(1) [unfolded limiter_ok_def, rule_format, of b' who'] assms(2-4)
    by (cases "(b', who') = (b, who)") (auto simp: bucket_ok_def put_def split: option.split)
qed

lemma limiter_ok_later: "limiter_ok l s \<Longrightarrow> s \<le> t \<Longrightarrow> limiter_ok l t"
  by (fastforce simp: limiter_ok_def bucket_ok_def split: option.splits)

lemma limiter_ok_check:
  assumes "limiter_ok l s" "s \<le> time" "check who tool time l = (r, l')"
  shows "limiter_ok l' time"
proof -
  have l: "limiter_ok l time"
    by (rule limiter_ok_later [OF assms(1,2)])
  note ok = bucket_of_ok [OF l order_refl]
  have p: "capacity (refill time k) = capacity k" "tokens (refill time k) \<le> of_nat (capacity k)"
      "refilled (refill time k) = time" "capacity (consume k) = capacity k" "refilled (consume k) = refilled k"
      "tokens (consume k) \<le> tokens k" for k
    by (simp_all add: refill_def consume_def)
  have full: "tokens (refill time (bucket_of l b who time)) \<le> of_nat (per_min l b)"
      "tokens (consume (refill time (bucket_of l b who time))) \<le> of_nat (per_min l b)" for b who
    using p(2,6) ok order_trans by metis+
  have "per_min (put b w k l) = per_min l" for b w k
    by (simp add: put_def)
  then show ?thesis
    using assms(3) ok
    by (auto simp: check_def Let_def p full simp del: extra_budget.simps
        split: option.splits if_splits intro!: put_ok l)
qed

lemma granted_holding:
  "limiter_ok l s \<Longrightarrow> sorted (map at_time cs) \<Longrightarrow> list_all (\<lambda>c. s \<le> at_time c \<and> at_time c \<le> e) cs \<Longrightarrow> s \<le> e \<Longrightarrow>
     of_nat (granted b who cs l) \<le> max 0 (holding l s b who + (e - s) * rate l b)"
proof (induction cs arbitrary: l s)
  case (Cons c cs)
  let ?t = "at_time c"
  obtain r l' where check: "check (caller c) (called c) ?t l = (r, l')"
    by force
  let ?one = "if r = Inr () \<and> caller c = who \<and> draws_on b (called c) then 1 else 0 :: rat"
  have t: "s \<le> ?t" "?t \<le> e"
    using Cons.prems(3) by simp_all
  have ok: "limiter_ok l' ?t"
    by (rule limiter_ok_check [OF Cons.prems(1) t(1) check])
  have "of_nat (granted b who cs l') \<le> max 0 (holding l' ?t b who + (e - ?t) * rate l' b)"
    using Cons.prems(2,3) by (intro Cons.IH ok t) (auto simp: list_all_iff)
  moreover have "rate l' b = rate l b"
    using per_min_check [of "caller c" "called c" ?t l] by (simp add: rate_def check)
  moreover have h: "holding l' ?t b who = holding l ?t b who - ?one"
    using holding_check [OF check] by simp
  moreover have "holding l ?t b who \<le> holding l s b who + (?t - s) * rate l b"
    by (rule holding_later [OF Cons.prems(1) order_refl t(1)])
  moreover have "(e - s) * rate l b = (?t - s) * rate l b + (e - ?t) * rate l b"
    by (simp add: algebra_simps)
  moreover have "of_nat (granted b who (c # cs) l) = ?one + of_nat (granted b who cs l')"
    by (simp add: check)
  moreover have "1 \<le> holding l ?t b who" if "?one = 1"
    using that admits_one [OF check] by (simp split: if_splits)
  moreover have "0 \<le> (e - ?t) * rate l b"
    using t(2) rate_nonneg by simp
  ultimately show ?case
    by (auto split: if_splits simp: max_def)
qed simp

lemma limiter_ok_run:
  "limiter_ok l s \<Longrightarrow> sorted (map at_time cs) \<Longrightarrow> list_all (\<lambda>c. s \<le> at_time c \<and> at_time c \<le> t) cs \<Longrightarrow> s \<le> t \<Longrightarrow>
     limiter_ok (run_checks cs l) t"
proof (induction cs arbitrary: l s)
  case Nil
  then show ?case
    by (simp add: limiter_ok_later)
next
  case (Cons c cs)
  obtain r l' where check: "check (caller c) (called c) (at_time c) l = (r, l')"
    by force
  have "limiter_ok l' (at_time c)"
    using Cons.prems by (intro limiter_ok_check [OF Cons.prems(1) _ check]) simp
  then show ?case
    using Cons.IH [of l' "at_time c"] Cons.prems check by (auto simp: list_all_iff)
qed

text \<open>
  C20. No identity ever gets more than its budget through: in any window of a run, after any earlier
  calls of anyone, the calls of one identity that draw on a budget and are let through number at
  most the budget's capacity and what it refills in the window, whatever tools they name.
\<close>

theorem rate_limit_holds:
  assumes "sorted (map at_time (earlier @ window))"
    and "list_all (\<lambda>c. at_time c \<le> s) earlier" "list_all (\<lambda>c. s \<le> at_time c \<and> at_time c \<le> e) window" "s \<le> e"
    and "l = new_limiter overall ask delete captures"
  shows "of_nat (granted b who window (run_checks earlier l)) \<le> of_nat (per_min l b) * (1 + (e - s) / 60)"
proof -
  let ?l = "run_checks earlier l"
  have ok: "limiter_ok ?l s"
  proof (cases earlier)
    case Nil
    then show ?thesis
      by (simp add: assms(5) limiter_ok_def bucket_ok_def new_limiter_def)
  next
    case (Cons c cs)
    have "limiter_ok l (at_time c)"
      by (simp add: assms(5) limiter_ok_def bucket_ok_def new_limiter_def)
    then show ?thesis
      by (rule limiter_ok_run) (use assms(1,2) Cons in \<open>auto simp: list_all_iff sorted_append\<close>)
  qed
  have "of_nat (granted b who window ?l) \<le> max 0 (holding ?l s b who + (e - s) * rate ?l b)"
    by (rule granted_holding [OF ok _ assms(3,4)]) (use assms(1) in \<open>simp add: sorted_append\<close>)
  moreover have "holding ?l s b who \<le> of_nat (per_min l b)"
    using holding_le_capacity [OF ok] by simp
  moreover have "0 \<le> (e - s) * rate ?l b"
    using assms(4) rate_nonneg by simp
  moreover have "of_nat (per_min l b) * (1 + (e - s) / 60) = of_nat (per_min l b) + (e - s) * rate ?l b"
    by (simp add: rate_def algebra_simps)
  ultimately show ?thesis
    by (simp add: max_def split: if_splits)
qed

theorem rate_limit_holds_witness:
  "of_nat (granted Ask (lit ''ann'')
     [\<lparr>caller = lit ''ann'', called = lit ''ask'', at_time = 6\<rparr>, \<lparr>caller = lit ''ann'', called = lit ''ask'', at_time = 7\<rparr>]
     (run_checks [\<lparr>caller = lit ''bob'', called = lit ''ask'', at_time = 2\<rparr>] (new_limiter 120 10 3 30)))
   \<le> (of_nat 10 * (1 + (66 - 6) / 60) :: rat)"
  using rate_limit_holds [of "[\<lparr>caller = lit ''bob'', called = lit ''ask'', at_time = 2\<rparr>]"
      "[\<lparr>caller = lit ''ann'', called = lit ''ask'', at_time = 6\<rparr>, \<lparr>caller = lit ''ann'', called = lit ''ask'', at_time = 7\<rparr>]"
      6 66 "new_limiter 120 10 3 30" 120 10 3 30 Ask "lit ''ann''"]
  by (simp add: new_limiter_def del: lit_Cons lit_Nil granted.simps run_checks.simps)

section \<open>The throttle counts what it should\<close>

datatype throttle_call = Failed_At pystr rat | Blocked_At pystr rat

fun run_throttle :: "throttle_call list \<Rightarrow> throttle \<Rightarrow> throttle" where
  "run_throttle [] seen = seen"
| "run_throttle (Failed_At a t # cs) seen = run_throttle cs (failed a t seen)"
| "run_throttle (Blocked_At a t # cs) seen = run_throttle cs (snd (blocked a t seen))"

fun call_time :: "throttle_call \<Rightarrow> rat" where
  "call_time (Failed_At a t) = t"
| "call_time (Blocked_At a t) = t"

fun failures_of :: "pystr \<Rightarrow> throttle_call list \<Rightarrow> rat list" where
  "failures_of a [] = []"
| "failures_of a (Failed_At a' t # cs) = (if a' = a then [t] else []) @ failures_of a cs"
| "failures_of a (Blocked_At a' t # cs) = failures_of a cs"

lemma failures_of_append: "failures_of a (cs @ cs') = failures_of a cs @ failures_of a cs'"
  by (induction a cs rule: failures_of.induct) auto

definition old :: "rat \<Rightarrow> rat \<Rightarrow> bool" where
  "old time t \<longleftrightarrow> AUTH_FAILURE_WINDOW_SECONDS < time - t"

lemma stamps_of_old: "stamps_of seen a time = dropWhile (old time) (case map_of seen a of None \<Rightarrow> [] | Some s \<Rightarrow> s)"
  by (simp add: stamps_of_def old_def [abs_def] split: option.split)

lemma old_later: "time \<le> time' \<Longrightarrow> dropWhile (old time') (dropWhile (old time) ts) = dropWhile (old time') ts"
  by (induction ts) (auto simp: old_def)

lemma run_throttle_append: "run_throttle (cs @ cs') seen = run_throttle cs' (run_throttle cs seen)"
  by (induction cs seen rule: run_throttle.induct) simp_all

lemma map_of_pruned: "map_of (pruned seen address time) a =
    (if a = address then map_option (\<lambda>_. stamps_of seen address time) (map_of seen a) else map_of seen a)"
proof -
  have "map_of (map (\<lambda>(b, stamps). (b, if b = address then x else stamps)) seen) a =
      (if a = address then map_option (\<lambda>_. x) (map_of seen a) else map_of seen a)" for x
    by (induction seen) auto
  then show ?thesis
    by (simp add: pruned_def)
qed

lemma map_of_filter_other: "a \<noteq> b \<Longrightarrow> map_of (filter (\<lambda>(c, _). c \<noteq> b) seen) a = map_of seen a"
  by (induction seen) auto

lemma length_throttle: "length (run_throttle cs seen) \<le> max MAX_TRACKED_ADDRESSES (length seen)"
proof (induction cs seen rule: run_throttle.induct)
  case (2 a t cs seen)
  have "length (failed a t seen) \<le> MAX_TRACKED_ADDRESSES"
    by (simp add: failed_def Let_def)
  then show ?case
    using 2 by simp
qed (simp_all add: blocked_def pruned_def)

lemma throttle_keeps:
  "sorted (map call_time cs) \<Longrightarrow> finite (addresses :: pystr set) \<Longrightarrow> card addresses \<le> MAX_TRACKED_ADDRESSES \<Longrightarrow>
     (\<forall>a. failures_of a cs \<noteq> [] \<longrightarrow> a \<in> addresses) \<Longrightarrow>
     distinct (map fst (run_throttle cs [])) \<and> set (map fst (run_throttle cs [])) \<subseteq> addresses \<and>
     (\<forall>a time. (\<forall>c \<in> set cs. call_time c \<le> time) \<longrightarrow>
        stamps_of (run_throttle cs []) a time = dropWhile (old time) (failures_of a cs))"
proof (induction cs rule: rev_induct)
  case Nil
  then show ?case
    by (simp add: stamps_of_def)
next
  case (snoc c cs)
  let ?seen = "run_throttle cs []"
  have ih: "distinct (map fst ?seen)" "set (map fst ?seen) \<subseteq> addresses"
    "\<And>a time. \<forall>c \<in> set cs. call_time c \<le> time \<Longrightarrow> stamps_of ?seen a time = dropWhile (old time) (failures_of a cs)"
    using snoc by (auto simp: sorted_append failures_of_append)
  have times: "\<forall>d \<in> set cs. call_time d \<le> call_time c"
    using snoc.prems(1) by (auto simp: sorted_append)
  show ?case
  proof (cases c)
    case (Blocked_At b t)
    have later: "call_time c \<le> time" "\<forall>d \<in> set cs. call_time d \<le> time"
      if "\<forall>d \<in> set (cs @ [c]). call_time d \<le> time" for time
      using that by simp_all
    have "map fst (pruned ?seen b t) = map fst ?seen"
      by (simp add: pruned_def case_prod_unfold comp_def)
    moreover have "stamps_of (pruned ?seen b t) a time = stamps_of ?seen a time" if "t \<le> time" for a time
      using old_later [OF that] by (auto simp: stamps_of_old map_of_pruned split: option.split)
    moreover have "run_throttle (cs @ [c]) [] = pruned ?seen b t"
      "failures_of a (cs @ [c]) = failures_of a cs" for a
      using Blocked_At by (simp_all add: run_throttle_append blocked_def failures_of_append)
    moreover have "call_time c = t"
      using Blocked_At by simp
    ultimately show ?thesis
      using ih(1,2) ih(3) [OF later(2)] later(1) by presburger
  next
    case (Failed_At b t)
    let ?moved = "filter (\<lambda>(a, _). a \<noteq> b) ?seen @ [(b, stamps_of ?seen b t @ [t])]"
    have b: "b \<in> addresses"
      using snoc.prems(4) Failed_At by (auto simp: failures_of_append)
    have names: "distinct (map fst ?moved)" "set (map fst ?moved) \<subseteq> addresses"
      using ih(1,2) b by (auto simp: distinct_map inj_on_def)
    have "length ?moved = card (set (map fst ?moved))"
      using distinct_card [OF names(1)] by simp
    also have "\<dots> \<le> card addresses"
      using names(2) snoc.prems(2) by (rule card_mono [rotated])
    finally have kept: "failed b t ?seen = ?moved"
      using snoc.prems(3) by (simp add: failed_def)
    have "stamps_of ?moved a time = dropWhile (old time) (failures_of a (cs @ [c]))"
      if "\<forall>d \<in> set (cs @ [c]). call_time d \<le> time" for a time
    proof (cases "a = b")
      case False
      then show ?thesis
        using ih(3) [of time a] that Failed_At
        by (cases "map_of ?seen a") (simp_all add: stamps_of_old map_of_filter_other map_add_def failures_of_append)
    next
      case True
      have t: "t \<le> time" "stamps_of ?seen b t = dropWhile (old t) (failures_of b cs)"
        using that Failed_At ih(3) [of t b] times by simp_all
      have "map_of (filter (\<lambda>(c, _). c \<noteq> b) ?seen) b = None"
        by (auto simp: map_of_eq_None_iff)
      then have "map_of ?moved b = Some (dropWhile (old t) (failures_of b cs) @ [t])"
        by (simp add: map_add_def t(2))
      then have "stamps_of ?moved b time = dropWhile (old time) (dropWhile (old t) (failures_of b cs) @ [t])"
        unfolding stamps_of_old [of ?moved] by simp
      also have "\<dots> = dropWhile (old time) (failures_of b cs @ [t])"
      proof -
        have "\<And>xs. dropWhile (old t) (xs @ [t]) = dropWhile (old t) xs @ [t]"
          by (simp add: dropWhile_append old_def AUTH_FAILURE_WINDOW_SECONDS_def dropWhile_eq_Nil_conv)
        then show ?thesis
          using old_later [OF t(1), of "failures_of b cs @ [t]"] by simp
      qed
      finally show ?thesis
        using True Failed_At by (simp add: failures_of_append)
    qed
    moreover have "run_throttle (cs @ [c]) [] = ?moved"
      using Failed_At kept by (simp add: run_throttle_append)
    ultimately show ?thesis
      using names by presburger
  qed
qed

lemma failures_times: "set (failures_of a cs) \<subseteq> call_time ` set cs"
  by (induction a cs rule: failures_of.induct) auto

lemma failures_sorted: "sorted (map call_time cs) \<Longrightarrow> sorted (failures_of a cs)"
proof (induction a cs rule: failures_of.induct)
  case (2 a a' t cs)
  then show ?case
    using failures_times [of a cs] by fastforce
qed auto

lemma dropWhile_old_sorted: "sorted ts \<Longrightarrow> dropWhile (old time) ts = filter (\<lambda>t. \<not> old time t) ts"
proof (induction ts)
  case (Cons t ts)
  show ?case
  proof (cases "old time t")
    case False
    then have "\<forall>x \<in> set ts. \<not> old time x"
      using Cons.prems by (auto simp: old_def)
    then show ?thesis
      using False by simp
  qed (use Cons in simp)
qed simp

text \<open>
  An address is refused exactly when ten of its authentications failed within the last fifteen
  minutes, as long as no more than ten thousand addresses ever failed; and however many did, the
  throttle tracks no more than that.
\<close>

theorem throttle_counts_the_window:
  assumes "sorted (map call_time cs)" "list_all (\<lambda>c. call_time c \<le> time) cs"
    and "length failing \<le> MAX_TRACKED_ADDRESSES" "list_all (\<lambda>c. case c of Failed_At a t \<Rightarrow> a \<in> set failing | _ \<Rightarrow> True) cs"
  shows "fst (blocked a time (run_throttle cs [])) =
      (AUTH_FAILURES \<le> length (filter (\<lambda>t. time - t \<le> AUTH_FAILURE_WINDOW_SECONDS) (failures_of a cs))) \<and>
    length (run_throttle (cs @ cs2) []) \<le> MAX_TRACKED_ADDRESSES"
proof
  have known: "failures_of b cs \<noteq> [] \<Longrightarrow> b \<in> set failing" for b
    using assms(4) by (induction b cs rule: failures_of.induct) (auto split: if_splits)
  have "card (set failing) \<le> MAX_TRACKED_ADDRESSES"
    using assms(3) card_length le_trans by blast
  then have "stamps_of (run_throttle cs []) a time = dropWhile (old time) (failures_of a cs)"
    using throttle_keeps [OF assms(1), of "set failing"] known assms(2) by (simp add: list_all_iff)
  also have "\<dots> = filter (\<lambda>t. time - t \<le> AUTH_FAILURE_WINDOW_SECONDS) (failures_of a cs)"
    using dropWhile_old_sorted [OF failures_sorted [OF assms(1)]] by (simp add: old_def not_less)
  finally show "fst (blocked a time (run_throttle cs [])) =
      (AUTH_FAILURES \<le> length (filter (\<lambda>t. time - t \<le> AUTH_FAILURE_WINDOW_SECONDS) (failures_of a cs)))"
    by (simp add: blocked_def)
  show "length (run_throttle (cs @ cs2) []) \<le> MAX_TRACKED_ADDRESSES"
    using length_throttle [of "cs @ cs2" "[]"] by simp
qed

theorem throttle_counts_the_window_witness:
  "\<not> fst (blocked [1] 9 (run_throttle [Failed_At [1] 0, Blocked_At [2] 3, Failed_At [1] 5] []))"
  using throttle_counts_the_window [of "[Failed_At [1] 0, Blocked_At [2] 3, Failed_At [1] 5]" 9 "[[1]]" "[1]" "[]"]
  by (simp add: MAX_TRACKED_ADDRESSES_def AUTH_FAILURES_def AUTH_FAILURE_WINDOW_SECONDS_def del: run_throttle.simps)

end
