(* ===== verification/Py_Url.thy ===== *)
theory Py_Url
  imports Py_Regex Py_Num
begin

text \<open>
  More of the Unicode database, as a record parameter, and \<open>urllib.parse.urlsplit\<close> with the parts of a
  network location, as far as \<open>stigmergy/capture/provenance.py\<close> uses them; then its function.
\<close>

record unicode_more =
  lower :: "pystr \<Rightarrow> pystr"
  nfc :: "pystr \<Rightarrow> pystr"
  nfkd :: "pystr \<Rightarrow> pystr"
  is_alnum :: "int \<Rightarrow> bool"
  ipv6 :: "pystr \<Rightarrow> bool"

text \<open>
  The tables restricted to ASCII. \<open>ipv6\<close> is \<open>urllib\<close>'s check of a bracketed host.
\<close>

definition ascii_more :: unicode_more where
  "ascii_more = \<lparr>lower = map ascii_lower, nfc = (\<lambda>s. s), nfkd = (\<lambda>s. s), is_alnum = ascii_alnum, ipv6 = (\<lambda>_. True)\<rparr>"

section \<open>Partitions of a string\<close>

text \<open>\<open>s.partition(c)\<close> with whether the separator was found; \<open>rpartition\<close> from the right.\<close>

definition partition_at :: "int \<Rightarrow> pystr \<Rightarrow> pystr \<times> bool \<times> pystr" where
  "partition_at c s = (takeWhile (\<lambda>d. d \<noteq> c) s, c \<in> set s, drop (Suc (length (takeWhile (\<lambda>d. d \<noteq> c) s))) s)"

definition rpartition_at :: "int \<Rightarrow> pystr \<Rightarrow> pystr \<times> bool \<times> pystr" where
  "rpartition_at c s =
     (if c \<in> set s
      then (rev (drop (Suc (length (takeWhile (\<lambda>d. d \<noteq> c) (rev s)))) (rev s)), True,
            rev (takeWhile (\<lambda>d. d \<noteq> c) (rev s)))
      else ([], False, s))"

section \<open>Splitting a URL\<close>

record url =
  scheme :: pystr
  netloc :: pystr
  url_path :: pystr

definition scheme_char :: "int \<Rightarrow> bool" where
  "scheme_char c \<longleftrightarrow> ascii_alnum c \<or> c \<in> {43, 45, 46}"

definition ascii_alpha :: "int \<Rightarrow> bool" where
  "ascii_alpha c \<longleftrightarrow> 65 \<le> c \<and> c \<le> 90 \<or> 97 \<le> c \<and> c \<le> 122"

definition cleaned_url :: "pystr \<Rightarrow> pystr" where
  "cleaned_url s = filter (\<lambda>c. c \<notin> {9, 10, 13}) (dropWhile (\<lambda>c. 0 \<le> c \<and> c \<le> 32) s)"

text \<open>
  \<open>_checknetloc\<close>: a host whose compatibility form has a delimiter is refused.
\<close>

definition netloc_ok :: "unicode \<Rightarrow> unicode_more \<Rightarrow> pystr \<Rightarrow> bool" where
  "netloc_ok u v n \<longleftrightarrow>
     (91 \<in> set n \<longleftrightarrow> 93 \<in> set n) \<and>
     (91 \<in> set n \<longrightarrow> ipv6 v n) \<and>
     (let m = filter (\<lambda>c. c \<notin> {64, 58, 35, 63}) n in
      list_all (\<lambda>c. c < 128) n \<or> nfkc u m = m \<or> list_all (\<lambda>c. c \<notin> {47, 63, 35, 64, 58}) (nfkc u m))"

definition urlsplit :: "unicode \<Rightarrow> unicode_more \<Rightarrow> pystr \<Rightarrow> url option" where
  "urlsplit u v text =
     (let s = cleaned_url text;
          (head, found, rest) = partition_at 58 s;
          schemed = found \<and> head \<noteq> [] \<and> ascii_alpha (hd s) \<and> list_all scheme_char head;
          sch = (if schemed then map ascii_lower head else []);
          s1 = (if schemed then rest else s);
          has_net = prefix [47, 47] s1;
          net = (if has_net then takeWhile (\<lambda>c. c \<notin> {47, 63, 35}) (drop 2 s1) else []);
          s2 = (if has_net then drop (2 + length net) s1 else s1);
          path = takeWhile (\<lambda>c. c \<noteq> 63) (takeWhile (\<lambda>c. c \<noteq> 35) s2)
      in if netloc_ok u v net then Some \<lparr>scheme = sch, netloc = net, url_path = path\<rparr> else None)"

text \<open>\<open>hostname\<close>, \<open>port\<close> (an error when it is no port number), \<open>username\<close> and \<open>password\<close>.\<close>

definition host_info :: "pystr \<Rightarrow> pystr \<times> pystr" where
  "host_info n =
     (let (_, _, info) = rpartition_at 64 n; (_, bracket, bracketed) = partition_at 91 info in
      if bracket then let (h, _, after) = partition_at 93 bracketed; (_, _, p) = partition_at 58 after in (h, p)
      else let (h, _, p) = partition_at 58 info in (h, p))"

definition hostname :: "unicode_more \<Rightarrow> url \<Rightarrow> pystr" where
  "hostname v x =
     (let raw = fst (host_info (netloc x)); (h, percent, zone) = partition_at 37 raw in
      if raw = [] then [] else lower v h @ (if percent then 37 # zone else []))"

definition port_of :: "url \<Rightarrow> nat option result" where
  "port_of x =
     (let p = snd (host_info (netloc x)) in
      if p = [] then Inr None
      else if list_all ascii_digit p \<and> digits_value p \<le> 65535 then Inr (Some (digits_value p))
      else Inl (ValueError (lit ''Port could not be cast to integer value'')))"

definition credentials :: "url \<Rightarrow> pystr \<times> pystr" where
  "credentials x =
     (let (info, found, _) = rpartition_at 64 (netloc x); (name, _, secret) = partition_at 58 info in
      if found then (name, secret) else ([], []))"

definition urlunsplit :: "pystr \<Rightarrow> pystr \<Rightarrow> pystr \<Rightarrow> pystr" where
  "urlunsplit sch net path =
     sch @ [58] @
     (if net \<noteq> [] \<or> \<not> prefix [47, 47] path
      then [47, 47] @ net @ (if path \<noteq> [] \<and> hd path \<noteq> 47 then 47 # path else path) else path)"

section \<open>Provenance locators\<close>

definition HTTP :: pystr where "HTTP = lit ''http''"
definition HTTPS :: pystr where "HTTPS = lit ''https''"
definition invalid_url :: exn where "invalid_url = ValueError (lit ''provenance URL is invalid'')"

definition without_capability :: "unicode \<Rightarrow> unicode_more \<Rightarrow> pystr \<Rightarrow> pystr result" where
  "without_capability u v text =
     (case urlsplit u v text of
        None \<Rightarrow> Inl (ValueError (lit ''Invalid URL''))
      | Some x \<Rightarrow>
          if scheme x \<noteq> HTTP \<and> scheme x \<noteq> HTTPS then Inr text
          else if hostname v x = [] \<or> fst (credentials x) \<noteq> [] \<or> snd (credentials x) \<noteq> [] then Inl invalid_url
          else case port_of x of
            Inl _ \<Rightarrow> Inl invalid_url
          | Inr port \<Rightarrow>
              let h = lower v (rev (dropWhile (\<lambda>c. c = 46) (rev (hostname v x))));
                  host = (if 58 \<in> set h then [91] @ h @ [93] else h);
                  default_port = (if scheme x = HTTPS then 443 else 80);
                  net = (case port of
                           Some p \<Rightarrow> if p \<noteq> default_port then host @ [58] @ str_nat p else host
                         | None \<Rightarrow> host)
              in Inr (urlunsplit (scheme x) net (if url_path x = [] then [47] else url_path x)))"

text \<open>No query, fragment or credential of an address survives.\<close>

lemma partition_at_free: "partition_at c s = (a, found, b) \<Longrightarrow> c \<notin> set a"
  by (auto simp: partition_at_def dest: set_takeWhileD)

lemma urlsplit_path:
  assumes "urlsplit u v text = Some x"
  shows "63 \<notin> set (url_path x) \<and> 35 \<notin> set (url_path x)"
  using assms
  by (auto simp: urlsplit_def Let_def split: prod.splits if_splits dest!: set_takeWhileD)

end
