(* ===== verification/Capture_Contracts.thy ===== *)
theory Capture_Contracts
  imports Py_Url Capture_Schema Layer_Paths
begin

text \<open>
  The request contracts of \<open>stigmergy/capture/schema.py\<close>. A contract is a record whose fields already
  have their declared types; its validator is the field constraints, the field validators and the
  model validator in the order pydantic runs them, and returns the cleaned record or the first error
  (pydantic reports all of them in one message). Field types, defaults and the rejection of unknown
  keys are pydantic's and are not modelled.
\<close>

definition MAX_ARTIFACT_BYTES :: int where "MAX_ARTIFACT_BYTES = 50 * 1024 * 1024"
definition MAX_CAPTURE_BYTES :: int where "MAX_CAPTURE_BYTES = 50 * 1024 * 1024"
definition MAX_ARTIFACTS :: nat where "MAX_ARTIFACTS = 20"
definition MAX_IDEMPOTENCY_KEY_CHARS :: nat where "MAX_IDEMPOTENCY_KEY_CHARS = 200"
definition MAX_TITLE_CHARS :: nat where "MAX_TITLE_CHARS = 500"
definition MAX_LOCATOR_CHARS :: nat where "MAX_LOCATOR_CHARS = 4096"

definition MEDIA_TEXT :: pystr where "MEDIA_TEXT = lit ''text/plain''"
definition MEDIA_MARKDOWN :: pystr where "MEDIA_MARKDOWN = lit ''text/markdown''"
definition MEDIA_HTML :: pystr where "MEDIA_HTML = lit ''text/html''"
definition MEDIA_PDF :: pystr where "MEDIA_PDF = lit ''application/pdf''"
definition MEDIA_DOCX :: pystr where
  "MEDIA_DOCX = lit ''application/vnd.openxmlformats-officedocument.wordprocessingml.document''"
definition MEDIA_PPTX :: pystr where
  "MEDIA_PPTX = lit ''application/vnd.openxmlformats-officedocument.presentationml.presentation''"
definition MEDIA_PNG :: pystr where "MEDIA_PNG = lit ''image/png''"
definition MEDIA_JPEG :: pystr where "MEDIA_JPEG = lit ''image/jpeg''"
definition MEDIA_SLACK :: pystr where "MEDIA_SLACK = lit ''application/vnd.stigmergy.slack-thread+json''"

definition SUPPORTED_MEDIA_TYPES :: "pystr list" where
  "SUPPORTED_MEDIA_TYPES = [MEDIA_TEXT, MEDIA_MARKDOWN, MEDIA_HTML, MEDIA_PDF, MEDIA_DOCX, MEDIA_PPTX,
     MEDIA_PNG, MEDIA_JPEG, MEDIA_SLACK]"

section \<open>Shapes\<close>

definition hex :: "int \<Rightarrow> bool" where
  "hex c \<longleftrightarrow> ascii_digit c \<or> 97 \<le> c \<and> c \<le> 102"

definition SHA256_RE :: regex where
  "SHA256_RE = exactly 64 (Sat hex)"

definition BLOB_RE :: regex where
  "BLOB_RE = seq [word (lit ''sha256/''), Group 1 (exactly 2 (Sat hex)), chr 47, Group 2 (exactly 2 (Sat hex)),
     chr 47, Group 3 (exactly 64 (Sat hex))]"

definition ENTITY_PATH_RE :: regex where
  "ENTITY_PATH_RE = seq [word (lit ''wiki/entities/''), plus (none_of [47, 92]), word (lit ''.md'')]"

definition DRIVE_FILE_ID_RE :: regex where
  "DRIVE_FILE_ID_RE = between True 1 300 (Sat (\<lambda>c. ascii_alnum c \<or> c = 95 \<or> c = 45))"

text \<open>The digit class of the year is any decimal digit.\<close>

definition SOURCE_PATH_RE :: "unicode \<Rightarrow> regex" where
  "SOURCE_PATH_RE u = seq [word (lit ''sources/''), exactly 4 (Sat (is_decimal u)), chr 47,
     alt [Seq (chr 48) (Sat (\<lambda>c. 49 \<le> c \<and> c \<le> 57)), Seq (chr 49) (any_of [48, 49, 50])], chr 47,
     exactly 8 (Sat hex), chr 45, exactly 4 (Sat hex), chr 45, exactly 4 (Sat hex), chr 45, exactly 4 (Sat hex), chr 45,
     exactly 12 (Sat hex), word (lit ''.md'')]"

definition full :: "regex \<Rightarrow> pystr \<Rightarrow> bool" where
  "full r s \<longleftrightarrow> fullmatch r s \<noteq> None"

definition entity_path :: "pystr \<Rightarrow> bool" where
  "entity_path path = (case split_path path of Inl _ \<Rightarrow> False | Inr (_, vpath) \<Rightarrow> full ENTITY_PATH_RE vpath)"

definition ensure :: "bool \<Rightarrow> string \<Rightarrow> unit result" where
  "ensure ok message = (if ok then Inr () else Inl (ValueError (lit message)))"

definition content_ref :: "pystr \<Rightarrow> pystr result" where
  "content_ref digest =
     and_then (ensure (full SHA256_RE digest) ''sha256 must be 64 lowercase hexadecimal characters'')
       (\<lambda>_. Inr (lit ''sha256/'' @ take 2 digest @ [47] @ take 2 (drop 2 digest) @ [47] @ digest))"

text \<open>A Python \<open>datetime\<close>, with a zone or without.\<close>

datatype moment = Aware timestamp | Naive

definition utc :: "moment \<Rightarrow> moment result" where
  "utc m = and_then (ensure (m \<noteq> Naive) ''timestamp must include a timezone'') (\<lambda>_. Inr m)"

definition bounded :: "nat \<Rightarrow> nat \<Rightarrow> pystr \<Rightarrow> unit result" where
  "bounded low high s = ensure (low \<le> length s \<and> length s \<le> high) ''string length is out of bounds''"

definition if_given :: "('a \<Rightarrow> 'b result) \<Rightarrow> 'a option \<Rightarrow> 'b option result" where
  "if_given f x = (case x of None \<Rightarrow> Inr None | Some y \<Rightarrow> and_then (f y) (\<lambda>z. Inr (Some z)))"

section \<open>Actors and participants\<close>

definition clean_identity :: "pystr \<Rightarrow> pystr result" where
  "clean_identity value =
     and_then (bounded 1 300 value) (\<lambda>_.
       let cleaned = one_line value in
       and_then (ensure (cleaned \<noteq> [] \<and> list_all (\<lambda>c. 32 \<le> c) cleaned) ''identity contains invalid characters'')
         (\<lambda>_. Inr cleaned))"

definition valid_actor :: "actor \<Rightarrow> actor result" where
  "valid_actor a =
     and_then (clean_identity (subject a)) (\<lambda>s.
     and_then (clean_identity (display_name a)) (\<lambda>n. Inr \<lparr>subject = s, display_name = n\<rparr>))"

record participant =
  participant_subject :: "pystr option"
  participant_name :: pystr

definition valid_participant :: "participant \<Rightarrow> participant result" where
  "valid_participant p =
     and_then (if_given (bounded 1 300) (participant_subject p)) (\<lambda>_.
     and_then (bounded 1 300 (participant_name p)) (\<lambda>_. Inr p))"

section \<open>Acquisition provenance\<close>

record acquisition =
  original_url :: pystr
  final_url :: pystr
  acquired_at :: moment
  drive_file_id :: "pystr option"
  drive_media_type :: "pystr option"
  export_media_type :: "pystr option"

definition safe_url :: "unicode \<Rightarrow> unicode_more \<Rightarrow> pystr \<Rightarrow> pystr result" where
  "safe_url u v value =
     and_then (bounded 0 MAX_LOCATOR_CHARS value) (\<lambda>_.
       let cleaned = strip value in
       and_then (without_capability u v cleaned) (\<lambda>sanitized.
       and_then (ensure (sanitized = cleaned \<and> (starts_with (lit ''http://'') sanitized \<or> starts_with (lit ''https://'') sanitized))
           ''acquisition URLs must be sanitized HTTP or HTTPS URLs'') (\<lambda>_. Inr sanitized)))"

definition valid_drive_file_id :: "pystr \<Rightarrow> pystr result" where
  "valid_drive_file_id value =
     and_then (bounded 0 300 value) (\<lambda>_.
     and_then (ensure (full DRIVE_FILE_ID_RE value) ''drive_file_id is invalid'') (\<lambda>_. Inr value))"

definition clean_media_type :: "unicode_more \<Rightarrow> pystr \<Rightarrow> pystr result" where
  "clean_media_type v value =
     and_then (bounded 0 255 value) (\<lambda>_.
       let cleaned = lower v (strip value) in
       and_then (ensure (cleaned \<noteq> [] \<and> list_all (\<lambda>c. 33 \<le> c \<and> c \<noteq> 127) cleaned)
           ''acquisition media types must be printable tokens'') (\<lambda>_. Inr cleaned))"

definition valid_acquisition :: "unicode \<Rightarrow> unicode_more \<Rightarrow> acquisition \<Rightarrow> acquisition result" where
  "valid_acquisition u v a =
     and_then (safe_url u v (original_url a)) (\<lambda>original.
     and_then (safe_url u v (final_url a)) (\<lambda>final.
     and_then (utc (acquired_at a)) (\<lambda>moment.
     and_then (if_given valid_drive_file_id (drive_file_id a)) (\<lambda>file.
     and_then (if_given (clean_media_type v) (drive_media_type a)) (\<lambda>drive.
     and_then (if_given (clean_media_type v) (export_media_type a)) (\<lambda>export.
     and_then (ensure (file = None \<and> drive = None \<and> export = None \<or> file \<noteq> None \<and> drive \<noteq> None)
         ''Drive provenance requires a file id and media type'')
       (\<lambda>_. Inr \<lparr>original_url = original, final_url = final, acquired_at = moment, drive_file_id = file,
                drive_media_type = drive, export_media_type = export\<rparr>)))))))"

section \<open>Origins\<close>

datatype adapter = Mcp | Slack | Admin

datatype occurred = At_Moment moment | On_Date nat

record origin =
  adapter :: adapter
  captured_at :: moment
  occurred_at :: "occurred option"
  title :: "pystr option"
  locator :: "pystr option"
  participants :: "participant list"
  acquisition :: "acquisition option"

definition clean_optional_text :: "nat \<Rightarrow> pystr option \<Rightarrow> pystr option result" where
  "clean_optional_text high value =
     (case value of
        None \<Rightarrow> Inr None
      | Some s \<Rightarrow>
          and_then (bounded 0 high s) (\<lambda>_.
            let cleaned = strip s in
            if cleaned = [] then Inr None
            else and_then (ensure (list_all (\<lambda>c. 32 \<le> c \<or> c = 9) cleaned) ''value contains control characters'')
              (\<lambda>_. Inr (Some cleaned))))"

definition occurred_at_utc :: "occurred \<Rightarrow> occurred result" where
  "occurred_at_utc x = (case x of At_Moment m \<Rightarrow> and_then (utc m) (\<lambda>m'. Inr (At_Moment m')) | On_Date d \<Rightarrow> Inr (On_Date d))"

definition valid_origin :: "unicode \<Rightarrow> unicode_more \<Rightarrow> origin \<Rightarrow> origin result" where
  "valid_origin u v x =
     and_then (utc (captured_at x)) (\<lambda>captured.
     and_then (if_given occurred_at_utc (occurred_at x)) (\<lambda>occurred.
     and_then (clean_optional_text MAX_TITLE_CHARS (title x)) (\<lambda>name.
     and_then (and_then (clean_optional_text MAX_LOCATOR_CHARS (locator x)) (if_given (without_capability u v))) (\<lambda>loc.
     and_then (each valid_participant (participants x)) (\<lambda>people.
     and_then (if_given (valid_acquisition u v) (acquisition x)) (\<lambda>acq.
       Inr \<lparr>adapter = adapter x, captured_at = captured, occurred_at = occurred, title = name, locator = loc,
            participants = people, acquisition = acq\<rparr>))))))"

section \<open>Artifacts\<close>

record artifact =
  blob_ref :: pystr
  sha256 :: pystr
  artifact_bytes :: int
  media_type :: pystr
  original_name :: "pystr option"
  source_url :: "pystr option"

definition supported_media_type :: "unicode_more \<Rightarrow> pystr \<Rightarrow> pystr result" where
  "supported_media_type v value =
     (let normalized = lower v (strip (takeWhile (\<lambda>c. c \<noteq> 59) value)) in
      and_then (ensure (normalized \<in> set SUPPORTED_MEDIA_TYPES) ''unsupported media type'') (\<lambda>_. Inr normalized))"

definition slashed :: "pystr \<Rightarrow> pystr" where
  "slashed = map (\<lambda>c. if c = 92 then 47 else c)"

definition clean_name :: "pystr \<Rightarrow> pystr result" where
  "clean_name value =
     and_then (bounded 0 500 value) (\<lambda>_.
       let name = strip (last (split_on 47 (slashed value))) in
       and_then (ensure (name \<noteq> [] \<and> name \<noteq> [46] \<and> name \<noteq> [46, 46] \<and> list_all (\<lambda>c. 32 \<le> c) name)
           ''original_name is invalid'') (\<lambda>_. Inr name))"

definition safe_source_url :: "unicode \<Rightarrow> unicode_more \<Rightarrow> pystr option \<Rightarrow> pystr option result" where
  "safe_source_url u v value =
     (case value of
        None \<Rightarrow> Inr None
      | Some s \<Rightarrow>
          and_then (bounded 0 MAX_LOCATOR_CHARS s) (\<lambda>_.
            if s = [] then Inr None else and_then (without_capability u v (strip s)) (\<lambda>t. Inr (Some t))))"

definition blob_matches_digest :: "pystr \<Rightarrow> pystr \<Rightarrow> bool" where
  "blob_matches_digest blob digest =
     (case fullmatch BLOB_RE blob of None \<Rightarrow> False | Some m \<Rightarrow> group_of m 3 = Some digest)"

definition valid_artifact :: "unicode \<Rightarrow> unicode_more \<Rightarrow> artifact \<Rightarrow> artifact result" where
  "valid_artifact u v a =
     and_then (ensure (full SHA256_RE (sha256 a)) ''sha256 must be 64 lowercase hexadecimal characters'') (\<lambda>_.
     and_then (ensure (0 < artifact_bytes a \<and> artifact_bytes a \<le> MAX_ARTIFACT_BYTES) ''bytes is out of bounds'') (\<lambda>_.
     and_then (supported_media_type v (media_type a)) (\<lambda>kind.
     and_then (if_given clean_name (original_name a)) (\<lambda>name.
     and_then (safe_source_url u v (source_url a)) (\<lambda>address.
     and_then (ensure (blob_matches_digest (blob_ref a) (sha256 a)) ''blob_ref does not match sha256'') (\<lambda>_.
       Inr (a\<lparr>media_type := kind, original_name := name, source_url := address\<rparr>)))))))"

section \<open>The capture envelope\<close>

record intent =
  resolution_of :: "pystr option"
  rationale :: "pystr option"

text \<open>\<open>bool(s)\<close> of an optional string.\<close>

definition truthy :: "pystr option \<Rightarrow> bool" where
  "truthy x \<longleftrightarrow> x \<noteq> None \<and> x \<noteq> Some []"

definition valid_intent :: "intent \<Rightarrow> intent result" where
  "valid_intent x =
     and_then (if_given (bounded 1 100) (resolution_of x)) (\<lambda>_.
     and_then (if_given (bounded 1 2000) (rationale x)) (\<lambda>_.
     and_then (ensure (\<not> (truthy (resolution_of x) \<and> \<not> truthy (rationale x)))
         ''a contradiction resolution requires a rationale'') (\<lambda>_.
     and_then (ensure (\<not> (truthy (rationale x) \<and> \<not> truthy (resolution_of x)))
         ''rationale is only valid with resolution_of'') (\<lambda>_. Inr x))))"

definition clean_idempotency_key :: "pystr \<Rightarrow> pystr result" where
  "clean_idempotency_key value =
     and_then (bounded 1 MAX_IDEMPOTENCY_KEY_CHARS value) (\<lambda>_.
       let cleaned = strip value in
       and_then (ensure (cleaned \<noteq> [] \<and> list_all (\<lambda>c. 33 \<le> c \<and> c \<noteq> 127) cleaned)
           ''idempotency_key must be one printable token'') (\<lambda>_. Inr cleaned))"

definition valid_audience :: "pystr list option \<Rightarrow> pystr list option result" where
  "valid_audience value =
     (case value of
        None \<Rightarrow> Inr None
      | Some gs \<Rightarrow>
          let cleaned = fromkeys (map strip (filter (\<lambda>g. strip g \<noteq> []) gs)) in
          and_then (ensure (cleaned \<noteq> []) ''audience cannot be empty'') (\<lambda>_.
          and_then (ensure (length cleaned = length gs) ''audience contains empty or duplicate groups'') (\<lambda>_.
          and_then (ensure (length cleaned = 1 \<and> is_layer_name (hd cleaned))
              ''audience names exactly one layer; public is stored as no audience'') (\<lambda>_. Inr (Some cleaned)))))"

record envelope =
  capture_id :: uuid
  envelope_key :: pystr
  envelope_actor :: actor
  audience :: "pystr list option"
  envelope_origin :: origin
  artifacts :: "artifact list"
  envelope_intent :: intent

definition valid_envelope :: "unicode \<Rightarrow> unicode_more \<Rightarrow> envelope \<Rightarrow> envelope result" where
  "valid_envelope u v e =
     and_then (clean_idempotency_key (envelope_key e)) (\<lambda>key.
     and_then (valid_actor (envelope_actor e)) (\<lambda>who.
     and_then (valid_audience (audience e)) (\<lambda>layer.
     and_then (valid_origin u v (envelope_origin e)) (\<lambda>from.
     and_then (each (valid_artifact u v) (artifacts e)) (\<lambda>arts.
     and_then (ensure (1 \<le> length arts \<and> length arts \<le> MAX_ARTIFACTS) ''artifacts is out of bounds'') (\<lambda>_.
     and_then (valid_intent (envelope_intent e)) (\<lambda>why.
     and_then (ensure (sum_list (map artifact_bytes arts) \<le> MAX_CAPTURE_BYTES)
         ''artifacts exceed the capture-wide byte limit'') (\<lambda>_.
       Inr (e\<lparr>envelope_key := key, envelope_actor := who, audience := layer, envelope_origin := from,
              artifacts := arts, envelope_intent := why\<rparr>)))))))))"

section \<open>Deletions, entity operations and gardening\<close>

record delete_request =
  delete_operation :: uuid
  delete_key :: pystr
  delete_actor :: actor
  paths :: "pystr list"
  delete_rationale :: pystr

definition deletable :: "pystr \<Rightarrow> bool" where
  "deletable path =
     (case split_path path of
        Inl _ \<Rightarrow> False
      | Inr (_, vpath) \<Rightarrow>
          (starts_with (lit ''wiki/'') vpath \<or> starts_with (lit ''sources/'') vpath) \<and>
          \<not> starts_with [47] path \<and> [46, 46] \<notin> set (split_on 47 path) \<and> ends_with (lit ''.md'') path)"

definition safe_paths :: "pystr list \<Rightarrow> pystr list result" where
  "safe_paths value =
     (let normalized = fromkeys (map (\<lambda>p. slashed (strip p)) value) in
      and_then (ensure (list_all deletable normalized) ''path is not deletable'') (\<lambda>_. Inr normalized))"

definition valid_delete :: "delete_request \<Rightarrow> delete_request result" where
  "valid_delete r =
     and_then (bounded 1 MAX_IDEMPOTENCY_KEY_CHARS (delete_key r)) (\<lambda>_.
     and_then (valid_actor (delete_actor r)) (\<lambda>who.
     and_then (ensure (1 \<le> length (paths r) \<and> length (paths r) \<le> 20) ''paths is out of bounds'') (\<lambda>_.
     and_then (safe_paths (paths r)) (\<lambda>ps.
     and_then (bounded 1 2000 (delete_rationale r)) (\<lambda>_.
       Inr (r\<lparr>delete_actor := who, paths := ps\<rparr>))))))"

record source_assertion =
  assertion_path :: pystr
  assertion :: pystr

definition valid_source_path :: "unicode \<Rightarrow> pystr \<Rightarrow> pystr result" where
  "valid_source_path u value =
     and_then (bounded 1 500 value) (\<lambda>_.
       let cleaned = slashed (strip value) in
       and_then (ensure (full (SOURCE_PATH_RE u) cleaned) ''merge evidence must cite an immutable source path'')
         (\<lambda>_. Inr cleaned))"

definition clean_assertion :: "pystr \<Rightarrow> pystr result" where
  "clean_assertion value =
     and_then (bounded 1 2000 value) (\<lambda>_.
     and_then (ensure (one_line value \<noteq> []) ''source assertion is required'') (\<lambda>_. Inr (one_line value)))"

definition valid_source_assertion :: "unicode \<Rightarrow> source_assertion \<Rightarrow> source_assertion result" where
  "valid_source_assertion u x =
     and_then (valid_source_path u (assertion_path x)) (\<lambda>p.
     and_then (clean_assertion (assertion x)) (\<lambda>a. Inr \<lparr>assertion_path = p, assertion = a\<rparr>))"

definition valid_merge_evidence :: "unicode \<Rightarrow> source_assertion list \<Rightarrow> source_assertion list result" where
  "valid_merge_evidence u xs =
     and_then (each (valid_source_assertion u) xs) (\<lambda>ys.
     and_then (ensure (1 \<le> length ys \<and> length ys \<le> 5) ''source_assertions is out of bounds'') (\<lambda>_.
     and_then (ensure (distinct (map assertion_path ys)) ''merge evidence contains duplicate source paths'')
       (\<lambda>_. Inr ys)))"

datatype entity_action = Merge | Rename | Delete_Entity

record entity_request =
  entity_operation :: uuid
  entity_key :: pystr
  entity_actor :: actor
  entity_action :: entity_action
  entities :: "pystr list"
  entity_rationale :: pystr
  evidence :: "source_assertion list option"
  new_title :: "pystr option"

definition valid_entity_paths :: "pystr list \<Rightarrow> pystr list result" where
  "valid_entity_paths value =
     (let normalized = fromkeys (map (\<lambda>p. slashed (strip p)) value) in
      and_then (ensure (list_all entity_path normalized) ''entities must be entity page paths'')
        (\<lambda>_. Inr normalized))"

definition action_arity :: "entity_request \<Rightarrow> unit result" where
  "action_arity r =
     (let a = entity_action r; n = length (entities r) in
      and_then (ensure (\<not> (a = Merge \<and> n < 2)) ''merge requires at least two entity pages'') (\<lambda>_.
      and_then (ensure (\<not> (a = Merge \<and> evidence r = None)) ''merge requires verifiable evidence'') (\<lambda>_.
      and_then (ensure (\<not> (a \<noteq> Merge \<and> n \<noteq> 1)) ''exactly one entity page'') (\<lambda>_.
      and_then (ensure (\<not> (a \<noteq> Merge \<and> evidence r \<noteq> None)) ''only merge accepts evidence'') (\<lambda>_.
      ensure ((a = Rename) = (new_title r \<noteq> None)) ''rename requires a new title and other actions forbid one'')))))"

definition valid_entity_request :: "unicode \<Rightarrow> entity_request \<Rightarrow> entity_request result" where
  "valid_entity_request u r =
     and_then (bounded 1 MAX_IDEMPOTENCY_KEY_CHARS (entity_key r)) (\<lambda>_.
     and_then (valid_actor (entity_actor r)) (\<lambda>who.
     and_then (ensure (1 \<le> length (entities r) \<and> length (entities r) \<le> 20) ''entities is out of bounds'') (\<lambda>_.
     and_then (valid_entity_paths (entities r)) (\<lambda>es.
     and_then (bounded 1 2000 (entity_rationale r)) (\<lambda>_.
     and_then (if_given (valid_merge_evidence u) (evidence r)) (\<lambda>proofs.
     and_then (if_given (bounded 1 300) (new_title r)) (\<lambda>_.
       let r' = r\<lparr>entity_actor := who, entities := es, evidence := proofs\<rparr> in
       and_then (action_arity r') (\<lambda>_. Inr r'))))))))"

datatype garden_mode = Repair | Recompile

record garden_request =
  garden_operation :: uuid
  garden_key :: pystr
  garden_actor :: actor
  garden_rationale :: pystr
  garden_mode :: garden_mode

definition valid_garden :: "garden_request \<Rightarrow> garden_request result" where
  "valid_garden r =
     and_then (bounded 1 MAX_IDEMPOTENCY_KEY_CHARS (garden_key r)) (\<lambda>_.
     and_then (valid_actor (garden_actor r)) (\<lambda>who.
     and_then (bounded 1 2000 (garden_rationale r)) (\<lambda>_. Inr (r\<lparr>garden_actor := who\<rparr>))))"

lemma split_on_chars: "p \<in> set (split_on sep s) \<Longrightarrow> set p \<subseteq> set s"
proof (induction s arbitrary: p)
  case (Cons c s)
  obtain q qs where "split_on sep s = q # qs"
    by (meson list.exhaust split_on_not_Nil)
  with Cons show ?case
    by (fastforce split: if_splits)
qed simp

lemma set_strip: "set (strip s) \<subseteq> set s"
  by (auto simp: strip_def rstrip_def lstrip_def dest!: set_dropWhileD)

section \<open>Parsing a submission\<close>

definition rejecting :: "'a result \<Rightarrow> 'a result" where
  "rejecting r = (case r of Inl (ValueError m) \<Rightarrow> Inl (SubmissionRejected m) | _ \<Rightarrow> r)"

definition parse_capture :: "unicode \<Rightarrow> unicode_more \<Rightarrow> envelope \<Rightarrow> envelope result" where
  "parse_capture u v e = rejecting (valid_envelope u v e)"

definition parse_delete :: "delete_request \<Rightarrow> delete_request result" where
  "parse_delete r = rejecting (valid_delete r)"

definition parse_entity_operation :: "unicode \<Rightarrow> entity_request \<Rightarrow> entity_request result" where
  "parse_entity_operation u r = rejecting (valid_entity_request u r)"

definition parse_garden :: "garden_request \<Rightarrow> garden_request result" where
  "parse_garden r = rejecting (valid_garden r)"

section \<open>Properties\<close>

named_theorems contract_simps \<open>inversion of a validator that succeeded\<close>

lemma ensure_Inr [contract_simps]: "ensure ok m = Inr x \<longleftrightarrow> ok"
  by (simp add: ensure_def)

lemma if_given_Inr [contract_simps]: "if_given f x = Inr y \<longleftrightarrow> (case x of None \<Rightarrow> y = None | Some a \<Rightarrow> \<exists>b. f a = Inr b \<and> y = Some b)"
  by (auto simp: if_given_def and_then_eq_Inr split: option.split)

lemmas contract_inversion = contract_simps and_then_eq_Inr Let_def

lemma each_in_result: "each f xs = Inr ys \<Longrightarrow> y \<in> set ys \<Longrightarrow> \<exists>x \<in> set xs. f x = Inr y"
  by (induction xs arbitrary: ys) (auto simp: and_then_eq_Inr)

text \<open>A validator only ever raises a \<open>ValueError\<close>.\<close>

definition raises_value_error :: "'a result \<Rightarrow> bool" where
  "raises_value_error r = (case r of Inl (ValueError _) \<Rightarrow> True | Inl _ \<Rightarrow> False | Inr _ \<Rightarrow> True)"

named_theorems raises_intros

lemma raises_and_then [raises_intros]:
  "raises_value_error r \<Longrightarrow> (\<And>x. raises_value_error (f x)) \<Longrightarrow> raises_value_error (and_then r f)"
  by (cases r) (auto simp: raises_value_error_def)

lemma raises_Inr [raises_intros]: "raises_value_error (Inr x)"
  by (simp add: raises_value_error_def)

lemma raises_ensure [raises_intros]: "raises_value_error (ensure ok m)"
  by (simp add: raises_value_error_def ensure_def)

lemma raises_bounded [raises_intros]: "raises_value_error (bounded low high s)"
  by (simp add: bounded_def raises_ensure)

lemma raises_if_given [raises_intros]: "(\<And>y. raises_value_error (f y)) \<Longrightarrow> raises_value_error (if_given f x)"
  by (cases x) (auto simp: if_given_def intro: raises_intros)

lemma raises_each [raises_intros]: "(\<And>x. raises_value_error (f x)) \<Longrightarrow> raises_value_error (each f xs)"
  by (induction xs) (auto intro: raises_intros)

lemma raises_utc [raises_intros]: "raises_value_error (utc m)"
  by (simp add: utc_def raises_intros)

lemma raises_without_capability [raises_intros]: "raises_value_error (without_capability u v s)"
  by (auto simp: without_capability_def raises_value_error_def invalid_url_def Let_def split: option.split sum.split)

lemma raises_actor [raises_intros]: "raises_value_error (valid_actor a)"
  by (auto simp: valid_actor_def clean_identity_def Let_def intro!: raises_intros)

lemma raises_acquisition [raises_intros]: "raises_value_error (valid_acquisition u v a)"
  by (auto simp: valid_acquisition_def safe_url_def valid_drive_file_id_def clean_media_type_def Let_def
      intro!: raises_intros)

lemma raises_origin [raises_intros]: "raises_value_error (valid_origin u v x)"
  by (auto simp: valid_origin_def valid_participant_def clean_optional_text_def occurred_at_utc_def Let_def
      intro!: raises_intros split: option.split occurred.split)

lemma raises_artifact [raises_intros]: "raises_value_error (valid_artifact u v a)"
  by (auto simp: valid_artifact_def supported_media_type_def clean_name_def safe_source_url_def Let_def
      intro!: raises_intros split: option.split)

lemma raises_envelope [raises_intros]: "raises_value_error (valid_envelope u v e)"
  by (auto simp: valid_envelope_def valid_intent_def valid_audience_def clean_idempotency_key_def Let_def
      intro!: raises_intros split: option.split)

lemma rejecting_Inl: "raises_value_error r \<Longrightarrow> rejecting r = Inl x \<Longrightarrow> \<exists>m. x = SubmissionRejected m"
  by (auto simp: raises_value_error_def rejecting_def split: sum.splits exn.splits)

lemma rejecting_Inr [simp]: "rejecting r = Inr x \<longleftrightarrow> r = Inr x"
  by (auto simp: rejecting_def split: sum.splits exn.splits)

text \<open>What the validators of the parts promise.\<close>

lemma valid_audience_Inr:
  "valid_audience x = Inr y \<Longrightarrow> (case y of None \<Rightarrow> x = None | Some gs \<Rightarrow> \<exists>layer. gs = [layer] \<and> is_layer_name layer)"
  by (auto simp: valid_audience_def contract_inversion length_Suc_conv split: option.splits)

definition plain_name :: "pystr \<Rightarrow> bool" where
  "plain_name n \<longleftrightarrow> n \<noteq> [] \<and> n \<noteq> [46] \<and> n \<noteq> [46, 46] \<and> 47 \<notin> set n \<and> 92 \<notin> set n"

lemma clean_name_Inr:
  assumes "clean_name x = Inr name"
  shows "plain_name name"
proof -
  have name: "name = strip (last (split_on 47 (slashed x)))" "name \<noteq> []" "name \<noteq> [46]" "name \<noteq> [46, 46]"
    using assms by (auto simp: clean_name_def contract_inversion)
  have "47 \<notin> set (last (split_on 47 (slashed x)))"
    by (rule split_on_parts [OF last_in_set]) simp
  moreover have "set (last (split_on 47 (slashed x))) \<subseteq> set (slashed x)"
    using split_on_chars last_in_set [OF split_on_not_Nil] by blast
  moreover have "92 \<notin> set (slashed x)"
    by (auto simp: slashed_def)
  ultimately show ?thesis
    using name set_strip unfolding plain_name_def by blast
qed

definition artifact_contract :: "artifact \<Rightarrow> bool" where
  "artifact_contract a \<longleftrightarrow>
     full SHA256_RE (sha256 a) \<and> blob_matches_digest (blob_ref a) (sha256 a) \<and>
     0 < artifact_bytes a \<and> artifact_bytes a \<le> MAX_ARTIFACT_BYTES \<and> media_type a \<in> set SUPPORTED_MEDIA_TYPES \<and>
     (case original_name a of None \<Rightarrow> True | Some n \<Rightarrow> plain_name n)"

lemma valid_artifact_Inr: "valid_artifact u v x = Inr a \<Longrightarrow> artifact_contract a"
  unfolding valid_artifact_def artifact_contract_def supported_media_type_def contract_inversion
  by (auto split: option.splits) (erule clean_name_Inr)


text \<open>
  The check that a blob reference matches its digest reads only the last component: a reference
  whose two directories are not the digest's passes it, although it is not the reference
  \<open>content_ref\<close> gives those bytes.
\<close>

theorem blob_directories_unchecked:
  "let digest = replicate 64 48; blob = lit ''sha256/ff/ff/'' @ digest
   in blob_matches_digest blob digest \<and> full SHA256_RE digest \<and> content_ref digest \<noteq> Inr blob"
  by code_simp

lemma raises_entity [raises_intros]: "raises_value_error (valid_entity_request u r)"
  by (auto simp: valid_entity_request_def valid_entity_paths_def valid_merge_evidence_def action_arity_def
      valid_source_assertion_def valid_source_path_def clean_assertion_def Let_def intro!: raises_intros)

lemma distinct_safe: "safe_paths ps = Inr qs \<Longrightarrow> distinct qs \<and> list_all deletable qs"
  by (auto simp: safe_paths_def contract_inversion)

text \<open>
  A parsed entity operation has the pages its action needs: a merge names at least two different
  entity pages and one to five different immutable sources that say they are the same, a rename and
  a deletion name exactly one page and no evidence, and only a rename has a new title.
\<close>

theorem parsed_entity_operation:
  "case parse_entity_operation u r of
     Inl x \<Rightarrow> \<exists>m. x = SubmissionRejected m
   | Inr r' \<Rightarrow>
       distinct (entities r') \<and> list_all entity_path (entities r') \<and>
       (case entity_action r' of
          Merge \<Rightarrow> 2 \<le> length (entities r') \<and> new_title r' = None \<and>
            (\<exists>claims. evidence r' = Some claims \<and> 1 \<le> length claims \<and> length claims \<le> 5 \<and>
               distinct (map assertion_path claims) \<and>
               list_all (\<lambda>c. full (SOURCE_PATH_RE u) (assertion_path c) \<and> assertion c \<noteq> []) claims)
        | Rename \<Rightarrow> length (entities r') = 1 \<and> evidence r' = None \<and> new_title r' \<noteq> None
        | Delete_Entity \<Rightarrow> length (entities r') = 1 \<and> evidence r' = None \<and> new_title r' = None)"
proof (cases "parse_entity_operation u r")
  case (Inl x)
  then show ?thesis
    using rejecting_Inl [OF raises_entity] by (auto simp: parse_entity_operation_def)
next
  case (Inr r')
  then obtain who es proofs where parts:
      "valid_entity_paths (entities r) = Inr es" "if_given (valid_merge_evidence u) (evidence r) = Inr proofs"
      "r' = r\<lparr>entity_actor := who, entities := es, evidence := proofs\<rparr>" "action_arity r' = Inr ()"
    by (auto simp: parse_entity_operation_def valid_entity_request_def contract_inversion)
  have es: "distinct es \<and> list_all entity_path es"
    using parts(1) by (auto simp: valid_entity_paths_def contract_inversion)
  have claims: "1 \<le> length claims \<and> length claims \<le> 5 \<and> distinct (map assertion_path claims) \<and>
      list_all (\<lambda>c. full (SOURCE_PATH_RE u) (assertion_path c) \<and> assertion c \<noteq> []) claims"
    if given: "proofs = Some claims" for claims
  proof -
    have *: "full (SOURCE_PATH_RE u) (assertion_path c) \<and> assertion c \<noteq> []" if "valid_source_assertion u x = Inr c" for x c
      using that by (auto simp: valid_source_assertion_def valid_source_path_def clean_assertion_def contract_inversion)
    obtain xs where v: "valid_merge_evidence u xs = Inr claims"
      using parts(2) given by (auto simp: if_given_Inr split: option.splits)
    then have "each (valid_source_assertion u) xs = Inr claims"
      by (auto simp: valid_merge_evidence_def contract_inversion)
    then show ?thesis
      using v * each_in_result by (fastforce simp: valid_merge_evidence_def contract_inversion list_all_iff)
  qed
  show ?thesis
    using parts(3,4) es claims Inr
    by (cases "entity_action r"; cases proofs) (auto simp: action_arity_def contract_inversion)
qed

end
