(* ===== verification/Py_Bytes.thy ===== *)
theory Py_Bytes
  imports Py_Text
begin

text \<open>
  UTF-8: \<open>s.encode("utf-8")\<close> and \<open>data.decode("utf-8")\<close>, which refuses what is not the shortest form
  of a scalar value. Bytes are integers; encoding a surrogate, where Python raises, is not modelled.
\<close>

type_synonym bytes = "int list"

definition utf8_bytes :: "int \<Rightarrow> bytes" where
  "utf8_bytes c =
     (if c < 128 then [c]
      else if c < 2048 then [192 + c div 64, 128 + c mod 64]
      else if c < 65536 then [224 + c div 4096, 128 + c div 64 mod 64, 128 + c mod 64]
      else [240 + c div 262144, 128 + c div 4096 mod 64, 128 + c div 64 mod 64, 128 + c mod 64])"

definition encode :: "pystr \<Rightarrow> bytes" where
  "encode s = concat (map utf8_bytes s)"

definition continues :: "int \<Rightarrow> bool" where
  "continues b \<longleftrightarrow> 128 \<le> b \<and> b \<le> 191"

definition scalar :: "int \<Rightarrow> bool" where
  "scalar c \<longleftrightarrow> 0 \<le> c \<and> c \<le> 1114111 \<and> \<not> (55296 \<le> c \<and> c \<le> 57343)"

text \<open>The bytes a first byte announces after it.\<close>

definition announced :: "int \<Rightarrow> nat option" where
  "announced b =
     (if 0 \<le> b \<and> b < 128 then Some 0 else if 192 \<le> b \<and> b < 224 then Some 1
      else if 224 \<le> b \<and> b < 240 then Some 2 else if 240 \<le> b \<and> b < 248 then Some 3 else None)"

definition code_point :: "nat \<Rightarrow> int \<Rightarrow> bytes \<Rightarrow> int" where
  "code_point n b bs =
     fold (\<lambda>x c. c * 64 + (x - 128)) bs (if n = 0 then b else if n = 1 then b - 192 else if n = 2 then b - 224 else b - 240)"

function decode :: "bytes \<Rightarrow> pystr option" where
  "decode [] = Some []"
| "decode (b # bs) =
     (case announced b of
        None \<Rightarrow> None
      | Some n \<Rightarrow>
          let c = code_point n b (take n bs) in
          if length bs < n \<or> \<not> list_all continues (take n bs) \<or> \<not> scalar c \<or> length (utf8_bytes c) \<noteq> Suc n then None
          else map_option ((#) c) (decode (drop n bs)))"
  by pat_completeness auto
termination
  by (relation "measure length") auto

declare decode.simps(2) [simp del]

lemma length_utf8_bytes: "int (length (utf8_bytes c)) = int (utf8_width c)"
  by (simp add: utf8_bytes_def utf8_width_def)

lemma length_encode: "length (encode s) = utf8_size s"
  using length_utf8_bytes by (induction s) (simp_all add: encode_def utf8_size_def)

lemma encode_append [simp]: "encode (s @ t) = encode s @ encode t"
  by (simp add: encode_def)

lemma encode_Cons: "encode (c # s) = utf8_bytes c @ encode s"
  by (simp add: encode_def)

lemma base64_digit: "(a::int) div 64 * 64 + a mod 64 = a"
  by simp

lemma base64_shift: "(c::int) div 64 div 64 = c div 4096" "c div 4096 div 64 = c div 262144"
  by (simp_all add: zdiv_zmult2_eq [symmetric])

lemma code_point_two: "code_point 1 (192 + c div 64) [128 + c mod 64] = c"
  by (simp add: code_point_def)

lemma code_point_three: "code_point 2 (224 + c div 4096) [128 + c div 64 mod 64, 128 + c mod 64] = c"
  using base64_digit [of "c div 64"] by (simp add: code_point_def base64_shift)

lemma code_point_four:
  "code_point 3 (240 + c div 262144) [128 + c div 4096 mod 64, 128 + c div 64 mod 64, 128 + c mod 64] = c"
  using base64_digit [of "c div 4096"] base64_digit [of "c div 64"] by (simp add: code_point_def base64_shift)

lemma continues_digit: "continues (128 + a mod 64)"
  by (simp add: continues_def)

lemma announced_two: "0 \<le> a \<Longrightarrow> a < 32 \<Longrightarrow> announced (192 + a) = Some 1"
  by (simp add: announced_def)

lemma announced_three: "0 \<le> a \<Longrightarrow> a < 16 \<Longrightarrow> announced (224 + a) = Some 2"
  by (simp add: announced_def)

lemma announced_four: "0 \<le> a \<Longrightarrow> a < 8 \<Longrightarrow> announced (240 + a) = Some 3"
  by (simp add: announced_def)

lemma utf8_bytes_cases:
  "c < 128 \<Longrightarrow> utf8_bytes c = [c]"
  "128 \<le> c \<Longrightarrow> c < 2048 \<Longrightarrow> utf8_bytes c = [192 + c div 64, 128 + c mod 64]"
  "2048 \<le> c \<Longrightarrow> c < 65536 \<Longrightarrow> utf8_bytes c = [224 + c div 4096, 128 + c div 64 mod 64, 128 + c mod 64]"
  "65536 \<le> c \<Longrightarrow>
     utf8_bytes c = [240 + c div 262144, 128 + c div 4096 mod 64, 128 + c div 64 mod 64, 128 + c mod 64]"
  by (auto simp: utf8_bytes_def)

lemma decode_run:
  assumes "announced b = Some (length bs)" and "list_all continues bs" and "code_point (length bs) b bs = c"
    and "scalar c" and "utf8_bytes c = b # bs"
  shows "decode (utf8_bytes c @ rest) = map_option ((#) c) (decode rest)"
  using assms by (simp add: decode.simps(2) Let_def)

lemma decode_one:
  assumes "scalar c"
  shows "decode (utf8_bytes c @ rest) = map_option ((#) c) (decode rest)"
proof -
  have c: "0 \<le> c" "c \<le> 1114111"
    using assms by (auto simp: scalar_def)
  consider "c < 128" | "128 \<le> c" "c < 2048" | "2048 \<le> c" "c < 65536" | "65536 \<le> c"
    by linarith
  then show ?thesis
  proof cases
    case 1
    then show ?thesis
      using c assms by (simp add: utf8_bytes_def decode.simps(2) announced_def code_point_def)
  next
    case 2
    have "announced (192 + c div 64) = Some 1"
      by (rule announced_two) (use 2 in linarith)+
    then show ?thesis
      using decode_run [of "192 + c div 64" "[128 + c mod 64]" c rest] code_point_two [of c] utf8_bytes_cases(2) [OF 2]
        continues_digit assms by (simp only: list.pred_inject list.size One_nat_def add_0 simp_thms)
  next
    case 3
    have "announced (224 + c div 4096) = Some 2"
      by (rule announced_three) (use 3 in linarith)+
    then show ?thesis
      using decode_run [of "224 + c div 4096" "[128 + c div 64 mod 64, 128 + c mod 64]" c rest] code_point_three [of c]
        utf8_bytes_cases(3) [OF 3] continues_digit assms
      by (simp only: list.pred_inject list.size numeral_2_eq_2 add_0 add_0_right add_Suc_right add_Suc One_nat_def simp_thms)
  next
    case 4
    have "announced (240 + c div 262144) = Some 3"
      by (rule announced_four) (use c 4 in linarith)+
    then show ?thesis
      using decode_run [of "240 + c div 262144" "[128 + c div 4096 mod 64, 128 + c div 64 mod 64, 128 + c mod 64]" c rest]
        code_point_four [of c] utf8_bytes_cases(4) [OF 4] continues_digit assms
      by (simp only: list.pred_inject list.size numeral_3_eq_3 add_0 add_0_right add_Suc_right add_Suc One_nat_def simp_thms)
  qed
qed

lemma decode_encode: "list_all scalar s \<Longrightarrow> decode (encode s) = Some s"
  by (induction s) (simp_all add: encode_def decode_one)

end
