(* ===== verification/Evidence_Refs.thy ===== *)
theory Evidence_Refs
  imports Capture_Contracts Capture_Queue Py_Bytes
begin

text \<open>
  Evidence objects and who needs them: the content-addressed store of \<open>stigmergy/capture/evidence.py\<close>,
  the upload sessions of \<open>capture/uploads.py\<close> and the artifact references of \<open>capture/references.py\<close>.
  The store is the map of its objects; the network errors of the S3 store are not modelled.
  \<open>digest\<close>, the hexadecimal SHA-256 of some bytes, is a parameter.
\<close>

section \<open>The store\<close>

type_synonym objects = "(pystr, bytes) fmap"

definition content_key :: "(bytes \<Rightarrow> pystr) \<Rightarrow> bytes \<Rightarrow> pystr result" where
  "content_key digest data = content_ref (digest data)"

text \<open>\<open>put\<close> never replaces an object: \<open>setdefault\<close> of the memory store, \<open>exists\<close> of the S3 store.\<close>

definition put_object :: "(bytes \<Rightarrow> pystr) \<Rightarrow> bytes \<Rightarrow> objects \<Rightarrow> pystr result \<times> objects" where
  "put_object digest data obj =
     (case content_key digest data of
        Inl e \<Rightarrow> (Inl e, obj)
      | Inr key \<Rightarrow> (Inr key, if key |\<in>| fmdom obj then obj else fmupd key data obj))"

definition get_object :: "pystr \<Rightarrow> objects \<Rightarrow> bytes result" where
  "get_object key obj =
     (case fmlookup obj key of Some data \<Rightarrow> Inr data | None \<Rightarrow> Inl (EvidenceError (lit ''evidence object not found'')))"

definition get_limited :: "pystr \<Rightarrow> int \<Rightarrow> objects \<Rightarrow> bytes result" where
  "get_limited key max_bytes obj =
     and_then (get_object key obj) (\<lambda>data.
       if max_bytes < int (length data) then Inl (EvidenceError (lit ''evidence object exceeds the read limit''))
       else Inr data)"

definition head_object :: "pystr \<Rightarrow> objects \<Rightarrow> int result" where
  "head_object key obj = and_then (get_object key obj) (\<lambda>data. Inr (int (length data)))"

definition delete_object :: "pystr \<Rightarrow> objects \<Rightarrow> bool \<times> objects" where
  "delete_object key obj = (key |\<in>| fmdom obj, fmdrop key obj)"

definition verify_object :: "(bytes \<Rightarrow> pystr) \<Rightarrow> pystr \<Rightarrow> pystr \<Rightarrow> int \<Rightarrow> objects \<Rightarrow> bool result" where
  "verify_object digest key expected n obj =
     and_then (content_ref expected) (\<lambda>right.
       if key \<noteq> right then Inr False
       else and_then (head_object key obj) (\<lambda>m.
         if m \<noteq> n then Inr False
         else and_then (get_limited key n obj) (\<lambda>data. Inr (digest data = expected))))"

section \<open>Tables\<close>

record upload =
  upload_id :: uuid
  upload_tenant :: uuid
  upload_actor :: pystr
  upload_key :: pystr
  upload_artifact :: artifact
  upload_created_at :: timestamp
  expires_at :: timestamp
  verified_at :: "timestamp option"
  consumed_by :: "uuid option"
  consumed_at :: "timestamp option"

record artifact_row =
  row_tenant :: uuid
  row_capture :: uuid
  row_position :: nat
  row_source :: pystr
  original_ref :: pystr
  readable_ref :: pystr
  row_live :: bool
  row_created_at :: timestamp
  released_at :: "timestamp option"

record evidence_db = db +
  uploads :: "upload list"
  artifact_rows :: "artifact_row list"
  change_patches :: "pystr list"

section \<open>What is live\<close>

definition json_items :: "json_object \<Rightarrow> pystr \<Rightarrow> json list" where
  "json_items x key = (case fmlookup x key of Some (JList xs) \<Rightarrow> xs | _ \<Rightarrow> [])"

definition json_text :: "json \<Rightarrow> pystr \<Rightarrow> pystr option" where
  "json_text x key =
     (case x of JObject m \<Rightarrow> (case fmlookup m key of Some (JText s) \<Rightarrow> Some s | _ \<Rightarrow> None) | _ \<Rightarrow> None)"

definition unlanded_capture :: "item \<Rightarrow> bool" where
  "unlanded_capture q \<longleftrightarrow> operation q = Capture \<and> status q \<noteq> Landed"

text \<open>\<open>is_live\<close> reads under the platform scope, so it sees every tenant's rows.\<close>

definition is_live :: "instants \<Rightarrow> pystr \<Rightarrow> 'a evidence_db_scheme \<Rightarrow> bool" where
  "is_live i ref d \<longleftrightarrow>
     (\<exists>a \<in> set (artifact_rows d). row_live a \<and> (original_ref a = ref \<or> readable_ref a = ref)) \<or>
     (\<exists>s \<in> set (uploads d). consumed_by s = None \<and> now i \<le> expires_at s \<and> blob_ref (upload_artifact s) = ref) \<or>
     (\<exists>q \<in> set (queue_rows d). unlanded_capture q \<and>
        Some ref \<in> (\<lambda>x. json_text x (lit ''blob_ref'')) ` set (json_items (request q) (lit ''artifacts''))) \<or>
     (\<exists>q \<in> set (queue_rows d). unlanded_capture q \<and>
        Some ref \<in> (\<lambda>x. json_text x (lit ''readable_ref'')) ` set (json_items (extraction q) (lit ''artifacts''))) \<or>
     ref \<in> set (change_patches d)"

section \<open>Artifact references\<close>

text \<open>One \<open>INSERT ... ON CONFLICT DO UPDATE ... WHERE\<close>; \<open>None\<close> when the recorded row differs.\<close>

definition record_reference ::
  "conn \<Rightarrow> instants \<Rightarrow> uuid \<Rightarrow> pystr \<Rightarrow> nat \<Rightarrow> pystr \<times> pystr \<Rightarrow> artifact_row list \<Rightarrow> artifact_row list option" where
  "record_reference c i capture source n refs rows =
     (case find (\<lambda>a. row_capture a = capture \<and> row_position a = n) rows of
        None \<Rightarrow>
          (case tenant_setting c of
             None \<Rightarrow> None
           | Some t \<Rightarrow> Some (rows @ [\<lparr>row_tenant = t, row_capture = capture, row_position = n, row_source = source,
               original_ref = fst refs, readable_ref = snd refs, row_live = True, row_created_at = now i,
               released_at = None\<rparr>]))
      | Some a \<Rightarrow>
          if row_source a = source \<and> original_ref a = fst refs \<and> readable_ref a = snd refs
          then Some (update_where (\<lambda>a. row_capture a = capture \<and> row_position a = n)
                      (\<lambda>a. a\<lparr>row_live := True, released_at := None\<rparr>) rows)
          else None)"

fun record_references ::
  "conn \<Rightarrow> instants \<Rightarrow> uuid \<Rightarrow> pystr \<Rightarrow> nat \<Rightarrow> (pystr \<times> pystr) list \<Rightarrow> artifact_row list \<Rightarrow> unit result \<times> artifact_row list" where
  "record_references c i capture source n [] rows = (Inr (), rows)"
| "record_references c i capture source n (x # xs) rows =
     (case record_reference c i capture source n x rows of
        None \<Rightarrow> (Inl (RuntimeError (lit ''capture artifact reference conflicts with its recorded value'')), rows)
      | Some rows' \<Rightarrow> record_references c i capture source (n + 1) xs rows')"

text \<open>\<open>record_capture\<close>: \<open>extracted\<close> lists the original and the readable reference of each artifact.\<close>

definition record_capture ::
  "conn \<Rightarrow> instants \<Rightarrow> envelope \<Rightarrow> (pystr \<times> pystr) list \<Rightarrow> pystr \<Rightarrow> 'a evidence_db_scheme \<Rightarrow> unit result \<times> 'a evidence_db_scheme" where
  "record_capture c i e extracted source d =
     (if length extracted \<noteq> length (artifacts e)
      then (Inl (RuntimeError (lit ''capture reference count does not match its artifacts'')), d)
      else let (r, rows) = record_references c i (capture_id e) source 1 extracted (artifact_rows d)
        in (r, d\<lparr>artifact_rows := rows\<rparr>))"

definition reference_seen :: "conn \<Rightarrow> artifact_row \<Rightarrow> bool" where
  "reference_seen c a \<longleftrightarrow> row_visible c (row_tenant a)"

definition release_sources ::
  "conn \<Rightarrow> instants \<Rightarrow> pystr set \<Rightarrow> 'a evidence_db_scheme \<Rightarrow> pystr set \<times> 'a evidence_db_scheme" where
  "release_sources c i sources d =
     (if sources = {} then ({}, d)
      else let hit = (\<lambda>a. reference_seen c a \<and> row_source a \<in> sources);
               candidates = original_ref ` {a \<in> set (artifact_rows d). hit a} \<union>
                            readable_ref ` {a \<in> set (artifact_rows d). hit a};
               d' = d\<lparr>artifact_rows := update_where (\<lambda>a. hit a \<and> row_live a)
                       (\<lambda>a. a\<lparr>row_live := False, released_at := coalesce (released_at a) (now i)\<rparr>) (artifact_rows d)\<rparr>
           in ({ref \<in> candidates. \<not> is_live i ref d'}, d'))"

definition live_for_capture :: "conn \<Rightarrow> uuid \<Rightarrow> 'a evidence_db_scheme \<Rightarrow> artifact_row list" where
  "live_for_capture c capture d =
     sort_key row_position
       (filter (\<lambda>a. reference_seen c a \<and> row_capture a = capture \<and> row_live a) (artifact_rows d))"

section \<open>Upload sessions\<close>

definition UPLOAD_TTL_S :: int where "UPLOAD_TTL_S = 300"
definition UPLOAD_PREFIX :: pystr where "UPLOAD_PREFIX = lit ''uploads''"

text \<open>\<open>text_of\<close> gives the text of a UUID.\<close>

definition staging_ref :: "(uuid \<Rightarrow> pystr) \<Rightarrow> uuid \<Rightarrow> pystr" where
  "staging_ref text_of k = UPLOAD_PREFIX @ [SLASH] @ text_of k"

definition upload_seen :: "conn \<Rightarrow> upload \<Rightarrow> bool" where
  "upload_seen c s \<longleftrightarrow> row_visible c (upload_tenant s)"

text \<open>\<open>wall\<close> is the writer's own clock, \<open>k\<close> the fresh identifier.\<close>

definition create_upload ::
  "unicode \<Rightarrow> unicode_more \<Rightarrow> conn \<Rightarrow> instants \<Rightarrow> timestamp \<Rightarrow> uuid \<Rightarrow> pystr \<Rightarrow> pystr \<Rightarrow> artifact
   \<Rightarrow> 'a evidence_db_scheme \<Rightarrow> upload result \<times> 'a evidence_db_scheme" where
  "create_upload u v c i wall k who key raw d =
     (case and_then (content_ref (sha256 raw)) (\<lambda>blob. valid_artifact u v (raw\<lparr>blob_ref := blob\<rparr>)) of
        Inl e \<Rightarrow> (Inl e, d)
      | Inr art \<Rightarrow>
          (case tenant_setting c of
             None \<Rightarrow> (Inl (DatabaseError (lit ''null value in column tenant_id'')), d)
           | Some t \<Rightarrow>
               let fresh = \<lparr>upload_id = k, upload_tenant = t, upload_actor = who, upload_key = key, upload_artifact = art,
                     upload_created_at = now i, expires_at = now i + make_interval UPLOAD_TTL_S, verified_at = None,
                     consumed_by = None, consumed_at = None\<rparr>;
                   kept = find (\<lambda>s. upload_tenant s = t \<and> upload_actor s = who \<and> upload_key s = key) (uploads d)
               in case kept of
                    None \<Rightarrow>
                      if k \<in> upload_id ` set (uploads d) then (Inl (DatabaseError (lit ''duplicate key value: id'')), d)
                      else (if expires_at fresh \<le> wall then Inl (UploadError (lit ''upload session expired'')) else Inr fresh,
                            d\<lparr>uploads := uploads d @ [fresh]\<rparr>)
                  | Some _ \<Rightarrow>
                      (case find (\<lambda>s. upload_seen c s \<and> upload_actor s = who \<and> upload_key s = key) (uploads d) of
                         None \<Rightarrow> (Inl (ValueError (lit ''NoneType object is not subscriptable'')), d)
                       | Some s \<Rightarrow>
                           if upload_artifact s \<noteq> art
                           then (Inl (SubmissionRejected (lit ''upload idempotency key was already used for different bytes'')), d)
                           else if expires_at s \<le> wall \<and> verified_at s = None
                           then (Inl (UploadError (lit ''upload session expired'')), d)
                           else (Inr s, d))))"

text \<open>
  \<open>create_upload\<close> returns a way to send the bytes only while the session is unverified. The check of a
  session's staged bytes, then the promotion of all of them. The count checked after the last update
  is always right, since it selects by primary keys.
\<close>

definition staged_bytes :: "(uuid \<Rightarrow> pystr) \<Rightarrow> (bytes \<Rightarrow> pystr) \<Rightarrow> upload \<Rightarrow> objects \<Rightarrow> bytes result" where
  "staged_bytes text_of digest s obj =
     (let key = staging_ref text_of (upload_id s); art = upload_artifact s;
          unavailable = UploadError (lit ''uploaded bytes are unavailable'');
          mismatch = UploadError (lit ''uploaded bytes do not match the declared digest and size'') in
      case head_object key obj of
        Inl _ \<Rightarrow> Inl unavailable
      | Inr n \<Rightarrow>
          if n \<noteq> artifact_bytes art then Inl mismatch
          else case get_limited key (artifact_bytes art) obj of
            Inl _ \<Rightarrow> Inl unavailable
          | Inr data \<Rightarrow>
              if int (length data) \<noteq> artifact_bytes art \<or> digest data \<noteq> sha256 art then Inl mismatch
              else Inr data)"

fun promote :: "(bytes \<Rightarrow> pystr) \<Rightarrow> (upload \<times> bytes) list \<Rightarrow> objects \<Rightarrow> unit result \<times> objects" where
  "promote digest [] obj = (Inr (), obj)"
| "promote digest ((s, data) # rest) obj =
     (case put_object digest data obj of
        (Inl e, obj') \<Rightarrow> (Inl e, obj')
      | (Inr key, obj') \<Rightarrow>
          if key \<noteq> blob_ref (upload_artifact s)
          then (Inl (UploadError (lit ''uploaded bytes could not be promoted safely'')), obj')
          else promote digest rest obj')"

definition finalize_uploads ::
  "(uuid \<Rightarrow> pystr) \<Rightarrow> (bytes \<Rightarrow> pystr) \<Rightarrow> conn \<Rightarrow> instants \<Rightarrow> timestamp \<Rightarrow> pystr \<Rightarrow> uuid list
   \<Rightarrow> 'a evidence_db_scheme \<times> objects \<Rightarrow> artifact list result \<times> 'a evidence_db_scheme \<times> objects" where
  "finalize_uploads text_of digest c i wall who ids w =
     (let d = fst w; obj = snd w;
          rows = List.map_filter (\<lambda>k. find (\<lambda>s. upload_seen c s \<and> upload_actor s = who \<and> upload_id s = k) (uploads d)) ids in
      if ids = [] \<or> \<not> distinct ids then (Inl (UploadError (lit ''upload session list is invalid'')), w)
      else if length rows \<noteq> length ids then (Inl (UploadError (lit ''upload session not found'')), w)
      else if MAX_CAPTURE_BYTES < sum_list (map (artifact_bytes \<circ> upload_artifact) rows)
      then (Inl (UploadError (lit ''uploads exceed the capture-wide byte limit'')), w)
      else if list_ex (\<lambda>s. expires_at s \<le> wall \<and> verified_at s = None) rows
      then (Inl (UploadError (lit ''upload session expired'')), w)
      else let todo = filter (\<lambda>s. verified_at s = None) rows in
        case each (\<lambda>s. and_then (staged_bytes text_of digest s obj) (\<lambda>data. Inr (s, data))) todo of
          Inl e \<Rightarrow> (Inl e, w)
        | Inr pending \<Rightarrow>
            (case promote digest pending obj of
               (Inl e, obj') \<Rightarrow> (Inl e, d, obj')
             | (Inr _, obj') \<Rightarrow>
                 (Inr (map upload_artifact rows),
                  d\<lparr>uploads := update_where (\<lambda>s. upload_seen c s \<and> upload_id s \<in> set (map upload_id todo))
                     (\<lambda>s. s\<lparr>verified_at := Some (now i)\<rparr>) (uploads d)\<rparr>, obj')))"

definition consumable :: "conn \<Rightarrow> pystr \<Rightarrow> uuid list \<Rightarrow> uuid \<Rightarrow> upload \<Rightarrow> bool" where
  "consumable c who ids capture s \<longleftrightarrow>
     upload_seen c s \<and> upload_actor s = who \<and> upload_id s \<in> set ids \<and> verified_at s \<noteq> None \<and>
     (consumed_by s = None \<or> consumed_by s = Some capture)"

text \<open>The update stays when the check after it fails; the caller's transaction undoes it.\<close>

definition consume_uploads ::
  "conn \<Rightarrow> instants \<Rightarrow> pystr \<Rightarrow> uuid list \<Rightarrow> uuid \<Rightarrow> 'a evidence_db_scheme \<Rightarrow> unit result \<times> 'a evidence_db_scheme" where
  "consume_uploads c i who ids capture d =
     (let hit = consumable c who ids capture;
          d' = d\<lparr>uploads := update_where hit
                 (\<lambda>s. s\<lparr>consumed_by := Some capture, consumed_at := coalesce (consumed_at s) (now i)\<rparr>) (uploads d)\<rparr> in
      if set (map upload_id (filter hit (uploads d))) = set ids then (Inr (), d')
      else (Inl (UploadError (lit ''uploads could not be linked to this capture'')), d'))"

text \<open>\<open>_purge_expired\<close> with an evidence store, in the order of its deletions.\<close>

definition purge_expired ::
  "(uuid \<Rightarrow> pystr) \<Rightarrow> instants \<Rightarrow> 'a evidence_db_scheme \<times> objects \<Rightarrow> nat \<times> 'a evidence_db_scheme \<times> objects" where
  "purge_expired text_of i w =
     (let d = fst w; rows = filter (\<lambda>s. expires_at s < now i) (uploads d);
          staged = fold (\<lambda>s obj. snd (delete_object (staging_ref text_of (upload_id s)) obj)) rows (snd w);
          freed = fold (\<lambda>ref obj. if is_live i ref d then obj else snd (delete_object ref obj))
                    (fromkeys (map (\<lambda>s. blob_ref (upload_artifact s)) rows)) staged
      in (length rows, d\<lparr>uploads := filter (\<lambda>s. upload_id s \<notin> set (map upload_id rows)) (uploads d)\<rparr>, freed))"

section \<open>Garbage collection\<close>

lemma delete_fold:
  "fmlookup (fold (\<lambda>ref obj. if P ref then obj else snd (delete_object ref obj)) refs obj) key =
     (if key \<in> set refs \<and> \<not> P key then None else fmlookup obj key)"
  by (induction refs arbitrary: obj) (auto simp: delete_object_def)

lemma delete_staged:
  "fmlookup (fold (\<lambda>s obj. snd (delete_object (f s) obj)) rows obj) key =
     (if key \<in> f ` set rows then None else fmlookup obj key)"
  by (induction rows arbitrary: obj) (auto simp: delete_object_def)

text \<open>
  C21. A purge deletes exactly the staged bytes of the expired sessions and those of their objects that
  nothing needs any more; every other object keeps its bytes, and what was needed before the purge
  is needed after it.
\<close>

theorem purge_deletes_only_garbage:
  assumes "distinct (map upload_id (uploads d))" "purge_expired text_of i (d, obj) = (n, d', obj')"
  shows "fmlookup obj' key =
      (if key \<in> (\<lambda>s. staging_ref text_of (upload_id s)) ` {s \<in> set (uploads d). expires_at s < now i} \<or>
          key \<in> (\<lambda>s. blob_ref (upload_artifact s)) ` {s \<in> set (uploads d). expires_at s < now i} \<and> \<not> is_live i key d
       then None else fmlookup obj key) \<and>
    n = length (filter (\<lambda>s. expires_at s < now i) (uploads d)) \<and>
    uploads d' = filter (\<lambda>s. now i \<le> expires_at s) (uploads d) \<and>
    is_live i key d' = is_live i key d"
proof -
  let ?rows = "filter (\<lambda>s. expires_at s < now i) (uploads d)"
  have d': "d' = d\<lparr>uploads := filter (\<lambda>s. upload_id s \<notin> set (map upload_id ?rows)) (uploads d)\<rparr>"
    and n: "n = length ?rows"
    and obj': "obj' = fold (\<lambda>ref obj. if is_live i ref d then obj else snd (delete_object ref obj))
        (fromkeys (map (\<lambda>s. blob_ref (upload_artifact s)) ?rows))
        (fold (\<lambda>s obj. snd (delete_object (staging_ref text_of (upload_id s)) obj)) ?rows obj)"
    using assms(2) by (simp_all add: purge_expired_def Let_def)
  have "upload_id s \<in> set (map upload_id ?rows) \<longleftrightarrow> expires_at s < now i" if "s \<in> set (uploads d)" for s
    using assms(1) that by (auto simp: distinct_map inj_on_def)
  then have up: "uploads d' = filter (\<lambda>s. now i \<le> expires_at s) (uploads d)"
    unfolding d' by (simp add: not_less cong: filter_cong)
  have "is_live i key d' = is_live i key d"
    unfolding is_live_def up by (auto simp: d')
  moreover have "fmlookup obj' key =
      (if key \<in> (\<lambda>s. staging_ref text_of (upload_id s)) ` set ?rows \<or>
          key \<in> (\<lambda>s. blob_ref (upload_artifact s)) ` set ?rows \<and> \<not> is_live i key d
       then None else fmlookup obj key)"
    unfolding obj' delete_fold delete_staged by auto
  ultimately show ?thesis
    using n up by simp
qed

section \<open>Finalizing keeps its promise\<close>

text \<open>Every content-addressed object has the bytes its name says.\<close>

definition addressed :: "(bytes \<Rightarrow> pystr) \<Rightarrow> objects \<Rightarrow> bool" where
  "addressed digest obj \<longleftrightarrow>
     (\<forall>key data e. fmlookup obj key = Some data \<longrightarrow> content_ref e = Inr key \<longrightarrow> digest data = e)"

definition content_path :: "pystr \<Rightarrow> pystr" where
  "content_path e = lit ''sha256/'' @ take 2 e @ [47] @ take 2 (drop 2 e) @ [47] @ e"

lemma content_ref_eq: "content_ref e = Inr key \<longleftrightarrow>
    full SHA256_RE e \<and> key = lit ''sha256/'' @ take 2 e @ [47] @ take 2 (drop 2 e) @ [47] @ e"
  by (auto simp: content_ref_def ensure_def)

lemma content_ref_drop: "content_ref e = Inr key \<Longrightarrow> e = drop 13 key"
proof -
  assume "content_ref e = Inr key"
  then have "full SHA256_RE e" and key: "key = lit ''sha256/'' @ take 2 e @ [47] @ take 2 (drop 2 e) @ [47] @ e"
    by (simp_all only: content_ref_eq)
  then have "length e = 64"
    using fullmatch_exactly [of 64 hex e] by (simp add: full_def SHA256_RE_def)
  then have "length (lit ''sha256/'' @ take 2 e @ [47] @ take 2 (drop 2 e) @ [47]) = 13"
    by simp
  moreover have "drop (length p) (p @ e) = e" for p
    by simp
  moreover have "key = (lit ''sha256/'' @ take 2 e @ [47] @ take 2 (drop 2 e) @ [47]) @ e"
    by (simp only: key append_assoc)
  ultimately show ?thesis
    by metis
qed

lemma content_ref_inject: "content_ref e = Inr key \<Longrightarrow> content_ref f = Inr key \<Longrightarrow> e = f"
  by (metis content_ref_drop)

lemma put_addressed:
  assumes "put_object digest data obj = (r, obj')" "addressed digest obj"
  shows "addressed digest obj' \<and> (\<forall>key. key |\<in>| fmdom obj \<longrightarrow> fmlookup obj' key = fmlookup obj key) \<and>
    (\<forall>key. r = Inr key \<longrightarrow> content_key digest data = Inr key \<and> key |\<in>| fmdom obj')"
proof (cases "content_key digest data")
  case (Inl e)
  then show ?thesis
    using assms by (clarsimp simp: put_object_def)
next
  case (Inr key)
  have "addressed digest (fmupd key data obj)"
    using assms(2) Inr content_ref_inject by (fastforce simp: addressed_def content_key_def split: if_splits)
  then show ?thesis
    using assms Inr by (auto simp: put_object_def split: if_splits)
qed

lemma promote_addressed:
  "promote digest pending obj = (r, obj') \<Longrightarrow> addressed digest obj \<Longrightarrow>
     addressed digest obj' \<and> (\<forall>key. key |\<in>| fmdom obj \<longrightarrow> fmlookup obj' key = fmlookup obj key) \<and>
     (r = Inr () \<longrightarrow> (\<forall>(s, data) \<in> set pending. content_key digest data = Inr (blob_ref (upload_artifact s)) \<and>
        blob_ref (upload_artifact s) |\<in>| fmdom obj'))"
proof (induction digest pending obj rule: promote.induct)
  case (2 digest s data rest obj)
  obtain k obj1 where put: "put_object digest data obj = (k, obj1)"
    by force
  note put' = put_addressed [OF put "2.prems"(2)]
  show ?case
  proof (cases k)
    case (Inl e)
    then have "r = Inl e" "obj' = obj1"
      using "2.prems"(1) put by simp_all
    then show ?thesis
      using put' by simp
  next
    case (Inr key)
    show ?thesis
    proof (cases "key = blob_ref (upload_artifact s)")
      case False
      then have "\<exists>e. r = Inl e" "obj' = obj1"
        using "2.prems"(1) put Inr by auto
      then show ?thesis
        using put' by auto
    next
      case True
      have rest: "promote digest rest obj1 = (r, obj')"
        using "2.prems"(1) put Inr True by simp
      have ih: "addressed digest obj' \<and> (\<forall>key. key |\<in>| fmdom obj1 \<longrightarrow> fmlookup obj' key = fmlookup obj1 key) \<and>
          (r = Inr () \<longrightarrow> (\<forall>(s, data) \<in> set rest. content_key digest data = Inr (blob_ref (upload_artifact s)) \<and>
             blob_ref (upload_artifact s) |\<in>| fmdom obj'))"
        using "2.IH" [OF put [symmetric] Inr _ rest] True put' by simp
      have "fmlookup obj' key = fmlookup obj key" if "key |\<in>| fmdom obj" for key
        using that put' ih by (metis fmdom_notD fmdom_notI)
      moreover have "content_key digest data = Inr key \<and> key |\<in>| fmdom obj'"
        using put' ih Inr by (metis fmdom_notD fmdom_notI)
      ultimately show ?thesis
        using ih True by auto
    qed
  qed
qed simp

lemma staged_bytes_Inr: "staged_bytes text_of digest s obj = Inr data \<Longrightarrow> digest data = sha256 (upload_artifact s)"
  by (auto simp: staged_bytes_def Let_def split: sum.splits if_splits)

lemma checked_sessions:
  assumes "each (\<lambda>s. and_then (staged_bytes text_of digest s obj) (\<lambda>data. Inr (s, data))) todo = Inr pending"
  shows "map fst pending = todo \<and> (\<forall>(s, data) \<in> set pending. digest data = sha256 (upload_artifact s))"
proof -
  have "list_all2 (\<lambda>s y. fst y = s \<and> digest (snd y) = sha256 (upload_artifact (fst y))) todo pending"
    using each_Inr [OF assms] by (rule list_all2_mono) (auto simp: and_then_eq_Inr staged_bytes_Inr)
  then show ?thesis
    by (induction rule: list_all2_induct) auto
qed

lemma find_by_id:
  "distinct (map upload_id us) \<Longrightarrow>
     find (\<lambda>s. P s \<and> Q s \<and> upload_id s = k) us = Some s \<longleftrightarrow> s \<in> set us \<and> P s \<and> Q s \<and> upload_id s = k"
  by (induction us) (auto dest: find_eq_Some_in)

text \<open>A stored artifact is one whose object exists and has the declared digest.\<close>

definition stored_artifact :: "(bytes \<Rightarrow> pystr) \<Rightarrow> objects \<Rightarrow> artifact \<Rightarrow> bool" where
  "stored_artifact digest obj a \<longleftrightarrow> (\<exists>data. fmlookup obj (blob_ref a) = Some data \<and> digest data = sha256 a)"

lemma promoted_artifacts:
  assumes "addressed digest obj" "promote digest pending obj = (Inr (), obj')"
    and "\<forall>(s, data) \<in> set pending. digest data = sha256 (upload_artifact s)"
    and "s \<in> fst ` set pending"
  shows "stored_artifact digest obj' (upload_artifact s)"
proof -
  obtain data where in_pending: "(s, data) \<in> set pending"
    using assms(4) by auto
  note all = promote_addressed [OF assms(2,1)]
  then have "content_key digest data = Inr (blob_ref (upload_artifact s))"
      "blob_ref (upload_artifact s) |\<in>| fmdom obj'" "addressed digest obj'"
    using in_pending by auto
  moreover have "digest data = sha256 (upload_artifact s)"
    using assms(3) in_pending by auto
  ultimately show ?thesis
    by (auto simp: stored_artifact_def addressed_def content_key_def fmlookup_dom_iff)
qed

text \<open>The sessions \<open>ids\<close> names, those still to verify, and how a call ends.\<close>

definition named_sessions :: "conn \<Rightarrow> pystr \<Rightarrow> uuid list \<Rightarrow> 'a evidence_db_scheme \<Rightarrow> upload list" where
  "named_sessions c who ids d =
     List.map_filter (\<lambda>k. find (\<lambda>s. upload_seen c s \<and> upload_actor s = who \<and> upload_id s = k) (uploads d)) ids"

lemma finalize_uploads_cases:
  assumes "finalize_uploads text_of digest c i wall who ids (d, obj) = (r, d', obj')"
  obtains (refused) e where "r = Inl e" "d' = d" "obj' = obj"
  | (promoting) e pending where "r = Inl e" "d' = d" "promote digest pending obj = (Inl e, obj')"
  | (verified) pending where "length (named_sessions c who ids d) = length ids"
      "each (\<lambda>s. and_then (staged_bytes text_of digest s obj) (\<lambda>data. Inr (s, data)))
         (filter (\<lambda>s. verified_at s = None) (named_sessions c who ids d)) = Inr pending"
      "promote digest pending obj = (Inr (), obj')"
      "r = Inr (map upload_artifact (named_sessions c who ids d))"
      "d' = d\<lparr>uploads := update_where
         (\<lambda>s. upload_seen c s \<and> upload_id s \<in> upload_id ` {s \<in> set (named_sessions c who ids d). verified_at s = None})
         (\<lambda>s. s\<lparr>verified_at := Some (now i)\<rparr>) (uploads d)\<rparr>"
proof -
  let ?rows = "named_sessions c who ids d"
  let ?staged = "each (\<lambda>s. and_then (staged_bytes text_of digest s obj) (\<lambda>data. Inr (s, data)))
     (filter (\<lambda>s. verified_at s = None) ?rows)"
  note unfolded = assms [unfolded finalize_uploads_def Let_def fst_conv snd_conv, folded named_sessions_def]
  consider "\<exists>e. r = Inl e \<and> d' = d \<and> obj' = obj" | pending where "length ?rows = length ids" "?staged = Inr pending"
    "(case promote digest pending obj of (Inl e, obj') \<Rightarrow> (Inl e, d, obj')
      | (Inr _, obj') \<Rightarrow> (Inr (map upload_artifact ?rows), d\<lparr>uploads := update_where
         (\<lambda>s. upload_seen c s \<and> upload_id s \<in> set (map upload_id (filter (\<lambda>s. verified_at s = None) ?rows)))
         (\<lambda>s. s\<lparr>verified_at := Some (now i)\<rparr>) (uploads d)\<rparr>, obj')) = (r, d', obj')"
    using unfolded by (auto split: if_splits sum.splits)
  then show thesis
  proof cases
    case 1
    then show thesis
      using refused by blast
  next
    case 2
    obtain r0 obj1 where promoted: "promote digest pending obj = (r0, obj1)"
      by force
    show thesis
    proof (cases r0)
      case (Inl e)
      then show thesis
        using 2(3) promoted promoting [of e pending] by simp
    next
      case (Inr x)
      then have x: "r0 = Inr ()"
        by simp
      have "(Inr (map upload_artifact ?rows), d\<lparr>uploads := update_where
         (\<lambda>s. upload_seen c s \<and> upload_id s \<in> set (map upload_id (filter (\<lambda>s. verified_at s = None) ?rows)))
         (\<lambda>s. s\<lparr>verified_at := Some (now i)\<rparr>) (uploads d)\<rparr>, obj1) = (r, d', obj')"
        using 2(3) promoted Inr by simp
      then show thesis
        using 2(1,2) promoted x by (intro verified [of pending]) (simp_all only: set_map set_filter prod.inject)
    qed
  qed
qed

text \<open>
  Uploads that are finalized have the bytes they declared. When the call returns, it returns the
  artifact of each named session of the actor, in order; the object of every session it had to verify
  exists and has the declared digest; and exactly those sessions are marked as verified. When it
  fails, no session changed. In both cases no object that existed changed its bytes, and every object
  still has the bytes its name says.
\<close>

theorem finalized_uploads_have_their_bytes:
  assumes "distinct (map upload_id (uploads d))" "addressed digest obj"
    and "finalize_uploads text_of digest c i wall who ids (d, obj) = (r, d', obj')"
  shows "(case r of
      Inl _ \<Rightarrow> d' = d
    | Inr arts \<Rightarrow>
        list_all2 (\<lambda>k art. \<exists>s \<in> set (uploads d). upload_id s = k \<and> upload_actor s = who \<and> upload_seen c s \<and>
          upload_artifact s = art \<and> (verified_at s \<noteq> None \<or> stored_artifact digest obj' art)) ids arts \<and>
        uploads d' = update_where (\<lambda>s. upload_id s \<in> set ids \<and> upload_actor s = who \<and> upload_seen c s \<and> verified_at s = None)
          (\<lambda>s. s\<lparr>verified_at := Some (now i)\<rparr>) (uploads d)) \<and>
    addressed digest obj' \<and> obj \<subseteq>\<^sub>f obj'"
proof (rule finalize_uploads_cases [OF assms(3)])
  fix e
  assume "r = Inl e" "d' = d" "obj' = obj"
  then show ?thesis
    using assms(2) by (simp add: fmsubset_alt_def fmpred_iff)
next
  fix e pending
  assume "r = Inl e" "d' = d" "promote digest pending obj = (Inl e, obj')"
  then show ?thesis
    using promote_addressed [of digest pending obj "Inl e" obj'] assms(2)
    by (auto simp: fmsubset_alt_def fmpred_iff fmlookup_dom_iff)
next
  fix pending
  let ?rows = "named_sessions c who ids d"
  let ?open = "\<lambda>s. upload_id s \<in> set ids \<and> upload_actor s = who \<and> upload_seen c s \<and> verified_at s = None"
  assume len: "length ?rows = length ids"
    and pending: "each (\<lambda>s. and_then (staged_bytes text_of digest s obj) (\<lambda>data. Inr (s, data)))
         (filter (\<lambda>s. verified_at s = None) ?rows) = Inr pending"
    and promoted: "promote digest pending obj = (Inr (), obj')"
    and r: "r = Inr (map upload_artifact ?rows)"
    and d': "d' = d\<lparr>uploads := update_where
         (\<lambda>s. upload_seen c s \<and> upload_id s \<in> upload_id ` {s \<in> set ?rows. verified_at s = None})
         (\<lambda>s. s\<lparr>verified_at := Some (now i)\<rparr>) (uploads d)\<rparr>"
  have kept: "addressed digest obj' \<and> obj \<subseteq>\<^sub>f obj'"
    using promote_addressed [OF promoted assms(2)] by (auto simp: fmsubset_alt_def fmpred_iff fmlookup_dom_iff)
  have found: "list_all2 (\<lambda>k s. s \<in> set (uploads d) \<and> upload_seen c s \<and> upload_actor s = who \<and> upload_id s = k) ids ?rows"
    using map_filter_total [OF len [unfolded named_sessions_def]]
    by (simp only: find_by_id [OF assms(1)] named_sessions_def)
  have stored: "stored_artifact digest obj' (upload_artifact s)" if "s \<in> set ?rows" "verified_at s = None" for s
  proof -
    have "s \<in> fst ` set pending"
      using checked_sessions [OF pending] that by (simp flip: set_map)
    then show ?thesis
      using promoted_artifacts [OF assms(2) promoted] checked_sessions [OF pending] by blast
  qed
  have arts: "list_all2 (\<lambda>k art. \<exists>s \<in> set (uploads d). upload_id s = k \<and> upload_actor s = who \<and> upload_seen c s \<and>
      upload_artifact s = art \<and> (verified_at s \<noteq> None \<or> stored_artifact digest obj' art)) ids (map upload_artifact ?rows)"
    unfolding list_all2_map2 by (rule list.rel_mono_strong [OF found]) (use stored in blast)
  have "(upload_seen c s \<and> upload_id s \<in> upload_id ` {s \<in> set ?rows. verified_at s = None}) = ?open s"
    if s: "s \<in> set (uploads d)" for s
  proof -
    have "set ?rows = {s \<in> set (uploads d). upload_seen c s \<and> upload_actor s = who \<and> upload_id s \<in> set ids}"
      by (auto simp only: named_sessions_def in_map_filter find_by_id [OF assms(1)])
    then show ?thesis
      using assms(1) s by (auto simp: distinct_map inj_on_def)
  qed
  then have "uploads d' = update_where ?open (\<lambda>s. s\<lparr>verified_at := Some (now i)\<rparr>) (uploads d)"
    by (simp add: d' update_where_def)
  with arts kept r show ?thesis
    by simp
qed

text \<open>
  A concrete table: one session, expired at 3, whose bytes are staged and also an object; and one
  that is open, whose bytes are staged.
\<close>

definition example_digest :: "bytes \<Rightarrow> pystr" where
  "example_digest data = replicate 64 (48 + hd data)"

definition example_upload :: "uuid \<Rightarrow> int \<Rightarrow> timestamp \<Rightarrow> upload" where
  "example_upload k b until = \<lparr>upload_id = k, upload_tenant = 1, upload_actor = lit ''ann'', upload_key = [int k],
     upload_artifact = \<lparr>blob_ref = content_path (example_digest [b]),
       sha256 = example_digest [b], artifact_bytes = 1, media_type = lit ''text/plain'', original_name = None, source_url = None\<rparr>,
     upload_created_at = 0, expires_at = until, verified_at = None, consumed_by = None, consumed_at = None\<rparr>"

definition example_uploads :: evidence_db where
  "example_uploads = \<lparr>queue_rows = [], erasures = [], tenants = [], wakes = 0,
     uploads = [example_upload 7 1 3, example_upload 8 2 90], artifact_rows = [], change_patches = []\<rparr>"

definition example_objects :: objects where
  "example_objects = fmap_of_list [(lit ''uploads'' @ [47, 7], [1]), (lit ''uploads'' @ [47, 8], [2]),
     (content_path (example_digest [1]), [1])]"

definition example_time :: instants where
  "example_time = \<lparr>now = 5, clock_started = 5, clock_budget = 5, clock_lease = 5, clock_served = 5\<rparr>"

theorem purge_deletes_only_garbage_witness:
  "fst (purge_expired (\<lambda>k. [int k]) example_time (example_uploads, example_objects)) = 1"
  using purge_deletes_only_garbage [of example_uploads "\<lambda>k. [int k]" example_time example_objects
      "fst (purge_expired (\<lambda>k. [int k]) example_time (example_uploads, example_objects))"
      "fst (snd (purge_expired (\<lambda>k. [int k]) example_time (example_uploads, example_objects)))"
      "snd (snd (purge_expired (\<lambda>k. [int k]) example_time (example_uploads, example_objects)))" "[]"]
  by (simp add: example_uploads_def example_upload_def example_time_def del: lit_Cons lit_Nil)

lemma example_addressed: "addressed example_digest example_objects"
  unfolding addressed_def
proof (intro allI impI)
  fix key data e
  assume key: "fmlookup example_objects key = Some data" and e: "content_ref e = Inr key"
  have "key = content_path e"
    using e by (simp only: content_ref_eq content_path_def)
  then have "hd key = 115"
    by (simp add: content_path_def)
  then have "key = content_path (example_digest [1])" "data = [1]"
    using key by (auto simp: example_objects_def split: if_splits simp del: lit_Nil)
  then show "example_digest data = e"
    using e content_ref_drop [OF e] by (simp add: content_path_def example_digest_def numeral_eq_Suc)
qed

definition example_finalized :: "artifact list result \<times> evidence_db \<times> objects" where
  "example_finalized = finalize_uploads (\<lambda>k. [int k]) example_digest
     \<lparr>tenant_setting = Some 1, scope_setting = [], in_failed_transaction = False\<rparr> example_time 5 (lit ''ann'') [8]
     (example_uploads, example_objects)"

theorem finalized_uploads_have_their_bytes_witness:
  "addressed example_digest (snd (snd example_finalized)) \<and> example_objects \<subseteq>\<^sub>f snd (snd example_finalized)"
  using finalized_uploads_have_their_bytes [OF _ example_addressed, of example_uploads "\<lambda>k. [int k]"
      "\<lparr>tenant_setting = Some 1, scope_setting = [], in_failed_transaction = False\<rparr>" example_time 5 "lit ''ann''" "[8]"
      "fst example_finalized" "fst (snd example_finalized)" "snd (snd example_finalized)"]
  by (simp add: example_finalized_def example_uploads_def example_upload_def del: lit_Cons lit_Nil)

end
