(* ===== verification/Identity.thy ===== *)
theory Identity
  imports Py_Url Capture_Schema "HOL-Library.List_Lexorder"
begin

text \<open>
  Who a caller is and which layer a capture of theirs files in: \<open>stigmergy/server/identity.py\<close>
  (principals and the rules for group names) and \<open>stigmergy/server/routing.py\<close>. The classifier
  \<open>llm.choose\<close> is a parameter: it answers with a probability for some options, or fails. The
  parsers of the legacy identity files are not modelled.
\<close>

section \<open>Principals\<close>

definition UNRESTRICTED_GROUP :: pystr where "UNRESTRICTED_GROUP = lit ''brain-admins''"
definition RESERVED_GROUP_NAMES :: "pystr list" where "RESERVED_GROUP_NAMES = [lit ''all'']"
definition MAX_GROUP_NAME_CHARS :: nat where "MAX_GROUP_NAME_CHARS = 64"
definition MAX_GROUPS :: nat where "MAX_GROUPS = 32"

definition GROUP_NAME_RE :: regex where
  "GROUP_NAME_RE = seq [Sat ascii_alnum, Star True (Sat (\<lambda>c. ascii_alnum c \<or> c \<in> {46, 95, 45}))]"

datatype kind = Person | Agent

record principal =
  who_subject :: pystr
  who_display_name :: pystr
  who_groups :: "pystr list"
  who_default_audience :: "pystr list option"
  who_kind :: kind
  who_is_admin :: bool
  who_tenant :: uuid
  who_operator :: bool

definition unrestricted :: "principal \<Rightarrow> bool" where
  "unrestricted p \<longleftrightarrow> UNRESTRICTED_GROUP \<in> set (who_groups p)"

definition audiences :: "principal \<Rightarrow> pystr list option" where
  "audiences p = (if UNRESTRICTED_GROUP \<in> set (who_groups p) then None else Some (who_groups p))"

definition administers :: "principal \<Rightarrow> bool" where
  "administers p \<longleftrightarrow> who_is_admin p \<and> who_kind p = Person \<and> UNRESTRICTED_GROUP \<in> set (who_groups p)"

definition default_layer :: "principal \<Rightarrow> pystr option" where
  "default_layer p = (case who_default_audience p of Some (l # _) \<Rightarrow> Some l | _ \<Rightarrow> None)"

definition publishable_layers :: "principal \<Rightarrow> pystr set" where
  "publishable_layers p = insert PUBLIC (set (filter (\<lambda>g. g \<noteq> UNRESTRICTED_GROUP) (who_groups p)))"

section \<open>Group names\<close>

definition valid_group_name :: "unicode \<Rightarrow> pystr \<Rightarrow> bool" where
  "valid_group_name u name \<longleftrightarrow>
     length name \<le> MAX_GROUP_NAME_CHARS \<and> fullmatch GROUP_NAME_RE name \<noteq> None \<and>
     casefold u name \<notin> set RESERVED_GROUP_NAMES \<and> name \<noteq> lit ''*''"

fun checked_names :: "unicode \<Rightarrow> pystr list \<Rightarrow> json list \<Rightarrow> pystr list result" where
  "checked_names u acc [] = Inr acc"
| "checked_names u acc (v # vs) =
     (case v of
        JText s \<Rightarrow>
          let name = strip s in
          if \<not> valid_group_name u name then Inl (IdentityError (lit ''contains an invalid group name''))
          else if casefold u name = casefold u UNRESTRICTED_GROUP \<and> name \<noteq> UNRESTRICTED_GROUP
          then Inl (IdentityError (lit ''contains a mis-cased unrestricted group''))
          else if name \<in> set acc then Inl (IdentityError (lit ''contains a duplicate group''))
          else checked_names u (acc @ [name]) vs
      | _ \<Rightarrow> Inl (IdentityError (lit ''contains a non-string group'')))"

definition check_group_names :: "unicode \<Rightarrow> json \<Rightarrow> pystr list result" where
  "check_group_names u value =
     (case value of
        JList vs \<Rightarrow>
          if MAX_GROUPS < length vs then Inl (IdentityError (lit ''exceeds the 32-group limit''))
          else checked_names u [] vs
      | _ \<Rightarrow> Inl (IdentityError (lit ''must be a list of group names'')))"

section \<open>The layer a capture files in\<close>

text \<open>The \<open>audience\<close> argument of a capture: absent, a string, or a list.\<close>

datatype requested = Unnamed | One_String pystr | Named "json list"

definition one_layer :: "pystr list \<Rightarrow> pystr result" where
  "one_layer found =
     (case found of
        [l] \<Rightarrow> Inr l
      | _ \<Rightarrow> Inl (LayerRefused (lit ''a capture files in exactly one layer'')))"

definition resolve_capture_layer :: "unicode \<Rightarrow> principal \<Rightarrow> requested \<Rightarrow> acl result" where
  "resolve_capture_layer u p requested =
     and_then
       (case requested of
          Unnamed \<Rightarrow>
            (case default_layer p of
               None \<Rightarrow> Inl (LayerRefused (lit ''your identity has no default layer''))
             | Some l \<Rightarrow> Inr l)
        | One_String s \<Rightarrow> Inl (LayerRefused (lit ''audience must be a list naming one layer, not a string''))
        | Named vs \<Rightarrow>
            and_then (check_group_names u (JList vs)) one_layer)
       (\<lambda>layer.
          if layer \<notin> publishable_layers p
          then Inl (LayerRefused (lit ''you cannot file a capture in a layer you are not a member of''))
          else acl_of_layer layer)"

section \<open>Routing a capture\<close>

definition THRESHOLD :: rat where "THRESHOLD = 3 / 4"
definition STATE_TEXT_CHARS :: nat where "STATE_TEXT_CHARS = 8000"
definition NO_SINGLE_LAYER :: pystr where "NO_SINGLE_LAYER = lit ''no_single_layer''"
definition NO_SINGLE_LAYER_CRITERIA :: pystr where
  "NO_SINGLE_LAYER_CRITERIA =
     lit ''None of these layers clearly fits the capture, or it fits more than one of them equally well.''"

type_synonym answer = "(pystr, rat) fmap"

record routed =
  routed_acl :: acl
  routed_decision :: decision
  routed_probabilities :: "answer option"

type_synonym classifier = "(pystr \<times> pystr) list \<Rightarrow> json_object \<Rightarrow> answer result"

text \<open>\<open>max(choices, key=...)\<close>: the first of the layers with the largest probability.\<close>

fun best_of :: "(pystr \<Rightarrow> rat) \<Rightarrow> pystr \<Rightarrow> pystr list \<Rightarrow> pystr" where
  "best_of pr b [] = b"
| "best_of pr b (l # ls) = best_of pr (if pr b < pr l then l else b) ls"

definition probability :: "answer \<Rightarrow> pystr \<Rightarrow> rat" where
  "probability answer l = (case fmlookup answer l of Some x \<Rightarrow> x | None \<Rightarrow> 0)"

definition choices_of :: "principal \<Rightarrow> (pystr, pystr) fmap \<Rightarrow> (pystr \<times> pystr) list" where
  "choices_of p known =
     List.map_filter (\<lambda>l. map_option (\<lambda>d. (l, if d = [] then l else d)) (fmlookup known l))
       (sort (remdups (filter (\<lambda>g. g \<noteq> UNRESTRICTED_GROUP \<and> g \<noteq> PUBLIC) (who_groups p))))"

text \<open>\<open>{**choices, NO_SINGLE_LAYER: ...}\<close>: a layer of that name would be overwritten in its place.\<close>

definition options_of :: "(pystr \<times> pystr) list \<Rightarrow> (pystr \<times> pystr) list" where
  "options_of choices =
     map (\<lambda>(l, d). (l, if l = NO_SINGLE_LAYER then NO_SINGLE_LAYER_CRITERIA else d)) choices @
     (if NO_SINGLE_LAYER \<in> fst ` set choices then [] else [(NO_SINGLE_LAYER, NO_SINGLE_LAYER_CRITERIA)])"

definition unnamed :: "classifier \<Rightarrow> unicode \<Rightarrow> principal \<Rightarrow> (pystr, pystr) fmap \<Rightarrow> json_object \<Rightarrow> routed result" where
  "unnamed classify u p known state =
     and_then (resolve_capture_layer u p Unnamed) (\<lambda>default.
       let unsure = \<lparr>routed_acl = default, routed_decision = Default, routed_probabilities = None\<rparr>;
           choices = choices_of p known;
           options = options_of choices in
       if card (publishable_layers p - {PUBLIC}) < 2 then Inr unsure
       else if length choices < 2 then Inr unsure
       else if state = fmempty then Inr unsure
       else case classify options state of
         Inl _ \<Rightarrow> Inr unsure
       | Inr answer \<Rightarrow>
           if set (map fst options) \<noteq> fset (fmdom answer) then Inr unsure
           else let best = best_of (probability answer) (hd (map fst choices)) (tl (map fst choices)) in
             if THRESHOLD \<le> probability answer best
             then and_then (acl_of_layer best) (\<lambda>a.
               Inr \<lparr>routed_acl = a, routed_decision = Classified, routed_probabilities = Some answer\<rparr>)
             else Inr \<lparr>routed_acl = default, routed_decision = Default, routed_probabilities = Some answer\<rparr>)"

definition existing :: "(pystr, pystr) fmap \<Rightarrow> routed \<Rightarrow> routed result" where
  "existing known r =
     (case routed_acl r of
        Some (l # _) \<Rightarrow> if l |\<notin>| fmdom known then Inl (LayerRefused (lit ''that layer does not exist'')) else Inr r
      | _ \<Rightarrow> Inr r)"

definition route ::
  "classifier \<Rightarrow> unicode \<Rightarrow> principal \<Rightarrow> requested \<Rightarrow> (pystr, pystr) fmap \<Rightarrow> json_object \<Rightarrow> bool \<Rightarrow> routed result" where
  "route classify u p requested known state fixed_by_door =
     and_then
       (if requested \<noteq> Unnamed
        then and_then (resolve_capture_layer u p requested) (\<lambda>a.
          Inr \<lparr>routed_acl = a, routed_decision = (if fixed_by_door then Channel else Explicit), routed_probabilities = None\<rparr>)
        else unnamed classify u p known state)
       (existing known)"

text \<open>What the classifier reads of a capture.\<close>

definition capture_state ::
  "unicode \<Rightarrow> unicode_more \<Rightarrow> pystr option \<Rightarrow> pystr list \<Rightarrow> pystr option \<Rightarrow> pystr \<Rightarrow> json_object" where
  "capture_state u v title files locator body =
     (let given = (\<lambda>x. case x of Some s \<Rightarrow> s \<noteq> [] | None \<Rightarrow> False) in
      (if body = [] then (\<lambda>m. m) else fmupd (lit ''text'') (JText (take STATE_TEXT_CHARS body)))
      ((if given locator
        then (case without_capability u v (the locator) of
                Inl _ \<Rightarrow> (\<lambda>m. m)
              | Inr clean \<Rightarrow> fmupd (lit ''locator'') (JText clean))
        else (\<lambda>m. m))
      ((if files = [] then (\<lambda>m. m) else fmupd (lit ''files'') (JList (map JText files)))
      ((if given title then fmupd (lit ''title'') (JText (the title)) else (\<lambda>m. m))
      fmempty))))"

text \<open>The layer of a queued capture and how it was decided, as its receipt shows them.\<close>

definition receipt_fields :: "item \<Rightarrow> (pystr \<times> decision option \<times> json_object option) result" where
  "receipt_fields q =
     and_then (layer_of_acl (item_acl q)) (\<lambda>l. Inr (l, layer_decision q, layer_probabilities q))"

section \<open>A capture files only where its caller may publish\<close>

lemma one_layer_Inr [simp]: "one_layer found = Inr l \<longleftrightarrow> found = [l]"
  by (auto simp: one_layer_def split: list.splits)

lemma existing_Inr: "existing known r = Inr r' \<longleftrightarrow> r' = r \<and> (\<forall>l ls. routed_acl r = Some (l # ls) \<longrightarrow> l |\<in>| fmdom known)"
  by (auto simp: existing_def split: option.splits list.splits)

lemma choices_of_member:
  "l \<in> fst ` set (choices_of p known) \<longleftrightarrow>
     l \<in> publishable_layers p \<and> l \<noteq> PUBLIC \<and> l |\<in>| fmdom known"
proof
  assume "l \<in> fst ` set (choices_of p known)"
  then show "l \<in> publishable_layers p \<and> l \<noteq> PUBLIC \<and> l |\<in>| fmdom known"
    unfolding image_iff Bex_def choices_of_def in_map_filter by (auto simp: publishable_layers_def fmlookup_dom_iff)
next
  assume l: "l \<in> publishable_layers p \<and> l \<noteq> PUBLIC \<and> l |\<in>| fmdom known"
  then obtain d where "fmlookup known l = Some d"
    by (auto simp: fmlookup_dom_iff)
  then have "(l, if d = [] then l else d) \<in> set (choices_of p known)"
    using l by (auto simp: choices_of_def in_map_filter publishable_layers_def)
  then show "l \<in> fst ` set (choices_of p known)"
    by force
qed

lemma best_of_member: "best_of pr b ls \<in> set (b # ls) \<and> (\<forall>l \<in> set (b # ls). pr l \<le> pr (best_of pr b ls))"
  by (induction ls arbitrary: b) (auto; fastforce)+

lemma resolve_capture_layer_Inr:
  "resolve_capture_layer u p r = Inr a \<Longrightarrow> \<exists>l. acl_of_layer l = Inr a \<and> l \<in> publishable_layers p \<and>
     (r = Unnamed \<longrightarrow> default_layer p = Some l) \<and>
     (\<forall>vs. r = Named vs \<longrightarrow> check_group_names u (JList vs) = Inr [l]) \<and> (\<forall>s. r \<noteq> One_String s)"
proof -
  assume "resolve_capture_layer u p r = Inr a"
  then show ?thesis
    unfolding resolve_capture_layer_def and_then_eq_Inr
    by (cases r) (auto simp: and_then_eq_Inr split: option.splits if_splits)
qed

lemma acl_of_layer_Inr: "acl_of_layer l = Inr a \<longleftrightarrow> (l = PUBLIC \<and> a = None \<or> is_layer_name l \<and> a = Some [l])"
  by (auto simp: acl_of_layer_def)

lemma checked_names_Inl: "checked_names u acc vs = Inl e \<Longrightarrow> \<exists>m. e = IdentityError m"
  by (induction u acc vs rule: checked_names.induct) (auto simp: Let_def split: json.splits if_splits)

definition refusal :: "exn \<Rightarrow> bool" where
  "refusal e \<longleftrightarrow> (case e of LayerRefused _ \<Rightarrow> True | IdentityError _ \<Rightarrow> True | LayerError _ \<Rightarrow> True | _ \<Rightarrow> False)"

lemma refusal_simps [simp]: "refusal (LayerRefused m)" "refusal (IdentityError m)" "refusal (LayerError m)"
  by (simp_all add: refusal_def)

lemma one_layer_Inl: "one_layer found = Inl e \<Longrightarrow> refusal e"
  by (auto simp: one_layer_def split: list.splits)

lemma existing_Inl: "existing known r = Inl e \<Longrightarrow> refusal e"
  by (auto simp: existing_def split: option.splits list.splits if_splits)

lemma check_group_names_Inl: "check_group_names u value = Inl e \<Longrightarrow> refusal e"
  by (cases "value") (auto simp: check_group_names_def dest!: checked_names_Inl split: if_splits)

lemma acl_of_layer_Inl: "acl_of_layer l = Inl e \<Longrightarrow> refusal e"
  by (auto simp: acl_of_layer_def split: if_splits)

lemma resolve_capture_layer_Inl: "resolve_capture_layer u p r = Inl e \<Longrightarrow> refusal e"
  by (cases r) (auto simp: resolve_capture_layer_def and_then_eq_Inl split: option.splits if_splits
    dest: check_group_names_Inl acl_of_layer_Inl one_layer_Inl)

lemma unnamed_Inl: "unnamed classify u p known state = Inl e \<Longrightarrow> refusal e"
  by (auto simp: unnamed_def and_then_eq_Inl Let_def split: if_splits sum.splits
    dest: acl_of_layer_Inl resolve_capture_layer_Inl)

lemma unnamed_Inr:
  assumes "unnamed classify u p known state = Inr r"
  shows "\<exists>l. acl_of_layer l = Inr (routed_acl r) \<and> l \<in> publishable_layers p \<and>
    (case routed_decision r of
       Default \<Rightarrow> default_layer p = Some l
     | Classified \<Rightarrow> l \<noteq> PUBLIC \<and>
         (\<exists>answer. routed_probabilities r = Some answer \<and> THRESHOLD \<le> probability answer l \<and>
            (\<forall>g \<in> publishable_layers p - {PUBLIC}. g |\<in>| fmdom known \<longrightarrow> probability answer g \<le> probability answer l))
     | _ \<Rightarrow> False)"
proof -
  let ?names = "map fst (choices_of p known)"
  obtain default where default: "resolve_capture_layer u p Unnamed = Inr default"
    using assms by (auto simp: unnamed_def and_then_eq_Inr)
  then obtain l where l: "acl_of_layer l = Inr default" "l \<in> publishable_layers p" "default_layer p = Some l"
    using resolve_capture_layer_Inr by blast
  consider (fallback) "routed_acl r = default" "routed_decision r = Default"
    | (chosen) answer best where "2 \<le> length ?names" "best = best_of (probability answer) (hd ?names) (tl ?names)"
        "THRESHOLD \<le> probability answer best" "acl_of_layer best = Inr (routed_acl r)"
        "routed_decision r = Classified" "routed_probabilities r = Some answer"
    using assms default
    by (auto simp: unnamed_def and_then_eq_Inr Let_def split: if_splits sum.splits)
  then show ?thesis
  proof cases
    case fallback
    then show ?thesis
      using l by auto
  next
    case chosen
    then obtain b bs where names: "?names = b # bs"
      by (cases ?names) auto
    have "best \<in> set ?names" and most: "\<forall>g \<in> set ?names. probability answer g \<le> probability answer best"
      using best_of_member [of "probability answer" b bs] chosen(2) by (simp_all add: names)
    have in_choices: "g \<in> set ?names \<longleftrightarrow> g \<in> publishable_layers p \<and> g \<noteq> PUBLIC \<and> g |\<in>| fmdom known" for g
      using choices_of_member by (simp only: set_map)
    then have "best \<in> publishable_layers p" "best \<noteq> PUBLIC"
      using \<open>best \<in> set ?names\<close> by simp_all
    moreover have "\<forall>g \<in> publishable_layers p - {PUBLIC}. g |\<in>| fmdom known \<longrightarrow> probability answer g \<le> probability answer best"
      using most in_choices by blast
    ultimately show ?thesis
      using chosen by (intro exI [of _ best]) simp
  qed
qed

text \<open>
  C25. A capture files in exactly one layer, one its caller may publish to, and a layer that is not
  public exists. A layer the caller names is that layer; otherwise it is the caller's default, unless
  the classifier gave one of the caller's own existing layers, and no other more, at least 3/4; the
  classifier never files in \<open>public\<close>.
\<close>

theorem route_files_where_allowed:
  "case route classify u p requested known state fixed of
     Inl e \<Rightarrow> refusal e
   | Inr r \<Rightarrow> \<exists>l. acl_of_layer l = Inr (routed_acl r) \<and> l \<in> publishable_layers p \<and>
       (l = PUBLIC \<or> l |\<in>| fmdom known) \<and>
       (case requested of
          Named vs \<Rightarrow> check_group_names u (JList vs) = Inr [l] \<and> routed_decision r = (if fixed then Channel else Explicit)
        | One_String _ \<Rightarrow> False
        | Unnamed \<Rightarrow>
            (case routed_decision r of
               Default \<Rightarrow> default_layer p = Some l
             | Classified \<Rightarrow> l \<noteq> PUBLIC \<and>
                 (case routed_probabilities r of
                    None \<Rightarrow> False
                  | Some answer \<Rightarrow> THRESHOLD \<le> probability answer l \<and>
                      list_all (\<lambda>g. probability answer g \<le> probability answer l)
                        (filter (\<lambda>g. g \<in> publishable_layers p - {PUBLIC} \<and> g |\<in>| fmdom known) (who_groups p)))
             | _ \<Rightarrow> False))"
proof (cases "route classify u p requested known state fixed")
  case (Inl e)
  then have "refusal e"
    by (auto simp: route_def and_then_eq_Inl split: if_splits dest: resolve_capture_layer_Inl unnamed_Inl existing_Inl)
  then show ?thesis
    using Inl by simp
next
  case (Inr r)
  have known: "l = PUBLIC \<or> l |\<in>| fmdom known" if "acl_of_layer l = Inr (routed_acl r)" for l
    using Inr that by (auto simp: route_def and_then_eq_Inr acl_of_layer_Inr existing_Inr)
  show ?thesis
  proof (cases "requested = Unnamed")
    case True
    then have "unnamed classify u p known state = Inr r"
      using Inr by (auto simp: route_def and_then_eq_Inr existing_Inr)
    from unnamed_Inr [OF this] obtain l where l: "acl_of_layer l = Inr (routed_acl r)" "l \<in> publishable_layers p"
      and how: "case routed_decision r of Default \<Rightarrow> default_layer p = Some l
       | Classified \<Rightarrow> l \<noteq> PUBLIC \<and> (\<exists>answer. routed_probabilities r = Some answer \<and> THRESHOLD \<le> probability answer l \<and>
            (\<forall>g \<in> publishable_layers p - {PUBLIC}. g |\<in>| fmdom known \<longrightarrow> probability answer g \<le> probability answer l))
       | _ \<Rightarrow> False"
      by blast
    have "?thesis = (\<exists>l. acl_of_layer l = Inr (routed_acl r) \<and> l \<in> publishable_layers p \<and>
       (l = PUBLIC \<or> l |\<in>| fmdom known) \<and>
       (case routed_decision r of
               Default \<Rightarrow> default_layer p = Some l
             | Classified \<Rightarrow> l \<noteq> PUBLIC \<and>
                 (case routed_probabilities r of
                    None \<Rightarrow> False
                  | Some answer \<Rightarrow> THRESHOLD \<le> probability answer l \<and>
                      list_all (\<lambda>g. probability answer g \<le> probability answer l)
                        (filter (\<lambda>g. g \<in> publishable_layers p - {PUBLIC} \<and> g |\<in>| fmdom known) (who_groups p)))
             | _ \<Rightarrow> False))"
      using Inr True by simp
    also have "\<dots>"
      using l known [OF l(1)] how by (intro exI [of _ l]) (auto simp: list_all_iff split: decision.splits)
    finally show ?thesis .
  next
    case False
    then have "resolve_capture_layer u p requested = Inr (routed_acl r)"
        "routed_decision r = (if fixed then Channel else Explicit)"
      using Inr by (auto simp: route_def and_then_eq_Inr existing_Inr)
    then show ?thesis
      using Inr False resolve_capture_layer_Inr [of u p requested "routed_acl r"] known
      by (cases requested) auto
  qed
qed

end
