(* ===== verification/Index_Health.thy ===== *)
theory Index_Health
  imports Capture_Schema
begin

text \<open>
  How far the search index has caught up with the repository: the row \<open>index_health\<close> keeps for each
  tenant (\<open>stigmergy/index/health.py\<close>). Every operation reads and writes the rows its connection
  sees; \<open>ensure_schema\<close> is not modelled, so a tenant may have no row.
\<close>

definition FULL_REBUILD_MAX_AGE :: int where "FULL_REBUILD_MAX_AGE = 26 * 3600 * 1000000"
definition CONVERGENCE_GRACE :: int where "CONVERGENCE_GRACE = 15 * 60 * 1000000"

record health =
  health_tenant :: uuid
  repository_head_sha :: sha
  indexed_commit_sha :: sha
  dirty :: bool
  dirty_since :: "timestamp option"
  last_incremental_at :: "timestamp option"
  last_full_rebuild_at :: "timestamp option"
  indexed_rows :: int
  health_updated_at :: timestamp

definition health_seen :: "conn \<Rightarrow> health \<Rightarrow> bool" where
  "health_seen c h \<longleftrightarrow> row_visible c (health_tenant h)"

definition mark_dirty :: "conn \<Rightarrow> timestamp \<Rightarrow> sha \<Rightarrow> health list \<Rightarrow> health list" where
  "mark_dirty c now head = update_where (health_seen c)
     (\<lambda>h. h\<lparr>repository_head_sha := head, dirty_since := (if dirty h then dirty_since h else Some now),
        dirty := True, health_updated_at := now\<rparr>)"

definition record_incremental :: "conn \<Rightarrow> timestamp \<Rightarrow> sha \<Rightarrow> int option \<Rightarrow> health list \<Rightarrow> health list" where
  "record_incremental c now commit rows = update_where (health_seen c)
     (\<lambda>h. h\<lparr>repository_head_sha := commit, indexed_commit_sha := commit, last_incremental_at := Some now,
        indexed_rows := (case rows of Some n \<Rightarrow> n | None \<Rightarrow> indexed_rows h), health_updated_at := now\<rparr>)"

definition record_full_rebuild :: "conn \<Rightarrow> timestamp \<Rightarrow> sha \<Rightarrow> int \<Rightarrow> health list \<Rightarrow> health list" where
  "record_full_rebuild c now commit rows = update_where (health_seen c)
     (\<lambda>h. h\<lparr>repository_head_sha := commit, indexed_commit_sha := commit, dirty := False, dirty_since := None,
        last_full_rebuild_at := Some now, indexed_rows := max 0 rows, health_updated_at := now\<rparr>)"

datatype warning = Not_Converged | Rebuild_Too_Old

text \<open>\<open>read\<close>: the row and its warnings; the index is healthy when there are none.\<close>

definition changed_since :: "health \<Rightarrow> bool" where
  "changed_since h \<longleftrightarrow> dirty h \<or>
     (case (last_incremental_at h, last_full_rebuild_at h) of (Some a, Some b) \<Rightarrow> b < a | _ \<Rightarrow> False)"

definition health_warnings :: "timestamp \<Rightarrow> health \<Rightarrow> warning list" where
  "health_warnings current h =
     (case dirty_since h of
        Some since \<Rightarrow> if dirty h \<and> CONVERGENCE_GRACE < current - since then [Not_Converged] else []
      | None \<Rightarrow> []) @
     (case last_full_rebuild_at h of
        None \<Rightarrow> [Rebuild_Too_Old]
      | Some at_time \<Rightarrow>
          if FULL_REBUILD_MAX_AGE < current - at_time \<and> changed_since h then [Rebuild_Too_Old] else [])"

definition read_health :: "conn \<Rightarrow> timestamp \<Rightarrow> health list \<Rightarrow> (health \<times> warning list) result" where
  "read_health c current rows =
     (case find (health_seen c) rows of
        None \<Rightarrow> Inl (RuntimeError (lit ''index health row is missing''))
      | Some h \<Rightarrow> Inr (h, health_warnings current h))"

end
