(* ===== verification/Roster.thy ===== *)
theory Roster
  imports Identity Index_Health Capture_Queue
begin

text \<open>
  The roster of a workspace, \<open>stigmergy/server/roster.py\<close>: its people, groups, bearer tokens,
  backoffice sessions and Slack channels, one list of rows per table. A row is read or written only
  where the connection's policy shows it; a \<open>with conn.transaction()\<close> block changes nothing when it
  raises. \<open>clock\<close> is the database's clock and \<open>wall\<close> the process's. \<open>digest\<close>, the hexadecimal SHA-256
  of a credential, and the fresh random values are parameters. The advisory lock, the schema's DDL,
  the listings for the backoffice and the one-time import of a legacy roster are not modelled.
\<close>

definition TOKEN_PREFIX :: pystr where "TOKEN_PREFIX = lit ''stg_''"
definition SESSION_IDLE :: int where "SESSION_IDLE = make_interval (8 * 3600)"
definition SESSION_ABSOLUTE :: int where "SESSION_ABSOLUTE = make_interval (7 * 24 * 3600)"
definition MAX_LABEL_CHARS :: nat where "MAX_LABEL_CHARS = 80"
definition MAX_DISPLAY_NAME_CHARS :: nat where "MAX_DISPLAY_NAME_CHARS = 120"
definition MAX_DESCRIPTION_CHARS :: nat where "MAX_DESCRIPTION_CHARS = 1000"
definition UNKNOWN :: pystr where "UNKNOWN = lit ''credential is not recognized''"

definition not_at_or_space :: "int \<Rightarrow> bool" where
  "not_at_or_space c \<longleftrightarrow> c \<noteq> 64 \<and> \<not> is_space c"

definition EMAIL_RE :: regex where
  "EMAIL_RE = seq [plus (Sat not_at_or_space), chr 64, plus (Sat not_at_or_space), chr 46, plus (Sat not_at_or_space)]"

definition CHANNEL_RE :: regex where
  "CHANNEL_RE = between True 6 20 (Sat (\<lambda>c. 65 \<le> c \<and> c \<le> 90 \<or> ascii_digit c))"

section \<open>Tables\<close>

record group_row =
  group_tenant :: uuid
  group_name :: pystr
  group_description :: pystr
  group_created_by :: pystr

record principal_row =
  pr_tenant :: uuid
  pr_subject :: pystr
  pr_display_name :: pystr
  pr_kind :: kind
  pr_is_admin :: bool
  pr_groups :: "pystr list"
  pr_default_audience :: "pystr list option"
  pr_disabled_at :: "timestamp option"
  pr_created_at :: timestamp
  pr_created_by :: pystr
  pr_updated_at :: timestamp
  pr_updated_by :: pystr

record token_row =
  tok_id :: uuid
  tok_tenant :: uuid
  tok_subject :: pystr
  tok_label :: pystr
  tok_prefix :: pystr
  tok_sha :: pystr
  tok_created_at :: timestamp
  tok_created_by :: pystr
  tok_last_used_at :: "timestamp option"
  tok_expires_at :: "timestamp option"
  tok_revoked_at :: "timestamp option"

record session_row =
  ses_sha :: pystr
  ses_tenant :: uuid
  ses_subject :: pystr
  ses_token :: uuid
  ses_created_at :: timestamp
  ses_last_seen_at :: timestamp
  ses_expires_at :: timestamp
  ses_revoked_at :: "timestamp option"

record channel_row =
  ch_tenant :: uuid
  ch_id :: pystr
  ch_groups :: "pystr list option"
  ch_updated_at :: timestamp
  ch_updated_by :: pystr

text \<open>
  The tables the deletion of a layer consults; \<open>None\<close> where the table does not exist.
\<close>

record layer_content =
  index_rows :: "health list option"
  page_acls :: "(uuid \<times> pystr list option) list option"
  queued_captures :: "(uuid \<times> pystr list option \<times> status) list option"
  change_times :: "(uuid \<times> timestamp) list option"

record roster =
  live_tenants :: "tenant list"
  group_rows :: "group_row list"
  principal_rows :: "principal_row list"
  token_rows :: "token_row list"
  session_rows :: "session_row list"
  channel_rows :: "channel_row list"
  content :: layer_content

abbreviation (input) refused :: "string \<Rightarrow> 'a result" where
  "refused m \<equiv> Inl (RosterRefused (lit m))"

definition missing_tenant :: exn where
  "missing_tenant = DatabaseError (lit ''null value in column tenant_id'')"

text \<open>\<open>seed_tenant\<close>: the unrestricted role of a tenant, unless it has it.\<close>

definition seed_tenant :: "conn \<Rightarrow> roster \<Rightarrow> unit result \<times> roster" where
  "seed_tenant c r =
     (case tenant_setting c of
        None \<Rightarrow> (Inl missing_tenant, r)
      | Some t \<Rightarrow>
          (Inr (), if \<exists>g \<in> set (group_rows r). group_tenant g = t \<and> group_name g = UNRESTRICTED_GROUP then r
             else r\<lparr>group_rows := group_rows r @ [\<lparr>group_tenant = t, group_name = UNRESTRICTED_GROUP,
               group_description = lit ''Reads every page in the brain.'', group_created_by = lit ''system''\<rparr>]\<rparr>))"

section \<open>Reading identities\<close>

definition principal_of :: "principal_row \<Rightarrow> principal" where
  "principal_of p =
     \<lparr>who_subject = pr_subject p, who_display_name = pr_display_name p, who_groups = pr_groups p,
      who_default_audience = pr_default_audience p, who_kind = pr_kind p, who_is_admin = pr_is_admin p,
      who_tenant = pr_tenant p, who_operator = False\<rparr>"

definition tenant_is_live :: "roster \<Rightarrow> uuid \<Rightarrow> bool" where
  "tenant_is_live r t \<longleftrightarrow> (\<exists>n \<in> set (live_tenants r). tenant_pk n = t \<and> tenant_status n \<noteq> Suspended)"

definition enabled :: "principal_row \<Rightarrow> bool" where
  "enabled p \<longleftrightarrow> pr_disabled_at p = None"

definition principal_of_subject :: "conn \<Rightarrow> unicode_more \<Rightarrow> pystr \<Rightarrow> roster \<Rightarrow> principal result" where
  "principal_of_subject c v who r =
     (if who = [] then Inl (IdentityError (lit ''no identity was provided''))
      else and_then (require_tenant c) (\<lambda>t.
        case find (\<lambda>p. row_visible c (pr_tenant p) \<and> pr_tenant p = t \<and> pr_subject p = lower v (strip who) \<and>
            enabled p \<and> tenant_is_live r t) (principal_rows r) of
          None \<Rightarrow> Inl (IdentityError (lit ''identity is not configured''))
        | Some p \<Rightarrow> Inr (principal_of p)))"

definition after :: "timestamp \<Rightarrow> timestamp option \<Rightarrow> bool" where
  "after clock expiry \<longleftrightarrow> (case expiry of None \<Rightarrow> True | Some e \<Rightarrow> clock < e)"

definition token_live :: "timestamp \<Rightarrow> token_row \<Rightarrow> bool" where
  "token_live clock t \<longleftrightarrow> tok_revoked_at t = None \<and> after clock (tok_expires_at t)"

text \<open>The enabled principal, of a tenant that is not suspended, a token or session row names.\<close>

definition holder :: "conn \<Rightarrow> uuid \<Rightarrow> pystr \<Rightarrow> roster \<Rightarrow> principal_row option" where
  "holder c t who r =
     find (\<lambda>p. row_visible c (pr_tenant p) \<and> pr_tenant p = t \<and> pr_subject p = who \<and> enabled p \<and> tenant_is_live r t)
       (principal_rows r)"

definition ONE_MINUTE :: int where "ONE_MINUTE = make_interval 60"

definition used_now :: "timestamp \<Rightarrow> token_row \<Rightarrow> token_row" where
  "used_now clock t =
     (if (case tok_last_used_at t of None \<Rightarrow> True | Some l \<Rightarrow> l < clock - ONE_MINUTE)
      then t\<lparr>tok_last_used_at := Some clock\<rparr> else t)"

definition token_lookup :: "(pystr \<Rightarrow> pystr) \<Rightarrow> timestamp \<Rightarrow> pystr \<Rightarrow> (roster, principal \<times> uuid) block" where
  "token_lookup digest clock token = (\<lambda>(c, r).
     case find (\<lambda>t. row_visible c (tok_tenant t) \<and> tok_sha t = digest token \<and> token_live clock t \<and>
         holder c (tok_tenant t) (tok_subject t) r \<noteq> None) (token_rows r) of
       None \<Rightarrow> (Inl (IdentityError UNKNOWN), c, r)
     | Some t \<Rightarrow>
         (case holder c (tok_tenant t) (tok_subject t) r of
            None \<Rightarrow> (Inl (IdentityError UNKNOWN), c, r)
          | Some p \<Rightarrow>
              (Inr (principal_of p, tok_id t), c,
               r\<lparr>token_rows := update_where (\<lambda>s. row_visible c (tok_tenant s) \<and> tok_id s = tok_id t) (used_now clock)
                  (token_rows r)\<rparr>)))"

definition principal_for_token :: "(pystr \<Rightarrow> pystr) \<Rightarrow> timestamp \<Rightarrow> pystr \<Rightarrow> (roster, principal \<times> uuid) block" where
  "principal_for_token digest clock token = (\<lambda>(c, r).
     if token = [] then (Inl (IdentityError (lit ''no bearer token was presented'')), c, r)
     else platform_scope (token_lookup digest clock token) (c, r))"

definition layer_descriptions :: "conn \<Rightarrow> roster \<Rightarrow> (pystr, pystr) fmap" where
  "layer_descriptions c r =
     fmap_of_list (rev (map (\<lambda>g. (group_name g, group_description g))
       (filter (\<lambda>g. row_visible c (group_tenant g)) (group_rows r))))"

definition known_groups :: "conn \<Rightarrow> roster \<Rightarrow> pystr set" where
  "known_groups c r = group_name ` set (filter (\<lambda>g. row_visible c (group_tenant g)) (group_rows r))"

definition channel_map :: "conn \<Rightarrow> roster \<Rightarrow> (pystr, pystr list option) fmap" where
  "channel_map c r =
     fmap_of_list (rev (map (\<lambda>h. (ch_id h, ch_groups h))
       (filter (\<lambda>h. row_visible c (ch_tenant h)) (channel_rows r))))"

section \<open>Checking what an administrator sends\<close>

definition clean_subject :: "unicode_more \<Rightarrow> pystr \<Rightarrow> pystr result" where
  "clean_subject v given =
     (let s = lower v (strip given) in
      if fullmatch EMAIL_RE s = None \<or> 254 < length s then refused ''the identity must be an email address''
      else Inr s)"

definition checked_groups :: "conn \<Rightarrow> unicode \<Rightarrow> json list \<Rightarrow> roster \<Rightarrow> pystr list result" where
  "checked_groups c u given r =
     (case check_group_names u (JList given) of
        Inl (IdentityError m) \<Rightarrow> Inl (RosterRefused m)
      | Inl e \<Rightarrow> Inl e
      | Inr gs \<Rightarrow>
          if \<not> set gs \<subseteq> known_groups c r then refused ''names a group that does not exist''
          else if list_ex (\<lambda>g. g \<noteq> UNRESTRICTED_GROUP \<and> \<not> is_layer_name g) gs
          then refused ''names a group that is not a layer''
          else Inr (sort gs))"

text \<open>
  The fields of one principal as a request names them; an absent field has its default here. The
  code coerces them with \<open>str\<close>, \<open>bool\<close> and \<open>list\<close>; here they have those types.
\<close>

record person_data =
  d_display_name :: pystr
  d_kind :: pystr
  d_is_admin :: bool
  d_groups :: "json list"
  d_default_audience :: json

record person_fields =
  f_display_name :: pystr
  f_kind :: kind
  f_is_admin :: bool
  f_groups :: "pystr list"
  f_default_audience :: "pystr list"

definition kind_of :: "pystr \<Rightarrow> kind option" where
  "kind_of s =
     (if s = [] \<or> s = lit ''person'' then Some Person else if s = lit ''agent'' then Some Agent else None)"

definition text_of_kind :: "kind \<Rightarrow> pystr" where
  "text_of_kind k = (case k of Person \<Rightarrow> lit ''person'' | Agent \<Rightarrow> lit ''agent'')"

definition checked_default :: "json \<Rightarrow> pystr list \<Rightarrow> pystr result" where
  "checked_default given gs =
     (case given of
        JList [JText s] \<Rightarrow>
          let l = strip s in
          if l \<noteq> PUBLIC \<and> (l = UNRESTRICTED_GROUP \<or> l \<notin> set gs)
          then refused ''the default layer must be public or one of the identity layers''
          else Inr l
      | _ \<Rightarrow> refused ''a default layer is required'')"

definition validated :: "conn \<Rightarrow> unicode \<Rightarrow> person_data \<Rightarrow> roster \<Rightarrow> person_fields result" where
  "validated c u data r =
     (let name = one_line (d_display_name data) in
      if name = [] \<or> MAX_DISPLAY_NAME_CHARS < length name
      then refused ''a display name of at most 120 characters is required''
      else case kind_of (d_kind data) of
        None \<Rightarrow> refused ''kind must be person or agent''
      | Some k \<Rightarrow>
          if d_is_admin data \<and> k \<noteq> Person then refused ''only a person can administer the backoffice''
          else and_then (checked_groups c u (d_groups data) r) (\<lambda>gs.
            if d_is_admin data \<and> UNRESTRICTED_GROUP \<notin> set gs
            then refused ''an administrator must belong to brain-admins''
            else and_then (checked_default (d_default_audience data) gs) (\<lambda>l.
              Inr \<lparr>f_display_name = name, f_kind = k, f_is_admin = d_is_admin data, f_groups = gs,
                 f_default_audience = [l]\<rparr>)))"

definition admins_left :: "conn \<Rightarrow> pystr \<Rightarrow> roster \<Rightarrow> nat" where
  "admins_left c excluding r =
     length (filter (\<lambda>p. row_visible c (pr_tenant p) \<and> pr_is_admin p \<and> enabled p \<and> pr_subject p \<noteq> excluding)
       (principal_rows r))"

section \<open>Administering people\<close>

definition inserted_principal :: "uuid \<Rightarrow> pystr \<Rightarrow> timestamp \<Rightarrow> pystr \<Rightarrow> person_fields \<Rightarrow> principal_row" where
  "inserted_principal t who clock by f =
     \<lparr>pr_tenant = t, pr_subject = who, pr_display_name = f_display_name f, pr_kind = f_kind f,
      pr_is_admin = f_is_admin f, pr_groups = f_groups f, pr_default_audience = Some (f_default_audience f),
      pr_disabled_at = None, pr_created_at = clock, pr_created_by = by, pr_updated_at = clock, pr_updated_by = by\<rparr>"

definition new_principal ::
  "conn \<Rightarrow> unicode \<Rightarrow> unicode_more \<Rightarrow> timestamp \<Rightarrow> pystr \<Rightarrow> person_data \<Rightarrow> pystr \<Rightarrow> roster \<Rightarrow> principal_row result" where
  "new_principal c u v clock given data by r =
     and_then (clean_subject v given) (\<lambda>who. and_then (validated c u data r) (\<lambda>f.
       case tenant_setting c of
         None \<Rightarrow> Inl missing_tenant
       | Some t \<Rightarrow>
           if \<exists>p \<in> set (principal_rows r). pr_tenant p = t \<and> pr_subject p = who
           then refused ''that identity already exists''
           else Inr (inserted_principal t who clock by f)))"

text \<open>The principal is looked up again after the transaction.\<close>

definition create_principal ::
  "conn \<Rightarrow> unicode \<Rightarrow> unicode_more \<Rightarrow> timestamp \<Rightarrow> pystr \<Rightarrow> person_data \<Rightarrow> pystr \<Rightarrow> roster \<Rightarrow> principal result \<times> roster" where
  "create_principal c u v clock given data by r =
     (case new_principal c u v clock given data by r of
        Inl e \<Rightarrow> (Inl e, r)
      | Inr row \<Rightarrow>
          let r' = r\<lparr>principal_rows := principal_rows r @ [row]\<rparr> in (principal_of_subject c v (pr_subject row) r', r'))"

record person_change =
  c_display_name :: "pystr option"
  c_kind :: "pystr option"
  c_is_admin :: "bool option"
  c_groups :: "json list option"
  c_default_audience :: "json option"

definition or_stored :: "'a \<Rightarrow> 'a option \<Rightarrow> 'a" where
  "or_stored stored given = (case given of Some x \<Rightarrow> x | None \<Rightarrow> stored)"

text \<open>\<open>{**stored, **data}\<close>.\<close>

definition merged_data :: "principal_row \<Rightarrow> person_change \<Rightarrow> person_data" where
  "merged_data p d =
     \<lparr>d_display_name = or_stored (pr_display_name p) (c_display_name d),
      d_kind = or_stored (text_of_kind (pr_kind p)) (c_kind d),
      d_is_admin = or_stored (pr_is_admin p) (c_is_admin d),
      d_groups = or_stored (map JText (pr_groups p)) (c_groups d),
      d_default_audience =
        or_stored (case pr_default_audience p of None \<Rightarrow> JNull | Some ls \<Rightarrow> JList (map JText ls)) (c_default_audience d)\<rparr>"

definition named :: "conn \<Rightarrow> pystr \<Rightarrow> principal_row \<Rightarrow> bool" where
  "named c who p \<longleftrightarrow> row_visible c (pr_tenant p) \<and> pr_subject p = who"

definition changed_principal ::
  "conn \<Rightarrow> unicode \<Rightarrow> unicode_more \<Rightarrow> pystr \<Rightarrow> person_change \<Rightarrow> roster \<Rightarrow> (pystr \<times> person_fields) result" where
  "changed_principal c u v given data r =
     and_then (clean_subject v given) (\<lambda>who.
       case find (named c who) (principal_rows r) of
         None \<Rightarrow> refused ''that identity does not exist''
       | Some p \<Rightarrow> and_then (validated c u (merged_data p data) r) (\<lambda>f.
           if pr_is_admin p \<and> \<not> f_is_admin f \<and> admins_left c who r = 0
           then refused ''the last administrator cannot lose the role''
           else Inr (who, f)))"

definition with_fields :: "timestamp \<Rightarrow> pystr \<Rightarrow> person_fields \<Rightarrow> principal_row \<Rightarrow> principal_row" where
  "with_fields clock by f p =
     p\<lparr>pr_display_name := f_display_name f, pr_kind := f_kind f, pr_is_admin := f_is_admin f,
       pr_groups := f_groups f, pr_default_audience := Some (f_default_audience f),
       pr_updated_at := clock, pr_updated_by := by\<rparr>"

definition update_principal ::
  "conn \<Rightarrow> unicode \<Rightarrow> unicode_more \<Rightarrow> timestamp \<Rightarrow> pystr \<Rightarrow> person_change \<Rightarrow> pystr \<Rightarrow> roster \<Rightarrow> principal result \<times> roster" where
  "update_principal c u v clock given data by r =
     (case changed_principal c u v given data r of
        Inl e \<Rightarrow> (Inl e, r)
      | Inr (who, f) \<Rightarrow>
          let r' = r\<lparr>principal_rows := update_where (named c who) (with_fields clock by f) (principal_rows r)\<rparr>
          in (principal_of_subject c v who r', r'))"

text \<open>
  The check before a principal is disabled or deleted (\<open>losing\<close>) or enabled: it exists, and is not the
  last administrator.
\<close>

definition removable :: "conn \<Rightarrow> unicode_more \<Rightarrow> pystr \<Rightarrow> bool \<Rightarrow> string \<Rightarrow> roster \<Rightarrow> pystr result" where
  "removable c v given losing why r =
     and_then (clean_subject v given) (\<lambda>who.
       case find (named c who) (principal_rows r) of
         None \<Rightarrow> refused ''that identity does not exist''
       | Some p \<Rightarrow>
           if losing \<and> pr_is_admin p \<and> enabled p \<and> admins_left c who r = 0 then refused why
           else Inr who)"

definition revoke_sessions :: "timestamp \<Rightarrow> (session_row \<Rightarrow> bool) \<Rightarrow> session_row list \<Rightarrow> session_row list" where
  "revoke_sessions clock hit = update_where (\<lambda>s. hit s \<and> ses_revoked_at s = None) (\<lambda>s. s\<lparr>ses_revoked_at := Some clock\<rparr>)"

definition set_disabled ::
  "conn \<Rightarrow> unicode_more \<Rightarrow> timestamp \<Rightarrow> pystr \<Rightarrow> bool \<Rightarrow> pystr \<Rightarrow> roster \<Rightarrow> unit result \<times> roster" where
  "set_disabled c v clock given off by r =
     (case removable c v given off ''the last administrator cannot be disabled'' r of
        Inl e \<Rightarrow> (Inl e, r)
      | Inr who \<Rightarrow>
          (Inr (), r\<lparr>principal_rows := update_where (named c who)
               (\<lambda>p. p\<lparr>pr_disabled_at := (if off then Some clock else None), pr_updated_at := clock, pr_updated_by := by\<rparr>)
               (principal_rows r),
             session_rows := (if off
               then revoke_sessions clock (\<lambda>s. row_visible c (ses_tenant s) \<and> ses_subject s = who) (session_rows r)
               else session_rows r)\<rparr>))"

text \<open>Deleting a principal deletes its tokens and sessions, by the foreign keys.\<close>

definition without_holders :: "(uuid \<times> pystr) set \<Rightarrow> roster \<Rightarrow> roster" where
  "without_holders gone r =
     r\<lparr>principal_rows := filter (\<lambda>p. (pr_tenant p, pr_subject p) \<notin> gone) (principal_rows r),
       token_rows := filter (\<lambda>t. (tok_tenant t, tok_subject t) \<notin> gone) (token_rows r),
       session_rows := filter (\<lambda>s. (ses_tenant s, ses_subject s) \<notin> gone) (session_rows r)\<rparr>"

definition delete_principal :: "conn \<Rightarrow> unicode_more \<Rightarrow> pystr \<Rightarrow> roster \<Rightarrow> unit result \<times> roster" where
  "delete_principal c v given r =
     (case removable c v given True ''the last administrator cannot be deleted'' r of
        Inl e \<Rightarrow> (Inl e, r)
      | Inr who \<Rightarrow>
          (Inr (), without_holders ((\<lambda>p. (pr_tenant p, pr_subject p)) ` set (filter (named c who) (principal_rows r))) r))"

section \<open>Administering groups\<close>

definition create_group :: "conn \<Rightarrow> pystr \<Rightarrow> pystr \<Rightarrow> pystr \<Rightarrow> roster \<Rightarrow> (pystr \<times> pystr) result \<times> roster" where
  "create_group c given about by r =
     (let clean = strip given; description = one_line about in
      if \<not> is_layer_name clean
      then (refused ''a layer name is 2 to 32 lowercase letters, digits, or hyphens, starting with a letter'', r)
      else if MAX_DESCRIPTION_CHARS < length description then (refused ''the description is too long'', r)
      else case tenant_setting c of
        None \<Rightarrow> (Inl missing_tenant, r)
      | Some t \<Rightarrow>
          if \<exists>g \<in> set (group_rows r). group_tenant g = t \<and> group_name g = clean
          then (refused ''that group already exists'', r)
          else (Inr (clean, description), r\<lparr>group_rows := group_rows r @ [\<lparr>group_tenant = t, group_name = clean,
             group_description = description, group_created_by = by\<rparr>]\<rparr>))"

definition group_seen :: "conn \<Rightarrow> pystr \<Rightarrow> group_row \<Rightarrow> bool" where
  "group_seen c name g \<longleftrightarrow> row_visible c (group_tenant g) \<and> group_name g = name"

text \<open>One statement outside a transaction block: the check of its row count does not undo it.\<close>

definition update_group :: "conn \<Rightarrow> pystr \<Rightarrow> pystr \<Rightarrow> roster \<Rightarrow> unit result \<times> roster" where
  "update_group c name about r =
     (let description = one_line about in
      if MAX_DESCRIPTION_CHARS < length description then (refused ''the description is too long'', r)
      else (if length (filter (group_seen c name) (group_rows r)) \<noteq> 1
            then refused ''that group does not exist'' else Inr (),
            r\<lparr>group_rows := update_where (group_seen c name) (\<lambda>g. g\<lparr>group_description := description\<rparr>) (group_rows r)\<rparr>))"

text \<open>
  \<open>_refuse_unless_empty\<close>. \<open>greatest\<close> ignores a null, and a comparison with null selects no row.
\<close>

definition later_of :: "timestamp option \<Rightarrow> timestamp option \<Rightarrow> timestamp option" where
  "later_of a b = (case (a, b) of (Some x, Some y) \<Rightarrow> Some (max x y) | (Some x, None) \<Rightarrow> Some x | (None, y) \<Rightarrow> y)"

definition index_converged :: "conn \<Rightarrow> layer_content \<Rightarrow> bool" where
  "index_converged c k =
     (case (page_acls k, index_rows k) of
        (Some _, Some hs) \<Rightarrow>
          (case find (health_seen c) hs of
             None \<Rightarrow> False
           | Some h \<Rightarrow> \<not> dirty h \<and> repository_head_sha h = indexed_commit_sha h \<and>
               (case (change_times k, later_of (last_incremental_at h) (last_full_rebuild_at h)) of
                  (Some ts, Some updated) \<Rightarrow> list_all (\<lambda>(t, at_time). row_visible c t \<longrightarrow> at_time \<le> updated) ts
                | _ \<Rightarrow> True))
      | _ \<Rightarrow> False)"

definition in_layer :: "pystr \<Rightarrow> pystr list option \<Rightarrow> bool" where
  "in_layer layer a \<longleftrightarrow> (case a of None \<Rightarrow> False | Some gs \<Rightarrow> layer \<in> set gs)"

definition refuse_unless_empty :: "conn \<Rightarrow> pystr \<Rightarrow> layer_content \<Rightarrow> unit result" where
  "refuse_unless_empty c layer k =
     (if \<not> index_converged c k
      then refused ''the search index has not caught up with the repository''
      else if (case page_acls k of Some ps \<Rightarrow> list_ex (\<lambda>(t, a). row_visible c t \<and> in_layer layer a) ps | None \<Rightarrow> False)
      then refused ''a layer that holds knowledge cannot be deleted''
      else if (case queued_captures k of
                 Some qs \<Rightarrow> list_ex (\<lambda>(t, a, s). row_visible c t \<and> in_layer layer a \<and> \<not> terminal s) qs
               | None \<Rightarrow> False)
      then refused ''a capture is still being filed in this layer''
      else Inr ())"

definition group_in_use :: "conn \<Rightarrow> pystr \<Rightarrow> roster \<Rightarrow> bool" where
  "group_in_use c name r \<longleftrightarrow>
     (\<exists>p \<in> set (principal_rows r). row_visible c (pr_tenant p) \<and>
        (name \<in> set (pr_groups p) \<or> in_layer name (pr_default_audience p))) \<or>
     (\<exists>h \<in> set (channel_rows r). row_visible c (ch_tenant h) \<and> in_layer name (ch_groups h))"

definition delete_group :: "conn \<Rightarrow> pystr \<Rightarrow> roster \<Rightarrow> unit result \<times> roster" where
  "delete_group c name r =
     (if name = UNRESTRICTED_GROUP then (refused ''the unrestricted group cannot be deleted'', r)
      else if group_in_use c name r
      then (refused ''a group in use by a person or a channel cannot be deleted'', r)
      else case refuse_unless_empty c name (content r) of
        Inl e \<Rightarrow> (Inl e, r)
      | Inr _ \<Rightarrow>
          if length (filter (group_seen c name) (group_rows r)) \<noteq> 1 then (refused ''that group does not exist'', r)
          else (Inr (), r\<lparr>group_rows := filter (\<lambda>g. \<not> group_seen c name g) (group_rows r)\<rparr>))"

section \<open>Administering tokens\<close>

text \<open>\<open>secret\<close> is the fresh random text and \<open>k\<close> the fresh identifier.\<close>

definition new_token ::
  "(pystr \<Rightarrow> pystr) \<Rightarrow> conn \<Rightarrow> unicode_more \<Rightarrow> timestamp \<Rightarrow> timestamp \<Rightarrow> pystr \<Rightarrow> uuid \<Rightarrow> pystr \<Rightarrow> pystr
   \<Rightarrow> timestamp option \<Rightarrow> pystr \<Rightarrow> roster \<Rightarrow> token_row result" where
  "new_token digest c v clock wall secret k given about expiry by r =
     and_then (clean_subject v given) (\<lambda>who.
       let label = one_line about; token = TOKEN_PREFIX @ secret in
       if label = [] \<or> MAX_LABEL_CHARS < length label
       then refused ''a token label of at most 80 characters is required''
       else if (case expiry of None \<Rightarrow> False | Some e \<Rightarrow> e \<le> wall)
       then refused ''the expiry must be in the future''
       else if find (named c who) (principal_rows r) = None then refused ''that identity does not exist''
       else case tenant_setting c of
         None \<Rightarrow> Inl missing_tenant
       | Some t \<Rightarrow>
           if (\<nexists>p. p \<in> set (principal_rows r) \<and> pr_tenant p = t \<and> pr_subject p = who)
           then Inl (DatabaseError (lit ''violates foreign key constraint''))
           else if k \<in> tok_id ` set (token_rows r) \<or> digest token \<in> tok_sha ` set (token_rows r)
           then Inl (DatabaseError (lit ''duplicate key value''))
           else Inr \<lparr>tok_id = k, tok_tenant = t, tok_subject = who, tok_label = label,
                  tok_prefix = take (length TOKEN_PREFIX + 6) token, tok_sha = digest token, tok_created_at = clock,
                  tok_created_by = by, tok_last_used_at = None, tok_expires_at = expiry, tok_revoked_at = None\<rparr>)"

definition issue_token ::
  "(pystr \<Rightarrow> pystr) \<Rightarrow> conn \<Rightarrow> unicode_more \<Rightarrow> timestamp \<Rightarrow> timestamp \<Rightarrow> pystr \<Rightarrow> uuid \<Rightarrow> pystr \<Rightarrow> pystr
   \<Rightarrow> timestamp option \<Rightarrow> pystr \<Rightarrow> roster \<Rightarrow> (pystr \<times> token_row) result \<times> roster" where
  "issue_token digest c v clock wall secret k given about expiry by r =
     (case new_token digest c v clock wall secret k given about expiry by r of
        Inl e \<Rightarrow> (Inl e, r)
      | Inr row \<Rightarrow> (Inr (TOKEN_PREFIX @ secret, row), r\<lparr>token_rows := token_rows r @ [row]\<rparr>))"

text \<open>The argument is the identifier \<open>uuid.UUID\<close> reads, \<open>None\<close> where it raises.\<close>

definition revoke_token :: "conn \<Rightarrow> timestamp \<Rightarrow> uuid option \<Rightarrow> roster \<Rightarrow> pystr result \<times> roster" where
  "revoke_token c clock parsed r =
     (case parsed of
        None \<Rightarrow> (refused ''that token does not exist'', r)
      | Some k \<Rightarrow>
          (case find (\<lambda>t. row_visible c (tok_tenant t) \<and> tok_id t = k \<and> tok_revoked_at t = None) (token_rows r) of
             None \<Rightarrow> (refused ''that token does not exist or is already revoked'', r)
           | Some t \<Rightarrow>
               (Inr (tok_subject t),
                r\<lparr>token_rows := update_where (\<lambda>t. row_visible c (tok_tenant t) \<and> tok_id t = k)
                    (\<lambda>t. t\<lparr>tok_revoked_at := Some clock\<rparr>) (token_rows r),
                  session_rows := revoke_sessions clock (\<lambda>s. row_visible c (ses_tenant s) \<and> ses_token s = k)
                    (session_rows r)\<rparr>)))"

section \<open>Slack channels\<close>

definition channel_audience :: "conn \<Rightarrow> unicode \<Rightarrow> json list option \<Rightarrow> roster \<Rightarrow> pystr list option result" where
  "channel_audience c u asked r =
     (if asked = None \<or> asked = Some [JText PUBLIC] then Inr None
      else and_then (checked_groups c u (the asked) r) (\<lambda>gs.
        if length gs \<noteq> 1 then refused ''a channel files into exactly one layer''
        else if UNRESTRICTED_GROUP \<in> set gs then refused ''a channel cannot capture for the unrestricted group''
        else Inr (Some gs)))"

definition set_channel ::
  "conn \<Rightarrow> unicode \<Rightarrow> (pystr \<Rightarrow> pystr) \<Rightarrow> timestamp \<Rightarrow> pystr \<Rightarrow> json list option \<Rightarrow> pystr \<Rightarrow> roster \<Rightarrow> unit result \<times> roster" where
  "set_channel c u upper clock given asked by r =
     (let key = upper (strip given) in
      if fullmatch CHANNEL_RE key = None then (refused ''a Slack channel id looks like C0123456789'', r)
      else case channel_audience c u asked r of
        Inl e \<Rightarrow> (Inl e, r)
      | Inr audience \<Rightarrow>
          (case tenant_setting c of
            None \<Rightarrow> (Inl missing_tenant, r)
          | Some t \<Rightarrow>
              (Inr (), r\<lparr>channel_rows :=
                 (if \<exists>h \<in> set (channel_rows r). ch_tenant h = t \<and> ch_id h = key
                  then update_where (\<lambda>h. ch_tenant h = t \<and> ch_id h = key)
                         (\<lambda>h. h\<lparr>ch_groups := audience, ch_updated_at := clock, ch_updated_by := by\<rparr>) (channel_rows r)
                  else channel_rows r @ [\<lparr>ch_tenant = t, ch_id = key, ch_groups = audience, ch_updated_at = clock,
                         ch_updated_by = by\<rparr>])\<rparr>)))"

definition channel_seen :: "conn \<Rightarrow> pystr \<Rightarrow> channel_row \<Rightarrow> bool" where
  "channel_seen c key h \<longleftrightarrow> row_visible c (ch_tenant h) \<and> ch_id h = key"

definition delete_channel :: "conn \<Rightarrow> (pystr \<Rightarrow> pystr) \<Rightarrow> pystr \<Rightarrow> roster \<Rightarrow> unit result \<times> roster" where
  "delete_channel c upper given r =
     (let key = upper (strip given) in
      (if length (filter (channel_seen c key) (channel_rows r)) \<noteq> 1
       then refused ''that channel is not mapped'' else Inr (),
       r\<lparr>channel_rows := filter (\<lambda>h. \<not> channel_seen c key h) (channel_rows r)\<rparr>))"

section \<open>Backoffice sessions\<close>

record session =
  session_who :: principal
  session_token :: uuid
  session_expires :: timestamp

definition stale_session :: "conn \<Rightarrow> timestamp \<Rightarrow> session_row \<Rightarrow> bool" where
  "stale_session c clock s \<longleftrightarrow> row_visible c (ses_tenant s) \<and>
     (ses_expires_at s < clock - SESSION_ABSOLUTE \<or>
      (case ses_revoked_at s of None \<Rightarrow> False | Some t \<Rightarrow> t < clock - SESSION_ABSOLUTE))"

definition insert_session :: "pystr \<Rightarrow> timestamp \<Rightarrow> timestamp \<Rightarrow> principal \<Rightarrow> uuid \<Rightarrow> (roster, unit) block" where
  "insert_session sha clock expires who k = (\<lambda>(c, r).
     let kept = filter (\<lambda>s. \<not> stale_session c clock s) (session_rows r); r' = r\<lparr>session_rows := kept\<rparr> in
     case tenant_setting c of
       None \<Rightarrow> (Inl missing_tenant, c, r')
     | Some t \<Rightarrow>
         if sha \<in> ses_sha ` set kept then (Inl (DatabaseError (lit ''duplicate key value'')), c, r')
         else (Inr (), c, r\<lparr>session_rows := kept @ [\<lparr>ses_sha = sha, ses_tenant = t, ses_subject = who_subject who,
           ses_token = k, ses_created_at = clock, ses_last_seen_at = clock, ses_expires_at = expires,
           ses_revoked_at = None\<rparr>]\<rparr>))"

text \<open>The new session's value is the fresh random text \<open>secret\<close>.\<close>

definition open_session ::
  "(pystr \<Rightarrow> pystr) \<Rightarrow> timestamp \<Rightarrow> timestamp \<Rightarrow> pystr \<Rightarrow> pystr \<Rightarrow> (roster, session) block" where
  "open_session digest clock wall secret token = (\<lambda>(c, r).
     case principal_for_token digest clock token (c, r) of
       (Inl e, c1, r1) \<Rightarrow> (Inl e, c1, r1)
     | (Inr (who, k), c1, r1) \<Rightarrow>
         let expires = wall + SESSION_ABSOLUTE in
         case tenant_scope (Some (who_tenant who)) (insert_session (digest secret) clock expires who k) (c1, r1) of
           (Inl e, c2, r2) \<Rightarrow> (Inl e, c2, r2)
         | (Inr _, c2, r2) \<Rightarrow>
             (Inr \<lparr>session_who = who, session_token = k, session_expires = expires\<rparr>, c2, r2))"

definition session_live :: "timestamp \<Rightarrow> session_row \<Rightarrow> bool" where
  "session_live clock s \<longleftrightarrow>
     ses_revoked_at s = None \<and> clock < ses_expires_at s \<and> clock - SESSION_IDLE < ses_last_seen_at s"

definition session_lookup :: "(pystr \<Rightarrow> pystr) \<Rightarrow> timestamp \<Rightarrow> pystr \<Rightarrow> (roster, session) block" where
  "session_lookup digest clock secret = (\<lambda>(c, r).
     case find (\<lambda>s. row_visible c (ses_tenant s) \<and> ses_sha s = digest secret \<and> session_live clock s \<and>
         holder c (ses_tenant s) (ses_subject s) r \<noteq> None \<and>
         (\<exists>t \<in> set (token_rows r). row_visible c (tok_tenant t) \<and> tok_id t = ses_token s \<and> token_live clock t))
         (session_rows r) of
       None \<Rightarrow> (Inl (IdentityError UNKNOWN), c, r)
     | Some s \<Rightarrow>
         (case holder c (ses_tenant s) (ses_subject s) r of
            None \<Rightarrow> (Inl (IdentityError UNKNOWN), c, r)
          | Some p \<Rightarrow>
              (Inr \<lparr>session_who = principal_of p, session_token = ses_token s, session_expires = ses_expires_at s\<rparr>, c,
               r\<lparr>session_rows := update_where
                  (\<lambda>s. row_visible c (ses_tenant s) \<and> ses_sha s = digest secret \<and> ses_last_seen_at s < clock - ONE_MINUTE)
                  (\<lambda>s. s\<lparr>ses_last_seen_at := clock\<rparr>) (session_rows r)\<rparr>)))"

definition session_principal :: "(pystr \<Rightarrow> pystr) \<Rightarrow> timestamp \<Rightarrow> pystr \<Rightarrow> (roster, session) block" where
  "session_principal digest clock secret = (\<lambda>(c, r).
     if secret = [] then (Inl (IdentityError UNKNOWN), c, r)
     else platform_scope (session_lookup digest clock secret) (c, r))"

definition close_session :: "(pystr \<Rightarrow> pystr) \<Rightarrow> timestamp \<Rightarrow> pystr \<Rightarrow> (roster, unit) block" where
  "close_session digest clock secret = (\<lambda>(c, r).
     if secret = [] then (Inr (), c, r)
     else platform_scope (\<lambda>(c, r). (Inr (), c,
       r\<lparr>session_rows := revoke_sessions clock (\<lambda>s. row_visible c (ses_tenant s) \<and> ses_sha s = digest secret)
           (session_rows r)\<rparr>)) (c, r))"

section \<open>The first administrator\<close>

definition admin_count :: "conn \<Rightarrow> roster \<Rightarrow> nat" where
  "admin_count c r =
     length (filter (\<lambda>p. row_visible c (pr_tenant p) \<and> pr_is_admin p \<and> enabled p) (principal_rows r))"

definition bootstrap_admin ::
  "(pystr \<Rightarrow> pystr) \<Rightarrow> conn \<Rightarrow> unicode \<Rightarrow> unicode_more \<Rightarrow> timestamp \<Rightarrow> timestamp \<Rightarrow> pystr \<Rightarrow> uuid \<Rightarrow> pystr \<Rightarrow> pystr
   \<Rightarrow> pystr \<Rightarrow> roster \<Rightarrow> (pystr \<times> token_row) result \<times> roster" where
  "bootstrap_admin digest c u v clock wall secret k given name by r =
     (if admin_count c r > 0 then (refused ''an administrator already exists'', r)
      else case create_principal c u v clock given
          \<lparr>d_display_name = name, d_kind = lit ''person'', d_is_admin = True, d_groups = [JText UNRESTRICTED_GROUP],
           d_default_audience = JList [JText PUBLIC]\<rparr> by r of
        (Inl e, _) \<Rightarrow> (Inl e, r)
      | (Inr _, r1) \<Rightarrow>
          (case issue_token digest c v clock wall secret k given (lit ''bootstrap'') None by r1 of
             (Inl e, _) \<Rightarrow> (Inl e, r)
           | (Inr grant, r2) \<Rightarrow> (Inr grant, r2)))"

end
