(* ===== verification/Roster_Safety.thy ===== *)
theory Roster_Safety
  imports Roster
begin

text \<open>
  What the roster keeps true: the consistency of its rows, the last administrator of a workspace, and
  that a revoked credential is revoked for good. \<open>roster_step\<close> is one operation of the roster on a
  connection that acts for some tenant, or one look-up or session operation on any usable connection.
\<close>

section \<open>Consistent rows\<close>

definition person_key :: "principal_row \<Rightarrow> uuid \<times> pystr" where
  "person_key p = (pr_tenant p, pr_subject p)"

definition group_key :: "group_row \<Rightarrow> uuid \<times> pystr" where
  "group_key g = (group_tenant g, group_name g)"

definition token_key :: "token_row \<Rightarrow> uuid \<times> uuid \<times> pystr" where
  "token_key t = (tok_id t, tok_tenant t, tok_subject t)"

definition person_ok :: "(uuid \<times> pystr) set \<Rightarrow> principal_row \<Rightarrow> bool" where
  "person_ok keys p \<longleftrightarrow>
     (pr_is_admin p \<longrightarrow> pr_kind p = Person \<and> UNRESTRICTED_GROUP \<in> set (pr_groups p)) \<and>
     (\<forall>g \<in> set (pr_groups p). (pr_tenant p, g) \<in> keys \<and> (g = UNRESTRICTED_GROUP \<or> is_layer_name g)) \<and>
     (\<exists>l. pr_default_audience p = Some [l] \<and> (l = PUBLIC \<or> l \<in> set (pr_groups p) \<and> l \<noteq> UNRESTRICTED_GROUP))"

definition channel_ok :: "(uuid \<times> pystr) set \<Rightarrow> channel_row \<Rightarrow> bool" where
  "channel_ok keys h \<longleftrightarrow>
     (case ch_groups h of None \<Rightarrow> True | Some gs \<Rightarrow> \<exists>l. gs = [l] \<and> is_layer_name l \<and> (ch_tenant h, l) \<in> keys)"

definition roster_ok :: "roster \<Rightarrow> bool" where
  "roster_ok r \<longleftrightarrow>
     distinct (map person_key (principal_rows r)) \<and>
     distinct (map group_key (group_rows r)) \<and>
     distinct (map tok_id (token_rows r)) \<and>
     (\<forall>p \<in> set (principal_rows r). person_ok (group_key ` set (group_rows r)) p) \<and>
     (\<forall>h \<in> set (channel_rows r). channel_ok (group_key ` set (group_rows r)) h) \<and>
     (\<forall>t \<in> set (token_rows r). (tok_tenant t, tok_subject t) \<in> person_key ` set (principal_rows r)) \<and>
     (\<forall>s \<in> set (session_rows r). (ses_token s, ses_tenant s, ses_subject s) \<in> token_key ` set (token_rows r))"

lemma roster_okD:
  assumes "roster_ok r"
  shows "distinct (map person_key (principal_rows r))" "distinct (map group_key (group_rows r))"
    "distinct (map tok_id (token_rows r))"
    "p \<in> set (principal_rows r) \<Longrightarrow> person_ok (group_key ` set (group_rows r)) p"
    "h \<in> set (channel_rows r) \<Longrightarrow> channel_ok (group_key ` set (group_rows r)) h"
    "t \<in> set (token_rows r) \<Longrightarrow> (tok_tenant t, tok_subject t) \<in> person_key ` set (principal_rows r)"
    "s \<in> set (session_rows r) \<Longrightarrow> (ses_token s, ses_tenant s, ses_subject s) \<in> token_key ` set (token_rows r)"
  using assms by (auto simp: roster_ok_def)

lemma person_ok_mono: "person_ok keys p \<Longrightarrow> keys \<subseteq> keys' \<Longrightarrow> person_ok keys' p"
  by (auto simp: person_ok_def)

lemma channel_ok_mono: "channel_ok keys h \<Longrightarrow> keys \<subseteq> keys' \<Longrightarrow> channel_ok keys' h"
  by (auto simp: channel_ok_def split: option.splits)

definition has_admin :: "uuid \<Rightarrow> roster \<Rightarrow> bool" where
  "has_admin t r \<longleftrightarrow> (\<exists>p \<in> set (principal_rows r). pr_tenant p = t \<and> pr_is_admin p \<and> enabled p)"

section \<open>Steps\<close>

text \<open>\<open>retired\<close> lists token identifiers that are never issued again.\<close>

inductive roster_step :: "(pystr \<Rightarrow> pystr) \<Rightarrow> uuid set \<Rightarrow> roster \<Rightarrow> roster \<Rightarrow> bool" for digest retired where
  seed: "acts_for c t \<Longrightarrow> roster_step digest retired r (snd (seed_tenant c r))"
| create_principal: "acts_for c t \<Longrightarrow> roster_step digest retired r (snd (create_principal c u v clock given data by r))"
| update_principal: "acts_for c t \<Longrightarrow> roster_step digest retired r (snd (update_principal c u v clock given change by r))"
| set_disabled: "acts_for c t \<Longrightarrow> roster_step digest retired r (snd (set_disabled c v clock given off by r))"
| delete_principal: "acts_for c t \<Longrightarrow> roster_step digest retired r (snd (delete_principal c v given r))"
| create_group: "acts_for c t \<Longrightarrow> roster_step digest retired r (snd (create_group c given about by r))"
| update_group: "acts_for c t \<Longrightarrow> roster_step digest retired r (snd (update_group c name about r))"
| delete_group: "acts_for c t \<Longrightarrow> roster_step digest retired r (snd (delete_group c name r))"
| issue_token: "acts_for c t \<Longrightarrow> k \<notin> retired \<Longrightarrow>
    roster_step digest retired r (snd (issue_token digest c v clock wall secret k given about expiry by r))"
| revoke_token: "acts_for c t \<Longrightarrow> roster_step digest retired r (snd (revoke_token c clock parsed r))"
| set_channel: "acts_for c t \<Longrightarrow> roster_step digest retired r (snd (set_channel c u upper clock given asked by r))"
| delete_channel: "acts_for c t \<Longrightarrow> roster_step digest retired r (snd (delete_channel c upper given r))"
| bootstrap_admin: "acts_for c t \<Longrightarrow> k \<notin> retired \<Longrightarrow>
    roster_step digest retired r (snd (bootstrap_admin digest c u v clock wall secret k given name by r))"
| principal_for_token: "principal_for_token digest clock token (c, r) = (x, c', r') \<Longrightarrow> roster_step digest retired r r'"
| open_session: "open_session digest clock wall secret token (c, r) = (x, c', r') \<Longrightarrow> roster_step digest retired r r'"
| session_principal: "session_principal digest clock secret (c, r) = (y, c', r') \<Longrightarrow> roster_step digest retired r r'"
| close_session: "close_session digest clock secret (c, r) = (z, c', r') \<Longrightarrow> roster_step digest retired r r'"
| elsewhere: "roster_step digest retired r (r\<lparr>live_tenants := ns, content := k\<rparr>)"

section \<open>Look-ups and sessions\<close>

text \<open>The look-ups touch only the time a token was last used, and sessions.\<close>

definition session_key :: "session_row \<Rightarrow> uuid \<times> uuid \<times> pystr" where
  "session_key s = (ses_token s, ses_tenant s, ses_subject s)"

definition token_state :: "token_row \<Rightarrow> (uuid \<times> uuid \<times> pystr) \<times> timestamp option" where
  "token_state t = (token_key t, tok_revoked_at t)"

definition lightly :: "roster \<Rightarrow> roster \<Rightarrow> bool" where
  "lightly r r' \<longleftrightarrow>
     principal_rows r' = principal_rows r \<and> group_rows r' = group_rows r \<and> channel_rows r' = channel_rows r \<and>
     map token_state (token_rows r') = map token_state (token_rows r) \<and>
     session_key ` set (session_rows r') \<subseteq> session_key ` set (session_rows r) \<union> token_key ` set (token_rows r)"

lemma token_keys_of_states:
  "map token_state ts' = map token_state ts \<Longrightarrow> map token_key ts' = map token_key ts \<and> map tok_id ts' = map tok_id ts"
proof -
  assume states: "map token_state ts' = map token_state ts"
  have "map token_key us = map fst (map token_state us)" "map tok_id us = map (fst \<circ> fst) (map token_state us)" for us
    by (simp_all add: token_state_def token_key_def)
  then show ?thesis
    by (simp only: states)
qed

lemma lightly_refl: "lightly r r"
  by (simp add: lightly_def)

lemma lightly_keys: "lightly r r' \<Longrightarrow> token_key ` set (token_rows r') = token_key ` set (token_rows r)"
  unfolding lightly_def using token_keys_of_states [of "token_rows r'" "token_rows r"] by (metis list.set_map)

lemma lightly_trans: "lightly r r1 \<Longrightarrow> lightly r1 r2 \<Longrightarrow> lightly r r2"
  using lightly_keys [of r r1] by (simp add: lightly_def) blast

lemma lightly_sessions:
  "session_key ` set ss \<subseteq> session_key ` set (session_rows r) \<union> token_key ` set (token_rows r) \<Longrightarrow>
     lightly r (r\<lparr>session_rows := ss\<rparr>)"
  by (simp add: lightly_def)

lemma platform_scope_state:
  assumes "platform_scope body (c, r) = (x, c', r')"
    and "\<And>c x c' r'. body (c, r) = (x, c', r') \<Longrightarrow> lightly r r'"
  shows "lightly r r'"
  using assms(1) by (auto simp: platform_scope_def lightly_refl split: sum.splits prod.splits intro: assms(2))

lemma tenant_scope_state:
  assumes "tenant_scope t body (c, r) = (x, c', r')"
    and "\<And>c x c' r'. body (c, r) = (x, c', r') \<Longrightarrow> lightly r r'"
  shows "lightly r r'"
  using assms(1) by (auto simp: tenant_scope_def lightly_refl split: sum.splits prod.splits intro: assms(2))

lemma token_state_used [simp]: "token_state (used_now clock t) = token_state t"
  by (simp add: used_now_def token_state_def token_key_def)

lemma session_key_updates [simp]:
  "session_key (s\<lparr>ses_revoked_at := x\<rparr>) = session_key s"
  "session_key (s\<lparr>ses_last_seen_at := y\<rparr>) = session_key s"
  by (simp_all add: session_key_def)

lemma image_update_where:
  "(\<And>s. g (f s) = g s) \<Longrightarrow> g ` set (update_where P f ss) = g ` set ss"
  by (induction ss) auto

lemmas session_keys_update = image_update_where [where g = session_key]

lemma lightly_update:
  "(\<And>s. session_key (f s) = session_key s) \<Longrightarrow> lightly r (r\<lparr>session_rows := update_where P f (session_rows r)\<rparr>)"
  by (simp add: lightly_def session_keys_update)

lemma token_lookup_lightly: "token_lookup digest clock token (c, r) = (x, c', r') \<Longrightarrow> lightly r r'"
  by (auto simp: token_lookup_def lightly_refl lightly_def map_update_where split: option.splits)

lemma principal_for_token_lightly:
  "principal_for_token digest clock token (c, r) = (x, c', r') \<Longrightarrow> lightly r r'"
  by (auto simp: principal_for_token_def lightly_refl split: if_splits
    elim: platform_scope_state [OF _ token_lookup_lightly])

lemma session_lookup_lightly: "session_lookup digest clock secret (c, r) = (x, c', r') \<Longrightarrow> lightly r r'"
  by (auto simp: session_lookup_def lightly_refl split: option.splits intro!: lightly_update)

lemma session_principal_lightly: "session_principal digest clock secret (c, r) = (x, c', r') \<Longrightarrow> lightly r r'"
  by (auto simp: session_principal_def lightly_refl split: if_splits
    elim: platform_scope_state [OF _ session_lookup_lightly])

lemma close_session_lightly: "close_session digest clock secret (c, r) = (x, c', r') \<Longrightarrow> lightly r r'"
  by (auto simp: close_session_def lightly_refl revoke_sessions_def split: if_splits
    elim!: platform_scope_state intro!: lightly_update)

text \<open>What a successful look-up saw.\<close>

definition holds_token :: "(pystr \<Rightarrow> pystr) \<Rightarrow> timestamp \<Rightarrow> pystr \<Rightarrow> roster \<Rightarrow> principal \<Rightarrow> uuid \<Rightarrow> bool" where
  "holds_token digest clock token r who k \<longleftrightarrow>
     (\<exists>t \<in> set (token_rows r). \<exists>p \<in> set (principal_rows r).
        tok_id t = k \<and> tok_sha t = digest token \<and> token_live clock t \<and> who = principal_of p \<and>
        person_key p = (tok_tenant t, tok_subject t) \<and> enabled p \<and> tenant_is_live r (pr_tenant p))"

lemma holder_Some: "holder c t who r = Some p \<Longrightarrow>
    p \<in> set (principal_rows r) \<and> person_key p = (t, who) \<and> enabled p \<and> tenant_is_live r (pr_tenant p)"
  unfolding holder_def person_key_def by (auto dest: find_eq_Some_in)

lemma token_lookup_Inr:
  "token_lookup digest clock token (c, r) = (Inr (who, k), c', r') \<Longrightarrow> holds_token digest clock token r who k"
  unfolding token_lookup_def holds_token_def
  by (fastforce dest: holder_Some find_eq_Some_in split: option.splits)

lemma platform_scope_Inr:
  "platform_scope body (c, r) = (Inr x, c', r') \<Longrightarrow> \<exists>c1 c2. body (c1, r) = (Inr x, c2, r')"
  by (auto simp: platform_scope_def split: sum.splits prod.splits)

lemma principal_for_token_Inr:
  "principal_for_token digest clock token (c, r) = (Inr (who, k), c', r') \<Longrightarrow> holds_token digest clock token r who k"
  by (auto simp: principal_for_token_def split: if_splits dest!: platform_scope_Inr token_lookup_Inr)

lemma tenant_scope_body:
  "tenant_scope (Some t) body (c, r) = (x, c', r') \<Longrightarrow> r' = r \<or> (\<exists>y c1. body (scoped_conn t c, r) = (y, c1, r'))"
proof (cases "in_failed_transaction c")
  case True
  assume "tenant_scope (Some t) body (c, r) = (x, c', r')"
  then show ?thesis
    using tenant_scope_refused [of c "Some t" body r] True by auto
next
  case False
  assume run: "tenant_scope (Some t) body (c, r) = (x, c', r')"
  obtain y c1 r1 where "body (scoped_conn t c, r) = (y, c1, r1)"
    by (metis prod_cases3)
  with tenant_scope_runs [where body = body, OF False this] run show ?thesis
    by auto
qed

lemma insert_session_lightly:
  assumes "insert_session sha clock expires who k (scoped_conn (who_tenant who) c, r) = (x, c', r')"
    and "(k, who_tenant who, who_subject who) \<in> token_key ` set (token_rows r)"
  shows "lightly r r'"
  using assms
  by (auto simp: insert_session_def scoped_conn_def Let_def session_key_def split: if_splits intro!: lightly_sessions)

lemma open_session_lightly:
  assumes "open_session digest clock wall secret token (c, r) = (x, c', r')"
  shows "lightly r r'"
proof (cases "fst (principal_for_token digest clock token (c, r))")
  case (Inl e)
  then show ?thesis
    using assms by (auto simp: open_session_def split: prod.splits intro: principal_for_token_lightly)
next
  case (Inr wk)
  obtain who k where wk: "wk = (who, k)"
    by force
  obtain c1 r1 where found: "principal_for_token digest clock token (c, r) = (Inr (who, k), c1, r1)"
    using Inr wk by (metis prod.collapse)
  obtain y c2 r2 where run: "tenant_scope (Some (who_tenant who))
      (insert_session (digest secret) clock (wall + SESSION_ABSOLUTE) who k) (c1, r1) = (y, c2, r2)"
    by (metis prod_cases3)
  have "r' = r2"
    using assms found run by (auto simp: open_session_def split: sum.splits)
  have light: "lightly r r1"
    using principal_for_token_lightly [OF found] .
  have "(k, who_tenant who, who_subject who) \<in> token_key ` set (token_rows r)"
    using principal_for_token_Inr [OF found]
    by (force simp: holds_token_def principal_of_def token_key_def person_key_def)
  then have "(k, who_tenant who, who_subject who) \<in> token_key ` set (token_rows r1)"
    using lightly_keys [OF light] by simp
  then have "lightly r1 r2"
    using tenant_scope_body [OF run] lightly_refl insert_session_lightly by blast
  then show ?thesis
    using lightly_trans [OF light] \<open>r' = r2\<close> by simp
qed

section \<open>Rows stay consistent\<close>

lemma lightly_ok: "lightly r r' \<Longrightarrow> roster_ok r \<Longrightarrow> roster_ok r'"
proof -
  assume light: "lightly r r'" and ok: "roster_ok r"
  have keys: "map token_key (token_rows r') = map token_key (token_rows r)" "map tok_id (token_rows r') = map tok_id (token_rows r)"
    using light token_keys_of_states [of "token_rows r'" "token_rows r"] by (simp_all only: lightly_def simp_thms)
  have "(tok_tenant t, tok_subject t) \<in> person_key ` set (principal_rows r)" if "t \<in> set (token_rows r')" for t
  proof -
    have "token_key t \<in> token_key ` set (token_rows r)"
      using that keys(1) by (metis image_eqI list.set_map)
    then show ?thesis
      using roster_okD(6) [OF ok] by (auto simp: token_key_def)
  qed
  moreover have "session_key ` set (session_rows r') \<subseteq> token_key ` set (token_rows r')"
    using light lightly_keys [OF light] roster_okD(7) [OF ok] by (auto simp: lightly_def session_key_def)
  moreover have "principal_rows r' = principal_rows r" "group_rows r' = group_rows r" "channel_rows r' = channel_rows r"
    using light by (simp_all only: lightly_def)
  ultimately show ?thesis
    using ok keys(2) unfolding roster_ok_def session_key_def by (simp only:) blast
qed

section \<open>Operations keep the rows consistent\<close>

lemma known_groups_acts:
  "acts_for c t \<Longrightarrow> g \<in> known_groups c r \<longleftrightarrow> (t, g) \<in> group_key ` set (group_rows r)"
  by (force simp: known_groups_def group_key_def acts_for_visible)

lemma checked_groups_Inr:
  assumes "acts_for c t" "checked_groups c u given r = Inr gs"
  shows "\<forall>g \<in> set gs. (t, g) \<in> group_key ` set (group_rows r) \<and> (g = UNRESTRICTED_GROUP \<or> is_layer_name g)"
proof -
  obtain raw where "set gs = set raw" "set raw \<subseteq> known_groups c r"
      "\<not> list_ex (\<lambda>g. g \<noteq> UNRESTRICTED_GROUP \<and> \<not> is_layer_name g) raw"
    using assms(2) by (auto simp: checked_groups_def split: sum.splits exn.splits if_splits)
  then show ?thesis
    using known_groups_acts [OF assms(1)] by (auto simp: list_ex_iff)
qed

lemma checked_default_Inr:
  "checked_default given gs = Inr l \<Longrightarrow> l = PUBLIC \<or> l \<in> set gs \<and> l \<noteq> UNRESTRICTED_GROUP"
  by (auto simp: checked_default_def Let_def split: json.splits list.splits if_splits)

lemma validated_Inr:
  assumes "acts_for c t" "validated c u data r = Inr f"
  shows "(f_is_admin f \<longrightarrow> f_kind f = Person \<and> UNRESTRICTED_GROUP \<in> set (f_groups f)) \<and>
     (\<forall>g \<in> set (f_groups f). (t, g) \<in> group_key ` set (group_rows r) \<and> (g = UNRESTRICTED_GROUP \<or> is_layer_name g)) \<and>
     (\<exists>l. f_default_audience f = [l] \<and> (l = PUBLIC \<or> l \<in> set (f_groups f) \<and> l \<noteq> UNRESTRICTED_GROUP))"
proof -
  obtain k gs l where gs: "checked_groups c u (d_groups data) r = Inr gs" and l: "checked_default (d_default_audience data) gs = Inr l"
    and f: "f = \<lparr>f_display_name = one_line (d_display_name data), f_kind = k, f_is_admin = d_is_admin data, f_groups = gs,
       f_default_audience = [l]\<rparr>"
    and admin: "\<not> (d_is_admin data \<and> k \<noteq> Person)" "\<not> (d_is_admin data \<and> UNRESTRICTED_GROUP \<notin> set gs)"
    using assms(2) by (auto simp: validated_def Let_def and_then_eq_Inr split: if_splits option.splits)
  show ?thesis
    using checked_groups_Inr [OF assms(1) gs] checked_default_Inr [OF l] admin by (simp add: f)
qed

lemma inserted_ok:
  "acts_for c t \<Longrightarrow> validated c u data r = Inr f \<Longrightarrow>
     person_ok (group_key ` set (group_rows r)) (inserted_principal t who clock by f)"
  using validated_Inr [of c t u data r f] by (simp add: person_ok_def inserted_principal_def)

text \<open>Changing the principals alone.\<close>

lemma roster_ok_principals:
  assumes "roster_ok r" "distinct (map person_key ps)" "\<forall>p \<in> set ps. person_ok (group_key ` set (group_rows r)) p"
    and "person_key ` set (principal_rows r) \<subseteq> person_key ` set ps"
  shows "roster_ok (r\<lparr>principal_rows := ps\<rparr>)"
  using assms unfolding roster_ok_def by (simp add: subset_iff)

lemma new_principal_Inr:
  assumes "acts_for c t" "new_principal c u v clock given data by r = Inr row"
  shows "\<exists>who f. validated c u data r = Inr f \<and> row = inserted_principal t who clock by f \<and>
    (\<forall>p \<in> set (principal_rows r). person_key p \<noteq> person_key row)"
  using assms by (auto simp: new_principal_def and_then_eq_Inr acts_for_def person_key_def inserted_principal_def split: if_splits)

lemma create_principal_ok:
  assumes "acts_for c t" "roster_ok r"
  shows "roster_ok (snd (create_principal c u v clock given data by r))"
proof (cases "new_principal c u v clock given data by r")
  case (Inl e)
  then show ?thesis
    using assms(2) by (simp add: create_principal_def)
next
  case (Inr row)
  obtain who f where row: "validated c u data r = Inr f" "row = inserted_principal t who clock by f"
      "\<forall>p \<in> set (principal_rows r). person_key p \<noteq> person_key row"
    using new_principal_Inr [OF assms(1) Inr] by blast
  have "roster_ok (r\<lparr>principal_rows := principal_rows r @ [row]\<rparr>)"
    using roster_okD(1,4) [OF assms(2)] row inserted_ok [OF assms(1) row(1)]
    by (intro roster_ok_principals [OF assms(2)]) auto
  then show ?thesis
    using Inr by (simp add: create_principal_def Let_def)
qed

lemma map_person_key_update:
  "(\<And>p. person_key (f p) = person_key p) \<Longrightarrow> map person_key (update_where P f ps) = map person_key ps"
  by (rule map_update_where)

lemma update_principal_rows:
  assumes "roster_ok r" "\<And>p. person_key (f p) = person_key p"
    and "\<And>p. p \<in> set (principal_rows r) \<Longrightarrow> P p \<Longrightarrow> person_ok (group_key ` set (group_rows r)) (f p)"
  shows "roster_ok (r\<lparr>principal_rows := update_where P f (principal_rows r)\<rparr>)"
proof (rule roster_ok_principals [OF assms(1)])
  have keys: "map person_key (update_where P f (principal_rows r)) = map person_key (principal_rows r)"
    using assms(2) by (rule map_person_key_update)
  then show "distinct (map person_key (update_where P f (principal_rows r)))"
    using roster_okD(1) [OF assms(1)] by simp
  show "person_key ` set (principal_rows r) \<subseteq> person_key ` set (update_where P f (principal_rows r))"
    using keys by (metis list.set_map order_refl)
  show "\<forall>p \<in> set (update_where P f (principal_rows r)). person_ok (group_key ` set (group_rows r)) p"
    using assms(3) roster_okD(4) [OF assms(1)] by (auto elim!: in_update_where)
qed

lemma named_acts: "acts_for c t \<Longrightarrow> named c who p \<longleftrightarrow> person_key p = (t, who)"
  by (auto simp: named_def person_key_def acts_for_visible)

lemma changed_principal_Inr:
  "changed_principal c u v given data r = Inr (who, f) \<Longrightarrow>
     \<exists>p. find (named c who) (principal_rows r) = Some p \<and> validated c u (merged_data p data) r = Inr f \<and>
       (pr_is_admin p \<longrightarrow> f_is_admin f \<or> 0 < admins_left c who r)"
  by (auto simp: changed_principal_def and_then_eq_Inr split: option.splits if_splits)

lemma with_fields_simps [simp]:
  "pr_tenant (with_fields clock by f p) = pr_tenant p" "pr_subject (with_fields clock by f p) = pr_subject p"
  "pr_is_admin (with_fields clock by f p) = f_is_admin f" "enabled (with_fields clock by f p) = enabled p"
  "person_key (with_fields clock by f p) = person_key p"
  by (simp_all add: with_fields_def enabled_def person_key_def)

lemma update_principal_ok:
  assumes "acts_for c t" "roster_ok r"
  shows "roster_ok (snd (update_principal c u v clock given data by r))"
proof (cases "changed_principal c u v given data r")
  case (Inl e)
  then show ?thesis
    using assms(2) by (simp add: update_principal_def)
next
  case (Inr wf)
  obtain who f where wf: "wf = (who, f)"
    by force
  then obtain p where "validated c u (merged_data p data) r = Inr f"
    using changed_principal_Inr Inr by blast
  from validated_Inr [OF assms(1) this]
  have "roster_ok (r\<lparr>principal_rows := update_where (named c who) (with_fields clock by f) (principal_rows r)\<rparr>)"
    using assms(1) by (intro update_principal_rows [OF assms(2)])
      (auto simp: person_ok_def with_fields_def named_def acts_for_visible person_key_def)
  then show ?thesis
    using Inr wf by (simp add: update_principal_def Let_def)
qed

lemma roster_ok_sessions:
  "roster_ok r \<Longrightarrow> session_key ` set ss \<subseteq> token_key ` set (token_rows r) \<Longrightarrow> roster_ok (r\<lparr>session_rows := ss\<rparr>)"
  by (simp add: roster_ok_def session_key_def [symmetric] image_subset_iff)

lemma session_keys_ok: "roster_ok r \<Longrightarrow> session_key ` set (session_rows r) \<subseteq> token_key ` set (token_rows r)"
  using roster_okD(7) by (auto simp: session_key_def)

lemma revoke_sessions_ok: "roster_ok r \<Longrightarrow> roster_ok (r\<lparr>session_rows := revoke_sessions clock P (session_rows r)\<rparr>)"
  by (rule roster_ok_sessions) (simp_all add: revoke_sessions_def session_keys_update session_keys_ok)

lemma set_disabled_ok:
  assumes "acts_for c t" "roster_ok r"
  shows "roster_ok (snd (set_disabled c v clock given off by r))"
proof (cases "removable c v given off ''the last administrator cannot be disabled'' r")
  case (Inr who)
  let ?f = "\<lambda>p. p\<lparr>pr_disabled_at := (if off then Some clock else None), pr_updated_at := clock, pr_updated_by := by\<rparr>"
  let ?r = "r\<lparr>principal_rows := update_where (named c who) ?f (principal_rows r)\<rparr>"
  have "roster_ok ?r"
    using roster_okD(4) [OF assms(2)] by (intro update_principal_rows [OF assms(2)]) (auto simp: person_key_def person_ok_def)
  then have "roster_ok (?r\<lparr>session_rows := revoke_sessions clock P (session_rows ?r)\<rparr>)" for P
    by (rule revoke_sessions_ok)
  with \<open>roster_ok ?r\<close> show ?thesis
    using Inr by (cases off) (simp_all add: set_disabled_def)
qed (use assms(2) in \<open>simp add: set_disabled_def\<close>)

lemma without_holders_ok: "roster_ok r \<Longrightarrow> roster_ok (without_holders gone r)"
proof -
  assume ok: "roster_ok r"
  have persons: "person_key ` set (filter (\<lambda>p. (pr_tenant p, pr_subject p) \<notin> gone) ps) = person_key ` set ps - gone" for ps
    by (auto simp: person_key_def)
  have tokens: "token_key ` set (filter (\<lambda>t. (tok_tenant t, tok_subject t) \<notin> gone) ts) = {k \<in> token_key ` set ts. snd k \<notin> gone}" for ts
    by (auto simp: token_key_def)
  show ?thesis
    using roster_okD [OF ok] unfolding roster_ok_def without_holders_def
    by (simp add: persons tokens distinct_map_filter del: set_filter) (simp add: person_key_def)
qed

lemma delete_principal_ok: "roster_ok r \<Longrightarrow> roster_ok (snd (delete_principal c v given r))"
  by (auto simp: delete_principal_def without_holders_ok split: sum.splits)

lemma roster_ok_groups:
  assumes "roster_ok r" "distinct (map group_key gs)"
    and "\<And>p. p \<in> set (principal_rows r) \<Longrightarrow> person_ok (group_key ` set gs) p"
    and "\<And>h. h \<in> set (channel_rows r) \<Longrightarrow> channel_ok (group_key ` set gs) h"
  shows "roster_ok (r\<lparr>group_rows := gs\<rparr>)"
  using assms by (simp add: roster_ok_def)

lemma roster_ok_more_groups:
  assumes "roster_ok r" "group_key g \<notin> group_key ` set (group_rows r)"
  shows "roster_ok (r\<lparr>group_rows := group_rows r @ [g]\<rparr>)"
  using roster_okD(2,4,5) [OF assms(1)] assms(2)
  by (intro roster_ok_groups [OF assms(1)]) (auto intro: person_ok_mono channel_ok_mono)

lemma seed_tenant_ok: "roster_ok r \<Longrightarrow> roster_ok (snd (seed_tenant c r))"
  by (auto simp: seed_tenant_def group_key_def split: option.splits intro!: roster_ok_more_groups)

lemma create_group_ok: "roster_ok r \<Longrightarrow> roster_ok (snd (create_group c given about by r))"
  by (auto simp: create_group_def Let_def group_key_def split: option.splits intro!: roster_ok_more_groups)

lemma update_group_ok:
  assumes "roster_ok r"
  shows "roster_ok (snd (update_group c name about r))"
proof -
  let ?f = "\<lambda>d g. g\<lparr>group_description := d\<rparr>"
  have "group_key (?f d g) = group_key g" for d and g :: group_row
    by (simp add: group_key_def)
  then have "map group_key (update_where P (?f d) (group_rows r)) = map group_key (group_rows r)"
      "group_key ` set (update_where P (?f d) (group_rows r)) = group_key ` set (group_rows r)" for P d
    by (simp_all only: map_update_where image_update_where)
  then have "roster_ok (r\<lparr>group_rows := update_where P (?f d) (group_rows r)\<rparr>)" for P d
    using roster_okD(2,4,5) [OF assms] by (intro roster_ok_groups [OF assms]) (simp_all only:)
  then show ?thesis
    using assms by (simp add: update_group_def Let_def)
qed

lemma delete_group_ok:
  assumes "acts_for c t" "roster_ok r"
  shows "roster_ok (snd (delete_group c name r))"
proof (cases "name = UNRESTRICTED_GROUP \<or> group_in_use c name r")
  case True
  then show ?thesis
    using assms(2) by (auto simp: delete_group_def)
next
  case False
  let ?gs = "filter (\<lambda>g. \<not> group_seen c name g) (group_rows r)"
  have keys: "group_key ` set ?gs = group_key ` set (group_rows r) - {(t, name)}"
    using assms(1) by (auto simp: group_seen_def group_key_def acts_for_visible)
  have person: "person_ok (group_key ` set ?gs) p" if "p \<in> set (principal_rows r)" for p
  proof -
    have "\<not> (pr_tenant p = t \<and> name \<in> set (pr_groups p))"
      using False that assms(1) by (auto simp: group_in_use_def acts_for_visible)
    then show ?thesis
      using roster_okD(4) [OF assms(2) that] unfolding keys by (auto simp: person_ok_def)
  qed
  have channel: "channel_ok (group_key ` set ?gs) h" if "h \<in> set (channel_rows r)" for h
  proof -
    have "\<not> (ch_tenant h = t \<and> in_layer name (ch_groups h))"
      using False that assms(1) by (auto simp: group_in_use_def acts_for_visible)
    then show ?thesis
      using roster_okD(5) [OF assms(2) that] unfolding keys by (auto simp: channel_ok_def in_layer_def split: option.splits)
  qed
  have "distinct (map group_key ?gs)"
    using roster_okD(2) [OF assms(2)] by (rule distinct_map_filter)
  with person channel have "roster_ok (r\<lparr>group_rows := ?gs\<rparr>)"
    by (intro roster_ok_groups [OF assms(2)])
  then show ?thesis
    using assms(2) by (auto simp: delete_group_def split: sum.splits)
qed

lemma roster_ok_tokens:
  assumes "roster_ok r" "distinct (map tok_id ts)"
    and "\<And>t. t \<in> set ts \<Longrightarrow> (tok_tenant t, tok_subject t) \<in> person_key ` set (principal_rows r)"
    and "token_key ` set (token_rows r) \<subseteq> token_key ` set ts"
  shows "roster_ok (r\<lparr>token_rows := ts\<rparr>)"
  using assms unfolding roster_ok_def by (simp add: subset_iff)

lemma new_token_Inr:
  "new_token digest c v clock wall secret k given about expiry by r = Inr row \<Longrightarrow>
     tok_id row = k \<and> k \<notin> tok_id ` set (token_rows r) \<and>
     (tok_tenant row, tok_subject row) \<in> person_key ` set (principal_rows r)"
  by (auto simp: new_token_def Let_def and_then_eq_Inr person_key_def image_iff split: if_splits option.splits)

lemma issue_token_ok:
  assumes "roster_ok r"
  shows "roster_ok (snd (issue_token digest c v clock wall secret k given about expiry by r))"
proof (cases "new_token digest c v clock wall secret k given about expiry by r")
  case (Inr row)
  have "roster_ok (r\<lparr>token_rows := token_rows r @ [row]\<rparr>)"
    using new_token_Inr [OF Inr] roster_okD(3,6) [OF assms] by (intro roster_ok_tokens [OF assms]) auto
  then show ?thesis
    using Inr by (simp add: issue_token_def)
qed (use assms in \<open>simp add: issue_token_def\<close>)

lemma revoke_token_ok:
  assumes "roster_ok r"
  shows "roster_ok (snd (revoke_token c clock parsed r))"
proof -
  let ?f = "\<lambda>t. t\<lparr>tok_revoked_at := Some clock\<rparr>"
  let ?r = "\<lambda>P. r\<lparr>token_rows := update_where P ?f (token_rows r)\<rparr>"
  have keys: "token_key (?f t) = token_key t" "tok_id (?f t) = tok_id t" for t :: token_row
    by (simp_all add: token_key_def)
  have "(tok_tenant t, tok_subject t) \<in> person_key ` set (principal_rows r)"
    if "t \<in> set (update_where P ?f (token_rows r))" for P t
    using that roster_okD(6) [OF assms] by (elim in_update_where) auto
  then have "roster_ok (?r P)" for P
    using roster_okD(3) [OF assms]
    by (intro roster_ok_tokens [OF assms]) (simp_all only: map_update_where image_update_where keys order_refl)
  then have "roster_ok ((?r P)\<lparr>session_rows := revoke_sessions clock Q (session_rows (?r P))\<rparr>)" for P Q
    by (rule revoke_sessions_ok)
  then show ?thesis
    using assms by (auto simp: revoke_token_def split: option.splits)
qed

lemma channel_audience_Inr:
  assumes "acts_for c t" "channel_audience c u asked r = Inr audience"
  shows "channel_ok (group_key ` set (group_rows r))
    \<lparr>ch_tenant = t, ch_id = key, ch_groups = audience, ch_updated_at = clock, ch_updated_by = by\<rparr>"
proof (cases audience)
  case None
  then show ?thesis
    by (simp add: channel_ok_def)
next
  case (Some gs)
  then have gs: "checked_groups c u (the asked) r = Inr gs" "length gs = 1" "UNRESTRICTED_GROUP \<notin> set gs"
    using assms(2) by (auto simp: channel_audience_def and_then_eq_Inr split: if_splits)
  then obtain l where "gs = [l]"
    by (metis One_nat_def length_0_conv length_Suc_conv)
  then show ?thesis
    using checked_groups_Inr [OF assms(1) gs(1)] gs(3) Some by (auto simp: channel_ok_def)
qed

lemma set_channel_ok:
  assumes "acts_for c t" "roster_ok r"
  shows "roster_ok (snd (set_channel c u upper clock given asked by r))"
proof (cases "channel_audience c u asked r")
  case (Inl e)
  then show ?thesis
    using assms(2) by (simp add: set_channel_def Let_def)
next
  case (Inr audience)
  have "channel_ok (group_key ` set (group_rows r)) (h\<lparr>ch_groups := audience, ch_updated_at := clock, ch_updated_by := by\<rparr>)"
    if "ch_tenant h = t" for h
    using channel_audience_Inr [OF assms(1) Inr, of "ch_id h" clock "by"] that by (simp add: channel_ok_def split: option.splits)
  moreover have "channel_ok (group_key ` set (group_rows r))
      \<lparr>ch_tenant = t, ch_id = key, ch_groups = audience, ch_updated_at = clock, ch_updated_by = by\<rparr>" for key
    using channel_audience_Inr [OF assms(1) Inr] .
  ultimately show ?thesis
    using assms Inr unfolding set_channel_def roster_ok_def
    by (auto simp: Let_def acts_for_def elim!: in_update_where)
qed

lemma delete_channel_ok: "roster_ok r \<Longrightarrow> roster_ok (snd (delete_channel c upper given r))"
  by (auto simp: delete_channel_def Let_def roster_ok_def)

lemma bootstrap_admin_state:
  "snd (bootstrap_admin digest c u v clock wall secret k given name by r) = r \<or>
   (\<exists>data r1. r1 = snd (create_principal c u v clock given data by r) \<and> d_is_admin data \<and>
     snd (bootstrap_admin digest c u v clock wall secret k given name by r) =
       snd (issue_token digest c v clock wall secret k given (lit ''bootstrap'') None by r1))"
proof -
  let ?data = "\<lparr>d_display_name = name, d_kind = lit ''person'', d_is_admin = True,
     d_groups = [JText UNRESTRICTED_GROUP], d_default_audience = JList [JText PUBLIC]\<rparr>"
  obtain x r1 where created: "create_principal c u v clock given ?data by r = (x, r1)"
    by force
  obtain y r2 where issued: "issue_token digest c v clock wall secret k given (lit ''bootstrap'') None by r1 = (y, r2)"
    by force
  have "snd (bootstrap_admin digest c u v clock wall secret k given name by r) \<in> {r, r2}"
    unfolding bootstrap_admin_def created
    by (cases x; cases y) (simp_all add: issued prod.case_eq_if del: lit_Cons lit_Nil)
  then show ?thesis
  proof (elim insertE emptyE)
    assume "snd (bootstrap_admin digest c u v clock wall secret k given name by r) = r2"
    then show ?thesis
      by (intro disjI2 exI [of _ ?data] exI [of _ r1]) (simp del: lit_Cons lit_Nil add: created issued)
  qed simp
qed

lemma bootstrap_admin_ok:
  assumes "acts_for c t" "roster_ok r"
  shows "roster_ok (snd (bootstrap_admin digest c u v clock wall secret k given name by r))"
  using bootstrap_admin_state [of digest c u v clock wall secret k given name "by" r] assms(2)
    issue_token_ok [OF create_principal_ok [OF assms]] by metis

lemma roster_step_ok: "roster_step digest retired r r' \<Longrightarrow> roster_ok r \<Longrightarrow> roster_ok r'"
proof (induction rule: roster_step.induct)
  case (elsewhere r ns k)
  then show ?case
    by (simp add: roster_ok_def)
qed (blast intro: seed_tenant_ok create_principal_ok update_principal_ok set_disabled_ok delete_principal_ok
    create_group_ok update_group_ok delete_group_ok issue_token_ok revoke_token_ok set_channel_ok delete_channel_ok
    bootstrap_admin_ok lightly_ok principal_for_token_lightly open_session_lightly session_principal_lightly
    close_session_lightly)+

section \<open>The last administrator\<close>

text \<open>A workspace keeps an administrator when the rows of its principals stay, or another remains.\<close>

lemma has_admin_same: "principal_rows r' = principal_rows r \<Longrightarrow> has_admin t r' = has_admin t r"
  by (simp add: has_admin_def)

lemma has_admin_append: "principal_rows r' = principal_rows r @ ps \<Longrightarrow> has_admin t r \<Longrightarrow> has_admin t r'"
  by (auto simp: has_admin_def)

lemma admins_left_other:
  "acts_for c t \<Longrightarrow> 0 < admins_left c who r \<Longrightarrow>
     \<exists>p \<in> set (principal_rows r). pr_tenant p = t \<and> pr_is_admin p \<and> enabled p \<and> pr_subject p \<noteq> who"
  by (auto simp: admins_left_def acts_for_visible filter_empty_conv length_greater_0_conv)

lemma unique_person:
  "roster_ok r \<Longrightarrow> p \<in> set (principal_rows r) \<Longrightarrow> q \<in> set (principal_rows r) \<Longrightarrow> person_key p = person_key q \<Longrightarrow> p = q"
  using roster_okD(1) by (auto simp: distinct_map inj_on_def)

lemma keeps_admin_update:
  assumes "acts_for c t" "roster_ok r" "has_admin s r" "principal_rows r' = update_where (named c who) f (principal_rows r)"
    and "\<And>p. pr_tenant (f p) = pr_tenant p"
    and "\<And>p. p \<in> set (principal_rows r) \<Longrightarrow> named c who p \<Longrightarrow> pr_is_admin p \<Longrightarrow> enabled p \<Longrightarrow>
      pr_is_admin (f p) \<and> enabled (f p) \<or> 0 < admins_left c who r"
  shows "has_admin s r'"
proof -
  obtain q where q: "q \<in> set (principal_rows r)" "pr_tenant q = s" "pr_is_admin q" "enabled q"
    using assms(3) by (auto simp: has_admin_def)
  have other: "has_admin s r'" if "p \<in> set (principal_rows r)" "pr_tenant p = s" "pr_is_admin p" "enabled p" "\<not> named c who p" for p
    using that by (auto simp: has_admin_def assms(4) update_where_def)
  show ?thesis
  proof (cases "named c who q")
    case False
    then show ?thesis
      using q other by blast
  next
    case True
    show ?thesis
    proof (cases "pr_is_admin (f q) \<and> enabled (f q)")
      case True
      then show ?thesis
        using q(1,2) \<open>named c who q\<close> assms(5) by (force simp: has_admin_def assms(4) update_where_def)
    next
      case False
      then obtain p where "p \<in> set (principal_rows r)" "pr_tenant p = t" "pr_is_admin p" "enabled p" "pr_subject p \<noteq> who"
        using assms(6) [OF q(1) True q(3,4)] admins_left_other [OF assms(1)] by blast
      moreover have "s = t"
        using True q(2) assms(1) by (auto simp: named_def acts_for_visible)
      ultimately show ?thesis
        using other by (auto simp: named_def)
    qed
  qed
qed

lemma changed_principal_keeps:
  assumes "acts_for c t" "roster_ok r" "changed_principal c u v given data r = Inr (who, f)"
    and "p \<in> set (principal_rows r)" "named c who p" "pr_is_admin p"
  shows "f_is_admin f \<or> 0 < admins_left c who r"
proof -
  obtain q where "find (named c who) (principal_rows r) = Some q" "pr_is_admin q \<longrightarrow> f_is_admin f \<or> 0 < admins_left c who r"
    using changed_principal_Inr [OF assms(3)] by blast
  moreover from this have "q = p"
    using find_eq_Some_in [of "named c who" "principal_rows r" q] assms(4,5) named_acts [OF assms(1)]
    by (intro unique_person [OF assms(2)]) auto
  ultimately show ?thesis
    using assms(6) by simp
qed

lemma removable_keeps:
  assumes "acts_for c t" "roster_ok r" "removable c v given losing why r = Inr who"
    and "p \<in> set (principal_rows r)" "named c who p" "pr_is_admin p" "enabled p" "losing"
  shows "0 < admins_left c who r"
proof -
  obtain q where "find (named c who) (principal_rows r) = Some q" "pr_is_admin q \<longrightarrow> enabled q \<longrightarrow> 0 < admins_left c who r"
    using assms(3,8) by (auto simp: removable_def and_then_eq_Inr split: option.splits if_splits)
  moreover from this have "q = p"
    using find_eq_Some_in [of "named c who" "principal_rows r" q] assms(4,5) named_acts [OF assms(1)]
    by (intro unique_person [OF assms(2)]) auto
  ultimately show ?thesis
    using assms(6,7) by simp
qed

lemma create_keeps_admin: "has_admin s r \<Longrightarrow> has_admin s (snd (create_principal c u v clock given data by r))"
  by (auto simp: create_principal_def Let_def split: sum.splits intro: has_admin_append)

lemma update_keeps_admin:
  assumes "acts_for c t" "roster_ok r" "has_admin s r"
  shows "has_admin s (snd (update_principal c u v clock given data by r))"
proof (cases "changed_principal c u v given data r")
  case (Inr wf)
  obtain who f where wf: "wf = (who, f)"
    by force
  have "has_admin s (r\<lparr>principal_rows := update_where (named c who) (with_fields clock by f) (principal_rows r)\<rparr>)"
    using changed_principal_keeps [OF assms(1,2), of u v given data who f] Inr wf
    by (intro keeps_admin_update [OF assms, where who = who and f = "with_fields clock by f"]) auto
  then show ?thesis
    using Inr wf by (simp add: update_principal_def Let_def)
qed (use assms(3) in \<open>simp add: update_principal_def\<close>)

lemma disable_keeps_admin:
  assumes "acts_for c t" "roster_ok r" "has_admin s r"
  shows "has_admin s (snd (set_disabled c v clock given off by r))"
proof (cases "removable c v given off ''the last administrator cannot be disabled'' r")
  case (Inr who)
  let ?f = "\<lambda>p. p\<lparr>pr_disabled_at := (if off then Some clock else None), pr_updated_at := clock, pr_updated_by := by\<rparr>"
  have "has_admin s (snd (set_disabled c v clock given off by r))" if "principal_rows (snd (set_disabled c v clock given off by r))
      = update_where (named c who) ?f (principal_rows r)"
    using that removable_keeps [OF assms(1,2) Inr]
    by (intro keeps_admin_update [OF assms that]) (auto simp: enabled_def)
  then show ?thesis
    using Inr by (simp add: set_disabled_def)
qed (use assms(3) in \<open>simp add: set_disabled_def\<close>)

lemma delete_keeps_admin:
  assumes "acts_for c t" "roster_ok r" "has_admin s r"
  shows "has_admin s (snd (delete_principal c v given r))"
proof (cases "removable c v given True ''the last administrator cannot be deleted'' r")
  case (Inr who)
  have gone: "principal_rows (snd (delete_principal c v given r)) = filter (\<lambda>p. \<not> named c who p) (principal_rows r)"
    using Inr assms(1) by (auto simp: delete_principal_def without_holders_def named_acts person_key_def intro!: filter_cong)
  obtain q where q: "q \<in> set (principal_rows r)" "pr_tenant q = s" "pr_is_admin q" "enabled q"
    using assms(3) by (auto simp: has_admin_def)
  have "\<exists>p \<in> set (principal_rows r). pr_tenant p = s \<and> pr_is_admin p \<and> enabled p \<and> \<not> named c who p"
  proof (cases "named c who q")
    case True
    then have "s = t"
      using q(2) assms(1) by (auto simp: named_def acts_for_visible)
    then show ?thesis
      using admins_left_other [OF assms(1) removable_keeps [OF assms(1,2) Inr q(1) True q(3,4)]] by (auto simp: named_def)
  qed (use q in blast)
  then show ?thesis
    by (auto simp: has_admin_def gone)
qed (use assms(3) in \<open>simp add: delete_principal_def\<close>)

lemma same_people:
  "principal_rows (snd (seed_tenant c r)) = principal_rows r"
  "principal_rows (snd (create_group c given about by r)) = principal_rows r"
  "principal_rows (snd (update_group c name about r)) = principal_rows r"
  "principal_rows (snd (delete_group c name r)) = principal_rows r"
  "principal_rows (snd (issue_token digest c v clock wall secret k given about expiry by r)) = principal_rows r"
  "principal_rows (snd (revoke_token c clock parsed r)) = principal_rows r"
  "principal_rows (snd (set_channel c u upper clock given asked by r)) = principal_rows r"
  "principal_rows (snd (delete_channel c upper given r)) = principal_rows r"
  by (simp_all add: seed_tenant_def create_group_def update_group_def delete_group_def issue_token_def revoke_token_def
    set_channel_def delete_channel_def Let_def split: option.splits sum.splits)

lemma lightly_people: "lightly r r' \<Longrightarrow> principal_rows r' = principal_rows r"
  by (simp add: lightly_def)

lemma bootstrap_keeps_admin:
  "has_admin s r \<Longrightarrow> has_admin s (snd (bootstrap_admin digest c u v clock wall secret k given name by r))"
  using bootstrap_admin_state [of digest c u v clock wall secret k given name "by" r]
proof (elim disjE exE conjE)
  fix data r1
  assume "has_admin s r" "r1 = snd (create_principal c u v clock given data by r)"
    and final: "snd (bootstrap_admin digest c u v clock wall secret k given name by r) =
       snd (issue_token digest c v clock wall secret k given (lit ''bootstrap'') None by r1)"
  then have "has_admin s r1"
    by (simp only: create_keeps_admin)
  then show ?thesis
    unfolding final by (rule has_admin_same [OF same_people(5), THEN iffD2])
qed simp

lemma step_keeps_admin:
  "roster_step digest retired r r' \<Longrightarrow> roster_ok r \<Longrightarrow> has_admin s r \<Longrightarrow> has_admin s r'"
proof (induction rule: roster_step.induct)
  case (elsewhere r ns k)
  then show ?case
    by (simp add: has_admin_def)
qed (blast intro: create_keeps_admin update_keeps_admin disable_keeps_admin delete_keeps_admin bootstrap_keeps_admin
    has_admin_same [THEN iffD2] same_people lightly_people principal_for_token_lightly open_session_lightly
    session_principal_lightly close_session_lightly)+

section \<open>Dead tokens stay dead\<close>

definition dead :: "uuid \<Rightarrow> roster \<Rightarrow> bool" where
  "dead k r \<longleftrightarrow> (\<forall>t \<in> set (token_rows r). tok_id t = k \<longrightarrow> tok_revoked_at t \<noteq> None)"

lemma dead_same: "token_rows r' = token_rows r \<Longrightarrow> dead k r' = dead k r"
  by (simp add: dead_def)

lemma lightly_dead:
  assumes "lightly r r'" "dead k r"
  shows "dead k r'"
proof -
  have "token_state ` set (token_rows r') = token_state ` set (token_rows r)"
    using assms(1) by (metis lightly_def list.set_map)
  moreover have "dead k x \<longleftrightarrow> (\<forall>st \<in> token_state ` set (token_rows x). fst (fst st) = k \<longrightarrow> snd st \<noteq> None)" for x
    by (auto simp: dead_def token_state_def token_key_def)
  ultimately show ?thesis
    using assms(2) by (simp only:)
qed

lemma same_tokens:
  "token_rows (snd (seed_tenant c r)) = token_rows r"
  "token_rows (snd (create_principal c u v clock given data by r)) = token_rows r"
  "token_rows (snd (update_principal c u v clock given change by r)) = token_rows r"
  "token_rows (snd (set_disabled c v clock given off by r)) = token_rows r"
  "token_rows (snd (create_group c given about by r)) = token_rows r"
  "token_rows (snd (update_group c name about r)) = token_rows r"
  "token_rows (snd (delete_group c name r)) = token_rows r"
  "token_rows (snd (set_channel c u upper clock given asked by r)) = token_rows r"
  "token_rows (snd (delete_channel c upper given r)) = token_rows r"
  by (simp_all add: seed_tenant_def create_principal_def update_principal_def set_disabled_def create_group_def
    update_group_def delete_group_def set_channel_def delete_channel_def Let_def split: option.splits sum.splits prod.splits)

lemma delete_principal_dead: "dead k r \<Longrightarrow> dead k (snd (delete_principal c v given r))"
  by (auto simp: dead_def delete_principal_def without_holders_def split: sum.splits)

lemma issue_token_dead:
  "j \<noteq> k \<Longrightarrow> dead k r \<Longrightarrow> dead k (snd (issue_token digest c v clock wall secret j given about expiry by r))"
  by (auto simp: dead_def issue_token_def dest: new_token_Inr split: sum.splits)

lemma revoke_token_dead: "dead k r \<Longrightarrow> dead k (snd (revoke_token c clock parsed r))"
  by (auto simp: dead_def revoke_token_def elim!: in_update_where split: option.splits)

lemma bootstrap_dead:
  "j \<noteq> k \<Longrightarrow> dead k r \<Longrightarrow> dead k (snd (bootstrap_admin digest c u v clock wall secret j given name by r))"
  using bootstrap_admin_state [of digest c u v clock wall secret j given name "by" r]
proof (elim disjE exE conjE)
  fix data r1
  assume j: "j \<noteq> k" and "dead k r" "r1 = snd (create_principal c u v clock given data by r)"
    and final: "snd (bootstrap_admin digest c u v clock wall secret j given name by r) =
       snd (issue_token digest c v clock wall secret j given (lit ''bootstrap'') None by r1)"
  then have "dead k r1"
    by (simp only: dead_same [OF same_tokens(2)])
  then show ?thesis
    unfolding final by (rule issue_token_dead [OF j])
qed simp

lemma step_dead: "roster_step digest retired r r' \<Longrightarrow> k \<in> retired \<Longrightarrow> dead k r \<Longrightarrow> dead k r'"
proof (induction rule: roster_step.induct)
  case (elsewhere r ns k)
  then show ?case
    by (simp add: dead_def)
next
  case (issue_token c t j r v clock wall secret given about expiry "by")
  then show ?case
    by (intro issue_token_dead) auto
next
  case (bootstrap_admin c t j r u v clock wall secret given name "by")
  then show ?case
    by (intro bootstrap_dead) auto
qed (blast intro: delete_principal_dead revoke_token_dead lightly_dead dead_same [THEN iffD2] same_tokens
    principal_for_token_lightly open_session_lightly session_principal_lightly close_session_lightly)+

lemma steps_ok: "(roster_step digest retired)\<^sup>*\<^sup>* r r' \<Longrightarrow> roster_ok r \<Longrightarrow> roster_ok r'"
  by (induction rule: rtranclp_induct) (blast intro: roster_step_ok)+

lemma steps_dead: "(roster_step digest retired)\<^sup>*\<^sup>* r r' \<Longrightarrow> k \<in> retired \<Longrightarrow> dead k r \<Longrightarrow> dead k r'"
  by (induction rule: rtranclp_induct) (blast intro: step_dead)+

text \<open>
  C23. A roster stays consistent under every operation, lookup and session: administrators are people
  of the unrestricted group, every group a person or channel names exists and is a layer or that
  group, defaults are public or a layer of their person, and tokens and sessions have their holders.
  And a workspace that has an enabled administrator always has one.
\<close>

theorem roster_invariant:
  assumes "roster_ok r" "(roster_step digest retired)\<^sup>*\<^sup>* r r'"
  shows "roster_ok r' \<and> (has_admin t r \<longrightarrow> has_admin t r')"
proof -
  have "has_admin t r' \<and> roster_ok r'" if "has_admin t r"
    using assms(2,1) that by (induction rule: rtranclp_induct) (blast intro: step_keeps_admin roster_step_ok)+
  then show ?thesis
    using steps_ok [OF assms(2,1)] by blast
qed

lemma session_lookup_Inr:
  assumes "session_lookup digest clock secret (c, r) = (Inr x, c', r')"
  shows "\<exists>s \<in> set (session_rows r). \<exists>t \<in> set (token_rows r). \<exists>p \<in> set (principal_rows r).
    ses_sha s = digest secret \<and> session_live clock s \<and> session_token x = ses_token s \<and>
    tok_id t = ses_token s \<and> token_live clock t \<and> session_who x = principal_of p \<and>
    person_key p = (ses_tenant s, ses_subject s) \<and> enabled p \<and> tenant_is_live r (pr_tenant p)"
proof -
  obtain s p where s: "find (\<lambda>s. row_visible c (ses_tenant s) \<and> ses_sha s = digest secret \<and> session_live clock s \<and>
         holder c (ses_tenant s) (ses_subject s) r \<noteq> None \<and>
         (\<exists>t \<in> set (token_rows r). row_visible c (tok_tenant t) \<and> tok_id t = ses_token s \<and> token_live clock t))
         (session_rows r) = Some s"
      and p: "holder c (ses_tenant s) (ses_subject s) r = Some p"
      and x: "session_token x = ses_token s" "session_who x = principal_of p"
    using assms by (auto simp: session_lookup_def split: option.splits)
  show ?thesis
    using find_eq_Some_in [OF s] holder_Some [OF p] x by blast
qed

lemma session_principal_Inr:
  assumes "session_principal digest clock secret (c, r) = (Inr x, c', r')"
  shows "\<exists>s \<in> set (session_rows r). \<exists>t \<in> set (token_rows r). \<exists>p \<in> set (principal_rows r).
    ses_sha s = digest secret \<and> session_live clock s \<and> session_token x = ses_token s \<and>
    tok_id t = ses_token s \<and> token_live clock t \<and> session_who x = principal_of p \<and>
    person_key p = (ses_tenant s, ses_subject s) \<and> enabled p \<and> tenant_is_live r (pr_tenant p)"
proof -
  obtain c1 c2 where "session_lookup digest clock secret (c1, r) = (Inr x, c2, r')"
    using assms by (auto simp: session_principal_def split: if_splits dest!: platform_scope_Inr)
  then show ?thesis
    by (rule session_lookup_Inr)
qed

lemma result_case:
  "(\<And>x c' r'. z = (Inr x, c', r') \<Longrightarrow> P x) \<Longrightarrow> (case fst z of Inl _ \<Rightarrow> True | Inr x \<Rightarrow> P x)"
  by (cases z; cases "fst z") simp_all

text \<open>
  A credential opens only what is current. A bearer token authenticates as the enabled principal of
  a workspace that is not suspended whose live token it is; a session value only while the session is
  live, the token it was opened with is live, and its principal is enabled.
\<close>

theorem credentials_are_current:
  "(case fst (principal_for_token digest clock token (c, r)) of
      Inl _ \<Rightarrow> True
    | Inr (who, k) \<Rightarrow> holds_token digest clock token r who k) \<and>
   (case fst (session_principal digest clock secret (c, r)) of
      Inl _ \<Rightarrow> True
    | Inr x \<Rightarrow> \<exists>s \<in> set (session_rows r). \<exists>t \<in> set (token_rows r). \<exists>p \<in> set (principal_rows r).
        ses_sha s = digest secret \<and> session_live clock s \<and> session_token x = ses_token s \<and>
        tok_id t = ses_token s \<and> token_live clock t \<and> session_who x = principal_of p \<and>
        person_key p = (ses_tenant s, ses_subject s) \<and> enabled p \<and> tenant_is_live r (pr_tenant p))"
  by (intro conjI result_case) (clarsimp simp: principal_for_token_Inr, erule session_principal_Inr)

text \<open>
  C24. A revoked token is revoked for good: once its revocation succeeded, no run of the roster lets it
  or a session opened with it authenticate again.
\<close>

theorem revoked_token_is_dead:
  assumes "roster_ok r" "acts_for c t" "revoke_token c clock (Some k) r = (Inr who, r1)"
    and "k \<in> retired" "(roster_step digest retired)\<^sup>*\<^sup>* r1 r2"
  shows "(case fst (principal_for_token digest later token (c2, r2)) of Inl _ \<Rightarrow> True | Inr (_, j) \<Rightarrow> j \<noteq> k) \<and>
    (case fst (session_principal digest later secret (c2, r2)) of Inl _ \<Rightarrow> True | Inr x \<Rightarrow> session_token x \<noteq> k)"
proof -
  obtain held where held: "held \<in> set (token_rows r)" "row_visible c (tok_tenant held)" "tok_id held = k"
    and r1: "token_rows r1 = update_where (\<lambda>t. row_visible c (tok_tenant t) \<and> tok_id t = k)
       (\<lambda>t. t\<lparr>tok_revoked_at := Some clock\<rparr>) (token_rows r)"
    using assms(3) by (auto simp: revoke_token_def split: option.splits dest!: find_eq_Some_in)
  have seen: "row_visible c (tok_tenant s)" if "s \<in> set (token_rows r)" "tok_id s = k" for s
    using that held roster_okD(3) [OF assms(1)] by (metis distinct_map inj_onD)
  have "dead k r1"
    unfolding dead_def r1
  proof (intro ballI impI)
    fix s
    assume "s \<in> set (update_where (\<lambda>t. row_visible c (tok_tenant t) \<and> tok_id t = k)
       (\<lambda>t. t\<lparr>tok_revoked_at := Some clock\<rparr>) (token_rows r))" "tok_id s = k"
    then show "tok_revoked_at s \<noteq> None"
      using seen by (elim in_update_where) auto
  qed
  then have "dead k r2"
    by (rule steps_dead [OF assms(5,4)])
  then have never: "\<not> (tok_id t = k \<and> token_live later t)" if "t \<in> set (token_rows r2)" for t
    using that by (auto simp: dead_def token_live_def)
  then have "\<not> holds_token digest later token r2 p k" for p
    by (auto simp: holds_token_def)
  then show ?thesis
    using never by (intro conjI result_case) (auto dest!: principal_for_token_Inr session_principal_Inr)
qed

section \<open>A small workspace\<close>

text \<open>One workspace with one administrator and one token.\<close>

definition example_admin :: principal_row where
  "example_admin = \<lparr>pr_tenant = 1, pr_subject = lit ''ann@x.io'', pr_display_name = lit ''Ann'', pr_kind = Person,
     pr_is_admin = True, pr_groups = [UNRESTRICTED_GROUP], pr_default_audience = Some [PUBLIC], pr_disabled_at = None,
     pr_created_at = 0, pr_created_by = [], pr_updated_at = 0, pr_updated_by = []\<rparr>"

definition example_token :: token_row where
  "example_token = \<lparr>tok_id = 5, tok_tenant = 1, tok_subject = lit ''ann@x.io'', tok_label = lit ''laptop'', tok_prefix = [],
     tok_sha = lit ''stg_1'', tok_created_at = 0, tok_created_by = [], tok_last_used_at = None, tok_expires_at = None,
     tok_revoked_at = None\<rparr>"

definition example_roster :: roster where
  "example_roster = \<lparr>live_tenants = [], group_rows = [\<lparr>group_tenant = 1, group_name = UNRESTRICTED_GROUP,
       group_description = [], group_created_by = []\<rparr>],
     principal_rows = [example_admin], token_rows = [example_token], session_rows = [], channel_rows = [],
     content = \<lparr>index_rows = None, page_acls = None, queued_captures = None, change_times = None\<rparr>\<rparr>"

definition example_console :: conn where
  "example_console = \<lparr>tenant_setting = Some 1, scope_setting = [], in_failed_transaction = False\<rparr>"

lemma example_console_acts: "acts_for example_console 1"
  by (simp add: acts_for_def example_console_def)

lemma example_roster_ok: "roster_ok example_roster"
  by (simp add: roster_ok_def example_roster_def person_ok_def example_admin_def example_token_def group_key_def
    person_key_def del: lit_Cons lit_Nil)

lemma example_step:
  "(roster_step (\<lambda>s. s) {})\<^sup>*\<^sup>* example_roster
     (snd (set_disabled example_console ascii_more 7 (lit ''ann@x.io'') True [] example_roster))"
  by (intro r_into_rtranclp roster_step.set_disabled [OF example_console_acts])

lemma example_has_admin: "has_admin 1 example_roster"
  by (simp add: has_admin_def example_roster_def example_admin_def enabled_def)

theorem roster_invariant_witness:
  "has_admin 1 (snd (set_disabled example_console ascii_more 7 (lit ''ann@x.io'') True [] example_roster))"
  using roster_invariant [OF example_roster_ok example_step, of 1] example_has_admin by blast

lemma example_revoked:
  "revoke_token example_console 7 (Some 5) example_roster =
     (Inr (lit ''ann@x.io''), example_roster\<lparr>token_rows := [example_token\<lparr>tok_revoked_at := Some 7\<rparr>]\<rparr>)"
  by (simp add: revoke_token_def example_roster_def example_token_def example_console_def row_visible_def
    revoke_sessions_def update_where_def del: lit_Cons lit_Nil)

theorem revoked_token_is_dead_witness:
  "case fst (principal_for_token (\<lambda>s. s) 9 (lit ''stg_1'') (example_console,
       example_roster\<lparr>token_rows := [example_token\<lparr>tok_revoked_at := Some 7\<rparr>]\<rparr>)) of
     Inl _ \<Rightarrow> True | Inr (_, j) \<Rightarrow> j \<noteq> 5"
  using revoked_token_is_dead [OF example_roster_ok example_console_acts example_revoked insertI1,
      where digest = "\<lambda>s. s" and later = 9 and token = "lit ''stg_1''", OF rtranclp.rtrancl_refl]
  by blast

end
