(* ===== verification/Py_Time.thy ===== *)
theory Py_Time
  imports Py_Num
begin

text \<open>
  Python's \<open>datetime\<close> in UTC, as the modelled modules use it: the calendar day of an instant, counted in
  microseconds since 1970, and its \<open>isoformat\<close>.
\<close>

definition DAY :: int where "DAY = 86400000000"

text \<open>The proleptic Gregorian date of a day counted from 1970-01-01: years start in March.\<close>

definition civil :: "int \<Rightarrow> int \<times> int \<times> int" where
  "civil days =
     (let z = days + 719468; era = z div 146097; doe = z mod 146097;
          yoe = (doe - doe div 1460 + doe div 36524 - doe div 146096) div 365;
          doy = doe - (365 * yoe + yoe div 4 - yoe div 100); mp = (5 * doy + 2) div 153;
          d = doy - (153 * mp + 2) div 5 + 1; mo = (if mp < 10 then mp + 3 else mp - 9);
          y = yoe + era * 400 + (if mo \<le> 2 then 1 else 0)
      in (y, mo, d))"

definition padded :: "nat \<Rightarrow> nat \<Rightarrow> pystr" where
  "padded n k = replicate (n - length (str_nat k)) 48 @ str_nat k"

definition year_month :: "timestamp \<Rightarrow> int \<times> int" where
  "year_month t = (let (y, mo, d) = civil (t div DAY) in (y, mo))"

definition iso_day_text :: "timestamp \<Rightarrow> pystr" where
  "iso_day_text t =
     (let (y, mo, d) = civil (t div DAY) in padded 4 (nat y) @ [45] @ padded 2 (nat mo) @ [45] @ padded 2 (nat d))"

definition iso_moment :: "timestamp \<Rightarrow> pystr" where
  "iso_moment t =
     (let us = t mod DAY; s = us div 1000000; micro = us mod 1000000 in
      iso_day_text t @ [84] @ padded 2 (nat (s div 3600)) @ [58] @ padded 2 (nat (s div 60 mod 60)) @ [58] @
      padded 2 (nat (s mod 60)) @ (if micro = 0 then [] else [46] @ padded 6 (nat micro)) @ lit ''+00:00'')"

lemma civil_epoch: "civil 0 = (1970, 1, 1)"
  by code_simp

lemma civil_day: "civil 20515 = (2026, 3, 3)"
  by code_simp

lemma civil_before_epoch: "civil (-1) = (1969, 12, 31)"
  by code_simp

end
