(* ===== verification/Pages.thy ===== *)
theory Pages
  imports Py_Url Py_Time Layer_Bodies
begin

text \<open>
  The page contract of \<open>stigmergy/knowledge/pages.py\<close>, the name keys of \<open>stigmergy/kernel/normalize.py\<close>
  and the split of a page's front matter of \<open>stigmergy/index/corpus.py\<close>. PyYAML is a parameter: what
  it dumps a mapping to, what it loads from a text (nothing where it raises \<open>YAMLError\<close>), and \<open>str\<close>
  and truth of a loaded value. A date is the number whose decimal digits are its year, month and day;
  of the forms \<open>date.fromisoformat\<close> reads, only \<open>YYYY-MM-DD\<close> is modelled.
\<close>

section \<open>Name keys\<close>

definition resolution_key :: "unicode_more \<Rightarrow> pystr \<Rightarrow> pystr" where
  "resolution_key v name =
     one_line (map (\<lambda>c. if c \<in> {46, 44, 40, 41, 34, 39, 47} then SP else c)
       (map ascii_lower (filter (\<lambda>c. c < 128) (nfkd v name))))"

section \<open>Front matter\<close>

datatype yaml =
    YNull
  | YText pystr
  | YDate nat
  | YInt int
  | YList "yaml list"
  | YMap "(pystr \<times> yaml) list"
  | YOther pystr

type_synonym metadata = "(pystr \<times> yaml) list"

record yaml_lib =
  yaml_dump :: "metadata \<Rightarrow> pystr"
  yaml_load :: "pystr \<Rightarrow> yaml option"
  yaml_str :: "yaml \<Rightarrow> pystr"
  yaml_true :: "yaml \<Rightarrow> bool"

definition blanks :: regex where "blanks = Star True (any_of [32, 9])"
definition line_end :: regex where "line_end = Seq (opt (chr 13)) (chr 10)"
definition dashes :: regex where "dashes = word (lit ''---'')"

definition OPENS_FRONTMATTER_RE :: regex where
  "OPENS_FRONTMATTER_RE = seq [Bol, opt (chr 65279), dashes, blanks, line_end]"

definition FRONTMATTER_RE :: regex where
  "FRONTMATTER_RE = seq [OPENS_FRONTMATTER_RE, Group 1 (Star False (Sat (\<lambda>_. True))), line_end, dashes, blanks,
     opt (chr 13), opt (chr 10), Group 2 (Star True (Sat (\<lambda>_. True))), Eol]"

definition DECLARES_ACL_RE :: regex where
  "DECLARES_ACL_RE = seq [Alt (Alt Bol (Behind True (\<lambda>c. c = 10))) (Seq (any_of [44, 123]) blanks), opt (any_of [39, 34]),
     word (lit ''acl''), opt (any_of [39, 34]), blanks, chr 58]"

text \<open>The text before the first blank line, with CR LF read as LF.\<close>

fun unix_lines :: "pystr \<Rightarrow> pystr" where
  "unix_lines [] = []"
| "unix_lines (c # s) = (if c = 13 \<and> starts_with [10] s then unix_lines s else c # unix_lines s)"

fun before_blank :: "pystr \<Rightarrow> pystr" where
  "before_blank [] = []"
| "before_blank (c # s) = (if c = 10 \<and> starts_with [10] s then [] else c # before_blank s)"

definition asked_for_an_audience :: "yaml_lib \<Rightarrow> pystr \<Rightarrow> bool" where
  "asked_for_an_audience lib after_opener =
     (let block = before_blank (unix_lines after_opener) in
      case yaml_load lib block of
        None \<Rightarrow> search DECLARES_ACL_RE block \<noteq> None
      | Some (YMap m) \<Rightarrow> lit ''acl'' \<in> fst ` set m
      | Some _ \<Rightarrow> False)"

definition captured_text :: "nat \<Rightarrow> found \<Rightarrow> pystr" where
  "captured_text n m = (case group_of m n of Some s \<Rightarrow> s | None \<Rightarrow> [])"

definition split_frontmatter_checked :: "yaml_lib \<Rightarrow> pystr \<Rightarrow> metadata \<times> pystr \<times> bool" where
  "split_frontmatter_checked lib body =
     (case match_at FRONTMATTER_RE body 0 of
        Some m \<Rightarrow>
          (case yaml_load lib (captured_text 1 m) of
             None \<Rightarrow> ([], body, True)
           | Some YNull \<Rightarrow> ([], captured_text 2 m, False)
           | Some (YMap meta) \<Rightarrow> (meta, captured_text 2 m, False)
           | Some _ \<Rightarrow> ([], captured_text 2 m, True))
      | None \<Rightarrow>
          ([], body,
           case match_at OPENS_FRONTMATTER_RE body 0 of
             None \<Rightarrow> False
           | Some opener \<Rightarrow> asked_for_an_audience lib (drop (to_pos opener) body)))"

section \<open>Pages\<close>

datatype role = Note | Concept | Entity_Page | Project

definition ROLES :: "role list" where "ROLES = [Note, Concept, Entity_Page, Project]"

definition role_text :: "role \<Rightarrow> pystr" where
  "role_text r =
     (case r of Note \<Rightarrow> lit ''note'' | Concept \<Rightarrow> lit ''concept'' | Entity_Page \<Rightarrow> lit ''entity'' | Project \<Rightarrow> lit ''project'')"

definition FOLDERS :: "role \<Rightarrow> pystr" where
  "FOLDERS r =
     (case r of Note \<Rightarrow> lit ''wiki/notes'' | Concept \<Rightarrow> lit ''wiki/concepts'' | Entity_Page \<Rightarrow> lit ''wiki/entities''
      | Project \<Rightarrow> lit ''wiki/projects'')"

definition role_of :: "yaml \<Rightarrow> role option" where
  "role_of y = find (\<lambda>r. y = YText (role_text r)) ROLES"

definition page_statuses :: "pystr list" where
  "page_statuses = [lit ''seed'', lit ''developing'', lit ''mature'', lit ''evergreen'']"

definition ENTITY_TYPES :: "pystr list" where
  "ENTITY_TYPES = [lit ''person'', lit ''organization'', lit ''product'', lit ''tool'', lit ''repository'', lit ''place'']"

definition MAX_FILENAME_BYTES :: nat where "MAX_FILENAME_BYTES = 255"

record page =
  page_at :: pystr
  page_id :: pystr
  page_role :: role
  page_title :: pystr
  page_status :: pystr
  page_created :: nat
  page_updated :: nat
  page_acl :: acl
  page_sources :: "pystr list"
  page_body :: pystr
  page_entity_type :: "pystr option"
  page_aliases :: "pystr list"

definition name_keys :: "unicode_more \<Rightarrow> page \<Rightarrow> pystr list" where
  "name_keys v p = fromkeys (map (resolution_key v) (page_title p # page_aliases p))"

definition UNSAFE_TITLE :: regex where
  "UNSAFE_TITLE = plus (Sat (\<lambda>c. 0 \<le> c \<and> c \<le> 31 \<or> c \<in> {127, 47, 92, 58, 42, 63, 34, 60, 62, 124, 91, 93, 96, 35}))"

definition title_stem :: "unicode_more \<Rightarrow> pystr \<Rightarrow> pystr" where
  "title_stem v title = strip_chars [32, 46, 45] (re_sub UNSAFE_TITLE (\<lambda>_. [45]) (nfc v (one_line title)))"

definition MD :: pystr where "MD = lit ''.md''"

definition contract_error :: "string \<Rightarrow> 'a result" where
  "contract_error m = Inl (PageContractError (lit m))"

definition page_path :: "unicode_more \<Rightarrow> role \<Rightarrow> pystr \<Rightarrow> pystr result" where
  "page_path v r title =
     (let filename = title_stem v title in
      if filename = [] then contract_error ''page title cannot form a filename''
      else if MAX_FILENAME_BYTES < utf8_size (filename @ MD) then contract_error ''page title forms an oversized filename''
      else Inr (FOLDERS r @ [SLASH] @ filename @ MD))"

definition in_folder :: "pystr \<Rightarrow> role \<Rightarrow> bool" where
  "in_folder path r \<longleftrightarrow>
     starts_with (FOLDERS r @ [SLASH]) path \<and> ends_with MD path \<and> SLASH \<notin> set (drop (length (FOLDERS r) + 1) path)"

definition path_role :: "pystr \<Rightarrow> role option" where
  "path_role path = find (in_folder path) ROLES"

text \<open>Dates as text.\<close>

definition iso_text :: "nat \<Rightarrow> pystr" where
  "iso_text d = padded 4 (d div 10000) @ [45] @ padded 2 (d div 100 mod 100) @ [45] @ padded 2 (d mod 100)"

definition date_of_text :: "pystr \<Rightarrow> nat option" where
  "date_of_text s = (if length s = 10 \<and> s ! 4 = 45 \<and> s ! 7 = 45 then iso_date s else None)"

section \<open>Fields of the front matter\<close>

fun text_items :: "yaml list \<Rightarrow> pystr list option" where
  "text_items [] = Some []"
| "text_items (y # ys) =
     (case (y, text_items ys) of
        (YText s, Some ss) \<Rightarrow> if blank s then None else Some (strip s # ss)
      | _ \<Rightarrow> None)"

definition strings :: "yaml option \<Rightarrow> pystr list result" where
  "strings value =
     (case value of
        Some (YList ys) \<Rightarrow>
          (case text_items ys of
             None \<Rightarrow> contract_error ''must be a string list''
           | Some ss \<Rightarrow> if distinct ss then Inr ss else contract_error ''contains duplicates'')
      | _ \<Rightarrow> contract_error ''must be a string list'')"

definition strings_or_none :: "yaml option \<Rightarrow> acl result" where
  "strings_or_none value =
     (case value of
        None \<Rightarrow> Inr None
      | Some YNull \<Rightarrow> Inr None
      | Some y \<Rightarrow> and_then (strings (Some y)) (\<lambda>ss. if ss = [] then contract_error ''cannot be empty'' else Inr (Some ss)))"

definition valid_entity_type :: "pystr option \<Rightarrow> pystr result" where
  "valid_entity_type value =
     (case value of
        Some s \<Rightarrow> if s \<in> set ENTITY_TYPES then Inr s else contract_error ''entity type is invalid''
      | None \<Rightarrow> contract_error ''entity type is invalid'')"

definition valid_aliases :: "unicode_more \<Rightarrow> pystr list \<Rightarrow> pystr \<Rightarrow> pystr list result" where
  "valid_aliases v values title =
     (let cleaned = map one_line values; keys = map (resolution_key v) cleaned in
      if list_ex (\<lambda>k. \<not> list_ex (is_alnum v) k) keys then contract_error ''aliases must contain searchable text''
      else if \<not> distinct keys \<or> resolution_key v title \<in> set keys
      then contract_error ''aliases must be unique and differ from the title''
      else Inr cleaned)"

section \<open>Rendering and parsing\<close>

text \<open>The identifier and the dates are given; the code's defaults for them are the callers'.\<close>

definition entity_fields :: "unicode_more \<Rightarrow> page \<Rightarrow> pystr \<Rightarrow> metadata result" where
  "entity_fields v p clean_title =
     (if page_role p = Entity_Page
      then and_then (valid_entity_type (page_entity_type p)) (\<lambda>t.
        and_then (valid_aliases v (page_aliases p) clean_title) (\<lambda>as.
          Inr [(lit ''entity_type'', YText t), (lit ''aliases'', YList (map YText as))]))
      else if page_entity_type p \<noteq> None \<or> page_aliases p \<noteq> []
      then contract_error ''only entity pages carry an entity type or aliases''
      else Inr [])"

definition page_metadata :: "page \<Rightarrow> pystr \<Rightarrow> metadata" where
  "page_metadata p clean_title =
     [(lit ''id'', YText (page_id p)), (lit ''type'', YText (role_text (page_role p))), (lit ''title'', YText clean_title),
      (lit ''status'', YText (page_status p)), (lit ''created'', YText (iso_text (page_created p))),
      (lit ''updated'', YText (iso_text (page_updated p))),
      (lit ''acl'', case page_acl p of None \<Rightarrow> YNull | Some ls \<Rightarrow> YList (map YText ls)),
      (lit ''sources'', YList (map YText (fromkeys (page_sources p))))]"

definition render_page :: "yaml_lib \<Rightarrow> unicode_more \<Rightarrow> page \<Rightarrow> pystr result" where
  "render_page lib v p =
     and_then (page_path v (page_role p) (page_title p)) (\<lambda>expected.
       if page_at p \<noteq> expected then contract_error ''page path does not match its role and title''
       else if page_status p \<notin> set page_statuses then contract_error ''invalid editorial status''
       else let clean_title = one_line (page_title p) in
         and_then (entity_fields v p clean_title) (\<lambda>entity.
           let yaml_text = rstrip (yaml_dump lib (page_metadata p clean_title @ entity)); body = strip (page_body p) in
           if body = [] then contract_error ''page body is empty''
           else let titled = (if starts_with (lit ''# '') body then body else lit ''# '' @ clean_title @ [NL, NL] @ body) in
             Inr (lit ''---'' @ [NL] @ yaml_text @ [NL] @ lit ''---'' @ [NL, NL] @ titled @ [NL])))"

definition date_field :: "yaml_lib \<Rightarrow> yaml option \<Rightarrow> nat result" where
  "date_field lib value =
     (case Option.bind value (\<lambda>y. date_of_text (yaml_str lib y)) of
        None \<Rightarrow> contract_error ''page dates are invalid''
      | Some d \<Rightarrow> Inr d)"

definition id_field :: "yaml_lib \<Rightarrow> yaml option \<Rightarrow> pystr" where
  "id_field lib value = (case value of None \<Rightarrow> [] | Some y \<Rightarrow> if yaml_true lib y then strip (yaml_str lib y) else [])"

definition parse_entity :: "unicode_more \<Rightarrow> metadata \<Rightarrow> role \<Rightarrow> pystr \<Rightarrow> (pystr option \<times> pystr list) result" where
  "parse_entity v meta r title =
     (if r = Entity_Page
      then and_then (valid_entity_type (case map_of meta (lit ''entity_type'') of Some (YText s) \<Rightarrow> Some s | _ \<Rightarrow> None)) (\<lambda>t.
        and_then (strings (map_of meta (lit ''aliases''))) (\<lambda>raw.
          and_then (valid_aliases v raw title) (\<lambda>as. Inr (Some t, as))))
      else if lit ''entity_type'' \<in> fst ` set meta \<or> lit ''aliases'' \<in> fst ` set meta
      then contract_error ''only entity pages carry an entity type or aliases''
      else Inr (None, []))"

definition parse_page :: "yaml_lib \<Rightarrow> unicode_more \<Rightarrow> pystr \<Rightarrow> pystr \<Rightarrow> page result" where
  "parse_page lib v path contents =
     (let (meta, body, malformed) = split_frontmatter_checked lib contents in
      if malformed \<or> meta = [] then contract_error ''page frontmatter is invalid''
      else case (Option.bind (map_of meta (lit ''type'')) role_of, map_of meta (lit ''title''), map_of meta (lit ''status'')) of
        (Some r, Some (YText title), Some (YText status)) \<Rightarrow>
          if status \<notin> set page_statuses then contract_error ''page role, title, or status is invalid''
          else and_then (page_path v r title) (\<lambda>expected.
            if path \<noteq> expected then contract_error ''page path does not match its role and title''
            else and_then (strings_or_none (map_of meta (lit ''acl''))) (\<lambda>acl.
              and_then (strings (map_of meta (lit ''sources''))) (\<lambda>srcs.
                and_then (parse_entity v meta r title) (\<lambda>(kind, as).
                  and_then (date_field lib (map_of meta (lit ''created''))) (\<lambda>created.
                    and_then (date_field lib (map_of meta (lit ''updated''))) (\<lambda>updated.
                      let ident = id_field lib (map_of meta (lit ''id'')) in
                      if ident = [] \<or> blank body then contract_error ''page id or body is missing''
                      else Inr \<lparr>page_at = path, page_id = ident, page_role = r, page_title = one_line title,
                             page_status = status, page_created = created, page_updated = updated, page_acl = acl,
                             page_sources = srcs, page_body = strip body, page_entity_type = kind, page_aliases = as\<rparr>))))))
      | _ \<Rightarrow> contract_error ''page role, title, or status is invalid'')"

end
