(* ===== verification/Layered.thy ===== *)
theory Layered
  imports Pages "HOL-Library.Finite_Map" "HOL-Library.List_Lexorder"
begin

text \<open>
  Layer views, \<open>stigmergy/knowledge/layered.py\<close>. A tree is the map from the path of each regular file
  to its text, so a folder exists where a file is in it; symbolic links and undecodable files, which
  the code refuses, are not modelled. A view is a tree of its own, built from \<open>public\<close> and one layer,
  and \<open>project\<close> stores what changed in it back in that layer alone. \<open>fresh\<close> gives the identifier of a
  page new to its layer, and \<open>at_day\<close> is the day of the write.
\<close>

type_synonym tree = "(pystr, pystr) fmap"

section \<open>Files of a layer\<close>

definition layer_file :: "pystr \<Rightarrow> pystr \<Rightarrow> pystr" where
  "layer_file layer path = (if layer = PUBLIC then path else LAYER_ROOT @ [SLASH] @ layer @ [SLASH] @ path)"

definition paths_of :: "tree \<Rightarrow> pystr list" where
  "paths_of t = sorted_list_of_set (fset (fmdom t))"

text \<open>The first component below a folder of a path with more below it.\<close>

definition folder_below :: "pystr \<Rightarrow> pystr \<Rightarrow> pystr option" where
  "folder_below folder path =
     (let rest = drop (length folder + 1) path in
      if starts_with (folder @ [SLASH]) path \<and> SLASH \<in> set rest then Some (takeWhile (\<lambda>c. c \<noteq> SLASH) rest) else None)"

definition layer_names :: "tree \<Rightarrow> pystr list" where
  "layer_names t =
     PUBLIC # filter is_layer_name
       (sort (remdups (List.map_filter (folder_below LAYER_ROOT) (paths_of t))))"

text \<open>The paths inside a layer's root, and those of its pages and sources.\<close>

definition inside :: "tree \<Rightarrow> pystr \<Rightarrow> pystr list" where
  "inside t layer =
     (let root = layer_file layer [] in map (drop (length root)) (filter (starts_with root) (paths_of t)))"

definition page_paths :: "tree \<Rightarrow> pystr \<Rightarrow> pystr list" where
  "page_paths t layer = concat (map (\<lambda>r. filter (\<lambda>p. in_folder p r) (inside t layer)) ROLES)"

definition source_paths :: "tree \<Rightarrow> pystr \<Rightarrow> pystr list" where
  "source_paths t layer = filter (\<lambda>p. starts_with (lit ''sources/'') p \<and> ends_with MD p) (inside t layer)"

definition text_at :: "tree \<Rightarrow> pystr \<Rightarrow> pystr" where
  "text_at t path = (case fmlookup t path of Some s \<Rightarrow> s | None \<Rightarrow> [])"

definition knowledge_pages :: "yaml_lib \<Rightarrow> unicode_more \<Rightarrow> tree \<Rightarrow> pystr \<Rightarrow> (pystr \<times> page \<times> pystr) list result" where
  "knowledge_pages lib v t layer =
     each (\<lambda>vpath. let contents = text_at t (layer_file layer vpath) in
             and_then (parse_page lib v vpath contents) (\<lambda>p. Inr (vpath, p, contents))) (page_paths t layer)"

section \<open>Building a view\<close>

record layer_view =
  view_layer :: pystr
  view_root :: tree
  view_public :: "(pystr, page) fmap"
  view_own :: "(pystr, page) fmap"
  view_before :: tree

definition with_audience :: "yaml_lib \<Rightarrow> unicode_more \<Rightarrow> page \<Rightarrow> acl \<Rightarrow> pystr result" where
  "with_audience lib v p a = render_page lib v (p\<lparr>page_acl := a\<rparr>)"

definition open_page :: "yaml_lib \<Rightarrow> unicode_more \<Rightarrow> page \<Rightarrow> pystr result" where
  "open_page lib v p = with_audience lib v p None"

text \<open>The aliases of both pages, the first of each key, without the title.\<close>

fun first_names :: "unicode_more \<Rightarrow> pystr list \<Rightarrow> pystr list \<Rightarrow> pystr list" where
  "first_names v taken [] = []"
| "first_names v taken (a # as) =
     (if resolution_key v a \<in> set taken then first_names v taken as
      else a # first_names v (resolution_key v a # taken) as)"

definition merged :: "yaml_lib \<Rightarrow> unicode \<Rightarrow> unicode_more \<Rightarrow> page \<Rightarrow> page \<Rightarrow> pystr result" where
  "merged lib u v base own = render_page lib v
     (base\<lparr>page_body := merge_for_writing u (lit ''view'') (page_body base) (page_body own), page_acl := None,
       page_sources := fromkeys (page_sources base @ page_sources own),
       page_created := min (page_created base) (page_created own),
       page_updated := max (page_updated base) (page_updated own),
       page_aliases := (if page_role base = Entity_Page
         then first_names v [resolution_key v (page_title base)] (page_aliases base @ page_aliases own) else [])\<rparr>)"

definition open_source_text :: "yaml_lib \<Rightarrow> pystr \<Rightarrow> pystr result" where
  "open_source_text lib contents =
     (let (meta, body, malformed) = split_frontmatter_checked lib contents in
      if malformed \<or> meta = [] then Inl (LayerProjectionError (lit ''source frontmatter is invalid''))
      else let rendered = rstrip (yaml_dump lib (filter (\<lambda>(k, _). k \<noteq> lit ''acl'') meta)) in
        Inr (lit ''---'' @ [NL] @ rendered @ [NL] @ lit ''---'' @ [NL] @ (if starts_with [NL] body then body else NL # body)))"

definition snapshot :: "tree \<Rightarrow> tree" where
  "snapshot root = fmfilter (\<lambda>p. path_role p \<noteq> None) root"

definition written :: "(pystr \<times> pystr) list \<Rightarrow> tree \<Rightarrow> tree" where
  "written files root = fold (\<lambda>(p, s) r. fmupd p s r) files root"

definition layer_files :: "yaml_lib \<Rightarrow> unicode \<Rightarrow> unicode_more \<Rightarrow> tree \<Rightarrow> (pystr, page) fmap
    \<Rightarrow> (pystr \<times> page \<times> pystr) list \<Rightarrow> (pystr \<times> pystr) list result" where
  "layer_files lib u v t public own =
     each (\<lambda>(vpath, p, _).
       and_then (case fmlookup public vpath of None \<Rightarrow> open_page lib v p | Some base \<Rightarrow> merged lib u v base p)
         (\<lambda>s. Inr (vpath, s))) own"

definition fill_view :: "yaml_lib \<Rightarrow> unicode \<Rightarrow> unicode_more \<Rightarrow> tree \<Rightarrow> pystr \<Rightarrow> layer_view result" where
  "fill_view lib u v t layer =
     and_then (knowledge_pages lib v t PUBLIC) (\<lambda>public.
     and_then (if layer = PUBLIC then Inr public else knowledge_pages lib v t layer) (\<lambda>own.
       let pages = (\<lambda>found. fmap_of_list (map (\<lambda>(p, x, _). (p, x)) found));
           kept = map (\<lambda>(p, _, s). (p, s))
             (filter (\<lambda>(p, _). \<not> (layer \<noteq> PUBLIC \<and> p \<in> fst ` set own)) public);
           copied = map (\<lambda>p. (p, text_at t p)) (source_paths t PUBLIC) in
       and_then (if layer = PUBLIC then Inr [] else layer_files lib u v t (pages public) own) (\<lambda>mine.
       and_then
         (if layer = PUBLIC then Inr []
          else each (\<lambda>p. and_then (open_source_text lib (text_at t (layer_file layer p))) (\<lambda>s. Inr (p, s)))
                 (source_paths t layer)) (\<lambda>opened.
         let root = written opened (written copied (written mine (written kept fmempty))) in
         Inr \<lparr>view_layer = layer, view_root = root, view_public = pages public, view_own = pages own,
            view_before = snapshot root\<rparr>))))"

section \<open>Storing a view\<close>

definition NARROWER :: pystr where
  "NARROWER = lit ''the page has readers outside the capture's audience''"

definition stores_whole :: "layer_view \<Rightarrow> pystr \<Rightarrow> bool" where
  "stores_whole view vpath \<longleftrightarrow>
     view_layer view = PUBLIC \<or> vpath |\<in>| fmdom (view_own view) \<or> vpath |\<notin>| fmdom (view_public view)"

definition unit_keys :: "unicode \<Rightarrow> pystr \<Rightarrow> pystr list" where
  "unit_keys u s = map (ukey u) (concat (map units (sections (parse_body u PUBLIC s))))"

text \<open>What the layer stores of a page the public layer has too: nothing, with a note, or its text.\<close>

definition layer_page :: "unicode \<Rightarrow> unicode_more \<Rightarrow> pystr \<Rightarrow> nat \<Rightarrow> acl \<Rightarrow> page \<Rightarrow> page \<Rightarrow> page option \<Rightarrow> pystr \<Rightarrow> page" where
  "layer_page u v ident at_day a p base own body =
     p\<lparr>page_body := body, page_acl := a,
       page_sources := fromkeys ((case own of Some q \<Rightarrow> page_sources q | None \<Rightarrow> []) @
         filter (\<lambda>s. s \<notin> set (page_sources base)) (page_sources p)),
       page_id := (case own of Some q \<Rightarrow> page_id q | None \<Rightarrow> ident),
       page_created := (case own of Some q \<Rightarrow> page_created q | None \<Rightarrow> at_day),
       page_aliases := (if page_role p = Entity_Page
         then filter (\<lambda>a. resolution_key v a \<notin> resolution_key v ` set (page_title base # page_aliases base)) (page_aliases p)
         else [])\<rparr>"

definition layer_part :: "yaml_lib \<Rightarrow> unicode \<Rightarrow> unicode_more \<Rightarrow> pystr \<Rightarrow> nat \<Rightarrow> bool \<Rightarrow> layer_view \<Rightarrow> page \<Rightarrow> page
    \<Rightarrow> page option \<Rightarrow> (pystr option \<times> pystr list) result" where
  "layer_part lib u v ident at_day strict view p base own =
     (let lost = filter (\<lambda>k. k \<notin> set (unit_keys u (page_body p))) (unit_keys u (page_body base));
          body = split_from_public u (page_body p) (page_body base) in
      if lost \<noteq> [] \<and> strict then Inl (LayerProjectionError (lit ''a layer write cannot change a public page''))
      else if body = []
      then Inr (None, [lit ''update to '' @ page_at p @ lit '' added nothing beyond the public page''])
      else and_then (acl_of_layer (view_layer view)) (\<lambda>a.
        and_then (render_page lib v (layer_page u v ident at_day a p base own body)) (\<lambda>s. Inr (Some s, []))))"

text \<open>A write of one file; no text where the file is deleted.\<close>

type_synonym file_write = "pystr \<times> pystr option"

definition stored_text :: "yaml_lib \<Rightarrow> unicode \<Rightarrow> unicode_more \<Rightarrow> pystr \<Rightarrow> nat \<Rightarrow> bool \<Rightarrow> layer_view \<Rightarrow> pystr \<Rightarrow> pystr
    \<Rightarrow> (pystr option \<times> pystr list) result" where
  "stored_text lib u v ident at_day strict view vpath contents =
     and_then (parse_page lib v vpath contents) (\<lambda>p.
       if view_layer view = PUBLIC then Inr (Some contents, [])
       else case fmlookup (view_public view) vpath of
         None \<Rightarrow> and_then (acl_of_layer (view_layer view)) (\<lambda>a.
           and_then (with_audience lib v p a) (\<lambda>s. Inr (Some s, [])))
       | Some base \<Rightarrow> layer_part lib u v ident at_day strict view p base (fmlookup (view_own view) vpath))"

definition plan_write :: "yaml_lib \<Rightarrow> unicode \<Rightarrow> unicode_more \<Rightarrow> (pystr \<Rightarrow> pystr) \<Rightarrow> nat \<Rightarrow> bool \<Rightarrow> layer_view \<Rightarrow> tree \<Rightarrow> pystr
    \<Rightarrow> (file_write list \<times> pystr list) result" where
  "plan_write lib u v fresh at_day strict view after vpath =
     (if fmlookup (view_before view) vpath = fmlookup after vpath then Inr ([], [])
      else and_then (physical_path (view_layer view) vpath) (\<lambda>target.
        case fmlookup after vpath of
          None \<Rightarrow>
            if vpath |\<in>| fmdom (view_own view) then Inr ([(target, None)], [])
            else if strict then Inl (LayerProjectionError (lit ''a layer write cannot delete a public page''))
            else Inr ([], [lit ''delete of '' @ vpath @ lit '' was not applied: '' @ NARROWER])
        | Some contents \<Rightarrow>
            and_then (stored_text lib u v (fresh vpath) at_day strict view vpath contents) (\<lambda>(stored, notes).
              Inr (case stored of None \<Rightarrow> [] | Some s \<Rightarrow> [(target, Some s)], notes))))"

datatype change_kind = Created | Updated | Deleted

definition apply_write :: "file_write \<Rightarrow> (pystr \<times> change_kind) list \<times> tree \<Rightarrow> (pystr \<times> change_kind) list \<times> tree" where
  "apply_write w st =
     (let (target, contents) = w; (changes, t) = st in
      case contents of
        None \<Rightarrow> (changes @ [(target, Deleted)], fmdrop target t)
      | Some s \<Rightarrow> (changes @ [(target, if target |\<in>| fmdom t then Updated else Created)], fmupd target s t))"

text \<open>Every write is computed before any file is touched.\<close>

definition project :: "yaml_lib \<Rightarrow> unicode \<Rightarrow> unicode_more \<Rightarrow> (pystr \<Rightarrow> pystr) \<Rightarrow> nat \<Rightarrow> bool \<Rightarrow> layer_view \<Rightarrow> tree \<Rightarrow> tree
    \<Rightarrow> ((pystr \<times> change_kind) list \<times> pystr list) result \<times> tree" where
  "project lib u v fresh at_day strict view root t =
     (let after = snapshot root; vpaths = paths_of (view_before view ++\<^sub>f after) in
      case each (plan_write lib u v fresh at_day strict view after) vpaths of
        Inl e \<Rightarrow> (Inl e, t)
      | Inr planned \<Rightarrow>
          let (changes, t') = fold apply_write (concat (map fst planned)) ([], t)
          in (Inr (changes, concat (map snd planned)), t'))"

section \<open>What a projection can write\<close>

text \<open>A write of a layer: it names a file of the layer, and stores there a page only the layer reads.\<close>

definition layer_page_text :: "yaml_lib \<Rightarrow> unicode_more \<Rightarrow> pystr \<Rightarrow> pystr option \<Rightarrow> bool" where
  "layer_page_text lib v layer contents \<longleftrightarrow>
     (case contents of None \<Rightarrow> True | Some s \<Rightarrow> \<exists>p. page_acl p = Some [layer] \<and> render_page lib v p = Inr s)"

definition layer_write :: "yaml_lib \<Rightarrow> unicode_more \<Rightarrow> pystr \<Rightarrow> file_write \<Rightarrow> bool" where
  "layer_write lib v layer w \<longleftrightarrow>
     (\<exists>vpath. split_path (fst w) = Inr (layer, vpath)) \<and> layer_page_text lib v layer (snd w)"

lemma acl_of_other_layer: "layer \<noteq> PUBLIC \<Longrightarrow> acl_of_layer layer = Inr a \<Longrightarrow> a = Some [layer]"
  by (auto simp: acl_of_layer_def split: if_splits)

lemma physical_path_of_layer:
  "layer \<noteq> PUBLIC \<Longrightarrow> physical_path layer vpath = Inr target \<Longrightarrow> vpath \<noteq> [] \<Longrightarrow> split_path target = Inr (layer, vpath)"
  using split_path_layer [of layer vpath] by (auto simp: physical_path_def split: if_splits)

lemma path_role_not_Nil: "path_role [] = None"
  by (simp add: path_role_def ROLES_def in_folder_def)

lemma page_acl_layer_page: "page_acl (layer_page u v ident at_day a p base own body) = a"
  by (simp add: layer_page_def)

lemma layer_page_textI: "render_page lib v p = Inr s \<Longrightarrow> page_acl p = Some [layer] \<Longrightarrow> layer_page_text lib v layer (Some s)"
  by (auto simp: layer_page_text_def)

lemma layer_part_text:
  assumes "layer_part lib u v ident at_day strict view p base own = Inr (Some s, notes)" and "view_layer view \<noteq> PUBLIC"
  shows "layer_page_text lib v (view_layer view) (Some s)"
proof -
  let ?page = "\<lambda>a. layer_page u v ident at_day a p base own (split_from_public u (page_body p) (page_body base))"
  have "\<exists>a. acl_of_layer (view_layer view) = Inr a \<and> render_page lib v (?page a) = Inr s"
    using assms(1) unfolding layer_part_def Let_def by (auto simp: and_then_eq_Inr split: if_splits)
  then obtain a where "acl_of_layer (view_layer view) = Inr a" and rendered: "render_page lib v (?page a) = Inr s"
    by blast
  then show ?thesis
    using acl_of_other_layer [OF assms(2)] by (intro layer_page_textI [OF rendered]) (simp add: page_acl_layer_page)
qed

lemma stored_text_of_layer:
  assumes "stored_text lib u v ident at_day strict view vpath contents = Inr (Some s, notes)" and "view_layer view \<noteq> PUBLIC"
  shows "layer_page_text lib v (view_layer view) (Some s)"
proof (cases "fmlookup (view_public view) vpath")
  case None
  then show ?thesis
    using assms acl_of_other_layer [OF assms(2)]
    by (auto simp: stored_text_def with_audience_def and_then_eq_Inr intro!: layer_page_textI)
next
  case (Some base)
  then show ?thesis
    using assms layer_part_text [OF _ assms(2)] by (auto simp: stored_text_def and_then_eq_Inr)
qed

lemma plan_write_of_layer:
  assumes "plan_write lib u v fresh at_day strict view after vpath = Inr (ws, notes)"
    and "view_layer view \<noteq> PUBLIC" and "vpath \<noteq> []" and "w \<in> set ws"
  shows "layer_write lib v (view_layer view) w"
proof -
  obtain target where target: "physical_path (view_layer view) vpath = Inr target"
    using assms(1,4) by (auto simp: plan_write_def and_then_eq_Inr split: if_splits)
  have place: "split_path target = Inr (view_layer view, vpath)"
    using physical_path_of_layer [OF assms(2) target assms(3)] .
  have stored: "fst w = target \<and> layer_page_text lib v (view_layer view) (snd w)"
  proof (cases "fmlookup after vpath")
    case None
    then show ?thesis
      using assms(1,4) target by (auto simp: plan_write_def layer_page_text_def split: if_splits)
  next
    case (Some contents)
    then show ?thesis
      using assms(1,4) target stored_text_of_layer [OF _ assms(2)]
      by (auto simp: plan_write_def and_then_eq_Inr split: if_splits option.splits)
  qed
  then show ?thesis
    using place by (auto simp: layer_write_def)
qed

lemma apply_writes:
  assumes "fold apply_write ws (changes, t) = (changes', t')"
  shows "fst ` set changes' = fst ` set changes \<union> fst ` set ws \<and>
    (\<forall>p. fmlookup t' p = fmlookup t p \<and> p \<notin> fst ` set ws \<or> (p, fmlookup t' p) \<in> set ws)"
  using assms
proof (induction ws arbitrary: changes t)
  case (Cons w ws)
  obtain changes1 t1 where step: "apply_write w (changes, t) = (changes1, t1)"
    by (cases "apply_write w (changes, t)")
  have one: "fst ` set changes1 = insert (fst w) (fst ` set changes)"
    "\<And>p. p \<noteq> fst w \<Longrightarrow> fmlookup t1 p = fmlookup t p" "fmlookup t1 (fst w) = snd w"
    using step by (auto simp: apply_write_def Let_def split: option.splits prod.splits)
  from Cons.IH [of changes1 t1] Cons.prems step
  have rest: "fst ` set changes' = fst ` set changes1 \<union> fst ` set ws"
    and p: "fmlookup t' p = fmlookup t1 p \<and> p \<notin> fst ` set ws \<or> (p, fmlookup t' p) \<in> set ws" for p
    by auto
  have "fmlookup t' p = fmlookup t p \<and> p \<notin> fst ` set (w # ws) \<or> (p, fmlookup t' p) \<in> set (w # ws)" for p
    using p [of p] one(2) [of p] one(3) by (cases "p = fst w") auto
  then show ?case
    using rest one(1) by auto
qed auto

lemma project_writes:
  assumes "project lib u v fresh at_day strict view root t = (Inr (changes, notes), t')"
  obtains ws where "fold apply_write ws ([], t) = (changes, t')"
    "\<And>w. w \<in> set ws \<Longrightarrow> \<exists>vpath ws' notes'. w \<in> set ws' \<and>
       (vpath |\<in>| fmdom (view_before view) \<or> vpath |\<in>| fmdom (snapshot root)) \<and>
       plan_write lib u v fresh at_day strict view (snapshot root) vpath = Inr (ws', notes')"
proof -
  let ?paths = "paths_of (view_before view ++\<^sub>f snapshot root)"
  obtain planned where planned: "each (plan_write lib u v fresh at_day strict view (snapshot root)) ?paths = Inr planned"
    and run: "fold apply_write (concat (map fst planned)) ([], t) = (changes, t')"
    using assms by (auto simp: project_def Let_def split: sum.splits prod.splits)
  have pair: "list_all2 (\<lambda>x y. plan_write lib u v fresh at_day strict view (snapshot root) x = Inr y) ?paths planned"
    using each_Inr [OF planned] .
  have from_path: "\<exists>vpath ws' notes'. w \<in> set ws' \<and>
      (vpath |\<in>| fmdom (view_before view) \<or> vpath |\<in>| fmdom (snapshot root)) \<and>
      plan_write lib u v fresh at_day strict view (snapshot root) vpath = Inr (ws', notes')"
    if "w \<in> set (concat (map fst planned))" for w
  proof -
    from that obtain ws' notes' where plan: "(ws', notes') \<in> set planned" "w \<in> set ws'" by auto
    then obtain i where i: "i < length planned" "planned ! i = (ws', notes')" by (auto simp: in_set_conv_nth)
    then have "plan_write lib u v fresh at_day strict view (snapshot root) (?paths ! i) = Inr (ws', notes')"
      and "?paths ! i \<in> set ?paths"
      using pair by (auto simp: list_all2_conv_all_nth)
    then show ?thesis
      using plan(2) by (auto simp: paths_of_def)
  qed
  show ?thesis
    by (rule that [OF run from_path])
qed

lemma fill_view_parts:
  assumes "fill_view lib u v t layer = Inr view"
  shows "view_layer view = layer" and "\<exists>root. view_before view = snapshot root"
  using assms by (auto simp: fill_view_def Let_def and_then_eq_Inr)

lemma snapshot_pages: "vpath |\<in>| fmdom (snapshot root) \<Longrightarrow> vpath \<noteq> []"
  using path_role_not_Nil by (auto simp: snapshot_def)

section \<open>A sample layer\<close>

definition sample_meta :: metadata where
  "sample_meta = [(lit ''id'', YText (lit ''p1'')), (lit ''type'', YText (lit ''note'')), (lit ''title'', YText (lit ''A'')),
     (lit ''status'', YText (lit ''seed'')), (lit ''created'', YText (lit ''2026-01-02'')),
     (lit ''updated'', YText (lit ''2026-01-02'')), (lit ''sources'', YList [])]"

definition sample_yaml :: yaml_lib where
  "sample_yaml = \<lparr>yaml_dump = (\<lambda>m. lit ''x''), yaml_load = (\<lambda>s. Some (YMap sample_meta)),
     yaml_str = (\<lambda>y. case y of YText s \<Rightarrow> s | _ \<Rightarrow> []), yaml_true = (\<lambda>_. True)\<rparr>"

definition sample_text :: pystr where
  "sample_text = lit ''---'' @ [NL] @ lit ''x'' @ [NL] @ lit ''---'' @ [NL] @ lit ''B''"

definition sample_place :: pystr where
  "sample_place = lit ''wiki/notes/A.md''"

definition sample_page :: page where
  "sample_page = \<lparr>page_at = sample_place, page_id = lit ''p1'', page_role = Note, page_title = lit ''A'',
     page_status = lit ''seed'', page_created = 20260102, page_updated = 20260102, page_acl = None, page_sources = [],
     page_body = lit ''B'', page_entity_type = None, page_aliases = []\<rparr>"

definition sample_view :: layer_view where
  "sample_view = \<lparr>view_layer = lit ''sales'', view_root = fmempty, view_public = fmempty, view_own = fmempty, view_before = fmempty\<rparr>"

lemma sample_split: "split_frontmatter_checked sample_yaml sample_text = (sample_meta, lit ''B'', False)"
  by code_simp

lemma sample_path: "page_path ascii_more Note (lit ''A'') = Inr sample_place"
  by code_simp

lemma sample_role: "path_role sample_place = Some Note"
  by code_simp

lemma sample_view: "fill_view sample_yaml ascii_unicode ascii_more fmempty (lit ''sales'') = Inr sample_view"
  by code_simp

lemma sample_date: "date_of_text (lit ''2026-01-02'') = Some 20260102"
  by (simp add: date_of_text_def iso_date_def ascii_digit_def valid_date_def digits_value_def)

lemma sample_parsed: "parse_page sample_yaml ascii_more sample_place sample_text = Inr sample_page"
  using sample_path sample_date unfolding parse_page_def sample_split
  by (simp add: sample_meta_def sample_page_def role_of_def ROLES_def role_text_def page_statuses_def
    strings_or_none_def strings_def parse_entity_def date_field_def id_field_def sample_yaml_def blank_def
    strip_def lstrip_def rstrip_def is_space_def one_line_def)

lemma sample_rendered:
  "\<exists>s. with_audience sample_yaml ascii_more sample_page (Some [lit ''sales'']) = Inr s"
  using sample_path unfolding render_page_def with_audience_def
  by (simp add: sample_page_def sample_yaml_def page_statuses_def entity_fields_def strip_def lstrip_def rstrip_def is_space_def
    one_line_def Let_def)

lemma sample_snapshot: "snapshot (fmap_of_list [(sample_place, sample_text)]) = fmap_of_list [(sample_place, sample_text)]"
  by (rule fmap_ext) (auto simp: snapshot_def sample_role)

lemma sample_project:
  "\<exists>s. project sample_yaml ascii_unicode ascii_more (\<lambda>_. []) 20260102 True sample_view
     (fmap_of_list [(sample_place, sample_text)]) fmempty
   = (Inr ([(lit ''layers/sales/wiki/notes/A.md'', Created)], []), fmupd (lit ''layers/sales/wiki/notes/A.md'') s fmempty)"
proof -
  obtain s where "with_audience sample_yaml ascii_more sample_page (Some [lit ''sales'']) = Inr s"
    using sample_rendered by blast
  moreover have "acl_of_layer (lit ''sales'') = Inr (Some [lit ''sales''])" and "lit ''sales'' \<noteq> PUBLIC"
    and "physical_path (lit ''sales'') sample_place = Inr (lit ''layers/sales/wiki/notes/A.md'')"
    by code_simp+
  ultimately show ?thesis
    unfolding project_def sample_snapshot
    by (intro exI [of _ s]) (simp add: paths_of_def sample_view_def plan_write_def stored_text_def sample_parsed apply_write_def Let_def
        del: lit_Cons lit_Nil)
qed

section \<open>Properties\<close>

text \<open>
  C26. A write from a layer's view stays in that layer: storing the view changes no file outside the
  layer's folder, so no public page and no other layer's page, and every file it changes is either
  gone or holds a page whose audience is that one layer. A projection that is refused changes nothing.
\<close>

theorem projection_stays_in_its_layer:
  assumes "fill_view lib u v t layer = Inr view" and "layer \<noteq> PUBLIC"
    and "project lib u v fresh at_day strict view root t = (outcome, t')"
  shows "case outcome of
      Inl _ \<Rightarrow> t' = t
    | Inr (changes, _) \<Rightarrow>
        (\<forall>path. fmlookup t' path = fmlookup t path \<or>
           path \<in> fst ` set changes \<and> (\<exists>vpath. split_path path = Inr (layer, vpath)) \<and>
           layer_page_text lib v layer (fmlookup t' path))"
proof (cases outcome)
  case (Inl e)
  then show ?thesis
    using assms(3) by (auto simp: project_def Let_def split: sum.splits prod.splits)
next
  case (Inr found)
  obtain changes remarks where found: "found = (changes, remarks)"
    by (cases found)
  obtain ws where ws: "fold apply_write ws ([], t) = (changes, t')"
    and source: "\<And>w. w \<in> set ws \<Longrightarrow> \<exists>vpath ws' notes'. w \<in> set ws' \<and>
       (vpath |\<in>| fmdom (view_before view) \<or> vpath |\<in>| fmdom (snapshot root)) \<and>
       plan_write lib u v fresh at_day strict view (snapshot root) vpath = Inr (ws', notes')"
    using assms(3) Inr found by (auto elim: project_writes)
  have "layer_write lib v layer w" if "w \<in> set ws" for w
    using source [OF that] plan_write_of_layer fill_view_parts [OF assms(1)] assms(2) snapshot_pages by metis
  then show ?thesis
    using apply_writes [OF ws] Inr found by (force simp: layer_write_def)
qed

theorem projection_stays_in_its_layer_witness:
  "\<exists>t'. fmlookup t' (lit ''layers/sales/wiki/notes/A.md'') \<noteq> None \<and> fmlookup t' sample_place = None \<and>
     layer_page_text sample_yaml ascii_more (lit ''sales'') (fmlookup t' (lit ''layers/sales/wiki/notes/A.md''))"
proof -
  obtain s where run: "project sample_yaml ascii_unicode ascii_more (\<lambda>_. []) 20260102 True sample_view
      (fmap_of_list [(sample_place, sample_text)]) fmempty
    = (Inr ([(lit ''layers/sales/wiki/notes/A.md'', Created)], []), fmupd (lit ''layers/sales/wiki/notes/A.md'') s fmempty)"
    using sample_project by blast
  have "lit ''sales'' \<noteq> PUBLIC" and "sample_place \<noteq> lit ''layers/sales/wiki/notes/A.md''"
    by code_simp+
  moreover from this projection_stays_in_its_layer [OF sample_view _ run]
  have "\<forall>path. fmlookup (fmupd (lit ''layers/sales/wiki/notes/A.md'') s fmempty) path = fmlookup fmempty path \<or>
      layer_page_text sample_yaml ascii_more (lit ''sales'') (fmlookup (fmupd (lit ''layers/sales/wiki/notes/A.md'') s fmempty) path)"
    by (auto simp del: lit_Cons lit_Nil fmupd_lookup)
  from spec [OF this, of "lit ''layers/sales/wiki/notes/A.md''"]
  have "layer_page_text sample_yaml ascii_more (lit ''sales'') (Some s)"
    by (simp del: lit_Cons lit_Nil)
  ultimately show ?thesis
    by (intro exI [of _ "fmupd (lit ''layers/sales/wiki/notes/A.md'') s fmempty"]) (simp del: lit_Cons lit_Nil)
qed

end
