(* ===== verification/Slack_Snapshot.thy ===== *)
theory Slack_Snapshot
  imports Capture_Contracts Py_Bytes Py_Time
begin

text \<open>
  The canonical evidence of a Slack thread, \<open>stigmergy/slack/snapshot.py\<close>. The JSON of a snapshot is a
  parameter: \<open>read_snapshot\<close> is \<open>json.loads\<close> with pydantic's reading of the field types, nothing where
  they fail, and \<open>snapshot_json\<close> the canonical text without its newline.
\<close>

definition MAX_THREAD_MESSAGES :: nat where "MAX_THREAD_MESSAGES = 500"
definition MAX_SNAPSHOT_BYTES :: nat where "MAX_SNAPSHOT_BYTES = 1024 * 1024"

record attachment =
  attachment_index :: int
  attachment_file :: pystr
  attachment_name :: pystr
  attachment_type :: pystr
  attachment_bytes :: int
  attachment_sha256 :: pystr

record message =
  message_order :: int
  message_ts :: pystr
  message_at :: moment
  message_user :: pystr
  message_speaker :: pystr
  message_text :: pystr
  message_link :: pystr
  message_attachments :: "attachment list"

record slack_snapshot =
  snapshot_version :: int
  snapshot_team :: pystr
  snapshot_channel :: pystr
  snapshot_channel_name :: pystr
  snapshot_thread :: pystr
  snapshot_link :: pystr
  snapshot_messages :: "message list"

record snapshot_lib =
  read_snapshot :: "pystr \<Rightarrow> slack_snapshot option"
  snapshot_json :: "slack_snapshot \<Rightarrow> pystr"

definition valid_attachment :: "attachment \<Rightarrow> attachment result" where
  "valid_attachment a =
     and_then (ensure (1 \<le> attachment_index a \<and> attachment_index a \<le> 20) ''artifact_index is out of bounds'') (\<lambda>_.
     and_then (bounded 1 200 (attachment_file a)) (\<lambda>_.
     and_then (bounded 1 500 (attachment_name a)) (\<lambda>_.
     and_then (bounded 1 200 (attachment_type a)) (\<lambda>_.
     and_then (ensure (0 < attachment_bytes a) ''bytes is not positive'') (\<lambda>_.
     and_then (ensure (full SHA256_RE (attachment_sha256 a)) ''sha256 does not match its pattern'') (\<lambda>_. Inr a))))))"

definition valid_message :: "message \<Rightarrow> message result" where
  "valid_message m =
     and_then (ensure (1 \<le> message_order m) ''order is out of bounds'') (\<lambda>_.
     and_then (bounded 1 100 (message_ts m)) (\<lambda>_.
     and_then (utc (message_at m)) (\<lambda>at_utc.
     and_then (bounded 1 200 (message_user m)) (\<lambda>_.
     and_then (bounded 1 300 (message_speaker m)) (\<lambda>_.
     and_then (bounded 1 4096 (message_link m)) (\<lambda>_.
     and_then (each valid_attachment (message_attachments m)) (\<lambda>_. Inr (m\<lparr>message_at := at_utc\<rparr>))))))))"

definition valid_snapshot :: "slack_snapshot \<Rightarrow> slack_snapshot result" where
  "valid_snapshot s =
     and_then (ensure (snapshot_version s = 1) ''version is out of bounds'') (\<lambda>_.
     and_then (bounded 1 200 (snapshot_team s)) (\<lambda>_.
     and_then (bounded 1 200 (snapshot_channel s)) (\<lambda>_.
     and_then (bounded 1 300 (snapshot_channel_name s)) (\<lambda>_.
     and_then (bounded 1 100 (snapshot_thread s)) (\<lambda>_.
     and_then (bounded 1 4096 (snapshot_link s)) (\<lambda>_.
     and_then (each valid_message (snapshot_messages s)) (\<lambda>ms.
     and_then (ensure (1 \<le> length ms \<and> length ms \<le> MAX_THREAD_MESSAGES) ''messages are out of bounds'') (\<lambda>_.
     and_then (ensure (map message_order ms = map int [1..<Suc (length ms)]) ''Slack messages must be in canonical order'') (\<lambda>_.
       Inr (s\<lparr>snapshot_messages := ms\<rparr>))))))))))"

definition canonical_bytes :: "snapshot_lib \<Rightarrow> slack_snapshot \<Rightarrow> bytes result" where
  "canonical_bytes lib s =
     (let data = encode (snapshot_json lib s @ [NL]) in
      if MAX_SNAPSHOT_BYTES < length data then Inl (ArtifactRejected (lit ''Slack capture exceeds the snapshot byte limit''))
      else Inr data)"

definition validate_snapshot :: "snapshot_lib \<Rightarrow> bytes \<Rightarrow> slack_snapshot result" where
  "validate_snapshot lib data =
     (case Option.bind (decode data) (read_snapshot lib) of
        None \<Rightarrow> Inl (ArtifactRejected (lit ''Slack snapshot is invalid''))
      | Some raw \<Rightarrow>
          case valid_snapshot raw of
            Inl _ \<Rightarrow> Inl (ArtifactRejected (lit ''Slack snapshot is invalid''))
          | Inr s \<Rightarrow>
              and_then (canonical_bytes lib s) (\<lambda>canonical.
                if canonical \<noteq> data then Inl (ArtifactRejected (lit ''Slack snapshot is not canonical'')) else Inr s))"

definition str_int :: "int \<Rightarrow> pystr" where
  "str_int n = (if n < 0 then 45 # str_nat (nat (- n)) else str_nat (nat n))"

definition attachment_text :: "attachment \<Rightarrow> pystr" where
  "attachment_text a =
     [NL] @ lit ''### Attachment '' @ str_int (attachment_index a) @ lit '': '' @ attachment_name a @ [NL, NL] @
     lit ''- Media type: '' @ attachment_type a @ [NL] @ lit ''- Bytes: '' @ str_int (attachment_bytes a) @ [NL] @
     lit ''- SHA-256: '' @ attachment_sha256 a @ [NL]"

definition moment_iso :: "moment \<Rightarrow> pystr" where
  "moment_iso m = (case m of Aware t \<Rightarrow> iso_moment t | Naive \<Rightarrow> [])"

definition message_block :: "message \<Rightarrow> pystr" where
  "message_block m =
     [NL] @ lit ''## Message '' @ str_int (message_order m) @ [NL, NL] @ lit ''- Speaker: '' @ message_speaker m @ [NL] @
     lit ''- Timestamp: '' @ moment_iso (message_at m) @ [NL] @ lit ''- Permalink: '' @ message_link m @ [NL, NL] @
     message_text m @ [NL] @ concat (map attachment_text (message_attachments m))"

definition render_snapshot :: "slack_snapshot \<Rightarrow> pystr" where
  "render_snapshot s =
     lit ''# Slack thread in #'' @ snapshot_channel_name s @ [NL, NL] @ lit ''- Thread: '' @ snapshot_link s @ [NL] @
     lit ''- Messages: '' @ str_nat (length (snapshot_messages s)) @ [NL] @ concat (map message_block (snapshot_messages s))"

end
