(* ===== verification/Readable_Text.thy ===== *)
theory Readable_Text
  imports Slack_Snapshot Evidence_Refs "HOL-Library.Product_Lexorder" Complex_Main
begin

text \<open>
  The readable text of evidence: media detection, \<open>stigmergy/capture/artifacts.py\<close>, and extraction,
  \<open>stigmergy/capture/extraction.py\<close>. What third-party parsers read from bytes is a parameter (pages of a
  PDF, blocks of a document, shapes of a slide, entries of an archive, the size of an image), as are the
  events of the standard HTML parser, the vision model and the extraction process. Messages leave out
  the class name of a foreign exception.
\<close>

definition MAX_PAGES :: nat where "MAX_PAGES = 200"
definition MAX_IMAGE_PIXELS :: int where "MAX_IMAGE_PIXELS = 50000000"
definition MAX_CAPTURE_EXTRACTED_BYTES :: nat where "MAX_CAPTURE_EXTRACTED_BYTES = 2 * 1024 * 1024"
definition DEFAULT_TIMEOUT_S :: int where "DEFAULT_TIMEOUT_S = 120"
definition CAPTURE_TIMEOUT_S :: int where "CAPTURE_TIMEOUT_S = 180"
definition OCR_DPI :: rat where "OCR_DPI = 200"
definition OCR_MARK :: pystr where "OCR_MARK = lit ''OCR transcription''"
definition MAX_CONTAINER_ENTRIES :: nat where "MAX_CONTAINER_ENTRIES = 10000"
definition MAX_UNCOMPRESSED_BYTES :: int where "MAX_UNCOMPRESSED_BYTES = 200 * 1024 * 1024"
definition MAX_COMPRESSION_RATIO :: int where "MAX_COMPRESSION_RATIO = 100"
definition TEXT_MEDIA :: "pystr list" where "TEXT_MEDIA = [MEDIA_TEXT, MEDIA_MARKDOWN]"

section \<open>What parsers read\<close>

record zip_entry =
  zip_name :: pystr
  zip_encrypted :: bool
  zip_size :: int
  zip_packed :: int

record pdf_page =
  pdf_text :: pystr
  pdf_size :: "(rat \<times> rat) option"
  pdf_image :: bytes

record pdf =
  pdf_locked :: bool
  pdf_pages :: "pdf_page list"

datatype docx_block = Paragraph pystr pystr | Table "pystr list list"

datatype shape_kind = Shape_Table "pystr list list" | Shape_Text pystr | Shape_Other

record shape =
  shape_top :: int
  shape_left :: int
  shape_kind :: shape_kind

record slide =
  slide_title :: "pystr option"
  slide_shapes :: "shape list"
  slide_notes :: "pystr option"

datatype html_event = Start_Tag pystr | End_Tag pystr | Html_Text pystr

record transcription =
  seen_text :: pystr
  seen_model :: pystr

record parsers =
  snapshots :: snapshot_lib
  zip_entries :: "bytes \<Rightarrow> zip_entry list option"
  zip_types :: "bytes \<Rightarrow> pystr option"
  open_pdf :: "bytes \<Rightarrow> pdf option"
  open_docx :: "bytes \<Rightarrow> docx_block list option"
  open_pptx :: "bytes \<Rightarrow> slide list option"
  image_size :: "bytes \<Rightarrow> (int \<times> int) option"
  html_events :: "pystr \<Rightarrow> html_event list option"
  transcribe :: "bytes \<Rightarrow> pystr \<Rightarrow> transcription result"
  OCR_MODEL :: pystr

definition rejected :: "string \<Rightarrow> 'a result" where "rejected m = Inl (ArtifactRejected (lit m))"
definition unreadable :: "string \<Rightarrow> 'a result" where "unreadable m = Inl (ExtractionError (lit m))"

section \<open>Media detection\<close>

text \<open>The running total stops at the entry that passes the limit, after the checks of its name.\<close>

fun archive_from :: "int \<Rightarrow> zip_entry list \<Rightarrow> unit result" where
  "archive_from sofar [] = Inr ()"
| "archive_from sofar (e # es) =
     (let path = slashed (zip_name e); sofar' = sofar + zip_size e in
      if starts_with [47] path \<or> [46, 46] \<in> set (split_on 47 path) then rejected ''container contains an unsafe path''
      else if zip_encrypted e then rejected ''encrypted containers are not supported''
      else if MAX_UNCOMPRESSED_BYTES < sofar' then rejected ''container expands beyond the safety limit''
      else if 0 < zip_packed e \<and> 1024 * 1024 < zip_size e \<and> MAX_COMPRESSION_RATIO * zip_packed e < zip_size e
      then rejected ''container compression ratio exceeds the safety limit''
      else archive_from sofar' es)"

definition validate_archive :: "zip_entry list \<Rightarrow> unit result" where
  "validate_archive es =
     (if MAX_CONTAINER_ENTRIES < length es then rejected ''container has too many entries'' else archive_from 0 es)"

definition validate_openxml :: "parsers \<Rightarrow> bytes \<Rightarrow> unit result" where
  "validate_openxml p data =
     (case zip_entries p data of None \<Rightarrow> rejected ''unsafe or corrupt container artifact'' | Some es \<Rightarrow> validate_archive es)"

definition detect_openxml :: "parsers \<Rightarrow> bytes \<Rightarrow> pystr result" where
  "detect_openxml p data =
     (case zip_entries p data of
        None \<Rightarrow> rejected ''unsupported or corrupt container artifact''
      | Some es \<Rightarrow>
          and_then (validate_archive es) (\<lambda>_.
            case zip_types p data of
              None \<Rightarrow> rejected ''unsupported or corrupt container artifact''
            | Some types \<Rightarrow>
                if contains (lit ''wordprocessingml.document.main+xml'') types \<and> lit ''word/document.xml'' \<in> zip_name ` set es
                then Inr MEDIA_DOCX
                else if contains (lit ''presentationml.presentation.main+xml'') types \<and> lit ''ppt/presentation.xml'' \<in> zip_name ` set es
                then Inr MEDIA_PPTX
                else rejected ''unsupported container format''))"

definition PNG :: bytes where "PNG = [137, 80, 78, 71, 13, 10, 26, 10]"
definition JPEG :: bytes where "JPEG = [255, 216, 255]"
definition PDF :: bytes where "PDF = lit ''%PDF-''"
definition ZIP :: bytes where "ZIP = [80, 75, 3, 4]"

definition looks_like_html :: "unicode_more \<Rightarrow> pystr \<Rightarrow> bool" where
  "looks_like_html v s =
     (let opening = lower v (lstrip (take 4096 s)) in
      list_ex (\<lambda>p. starts_with p opening) [lit ''<!doctype html'', lit ''<html'', lit ''<?xml''] \<or>
      contains (lit ''<html'') opening \<and> contains (lit ''</'') (lower v s))"

definition detect :: "unicode_more \<Rightarrow> parsers \<Rightarrow> bytes \<Rightarrow> pystr option \<Rightarrow> pystr result" where
  "detect v p data given_name =
     (if starts_with PDF data then Inr MEDIA_PDF
      else if starts_with PNG data then Inr MEDIA_PNG
      else if starts_with JPEG data then Inr MEDIA_JPEG
      else if starts_with ZIP data then detect_openxml p data
      else case decode data of
        None \<Rightarrow> rejected ''unsupported or corrupt binary artifact''
      | Some s \<Rightarrow>
          if 0 \<in> set s then rejected ''text artifact contains null bytes''
          else if looks_like_html v s then Inr MEDIA_HTML
          else let name = lower v (case given_name of None \<Rightarrow> [] | Some n \<Rightarrow> n) in
            if ends_with (lit ''.md'') name \<or> ends_with (lit ''.markdown'') name then Inr MEDIA_MARKDOWN else Inr MEDIA_TEXT)"

definition detect_media :: "unicode_more \<Rightarrow> parsers \<Rightarrow> bytes \<Rightarrow> pystr option \<Rightarrow> pystr option \<Rightarrow> pystr result" where
  "detect_media v p data declared given_name =
     (if data = [] then rejected ''artifact is empty''
      else if MAX_ARTIFACT_BYTES < int (length data) then rejected ''artifact exceeds the byte limit''
      else let normalized = (case declared of
               Some d \<Rightarrow> if d = [] then [] else lower v (strip (takeWhile (\<lambda>c. c \<noteq> 59) d)) | None \<Rightarrow> []) in
        if normalized = MEDIA_SLACK then and_then (validate_snapshot (snapshots p) data) (\<lambda>_. Inr MEDIA_SLACK)
        else and_then (detect v p data given_name) (\<lambda>found.
          if normalized \<in> set TEXT_MEDIA \<and> found \<in> set TEXT_MEDIA then Inr normalized
          else if truthy declared \<and> normalized \<notin> {lit ''application/octet-stream'', found}
          then rejected ''declared media type does not match the artifact bytes''
          else Inr found))"

section \<open>Results\<close>

record extraction_result =
  result_text :: pystr
  result_media :: pystr
  result_extractor :: pystr
  result_pages :: nat
  result_ocr_pages :: "nat list"
  result_decisions :: "pystr list"

definition plain_result :: "pystr \<Rightarrow> pystr \<Rightarrow> string \<Rightarrow> extraction_result" where
  "plain_result s media name =
     \<lparr>result_text = s, result_media = media, result_extractor = lit name, result_pages = 1, result_ocr_pages = [],
       result_decisions = []\<rparr>"

text \<open>The builder of long texts: parts joined by a blank line, within the byte limit.\<close>

fun joined_parts :: "nat \<Rightarrow> pystr list \<Rightarrow> pystr list \<Rightarrow> pystr list result" where
  "joined_parts n parts [] = Inr parts"
| "joined_parts n parts (s # ss) =
     (let n' = n + (if parts = [] then 0 else 2) + utf8_size s in
      if MAX_CAPTURE_EXTRACTED_BYTES < n' then unreadable ''extraction exceeds the readable byte limit''
      else joined_parts n' (parts @ [s]) ss)"

definition built :: "pystr list \<Rightarrow> pystr result" where
  "built ss = and_then (joined_parts 0 [] ss) (\<lambda>parts. Inr (join [NL, NL] parts))"

definition guard_readable :: "pystr \<Rightarrow> unit result" where
  "guard_readable s =
     (if MAX_CAPTURE_EXTRACTED_BYTES < utf8_size s then unreadable ''extraction exceeds the readable byte limit'' else Inr ())"

section \<open>Text and HTML\<close>

definition extract_text :: "bytes \<Rightarrow> pystr \<Rightarrow> extraction_result result" where
  "extract_text data media =
     (if MAX_CAPTURE_EXTRACTED_BYTES < length data then unreadable ''extraction exceeds the readable byte limit''
      else case decode data of
        None \<Rightarrow> rejected ''text artifact is not valid UTF-8''
      | Some s \<Rightarrow> Inr (plain_result s media ''utf8''))"

definition BLOCKS :: "pystr list" where
  "BLOCKS = map lit [''article'', ''blockquote'', ''br'', ''dd'', ''div'', ''dl'', ''dt'', ''figcaption'', ''h1'', ''h2'', ''h3'',
     ''h4'', ''h5'', ''h6'', ''li'', ''main'', ''p'', ''pre'', ''section'', ''table'', ''td'', ''th'', ''tr'']"

definition IGNORED :: "pystr list" where
  "IGNORED = map lit [''script'', ''style'', ''svg'', ''canvas'', ''noscript'', ''nav'', ''footer'']"

record readable_html =
  html_depth :: nat
  html_title_depth :: nat
  html_title :: pystr
  html_parts :: pystr
  html_bytes :: nat

definition html_append :: "bool \<Rightarrow> pystr \<Rightarrow> readable_html \<Rightarrow> readable_html result" where
  "html_append to_title s h =
     (let n = html_bytes h + utf8_size s in
      if MAX_CAPTURE_EXTRACTED_BYTES < n then unreadable ''extraction exceeds the readable byte limit''
      else Inr (if to_title then h\<lparr>html_bytes := n, html_title := html_title h @ s\<rparr>
                else h\<lparr>html_bytes := n, html_parts := html_parts h @ s\<rparr>))"

definition html_event_step :: "html_event \<Rightarrow> readable_html \<Rightarrow> readable_html result" where
  "html_event_step e h =
     (case e of
        Start_Tag tag \<Rightarrow>
          let h' = h\<lparr>html_depth := html_depth h + (if tag \<in> set IGNORED then 1 else 0),
                     html_title_depth := html_title_depth h + (if tag = lit ''title'' then 1 else 0)\<rparr> in
          if html_depth h' = 0 \<and> tag \<in> set BLOCKS then html_append False [NL] h' else Inr h'
      | End_Tag tag \<Rightarrow>
          let h' = h\<lparr>html_title_depth := html_title_depth h - (if tag = lit ''title'' then 1 else 0),
                     html_depth := html_depth h - (if tag \<in> set IGNORED then 1 else 0)\<rparr> in
          if html_depth h' = 0 \<and> tag \<in> set BLOCKS then html_append False [NL] h' else Inr h'
      | Html_Text s \<Rightarrow>
          if html_title_depth h \<noteq> 0 then html_append True s h
          else if html_depth h = 0 then html_append False s h
          else Inr h)"

fun html_run :: "html_event list \<Rightarrow> readable_html \<Rightarrow> readable_html result" where
  "html_run [] h = Inr h"
| "html_run (e # es) h = and_then (html_event_step e h) (html_run es)"

fun compact_lines :: "bool \<Rightarrow> pystr list \<Rightarrow> pystr list" where
  "compact_lines after_text [] = []"
| "compact_lines after_text (l # ls) =
     (if l \<noteq> [] then l # compact_lines True ls
      else if after_text then l # compact_lines False ls
      else compact_lines False ls)"

definition clean_blocks :: "pystr \<Rightarrow> pystr" where
  "clean_blocks s = strip (join [NL] (compact_lines False (map one_line (splitlines s))))"

definition extract_html :: "parsers \<Rightarrow> bytes \<Rightarrow> extraction_result result" where
  "extract_html p data =
     (case Option.bind (decode data) (html_events p) of
        None \<Rightarrow> rejected ''HTML artifact is not valid UTF-8''
      | Some es \<Rightarrow>
          and_then (html_run es \<lparr>html_depth = 0, html_title_depth = 0, html_title = [], html_parts = [], html_bytes = 0\<rparr>) (\<lambda>h.
            let contents = clean_blocks (html_parts h); name = one_line (html_title h);
                s = (if name \<noteq> [] \<and> contents \<noteq> [] then lit ''# '' @ name @ [NL, NL] @ contents
                     else if name \<noteq> [] then name else contents) in
            if s = [] then unreadable ''HTML artifact contains no readable text''
            else Inr (plain_result s MEDIA_HTML ''html'')))"

section \<open>Documents\<close>

text \<open>\<open>str.isalnum\<close> of each character, and the replacement characters of undecodable text.\<close>

definition needs_ocr :: "unicode_more \<Rightarrow> pystr \<Rightarrow> bool" where
  "needs_ocr v s =
     (let t = strip s; replacements = length (filter (\<lambda>c. c = 65533) t) in
      length (filter (is_alnum v) t) < 20 \<or> max 2 (length t div 50) < replacements)"

definition guard_geometry :: "(rat \<times> rat) option \<Rightarrow> unit result" where
  "guard_geometry size_points =
     (case size_points of
        None \<Rightarrow> rejected ''PDF page has invalid geometry''
      | Some (w, h) \<Rightarrow>
          if w \<le> 0 \<or> h \<le> 0 then rejected ''PDF page has invalid geometry''
          else if MAX_IMAGE_PIXELS < \<lceil>w * OCR_DPI / 72\<rceil> * \<lceil>h * OCR_DPI / 72\<rceil>
          then rejected ''PDF page exceeds the OCR pixel safety limit''
          else Inr ())"

definition page_heading :: "nat \<Rightarrow> pystr" where
  "page_heading n = lit ''## Page '' @ str_nat n"

text \<open>The text of a page, whether it was transcribed, and how it was read.\<close>

definition read_pdf_page :: "unicode_more \<Rightarrow> parsers \<Rightarrow> nat \<Rightarrow> pdf_page \<Rightarrow> (pystr \<times> nat list \<times> pystr) result" where
  "read_pdf_page v p n page =
     (if \<not> needs_ocr v (pdf_text page)
      then Inr (page_heading n @ [NL, NL] @ rstrip (pdf_text page), [], lit ''page '' @ str_nat n @ lit '': digital text'')
      else and_then (guard_geometry (pdf_size page)) (\<lambda>_.
        case transcribe p (pdf_image page) MEDIA_PNG of
          Inl _ \<Rightarrow> Inl (ExtractionError (lit ''OCR failed for PDF page '' @ str_nat n))
        | Inr reading \<Rightarrow>
            Inr (if \<not> blank (seen_text reading)
                 then page_heading n @ lit '' ('' @ OCR_MARK @ lit '')'' @ [NL, NL] @ rstrip (seen_text reading)
                 else page_heading n @ [NL, NL] @ rstrip (pdf_text page),
                 [n], lit ''page '' @ str_nat n @ lit '': OCR'')))"

text \<open>Pages are read and added one by one, so an oversized text stops the reading.\<close>

fun read_pdf_pages :: "unicode_more \<Rightarrow> parsers \<Rightarrow> nat \<Rightarrow> nat \<Rightarrow> pystr list \<Rightarrow> pdf_page list
    \<Rightarrow> (pystr list \<times> nat list \<times> pystr list) result" where
  "read_pdf_pages v p n used parts [] = Inr (parts, [], [])"
| "read_pdf_pages v p n used parts (page # pages) =
     and_then (read_pdf_page v p n page) (\<lambda>(s, ocr, how).
       let used' = used + (if parts = [] then 0 else 2) + utf8_size s in
       if MAX_CAPTURE_EXTRACTED_BYTES < used' then unreadable ''extraction exceeds the readable byte limit''
       else and_then (read_pdf_pages v p (Suc n) used' (parts @ [s]) pages) (\<lambda>(all, ocrs, hows).
         Inr (all, ocr @ ocrs, how # hows)))"

definition without_prefix :: "pystr \<Rightarrow> pystr \<Rightarrow> pystr" where
  "without_prefix p s = (if starts_with p s then drop (length p) s else s)"

definition ocr_name :: "parsers \<Rightarrow> pystr" where
  "ocr_name p = without_prefix (lit ''openrouter:'') (OCR_MODEL p)"

definition extract_pdf :: "unicode_more \<Rightarrow> parsers \<Rightarrow> bytes \<Rightarrow> extraction_result result" where
  "extract_pdf v p data =
     (case open_pdf p data of
        None \<Rightarrow> rejected ''PDF is corrupt''
      | Some doc \<Rightarrow>
          if pdf_locked doc then rejected ''encrypted PDFs are not supported''
          else if MAX_PAGES < length (pdf_pages doc) then rejected ''PDF exceeds the page limit''
          else and_then (read_pdf_pages v p 1 0 [] (pdf_pages doc)) (\<lambda>(parts, ocr, hows).
            let combined = rstrip (join [NL, NL] parts) in
            if combined = [] then unreadable ''PDF contains no readable text''
            else Inr \<lparr>result_text = combined, result_media = MEDIA_PDF,
              result_extractor = (if ocr \<noteq> [] then lit ''pymupdf+'' @ ocr_name p else lit ''pymupdf''),
              result_pages = length (pdf_pages doc), result_ocr_pages = ocr, result_decisions = hows\<rparr>))"

definition table_row :: "pystr list \<Rightarrow> pystr" where
  "table_row cells = lit ''| '' @ join (lit '' | '') (map one_line cells) @ lit '' |''"

definition HEADING_STYLE :: regex where
  "HEADING_STYLE = seq [seq (map (\<lambda>c. any_of [c, c - 32]) (lit ''heading'')), plus (Sat is_space),
     Group 1 (Sat (\<lambda>c. 49 \<le> c \<and> c \<le> 54)), Eol]"

definition docx_lines :: "docx_block \<Rightarrow> pystr list" where
  "docx_lines b =
     (case b of
        Paragraph s style \<Rightarrow>
          let t = strip s in
          if t = [] then []
          else (case match_at HEADING_STYLE style 0 of
                  Some m \<Rightarrow> [replicate (case group_of m 1 of Some d \<Rightarrow> digits_value d | None \<Rightarrow> 0) 35 @ [SP] @ t]
                | None \<Rightarrow> [t])
      | Table rows \<Rightarrow> map table_row rows)"

definition extract_docx :: "parsers \<Rightarrow> bytes \<Rightarrow> extraction_result result" where
  "extract_docx p data =
     and_then (validate_openxml p data) (\<lambda>_.
       case open_docx p data of
         None \<Rightarrow> rejected ''DOCX is corrupt''
       | Some blocks \<Rightarrow>
           and_then (built (concat (map docx_lines blocks))) (\<lambda>s.
             if strip s = [] then unreadable ''DOCX contains no readable text''
             else Inr (plain_result (strip s) MEDIA_DOCX ''python-docx'')))"

definition shape_lines :: "shape \<Rightarrow> pystr list" where
  "shape_lines s =
     (case shape_kind s of
        Shape_Table rows \<Rightarrow> map table_row rows
      | Shape_Text t \<Rightarrow> if strip t = [] then [] else [strip t]
      | Shape_Other \<Rightarrow> [])"

definition slide_text :: "nat \<Rightarrow> slide \<Rightarrow> pystr" where
  "slide_text n s =
     join [NL, NL]
       ([lit ''## Slide '' @ str_nat n]
        @ (case slide_title s of Some t \<Rightarrow> if strip t \<noteq> [] then [lit ''### '' @ strip t] else [] | None \<Rightarrow> [])
        @ concat (map shape_lines (sort_key (\<lambda>x. (shape_top x, shape_left x)) (slide_shapes s)))
        @ (case slide_notes s of
             Some t \<Rightarrow> if strip t \<noteq> [] then [lit ''### Speaker notes'', strip t] else [] | None \<Rightarrow> []))"

definition extract_pptx :: "parsers \<Rightarrow> bytes \<Rightarrow> extraction_result result" where
  "extract_pptx p data =
     and_then (validate_openxml p data) (\<lambda>_.
       case open_pptx p data of
         None \<Rightarrow> rejected ''PPTX is corrupt''
       | Some slides \<Rightarrow>
           if MAX_PAGES < length slides then rejected ''PPTX exceeds the slide limit''
           else and_then (built (map (\<lambda>(n, s). slide_text n s) (enumerate 1 slides))) (\<lambda>s.
             if strip s = [] then unreadable ''PPTX contains no readable text''
             else Inr ((plain_result (strip s) MEDIA_PPTX ''python-pptx'')\<lparr>result_pages := length slides\<rparr>)))"

definition extract_image :: "parsers \<Rightarrow> bytes \<Rightarrow> pystr \<Rightarrow> extraction_result result" where
  "extract_image p data media =
     (case image_size p data of
        None \<Rightarrow> rejected ''image is corrupt or exceeds the pixel safety limit''
      | Some (w, h) \<Rightarrow>
          if w \<le> 0 \<or> h \<le> 0 \<or> MAX_IMAGE_PIXELS < w * h then rejected ''image exceeds the pixel safety limit''
          else case transcribe p data media of
            Inl (ArtifactRejected m) \<Rightarrow> Inl (ArtifactRejected m)
          | Inl _ \<Rightarrow> unreadable ''image OCR failed''
          | Inr reading \<Rightarrow>
              if strip (seen_text reading) = [] then unreadable ''image OCR found no readable text''
              else Inr \<lparr>result_text = strip (seen_text reading), result_media = media, result_extractor = ocr_name p,
                result_pages = 1, result_ocr_pages = [1], result_decisions = [lit ''image: OCR'']\<rparr>)"

section \<open>One artifact\<close>

definition extract_artifact :: "unicode_more \<Rightarrow> parsers \<Rightarrow> pystr \<Rightarrow> bytes \<Rightarrow> pystr \<Rightarrow> extraction_result result" where
  "extract_artifact v p model data media =
     (if model \<noteq> OCR_MODEL p then unreadable ''OCR model is not the approved one''
      else and_then (detect_media v p data (Some media) None) (\<lambda>found.
        and_then
          (if found \<in> set TEXT_MEDIA then extract_text data found
           else if found = MEDIA_HTML then extract_html p data
           else if found = MEDIA_PDF then extract_pdf v p data
           else if found = MEDIA_DOCX then extract_docx p data
           else if found = MEDIA_PPTX then extract_pptx p data
           else if found \<in> {MEDIA_PNG, MEDIA_JPEG} then extract_image p data found
           else if found = MEDIA_SLACK
           then and_then (validate_snapshot (snapshots p) data) (\<lambda>s.
             Inr (plain_result (render_snapshot s) MEDIA_SLACK ''slack-snapshot''))
           else rejected ''unsupported artifact format'') (\<lambda>r.
        and_then (guard_readable (result_text r)) (\<lambda>_. Inr r))))"

text \<open>
  The child process: it times out, dies, or sends its outcome back. An error of the child keeps only
  whether it rejected the artifact.
\<close>

datatype child = Timed_Out | Died | Answered

definition extract_bounded :: "unicode_more \<Rightarrow> parsers \<Rightarrow> pystr \<Rightarrow> child \<Rightarrow> bytes \<Rightarrow> pystr \<Rightarrow> extraction_result result" where
  "extract_bounded v p model c data media =
     (case c of
        Timed_Out \<Rightarrow> Inl (ExtractionTimeout (lit ''artifact extraction timed out''))
      | Died \<Rightarrow> unreadable ''artifact extraction process failed''
      | Answered \<Rightarrow>
          (case extract_artifact v p model data media of
             Inr r \<Rightarrow> Inr r
           | Inl (ArtifactRejected m) \<Rightarrow> Inl (ArtifactRejected m)
           | Inl (ExtractionError m) \<Rightarrow> Inl (ExtractionError m)
           | Inl _ \<Rightarrow> unreadable ''artifact extraction failed''))"

section \<open>A capture\<close>

record extracted =
  original :: artifact
  extracted_ref :: pystr
  extracted_sha256 :: pystr
  extracted_bytes :: nat
  extracted_result :: extraction_result

definition IN_PROCESS_MEDIA :: "pystr list" where
  "IN_PROCESS_MEDIA = [MEDIA_TEXT, MEDIA_MARKDOWN]"

text \<open>
  \<open>left n\<close> is what remains of the deadline, in seconds rounded up, at the \<open>n\<close>-th look at the clock; without
  a bound the code takes the default. \<open>fate n\<close> is what becomes of the child for the \<open>n\<close>-th artifact.
\<close>

definition remaining :: "(nat \<Rightarrow> int) \<Rightarrow> nat \<Rightarrow> int result" where
  "remaining left n =
     (if left n \<le> 0 then Inl (ExtractionTimeout (lit ''capture extraction timed out''))
      else Inr (min DEFAULT_TIMEOUT_S (max 1 (left n))))"

definition original_bytes :: "(bytes \<Rightarrow> pystr) \<Rightarrow> artifact \<Rightarrow> objects \<Rightarrow> bytes result" where
  "original_bytes digest a obj =
     and_then (head_object (blob_ref a) obj) (\<lambda>n.
       if n \<noteq> artifact_bytes a then unreadable ''original artifact failed its digest or size check''
       else and_then (get_limited (blob_ref a) (artifact_bytes a) obj) (\<lambda>data.
         if int (length data) \<noteq> artifact_bytes a \<or> digest data \<noteq> sha256 a
         then unreadable ''original artifact failed its digest or size check''
         else Inr data))"

definition readable_of :: "unicode_more \<Rightarrow> parsers \<Rightarrow> (bytes \<Rightarrow> pystr) \<Rightarrow> pystr \<Rightarrow> (nat \<Rightarrow> int) \<Rightarrow> (nat \<Rightarrow> child) option
    \<Rightarrow> objects \<Rightarrow> nat \<Rightarrow> artifact \<Rightarrow> extraction_result result" where
  "readable_of v p digest model left fate obj n a =
     and_then (remaining left (5 * n)) (\<lambda>_.
       if media_type a \<in> set IN_PROCESS_MEDIA \<and> int MAX_CAPTURE_EXTRACTED_BYTES < artifact_bytes a
       then unreadable ''extraction exceeds the readable byte limit''
       else and_then (original_bytes digest a obj) (\<lambda>data.
         and_then (remaining left (5 * n + 1)) (\<lambda>_.
         and_then
           (case fate of
              Some f \<Rightarrow>
                if media_type a \<in> set IN_PROCESS_MEDIA then extract_artifact v p model data (media_type a)
                else and_then (remaining left (5 * n + 2)) (\<lambda>_. extract_bounded v p model (f n) data (media_type a))
            | None \<Rightarrow> extract_artifact v p model data (media_type a)) (\<lambda>r.
         and_then (remaining left (5 * n + 3)) (\<lambda>_.
           if encode (result_text r) = [] then unreadable ''readable extraction is empty'' else Inr r)))))"

fun readable_from :: "unicode_more \<Rightarrow> parsers \<Rightarrow> (bytes \<Rightarrow> pystr) \<Rightarrow> pystr \<Rightarrow> (nat \<Rightarrow> int) \<Rightarrow> (nat \<Rightarrow> child) option
    \<Rightarrow> objects \<Rightarrow> nat \<Rightarrow> nat \<Rightarrow> artifact list \<Rightarrow> (artifact \<times> extraction_result) list result" where
  "readable_from v p digest model left fate obj n sofar [] = Inr []"
| "readable_from v p digest model left fate obj n sofar (a # as) =
     and_then (readable_of v p digest model left fate obj n a) (\<lambda>r.
       let sofar' = sofar + length (encode (result_text r)) in
       if MAX_CAPTURE_EXTRACTED_BYTES < sofar' then unreadable ''extraction exceeds the capture-wide readable byte limit''
       else and_then (readable_from v p digest model left fate obj (Suc n) sofar' as) (\<lambda>rs. Inr ((a, r) # rs)))"

text \<open>The readable bytes are stored once every artifact has been read; plain text is its own readable.\<close>

fun store_readable :: "(bytes \<Rightarrow> pystr) \<Rightarrow> (nat \<Rightarrow> int) \<Rightarrow> nat \<Rightarrow> (artifact \<times> extraction_result) list \<Rightarrow> objects
    \<Rightarrow> extracted list result \<times> objects" where
  "store_readable digest left n [] obj = (Inr [], obj)"
| "store_readable digest left n ((a, r) # rest) obj =
     (case remaining left n of
        Inl e \<Rightarrow> (Inl e, obj)
      | Inr _ \<Rightarrow>
          let data = encode (result_text r);
              (stored, obj1) = (if media_type a \<in> set TEXT_MEDIA then (Inr (blob_ref a), obj) else put_object digest data obj) in
          case and_then stored (\<lambda>ref. and_then (remaining left (Suc n)) (\<lambda>_. Inr ref)) of
            Inl e \<Rightarrow> (Inl e, obj1)
          | Inr ref \<Rightarrow>
              let (others, obj2) = store_readable digest left (n + 2) rest obj1 in
              (and_then others (\<lambda>xs. Inr (\<lparr>original = a, extracted_ref = ref, extracted_sha256 = digest data,
                 extracted_bytes = length data, extracted_result = r\<rparr> # xs)), obj2))"

definition extract_capture :: "unicode_more \<Rightarrow> parsers \<Rightarrow> (bytes \<Rightarrow> pystr) \<Rightarrow> pystr \<Rightarrow> (nat \<Rightarrow> int) \<Rightarrow> (nat \<Rightarrow> child) option
    \<Rightarrow> envelope \<Rightarrow> objects \<Rightarrow> extracted list result \<times> objects" where
  "extract_capture v p digest model left fate e obj =
     (if model \<noteq> OCR_MODEL p then (unreadable ''OCR model is not the approved one'', obj)
      else case readable_from v p digest model left fate obj 0 0 (artifacts e) of
        Inl err \<Rightarrow> (Inl err, obj)
      | Inr pending \<Rightarrow> store_readable digest left (5 * length (artifacts e)) pending obj)"

end
