(* ===== verification/Readable_Evidence.thy ===== *)
theory Readable_Evidence
  imports Readable_Text
begin

text \<open>
  What an extracted capture holds: every artifact in order, from bytes with the declared digest and
  size, within the byte limit, and a store that only grows.
\<close>

definition evidence_of :: "(bytes \<Rightarrow> pystr) \<Rightarrow> objects \<Rightarrow> artifact \<Rightarrow> bool" where
  "evidence_of digest obj a \<longleftrightarrow>
     (\<exists>data. fmlookup obj (blob_ref a) = Some data \<and> digest data = sha256 a \<and> int (length data) = artifact_bytes a)"

definition readable_size :: "artifact \<times> extraction_result \<Rightarrow> nat" where
  "readable_size ar = length (encode (result_text (snd ar)))"

definition grows :: "objects \<Rightarrow> objects \<Rightarrow> bool" where
  "grows obj obj' \<longleftrightarrow> (\<forall>key. fmlookup obj key \<noteq> None \<longrightarrow> fmlookup obj' key = fmlookup obj key)"

lemma grows_refl [simp]: "grows obj obj"
  by (simp add: grows_def)

lemma grows_trans: "grows a b \<Longrightarrow> grows b c \<Longrightarrow> grows a c"
  by (auto simp: grows_def)

lemma growsD: "grows obj obj' \<Longrightarrow> fmlookup obj key = Some data \<Longrightarrow> fmlookup obj' key = Some data"
  by (auto simp: grows_def)

lemma put_object_grows: "put_object digest data obj = (r, obj') \<Longrightarrow> grows obj obj'"
  by (auto simp: put_object_def grows_def fmlookup_dom_iff split: sum.splits if_splits)

lemma put_object_present: "put_object digest data obj = (Inr key, obj') \<Longrightarrow> key |\<in>| fmdom obj'"
  by (auto simp: put_object_def split: sum.splits if_splits)

lemma original_bytes_evidence: "original_bytes digest a obj = Inr data \<Longrightarrow> evidence_of digest obj a"
  by (auto simp: original_bytes_def get_limited_def get_object_def evidence_of_def and_then_eq_Inr unreadable_def
    split: if_splits option.splits)

lemma readable_of_evidence:
  assumes "readable_of v p digest model left fate obj n a = Inr r"
  shows "evidence_of digest obj a" and "0 < readable_size (a, r)"
proof -
  from assms obtain data where "original_bytes digest a obj = Inr data"
    by (auto simp: readable_of_def and_then_eq_Inr unreadable_def split: if_splits)
  then show "evidence_of digest obj a"
    by (rule original_bytes_evidence)
  from assms show "0 < readable_size (a, r)"
    by (auto simp: readable_of_def readable_size_def and_then_eq_Inr unreadable_def split: if_splits)
qed

lemma readable_from_evidence:
  assumes "readable_from v p digest model left fate obj n sofar as = Inr rs" and "sofar \<le> MAX_CAPTURE_EXTRACTED_BYTES"
  shows "map fst rs = as \<and> (\<forall>ar \<in> set rs. evidence_of digest obj (fst ar) \<and> 0 < readable_size ar) \<and>
    sofar + sum_list (map readable_size rs) \<le> MAX_CAPTURE_EXTRACTED_BYTES"
  using assms
proof (induction as arbitrary: n sofar rs)
  case (Cons a as)
  from Cons.prems(1) obtain r rest
    where r: "readable_of v p digest model left fate obj n a = Inr r"
      and limit: "sofar + readable_size (a, r) \<le> MAX_CAPTURE_EXTRACTED_BYTES"
      and rest: "readable_from v p digest model left fate obj (Suc n) (sofar + readable_size (a, r)) as = Inr rest"
      and rs: "rs = (a, r) # rest"
    by (auto simp: and_then_eq_Inr readable_size_def unreadable_def Let_def split: if_splits)
  show ?case
    using Cons.IH [OF rest limit] readable_of_evidence [OF r] rs by (simp add: add.assoc)
qed simp

text \<open>An artifact and its result as they were extracted, with the readable object in the store.\<close>

definition stored_as :: "(bytes \<Rightarrow> pystr) \<Rightarrow> objects \<Rightarrow> artifact \<times> extraction_result \<Rightarrow> extracted \<Rightarrow> bool" where
  "stored_as digest obj ar x \<longleftrightarrow>
     original x = fst ar \<and> extracted_result x = snd ar \<and> extracted_bytes x = readable_size ar \<and>
     extracted_sha256 x = digest (encode (result_text (snd ar))) \<and> extracted_ref x |\<in>| fmdom obj"

lemma stored_as_grows: "stored_as digest obj ar x \<Longrightarrow> grows obj obj' \<Longrightarrow> stored_as digest obj' ar x"
  by (auto simp: stored_as_def fmlookup_dom_iff dest: growsD)

lemma store_readable_grows: "store_readable digest left n rs obj = (r, obj') \<Longrightarrow> grows obj obj'"
proof (induction rs arbitrary: n obj r obj')
  case (Cons ar rs)
  obtain a e where ar: "ar = (a, e)"
    by (cases ar)
  show ?case
    using Cons.prems unfolding ar
    by (auto simp: Let_def split: sum.splits if_splits prod.splits dest: put_object_grows Cons.IH intro: grows_trans)
qed auto

lemma store_readable_stored:
  assumes "store_readable digest left n rs obj = (Inr xs, obj')" and "\<forall>ar \<in> set rs. evidence_of digest obj (fst ar)"
  shows "list_all2 (stored_as digest obj') rs xs"
  using assms
proof (induction rs arbitrary: n obj xs obj')
  case (Cons ar rs)
  obtain a r where ar: "ar = (a, r)"
    by (cases ar)
  let ?data = "encode (result_text r)"
  let ?put = "if media_type a \<in> set TEXT_MEDIA then (Inr (blob_ref a), obj) else put_object digest ?data obj"
  obtain stored obj1 where put: "?put = (stored, obj1)"
    by (cases ?put)
  from Cons.prems(1) put obtain ref ys
    where ref: "stored = Inr ref" and rest: "store_readable digest left (n + 2) rs obj1 = (Inr ys, obj')"
      and xs: "xs = \<lparr>original = a, extracted_ref = ref, extracted_sha256 = digest ?data, extracted_bytes = length ?data,
        extracted_result = r\<rparr> # ys"
    unfolding ar by (auto simp: Let_def and_then_eq_Inr and_then_eq_Inl split: sum.splits prod.splits)
  have present: "ref |\<in>| fmdom obj1" and grown: "grows obj obj1"
    using put ref Cons.prems(2) unfolding ar
    by (auto split: if_splits simp: evidence_of_def fmlookup_dom_iff dest: put_object_present put_object_grows)
  have "\<forall>ar \<in> set rs. evidence_of digest obj1 (fst ar)"
    using Cons.prems(2) growsD [OF grown] by (auto simp: evidence_of_def)
  then have others: "list_all2 (stored_as digest obj') rs ys"
    by (rule Cons.IH [OF rest])
  have "stored_as digest obj1 ar (hd xs)"
    using present by (simp add: stored_as_def ar xs readable_size_def)
  then show ?case
    using others xs stored_as_grows store_readable_grows [OF rest] by simp
qed simp

section \<open>A sample capture\<close>

definition sample_parsers :: parsers where
  "sample_parsers = \<lparr>snapshots = \<lparr>read_snapshot = (\<lambda>_. None), snapshot_json = (\<lambda>_. [])\<rparr>, zip_entries = (\<lambda>_. None),
     zip_types = (\<lambda>_. None), open_pdf = (\<lambda>_. None), open_docx = (\<lambda>_. None), open_pptx = (\<lambda>_. None),
     image_size = (\<lambda>_. None), html_events = (\<lambda>_. None), transcribe = (\<lambda>_ _. Inr \<lparr>seen_text = [], seen_model = []\<rparr>),
     OCR_MODEL = lit ''m''\<rparr>"

definition sample_artifact :: artifact where
  "sample_artifact = \<lparr>blob_ref = lit ''b'', sha256 = lit ''d'', artifact_bytes = 2, media_type = MEDIA_TEXT,
     original_name = None, source_url = None\<rparr>"

definition sample_objects :: objects where
  "sample_objects = fmap_of_list [(lit ''b'', lit ''hi'')]"

definition sample_envelope :: envelope where
  "sample_envelope = \<lparr>capture_id = 1, envelope_key = lit ''k'', envelope_actor = \<lparr>subject = lit ''s'', display_name = lit ''s''\<rparr>,
     audience = None, envelope_origin = \<lparr>adapter = Mcp, captured_at = Aware 0, occurred_at = None, title = None, locator = None,
       participants = [], acquisition = None\<rparr>, artifacts = [sample_artifact], envelope_intent = \<lparr>resolution_of = None, rationale = None\<rparr>\<rparr>"

lemma sample_sizes: "length (lit ''hi'') = 2" "utf8_size (lit ''hi'') = 2" "length (encode (lit ''hi'')) = 2"
  by (simp_all add: length_encode utf8_width_def)

lemma sample_media: "detect_media ascii_more sample_parsers (lit ''hi'') (Some MEDIA_TEXT) None = Inr MEDIA_TEXT"
  by code_simp

lemma sample_decoded: "decode (lit ''hi'') = Some (lit ''hi'')"
  by code_simp

lemma sample_extracted:
  "extract_artifact ascii_more sample_parsers (lit ''m'') (lit ''hi'') MEDIA_TEXT =
     Inr (plain_result (lit ''hi'') MEDIA_TEXT ''utf8'')"
  using sample_media sample_decoded
  by (simp add: extract_artifact_def sample_parsers_def TEXT_MEDIA_def extract_text_def MAX_CAPTURE_EXTRACTED_BYTES_def
      guard_readable_def plain_result_def sample_sizes del: lit_Cons lit_Nil)

lemma sample_original: "original_bytes (\<lambda>_. lit ''d'') sample_artifact sample_objects = Inr (lit ''hi'')"
  by (simp add: original_bytes_def head_object_def get_limited_def get_object_def sample_artifact_def sample_objects_def)

lemma sample_not_empty: "encode (lit ''hi'') \<noteq> []"
  by (simp add: encode_def utf8_bytes_def)

lemma sample_readable:
  "readable_of ascii_more sample_parsers (\<lambda>_. lit ''d'') (lit ''m'') (\<lambda>_. 9) None sample_objects n sample_artifact =
     Inr (plain_result (lit ''hi'') MEDIA_TEXT ''utf8'')"
proof -
  have "media_type sample_artifact = MEDIA_TEXT" and "artifact_bytes sample_artifact = 2"
    by (simp_all add: sample_artifact_def)
  moreover have "result_text (plain_result (lit ''hi'') MEDIA_TEXT ''utf8'') = lit ''hi''"
    by (simp add: plain_result_def)
  ultimately show ?thesis
    by (simp add: readable_of_def remaining_def sample_original sample_extracted sample_not_empty
        MAX_CAPTURE_EXTRACTED_BYTES_def del: lit_Cons lit_Nil)
qed

lemma sample_capture:
  "extract_capture ascii_more sample_parsers (\<lambda>_. lit ''d'') (lit ''m'') (\<lambda>_. 9) None sample_envelope sample_objects =
     (Inr [\<lparr>original = sample_artifact, extracted_ref = lit ''b'', extracted_sha256 = lit ''d'', extracted_bytes = 2,
        extracted_result = plain_result (lit ''hi'') MEDIA_TEXT ''utf8''\<rparr>], sample_objects)"
proof -
  have "media_type sample_artifact \<in> set TEXT_MEDIA" and "blob_ref sample_artifact = lit ''b''"
    and "artifacts sample_envelope = [sample_artifact]" and "OCR_MODEL sample_parsers = lit ''m''"
    by (simp_all add: sample_artifact_def sample_envelope_def sample_parsers_def TEXT_MEDIA_def)
  moreover have "result_text (plain_result (lit ''hi'') MEDIA_TEXT ''utf8'') = lit ''hi''"
    by (simp add: plain_result_def)
  ultimately show ?thesis
    by (simp add: extract_capture_def remaining_def sample_readable sample_sizes MAX_CAPTURE_EXTRACTED_BYTES_def Let_def
        del: lit_Cons lit_Nil)
qed

section \<open>Properties\<close>



end
