(* ===== verification/Corpus.thy ===== *)
theory Corpus
  imports Pages Layered
begin

text \<open>
  The rows the index derives from a tree, \<open>stigmergy/index/corpus.py\<close>. The SHA-256 of a text is a
  parameter. A \<open>datetime\<close> of PyYAML is one of its other scalars, whose text starts with its day.
\<close>

definition ZONES :: "pystr list" where "ZONES = [lit ''wiki'', lit ''sources'']"

definition WIKILINK :: regex where
  "WIKILINK = seq [opt (chr 33), word (lit ''[[''), Group 1 (Seq (none_of [91, 93]) (Star False (none_of [91, 93]))), word (lit '']]'')]"

definition FENCE_RE :: regex where
  "FENCE_RE = seq [word (lit ''```''), Star False (Sat (\<lambda>_. True)), word (lit ''```'')]"

definition INLINE_CODE_RE :: regex where
  "INLINE_CODE_RE = seq [chr 96, Star True (none_of [96]), chr 96]"

definition WIKI_PATH_RE :: regex where
  "WIKI_PATH_RE = seq [word (lit ''wiki/''), Group 1 (alt (map (word \<circ> lit) [''notes'', ''concepts'', ''entities'', ''projects''])),
     chr SLASH, plus (none_of [SLASH]), word MD]"

definition SOURCE_FILE_RE :: "unicode \<Rightarrow> regex" where
  "SOURCE_FILE_RE u = seq [word (lit ''sources/''), exactly 4 (Sat (is_decimal u)), chr SLASH,
     alt [Seq (chr 48) (Sat (\<lambda>c. 49 \<le> c \<and> c \<le> 57)), Seq (chr 49) (any_of [48, 49, 50])], chr SLASH,
     exactly 8 (Sat (\<lambda>c. ascii_digit c \<or> 97 \<le> c \<and> c \<le> 102)), exactly 3 (Seq (chr 45) (exactly 4 (Sat (\<lambda>c. ascii_digit c \<or> 97 \<le> c \<and> c \<le> 102)))),
     chr 45, exactly 12 (Sat (\<lambda>c. ascii_digit c \<or> 97 \<le> c \<and> c \<le> 102)), word MD]"

text \<open>The name of a file without its last suffix.\<close>

definition file_name :: "pystr \<Rightarrow> pystr" where
  "file_name path = last (split_on SLASH path)"

definition stem_of :: "pystr \<Rightarrow> pystr" where
  "stem_of path =
     (let name = file_name path; suffix_length = length (takeWhile (\<lambda>c. c \<noteq> 46) (rev name)); cut = length name - suffix_length - 1 in
      if 46 \<notin> set name \<or> cut = 0 \<or> suffix_length = 0 then name else take cut name)"

section \<open>Links\<close>

definition strip_code :: "pystr \<Rightarrow> pystr" where
  "strip_code s = re_sub INLINE_CODE_RE (\<lambda>_. []) (re_sub FENCE_RE (\<lambda>_. []) s)"

definition before_mark :: "int \<Rightarrow> pystr \<Rightarrow> pystr" where
  "before_mark c s = takeWhile (\<lambda>d. d \<noteq> c) s"

definition link_targets :: "unicode_more \<Rightarrow> pystr \<Rightarrow> pystr list" where
  "link_targets v s =
     filter (\<lambda>t. t \<noteq> []) (map (\<lambda>m.
       let target = strip (before_mark 35 (before_mark 124 (captured_text 1 m)));
           named = (if ends_with MD (lower v target) then take (length target - 3) target else target) in
       lower v named) (finditer WIKILINK (strip_code s)))"

section \<open>Rows\<close>

record index_row =
  row_path :: pystr
  row_vpath :: pystr
  row_zone :: pystr
  row_id :: pystr
  row_title :: pystr
  row_body :: pystr
  row_type :: pystr
  row_status :: pystr
  row_entity_type :: pystr
  row_aliases :: "pystr list"
  row_updated :: pystr
  row_acl :: acl
  row_inlinks :: nat
  row_hash :: pystr
  row_links :: "pystr list"
  row_sources :: "pystr list"
  row_source_date :: pystr
  row_source_dates :: "pystr list"

definition string_list :: "yaml option \<Rightarrow> pystr list" where
  "string_list value =
     (case value of
        Some (YList ys) \<Rightarrow>
          fromkeys (List.map_filter (\<lambda>y. case y of YText s \<Rightarrow> if strip s = [] then None else Some (strip s) | _ \<Rightarrow> None) ys)
      | _ \<Rightarrow> [])"

text \<open>The empty list stands for an audience that is not readable.\<close>

definition acl_of_metadata :: "metadata \<Rightarrow> acl" where
  "acl_of_metadata m =
     (case map_of m (lit ''acl'') of
        None \<Rightarrow> None
      | Some YNull \<Rightarrow> None
      | Some (YList ys) \<Rightarrow>
          (case text_items ys of None \<Rightarrow> Some [] | Some ls \<Rightarrow> Some (fromkeys ls))
      | Some _ \<Rightarrow> Some [])"

definition is_indexable_page :: "unicode \<Rightarrow> pystr \<Rightarrow> bool" where
  "is_indexable_page u path =
     (case split_path path of
        Inl _ \<Rightarrow> False
      | Inr (_, vpath) \<Rightarrow> fullmatch WIKI_PATH_RE vpath \<noteq> None \<or> fullmatch (SOURCE_FILE_RE u) vpath \<noteq> None)"

definition zone_of :: "pystr \<Rightarrow> pystr" where
  "zone_of path = (case split_path path of Inl _ \<Rightarrow> [] | Inr (_, vpath) \<Rightarrow> before_mark SLASH vpath)"

definition expected_type :: "pystr \<Rightarrow> pystr" where
  "expected_type vpath =
     (case fullmatch WIKI_PATH_RE vpath of
        None \<Rightarrow> lit ''source''
      | Some m \<Rightarrow>
          let folder = captured_text 1 m in
          if folder = lit ''notes'' then lit ''note'' else if folder = lit ''concepts'' then lit ''concept''
          else if folder = lit ''entities'' then lit ''entity'' else lit ''project'')"

definition corpus_error :: "string \<Rightarrow> 'a result" where
  "corpus_error m = Inl (CorpusError (lit m))"

text \<open>\<open>value or other or ""\<close> as text.\<close>

definition true_text :: "yaml_lib \<Rightarrow> yaml option \<Rightarrow> pystr" where
  "true_text lib value = (case value of None \<Rightarrow> [] | Some y \<Rightarrow> if yaml_true lib y then yaml_str lib y else [])"

definition iso_day :: "yaml_lib \<Rightarrow> yaml option \<Rightarrow> pystr" where
  "iso_day lib value =
     (case value of
        Some (YDate d) \<Rightarrow> iso_text d
      | _ \<Rightarrow> let s = take 10 (strip (true_text lib value)) in
           (case date_of_text s of None \<Rightarrow> [] | Some d \<Rightarrow> iso_text d))"

definition first_text :: "pystr \<Rightarrow> pystr \<Rightarrow> pystr" where
  "first_text a b = (if a \<noteq> [] then a else b)"

definition row_status_ok :: "pystr \<Rightarrow> pystr \<Rightarrow> unit result" where
  "row_status_ok kind_text state =
     (if kind_text \<noteq> lit ''source'' \<and> state \<notin> set page_statuses then corpus_error ''wiki status is invalid''
      else if kind_text = lit ''source'' \<and> state \<noteq> [] then corpus_error ''source pages do not have editorial status''
      else Inr ())"

definition row_title_of :: "yaml_lib \<Rightarrow> metadata \<Rightarrow> pystr \<Rightarrow> pystr \<Rightarrow> pystr" where
  "row_title_of lib m path kind_text =
     (let t = strip (true_text lib (map_of m (lit ''title''))) in
      if t \<noteq> [] then t else if kind_text = lit ''source'' then lit ''Captured source'' else stem_of path)"

definition built_row :: "yaml_lib \<Rightarrow> unicode_more \<Rightarrow> (pystr \<Rightarrow> pystr) \<Rightarrow> pystr \<Rightarrow> pystr \<Rightarrow> pystr \<Rightarrow> metadata \<Rightarrow> pystr \<Rightarrow> pystr \<Rightarrow> pystr
    \<Rightarrow> acl \<Rightarrow> index_row" where
  "built_row lib v digest path vpath zone m body contents kind_text readers =
     (let t = row_title_of lib m path kind_text; field = (\<lambda>k. map_of m (lit k));
          day = (if kind_text = lit ''source'' then first_text (iso_day lib (field ''occurred_at'')) (iso_day lib (field ''captured_at''))
                 else []) in
      \<lparr>row_path = path, row_vpath = vpath, row_zone = zone, row_id = strip (true_text lib (field ''id'')), row_title = t,
       row_body = body, row_type = kind_text, row_status = true_text lib (field ''status''),
       row_entity_type = (if kind_text = lit ''entity'' then true_text lib (field ''entity_type'') else []),
       row_aliases = (if kind_text = lit ''entity'' then string_list (field ''aliases'') else []),
       row_updated = take 10 (first_text (true_text lib (field ''updated'')) (true_text lib (field ''captured_at''))),
       row_acl = readers, row_inlinks = 0, row_hash = lit ''sha256:'' @ digest (t @ [NL] @ body),
       row_links = link_targets v contents, row_sources = string_list (field ''sources''),
       row_source_date = day, row_source_dates = (if day = [] then [] else [day])\<rparr>)"

definition page_row :: "yaml_lib \<Rightarrow> unicode \<Rightarrow> unicode_more \<Rightarrow> (pystr \<Rightarrow> pystr) \<Rightarrow> pystr \<Rightarrow> pystr \<Rightarrow> pystr \<Rightarrow> index_row result" where
  "page_row lib u v digest path zone contents =
     (if zone \<notin> set ZONES \<or> \<not> is_indexable_page u path \<or> zone_of path \<noteq> zone
      then corpus_error ''path is outside the searchable corpus''
      else and_then (split_path path) (\<lambda>(layer, vpath).
        let (m, body, malformed) = split_frontmatter_checked lib contents; kind_text = expected_type vpath in
        if malformed \<or> m = [] then corpus_error ''frontmatter is invalid''
        else if map_of m (lit ''type'') \<noteq> Some (YText kind_text) then corpus_error ''page has the wrong type''
        else if strip (true_text lib (map_of m (lit ''id''))) = [] \<or> blank body then corpus_error ''page id and body are required''
        else let readers = acl_of_metadata m in
          if readers = Some [] then corpus_error ''acl must be null or a non-empty string list''
          else and_then (acl_of_layer layer) (\<lambda>mine.
            if readers \<noteq> mine then corpus_error ''page does not carry the audience of its layer''
            else and_then (row_status_ok kind_text (true_text lib (map_of m (lit ''status'')))) (\<lambda>_.
              Inr (built_row lib v digest path vpath zone m body contents kind_text readers)))))"

section \<open>Relations between rows\<close>

definition layer_of_path :: "pystr \<Rightarrow> pystr" where
  "layer_of_path path = (case split_path path of Inl _ \<Rightarrow> [] | Inr (layer, _) \<Rightarrow> layer)"

definition scope_of :: "pystr \<Rightarrow> pystr list" where
  "scope_of path = fromkeys [layer_of_path path, PUBLIC]"

definition sorted_set :: "'a::linorder list \<Rightarrow> 'a list" where
  "sorted_set xs = sort (remdups xs)"

definition dated_sources :: "index_row list \<Rightarrow> ((pystr \<times> pystr) \<times> pystr) list" where
  "dated_sources rows =
     map (\<lambda>r. ((layer_of_path (row_path r), row_vpath r), row_source_date r))
       (rev (filter (\<lambda>r. row_type r = lit ''source'' \<and> row_source_date r \<noteq> []) rows))"

definition attach_source_dates :: "((pystr \<times> pystr) \<times> pystr) list \<Rightarrow> index_row list \<Rightarrow> index_row list" where
  "attach_source_dates known rows =
     (let dates = map_of (dated_sources rows @ known) in
      map (\<lambda>r. if row_type r = lit ''source'' then r
               else r\<lparr>row_source_dates := sorted_set (concat (map (\<lambda>p. List.map_filter (\<lambda>l. dates (l, p)) (scope_of (row_path r)))
                   (row_sources r)))\<rparr>) rows)"

definition stems_at :: "unicode_more \<Rightarrow> pystr list \<Rightarrow> pystr \<Rightarrow> pystr \<Rightarrow> pystr list" where
  "stems_at v ps layer stem =
     List.map_filter (\<lambda>p. case split_path p of
         Inl _ \<Rightarrow> None
       | Inr (l, vpath) \<Rightarrow> if l = layer \<and> lower v (stem_of vpath) = stem then Some vpath else None) ps"

text \<open>The pages a link may mean: those of its name in the page's own layer and in \<open>public\<close>.\<close>

definition link_reach :: "unicode_more \<Rightarrow> pystr list \<Rightarrow> pystr \<Rightarrow> pystr \<Rightarrow> pystr list" where
  "link_reach v ps path stem = remdups (concat (map (\<lambda>l. stems_at v ps l stem) (scope_of path)))"

definition resolve_links :: "unicode_more \<Rightarrow> pystr list \<Rightarrow> pystr \<Rightarrow> pystr list \<Rightarrow> pystr list result" where
  "resolve_links v ps path stems =
     and_then (split_path path) (\<lambda>(_, own).
       Inr (sorted_set (filter (\<lambda>p. p \<noteq> own) (concat (map (\<lambda>s.
         let found = link_reach v ps path s in if length found = 1 then found else []) (fromkeys stems))))))"

definition with_links :: "unicode_more \<Rightarrow> pystr list \<Rightarrow> index_row \<Rightarrow> index_row result" where
  "with_links v ps r = and_then (resolve_links v ps (row_path r) (row_links r)) (\<lambda>ls. Inr (r\<lparr>row_links := ls\<rparr>))"

definition with_inlinks :: "index_row list \<Rightarrow> index_row \<Rightarrow> index_row" where
  "with_inlinks rows r =
     r\<lparr>row_inlinks := card (row_vpath ` set (filter (\<lambda>x. row_vpath r \<in> set (row_links x)) rows))\<rparr>"

definition load_page_texts :: "yaml_lib \<Rightarrow> unicode \<Rightarrow> unicode_more \<Rightarrow> (pystr \<Rightarrow> pystr) \<Rightarrow> (pystr \<times> pystr) list \<Rightarrow> index_row list result" where
  "load_page_texts lib u v digest pages =
     and_then (each (\<lambda>(p, s). page_row lib u v digest p (zone_of p) s) (filter (\<lambda>(p, _). is_indexable_page u p) pages)) (\<lambda>rows.
       let sorted_rows = sort_key row_path rows in
       and_then (each (with_links v (map row_path sorted_rows)) sorted_rows) (\<lambda>linked.
         Inr (attach_source_dates [] (map (with_inlinks linked) linked))))"

definition load_pages :: "yaml_lib \<Rightarrow> unicode \<Rightarrow> unicode_more \<Rightarrow> (pystr \<Rightarrow> pystr) \<Rightarrow> tree \<Rightarrow> index_row list result" where
  "load_pages lib u v digest t =
     load_page_texts lib u v digest
       (List.map_filter (\<lambda>p. if ends_with MD p \<and> is_indexable_page u p then map_option (Pair p) (fmlookup t p) else None)
         (concat (map (\<lambda>top. filter (starts_with (top @ [SLASH])) (paths_of t)) (ZONES @ [LAYER_ROOT]))))"

end
