(* ===== verification/Corpus_Safety.thy ===== *)
theory Corpus_Safety
  imports Corpus
begin

text \<open>
  What the rows of the index carry: the audience of their layer, and links that stay within reach of it.
\<close>

definition row_placed :: "index_row \<Rightarrow> bool" where
  "row_placed r \<longleftrightarrow>
     (\<exists>layer. split_path (row_path r) = Inr (layer, row_vpath r) \<and> acl_of_layer layer = Inr (row_acl r))"

lemma page_row_placed:
  assumes "page_row lib u v digest path zone contents = Inr r"
  shows "row_placed r \<and> row_path r = path"
proof -
  obtain layer vpath where "split_path path = Inr (layer, vpath)"
    using assms by (auto simp: page_row_def and_then_eq_Inr corpus_error_def split: if_splits)
  moreover obtain m body malformed where "split_frontmatter_checked lib contents = (m, body, malformed)"
    by (metis prod_cases3)
  ultimately show ?thesis
    using assms
    by (auto simp: page_row_def row_placed_def built_row_def and_then_eq_Inr corpus_error_def Let_def split: if_splits)
qed

lemma row_placedD:
  assumes "row_placed r"
  shows "split_path (row_path r) = Inr (layer_of_path (row_path r), row_vpath r)"
    and "acl_of_layer (layer_of_path (row_path r)) = Inr (row_acl r)"
  using assms by (auto simp: row_placed_def layer_of_path_def)

text \<open>Rows that differ only in what is derived from the other rows.\<close>

definition same_place :: "index_row \<Rightarrow> index_row \<Rightarrow> bool" where
  "same_place r r' \<longleftrightarrow> row_path r' = row_path r \<and> row_vpath r' = row_vpath r \<and> row_acl r' = row_acl r"

lemma same_place_placed: "same_place r r' \<Longrightarrow> row_placed r \<Longrightarrow> row_placed r'"
  by (auto simp: same_place_def row_placed_def)

lemma stems_at_reach:
  assumes "p \<in> set (stems_at v ps layer stem)"
  shows "\<exists>q \<in> set ps. split_path q = Inr (layer, p)"
proof -
  from assms obtain q where "q \<in> set ps" and hit: "(case split_path q of Inl _ \<Rightarrow> None
      | Inr (l, vpath) \<Rightarrow> if l = layer \<and> lower v (stem_of vpath) = stem then Some vpath else None) = Some p"
    by (auto simp: stems_at_def in_map_filter)
  moreover have "split_path q = Inr (layer, p)"
    using hit by (cases "split_path q") (auto split: if_splits prod.splits)
  ultimately show ?thesis
    by blast
qed

lemma set_scope_of [simp]: "set (scope_of path) = {layer_of_path path, PUBLIC}"
  unfolding scope_of_def set_fromkeys by simp

lemma resolve_links_reach:
  assumes "resolve_links v ps path stems = Inr ls" and "l \<in> set ls"
  shows "(\<forall>layer. split_path path \<noteq> Inr (layer, l)) \<and>
    (\<exists>q \<in> set ps. \<exists>layer' \<in> {layer_of_path path, PUBLIC}. split_path q = Inr (layer', l))"
proof -
  obtain own_layer own where own: "split_path path = Inr (own_layer, own)"
    using assms(1) by (auto simp: resolve_links_def and_then_eq_Inr)
  have ls: "set ls \<subseteq> {p. p \<noteq> own \<and> (\<exists>s. p \<in> set (link_reach v ps path s))}"
    using assms(1) by (auto simp: resolve_links_def sorted_set_def own Let_def split: if_splits)
  then obtain s where "l \<noteq> own" and "l \<in> set (link_reach v ps path s)"
    using assms(2) by blast
  then obtain layer' where "l \<in> set (stems_at v ps layer' s)" and "layer' \<in> {layer_of_path path, PUBLIC}"
    by (auto simp: link_reach_def)
  then have "\<exists>q \<in> set ps. \<exists>layer' \<in> {layer_of_path path, PUBLIC}. split_path q = Inr (layer', l)"
    using stems_at_reach by blast
  then show ?thesis
    using own \<open>l \<noteq> own\<close> by simp
qed

lemma attach_places:
  obtains g where "attach_source_dates known rows = map g rows" and "\<And>x. same_place x (g x) \<and> row_links (g x) = row_links x"
proof (rule that)
  show "attach_source_dates known rows = map (\<lambda>r. if row_type r = lit ''source'' then r
      else r\<lparr>row_source_dates := sorted_set (concat (map (\<lambda>p. List.map_filter
        (\<lambda>l. map_of (dated_sources rows @ known) (l, p)) (scope_of (row_path r))) (row_sources r)))\<rparr>) rows"
    by (simp add: attach_source_dates_def)
qed (simp add: same_place_def)

lemma with_inlinks_place: "same_place x (with_inlinks rows x) \<and> row_links (with_inlinks rows x) = row_links x"
  by (simp add: with_inlinks_def same_place_def)

lemma same_place_trans: "same_place a b \<Longrightarrow> same_place b c \<Longrightarrow> same_place a c"
  by (simp add: same_place_def)

lemma list_all2_in: "list_all2 P xs ys \<Longrightarrow> y \<in> set ys \<Longrightarrow> \<exists>x \<in> set xs. P x y"
  by (metis in_set_conv_nth list_all2_conv_all_nth)

section \<open>A sample corpus\<close>

lemma sample_rows:
  "case load_page_texts sample_yaml ascii_unicode ascii_more (\<lambda>s. s) [(sample_place, sample_text)] of
     Inr [r] \<Rightarrow> row_path r = sample_place | _ \<Rightarrow> False"
  by code_simp

section \<open>Properties\<close>



end
