(* ===== verification/Filing_Plans.thy ===== *)
theory Filing_Plans
  imports Pages Capture_Contracts
begin

text \<open>
  The mutation plans a librarian model returns, \<open>stigmergy/knowledge/plan.py\<close>. A plan is a record whose
  fields have their declared types; its validator is the bounds of the fields and the model validator,
  with the first error in place of pydantic's list of all. Lists stand for the tuples.
\<close>

definition MAX_ALIAS_CHARS :: nat where "MAX_ALIAS_CHARS = 300"

datatype mutation_action = Create_Page | Update_Page | Delete_Page

record mutation =
  mut_action :: mutation_action
  mut_role :: "role option"
  mut_path :: "pystr option"
  mut_title :: "pystr option"
  mut_body :: "pystr option"
  mut_status :: "pystr option"
  mut_entity_type :: "pystr option"
  mut_aliases :: "pystr list option"
  mut_reason :: pystr

text \<open>A string or a list given and not empty, as Python's truth of an optional value.\<close>

definition given :: "'a list option \<Rightarrow> bool" where
  "given x = (case x of None \<Rightarrow> False | Some s \<Rightarrow> s \<noteq> [])"

definition text_of_option :: "pystr option \<Rightarrow> pystr" where
  "text_of_option x = (case x of None \<Rightarrow> [] | Some s \<Rightarrow> s)"

definition at_most :: "nat \<Rightarrow> 'a list \<Rightarrow> unit result" where
  "at_most n xs = ensure (length xs \<le> n) ''too many items''"

definition not_empty :: "pystr \<Rightarrow> unit result" where
  "not_empty s = ensure (s \<noteq> []) ''string is empty''"

definition searchable_names :: "unicode_more \<Rightarrow> pystr list \<Rightarrow> bool" where
  "searchable_names v as =
     (let keys = map (resolution_key v) as in distinct keys \<and> list_all (list_ex (is_alnum v)) keys)"

definition complete_mutation :: "unicode_more \<Rightarrow> mutation \<Rightarrow> unit result" where
  "complete_mutation v p =
     (let a = mut_action p in
      and_then (ensure (\<not> (a = Create_Page \<and> (mut_role p = None \<or> \<not> given (mut_title p) \<or> \<not> given (mut_body p))))
        ''create requires role, title, and body'') (\<lambda>_.
      and_then (ensure (\<not> (a = Create_Page \<and> given (mut_path p))) ''create paths are derived from role and title'') (\<lambda>_.
      and_then (ensure (\<not> (a = Create_Page \<and> mut_role p = Some Entity_Page \<and> \<not> given (mut_entity_type p)))
        ''creating an entity page requires its entity type'') (\<lambda>_.
      and_then (ensure (\<not> (a = Create_Page \<and> mut_role p \<noteq> Some Entity_Page \<and> (given (mut_entity_type p) \<or> given (mut_aliases p))))
        ''only entity pages carry an entity type or aliases'') (\<lambda>_.
      and_then (ensure (\<not> (a = Update_Page \<and> (\<not> given (mut_path p) \<or> \<not> given (mut_body p)))) ''update requires path and body'') (\<lambda>_.
      and_then (ensure (\<not> (a = Delete_Page \<and> \<not> given (mut_path p))) ''delete requires path'') (\<lambda>_.
      and_then (ensure (\<not> (a = Delete_Page \<and> (mut_role p \<noteq> None \<or> mut_title p \<noteq> None \<or> mut_body p \<noteq> None \<or>
          mut_status p \<noteq> None \<or> mut_entity_type p \<noteq> None \<or> mut_aliases p \<noteq> None))) ''delete accepts only a path and reason'') (\<lambda>_.
      ensure (case mut_aliases p of None \<Rightarrow> True | Some as \<Rightarrow> searchable_names v as)
        ''aliases must be unique searchable names''))))))))"

definition valid_mutation :: "unicode_more \<Rightarrow> mutation \<Rightarrow> mutation result" where
  "valid_mutation v p =
     and_then (if_given (bounded 0 300) (mut_title p)) (\<lambda>_.
     and_then (if_given (bounded 0 50000) (mut_body p)) (\<lambda>_.
     and_then (ensure (case mut_status p of None \<Rightarrow> True | Some s \<Rightarrow> s \<in> set page_statuses) ''status is not one of the literals'') (\<lambda>_.
     and_then (ensure (case mut_entity_type p of None \<Rightarrow> True | Some t \<Rightarrow> t \<in> set ENTITY_TYPES) ''type is not one of the literals'') (\<lambda>_.
     and_then (if_given (each (bounded 1 MAX_ALIAS_CHARS)) (mut_aliases p)) (\<lambda>_.
     and_then (if_given (at_most 20) (mut_aliases p)) (\<lambda>_.
     and_then (not_empty (mut_reason p)) (\<lambda>_.
     and_then (complete_mutation v p) (\<lambda>_. Inr p))))))))"

section \<open>Contradictions a plan proposes\<close>

record claim =
  claim_text :: pystr
  claim_source :: pystr
  claim_date :: "pystr option"

record proposal =
  proposal_page :: pystr
  proposal_explanation :: pystr
  proposal_claims :: "claim list"

definition valid_claim :: "claim \<Rightarrow> claim result" where
  "valid_claim c =
     and_then (bounded 1 2000 (claim_text c)) (\<lambda>_.
     and_then (bounded 1 500 (claim_source c)) (\<lambda>_. Inr c))"

definition valid_proposal :: "proposal \<Rightarrow> proposal result" where
  "valid_proposal p =
     and_then (bounded 1 500 (proposal_page p)) (\<lambda>_.
     and_then (bounded 1 1000 (proposal_explanation p)) (\<lambda>_.
     and_then (each valid_claim (proposal_claims p)) (\<lambda>_.
     and_then (ensure (2 \<le> length (proposal_claims p) \<and> length (proposal_claims p) \<le> 10) ''claims are out of bounds'') (\<lambda>_.
       Inr p))))"

section \<open>Plans\<close>

record plan =
  plan_summary :: pystr
  plan_mutations :: "mutation list"
  plan_contradictions :: "proposal list"
  plan_resolved :: "pystr list"

definition valid_plan :: "unicode_more \<Rightarrow> plan \<Rightarrow> plan result" where
  "valid_plan v p =
     and_then (not_empty (plan_summary p)) (\<lambda>_.
     and_then (each (valid_mutation v) (plan_mutations p)) (\<lambda>_.
     and_then (at_most 32 (plan_mutations p)) (\<lambda>_.
     and_then (each valid_proposal (plan_contradictions p)) (\<lambda>_.
     and_then (at_most 10 (plan_contradictions p)) (\<lambda>_.
     and_then (at_most 20 (plan_resolved p)) (\<lambda>_. Inr p))))))"

record repair =
  repair_path :: pystr
  repair_body :: pystr
  repair_reason :: pystr

definition valid_repair :: "repair \<Rightarrow> repair result" where
  "valid_repair r =
     and_then (bounded 1 500 (repair_path r)) (\<lambda>_.
     and_then (bounded 1 100000 (repair_body r)) (\<lambda>_.
     and_then (not_empty (repair_reason r)) (\<lambda>_. Inr r)))"

record repair_plan =
  repair_summary :: pystr
  repair_mutations :: "repair list"

definition valid_repair_plan :: "repair_plan \<Rightarrow> repair_plan result" where
  "valid_repair_plan p =
     and_then (not_empty (repair_summary p)) (\<lambda>_.
     and_then (each valid_repair (repair_mutations p)) (\<lambda>_.
     and_then (at_most 12 (repair_mutations p)) (\<lambda>_. Inr p)))"

end
