(* ===== verification/Contradictions.thy ===== *)
theory Contradictions
  imports Filing_Plans
begin

text \<open>
  Contradictions filed on a page, \<open>stigmergy/knowledge/contradictions.py\<close>. The data line of a block is
  base64 of canonical JSON, which is a parameter: \<open>data_of\<close> encodes a record with its status, and
  \<open>read_data\<close> gives the status and the record of a data line, or nothing where the code's decoding
  raises. Fresh identifiers are arguments.
\<close>

record contradiction =
  con_id :: pystr
  con_explanation :: pystr
  con_claims :: "claim list"

record codec =
  data_of :: "contradiction \<Rightarrow> pystr"
  read_data :: "pystr \<Rightarrow> (pystr \<times> contradiction) option"

record located =
  loc_record :: contradiction
  loc_start :: nat
  loc_end :: nat
  loc_block :: pystr

definition ID_RE :: regex where
  "ID_RE = seq [word (lit ''con_''), exactly 8 (Sat hex), chr 45, exactly 4 (Sat hex), chr 45, chr 52, exactly 3 (Sat hex),
     chr 45, any_of [56, 57, 97, 98], exactly 3 (Sat hex), chr 45, exactly 12 (Sat hex)]"

definition START_MARK :: pystr where "START_MARK = lit ''<!-- stigmergy-contradiction-start:''"
definition DATA_MARK :: pystr where "DATA_MARK = lit ''<!-- stigmergy-contradiction-data:''"
definition END_MARK :: pystr where "END_MARK = lit ''<!-- stigmergy-contradiction-end:''"
definition CLOSE_MARK :: pystr where "CLOSE_MARK = lit '' -->''"

definition BLOCK_RE :: regex where
  "BLOCK_RE = seq [word START_MARK, Group 1 (seq [word (lit ''con_''), plus (Sat (\<lambda>c. hex c \<or> c = 45))]), word CLOSE_MARK, chr NL,
     Group 2 (Star False (Sat (\<lambda>_. True))),
     word DATA_MARK, Group 3 (plus (Sat (\<lambda>c. ascii_alnum c \<or> c = 95 \<or> c = 45))), word CLOSE_MARK, chr NL,
     word END_MARK, Backref 1, word CLOSE_MARK]"

definition contract :: "bool \<Rightarrow> string \<Rightarrow> unit result" where
  "contract ok m = (if ok then Inr () else Inl (ContradictionContractError (lit m)))"

definition from_proposal :: "pystr \<Rightarrow> proposal \<Rightarrow> contradiction" where
  "from_proposal ident p =
     \<lparr>con_id = ident, con_explanation = one_line (proposal_explanation p), con_claims = proposal_claims p\<rparr>"

definition valid_contradiction :: "contradiction \<Rightarrow> unit result" where
  "valid_contradiction r =
     and_then (contract (full ID_RE (con_id r)) ''contradiction id is invalid'') (\<lambda>_.
     and_then (contract (\<not> blank (con_explanation r) \<and> 2 \<le> length (con_claims r))
       ''contradiction requires an explanation and two claims'') (\<lambda>_.
     contract (list_all (\<lambda>c. starts_with (lit ''sources/'') (claim_source c) \<and> ends_with MD (claim_source c)) (con_claims r))
       ''contradiction source path is invalid''))"

definition claim_lines :: "claim \<Rightarrow> pystr list" where
  "claim_lines c =
     [lit ''> - **Claim:** '' @ one_line (claim_text c)] @
     (if given (claim_date c) then [lit ''>   **Date:** `'' @ one_line (text_of_option (claim_date c)) @ lit ''`''] else []) @
     [lit ''>   **Source:** `'' @ claim_source c @ lit ''`'']"

definition render_contradiction :: "codec \<Rightarrow> contradiction \<Rightarrow> pystr result" where
  "render_contradiction k r =
     and_then (valid_contradiction r) (\<lambda>_.
       Inr (join [NL]
         ([START_MARK @ con_id r @ CLOSE_MARK,
           lit ''> [!WARNING] Unresolved contradiction `'' @ con_id r @ lit ''`'',
           lit ''> '' @ one_line (con_explanation r)]
          @ concat (map claim_lines (con_claims r))
          @ [DATA_MARK @ data_of k r @ CLOSE_MARK, END_MARK @ con_id r @ CLOSE_MARK])))"

definition decode_contradiction :: "codec \<Rightarrow> pystr \<Rightarrow> contradiction result" where
  "decode_contradiction k data =
     (case read_data k data of
        None \<Rightarrow> Inl (ContradictionContractError (lit ''contradiction data is invalid''))
      | Some (state, r) \<Rightarrow>
          and_then (contract (state = lit ''unresolved'') ''contradiction status is invalid'') (\<lambda>_.
          if isl (each valid_claim (con_claims r))
          then Inl (ContradictionContractError (lit ''contradiction data is invalid''))
          else and_then (valid_contradiction r) (\<lambda>_. Inr r)))"

definition located_at :: "codec \<Rightarrow> pystr \<Rightarrow> found \<Rightarrow> located result" where
  "located_at k text m =
     and_then (decode_contradiction k (captured_text 3 m)) (\<lambda>r.
     and_then (contract (con_id r = captured_text 1 m) ''contradiction ids do not match'') (\<lambda>_.
     and_then (render_contradiction k r) (\<lambda>block.
     and_then (contract (matched text m = block) ''contradiction block is not canonical'') (\<lambda>_.
       Inr \<lparr>loc_record = r, loc_start = from_pos m, loc_end = to_pos m, loc_block = block\<rparr>))))"

text \<open>\<open>text.count(p)\<close>: the occurrences that do not overlap, from the left.\<close>

function count_sub :: "pystr \<Rightarrow> pystr \<Rightarrow> nat" where
  "count_sub p [] = 0"
| "count_sub p (c # s) =
     (if prefix p (c # s) then Suc (count_sub p (drop (length p - 1) s)) else count_sub p s)"
  by pat_completeness auto
termination
  by (relation "measure (\<lambda>(p, s). length s)") auto

definition parse_contradictions :: "codec \<Rightarrow> pystr \<Rightarrow> located list result" where
  "parse_contradictions k text =
     and_then (each (located_at k text) (finditer BLOCK_RE text)) (\<lambda>found.
     and_then (contract (count_sub START_MARK text = length found \<and> count_sub DATA_MARK text = length found \<and>
         count_sub END_MARK text = length found) ''contradiction marker is incomplete'') (\<lambda>_.
     and_then (contract (distinct (map (con_id \<circ> loc_record) found)) ''contradiction id is duplicated in one page'') (\<lambda>_.
       Inr found)))"

definition append_contradiction :: "codec \<Rightarrow> pystr \<Rightarrow> contradiction \<Rightarrow> pystr result" where
  "append_contradiction k text r =
     and_then (parse_contradictions k text) (\<lambda>found.
       if con_id r \<in> (con_id \<circ> loc_record) ` set found then Inr text
       else and_then (render_contradiction k r) (\<lambda>block. Inr (rstrip text @ [NL, NL] @ block @ [NL])))"

text \<open>The start of the run of newlines before a block, but for its first.\<close>

fun over_newlines :: "pystr \<Rightarrow> nat \<Rightarrow> nat" where
  "over_newlines s 0 = 0"
| "over_newlines s (Suc n) = (if s ! n = NL \<and> 0 < n \<and> s ! (n - 1) = NL then over_newlines s n else Suc n)"

definition cut_out :: "located \<Rightarrow> pystr \<Rightarrow> pystr" where
  "cut_out l s = take (over_newlines s (loc_start l)) s @ drop (loc_end l) s"

definition remove_contradiction :: "codec \<Rightarrow> pystr \<Rightarrow> pystr \<Rightarrow> (pystr \<times> bool) result" where
  "remove_contradiction k text ident =
     and_then (parse_contradictions k text) (\<lambda>found.
       let matches = filter (\<lambda>l. con_id (loc_record l) = ident) found in
       if matches = [] then Inr (text, False)
       else Inr (rstrip (foldr cut_out matches text) @ [NL], True))"

end
