(* ===== verification/Source_Pages.thy ===== *)
theory Source_Pages
  imports Filing_Plans Readable_Text
begin

text \<open>
  Immutable source pages: how a capture renders as one, \<open>stigmergy/capture/source.py\<close>, and how one is
  read, \<open>stigmergy/knowledge/sources.py\<close>. The contracts pydantic reads from a YAML mapping are a
  parameter, nothing where a field has the wrong type; their validators are those of the capture schema.
  A repository is the tree of its texts, so symbolic links and special files are not modelled.
\<close>

definition MAX_CAPTURE_SOURCE_FRAMING_BYTES :: nat where "MAX_CAPTURE_SOURCE_FRAMING_BYTES = 256 * 1024"

definition MAX_CAPTURE_RENDERED_SOURCE_BYTES :: nat where
  "MAX_CAPTURE_RENDERED_SOURCE_BYTES = MAX_CAPTURE_EXTRACTED_BYTES + MAX_CAPTURE_SOURCE_FRAMING_BYTES"

record source_lib =
  uuid_text :: "uuid \<Rightarrow> pystr"
  uuid_of_text :: "pystr \<Rightarrow> uuid option"
  origin_fields :: "metadata \<Rightarrow> origin option"
  intent_fields :: "metadata \<Rightarrow> intent option"
  artifact_fields :: "metadata \<Rightarrow> artifact option"
  acquisition_yaml :: "acquisition \<Rightarrow> yaml"
  participant_yaml :: "participant \<Rightarrow> yaml"

section \<open>Rendering\<close>

definition source_path :: "source_lib \<Rightarrow> envelope \<Rightarrow> pystr" where
  "source_path k e =
     (let (y, mo) = year_month (case captured_at (envelope_origin e) of Aware t \<Rightarrow> t | Naive \<Rightarrow> 0) in
      lit ''sources/'' @ padded 4 (nat y) @ [SLASH] @ padded 2 (nat mo) @ [SLASH] @ uuid_text k (capture_id e) @ MD)"

definition adapter_text :: "adapter \<Rightarrow> pystr" where
  "adapter_text a = (case a of Mcp \<Rightarrow> lit ''mcp'' | Slack \<Rightarrow> lit ''slack'' | Admin \<Rightarrow> lit ''admin'')"

definition field :: "string \<Rightarrow> yaml option \<Rightarrow> metadata" where
  "field key value = (case value of None \<Rightarrow> [] | Some y \<Rightarrow> [(lit key, y)])"

definition artifact_yaml :: "extracted \<Rightarrow> yaml" where
  "artifact_yaml x =
     (let a = original x; r = extracted_result x in
      YMap [(lit ''sha256'', YText (sha256 a)), (lit ''bytes'', YInt (artifact_bytes a)), (lit ''media_type'', YText (media_type a)),
        (lit ''original_name'', case original_name a of None \<Rightarrow> YNull | Some n \<Rightarrow> YText n),
        (lit ''source_url'', case source_url a of None \<Rightarrow> YNull | Some n \<Rightarrow> YText n),
        (lit ''readable_sha256'', YText (extracted_sha256 x)), (lit ''extractor'', YText (result_extractor r)),
        (lit ''extractor_version'', YText (lit ''1'')),
        (lit ''ocr_pages'', YList (map (YInt \<circ> int) (result_ocr_pages r)))])"

definition occurred_text :: "occurred \<Rightarrow> pystr" where
  "occurred_text x = (case x of At_Moment m \<Rightarrow> moment_iso m | On_Date d \<Rightarrow> iso_text d)"

definition source_metadata :: "source_lib \<Rightarrow> envelope \<Rightarrow> extracted list \<Rightarrow> metadata" where
  "source_metadata k e xs =
     (let x = envelope_origin e in
      [(lit ''id'', YText (uuid_text k (capture_id e))), (lit ''type'', YText (lit ''source'')),
       (lit ''submitted_by'', YText (subject (envelope_actor e)))] @
      field ''acl'' (map_option (\<lambda>ls. YList (map YText ls)) (audience e)) @
      [(lit ''captured_at'', YText (moment_iso (captured_at x)))] @
      field ''occurred_at'' (map_option (YText \<circ> occurred_text) (occurred_at x)) @
      [(lit ''origin'', YText (adapter_text (adapter x)))] @
      field ''title'' (map_option YText (title x)) @ field ''locator'' (map_option YText (locator x)) @
      field ''acquisition'' (map_option (acquisition_yaml k) (acquisition x)) @
      [(lit ''participants'', YList (map (participant_yaml k) (participants x))), (lit ''artifacts'', YList (map artifact_yaml xs))] @
      field ''resolution_of'' (map_option YText (resolution_of (envelope_intent e))) @
      field ''resolution_rationale'' (map_option YText (rationale (envelope_intent e))))"

definition readable_mark :: "extraction_result \<Rightarrow> pystr" where
  "readable_mark r =
     (if result_ocr_pages r \<noteq> [] \<and> result_media r \<in> {MEDIA_PNG, MEDIA_JPEG} then lit '' ('' @ OCR_MARK @ lit '')'' else [])"

definition DEFAULT_SOURCE_TITLE :: pystr where "DEFAULT_SOURCE_TITLE = lit ''Captured source''"

definition artifact_section :: "nat \<Rightarrow> extracted \<Rightarrow> pystr" where
  "artifact_section n x =
     (let a = original x; r = extracted_result x;
          name = (if given (original_name a) then text_of_option (original_name a) else lit ''artifact-'' @ str_nat n) in
      [NL] @ lit ''## Artifact '' @ str_nat n @ lit '': '' @ name @ [NL, NL] @
      lit ''- Media type: '' @ media_type a @ [NL] @ lit ''- Bytes: '' @ str_int (artifact_bytes a) @ [NL] @
      lit ''- SHA-256: '' @ sha256 a @ [NL] @ lit ''- Extraction: '' @ result_extractor r @ lit ''@1'' @ [NL] @
      [NL] @ lit ''### Readable content'' @ readable_mark r @ [NL, NL] @ result_text r @
      (if ends_with [NL] (result_text r) then [] else [NL]))"

definition source_heading :: "envelope \<Rightarrow> pystr" where
  "source_heading e = (let t = title (envelope_origin e) in if given t then text_of_option t else DEFAULT_SOURCE_TITLE)"

definition render_source :: "source_lib \<Rightarrow> yaml_lib \<Rightarrow> envelope \<Rightarrow> extracted list \<Rightarrow> pystr result" where
  "render_source k lib e xs =
     (if map original xs \<noteq> artifacts e then Inl (ValueError (lit ''extractions do not match the capture artifacts''))
      else let rendered = lit ''---'' @ [NL] @ rstrip (yaml_dump lib (source_metadata k e xs)) @ [NL] @ lit ''---'' @ [NL, NL] @
             lit ''# '' @ source_heading e @ [NL] @ concat (map (\<lambda>(n, x). artifact_section n x) (enumerate 1 xs)) in
        if MAX_CAPTURE_RENDERED_SOURCE_BYTES < length (encode rendered)
        then Inl (ValueError (lit ''rendered source exceeds capture source capacity''))
        else Inr rendered)"

section \<open>Parsing\<close>

definition SOURCE_PAGE_RE :: "unicode \<Rightarrow> regex" where
  "SOURCE_PAGE_RE u = seq [word (lit ''sources/''), Group 1 (exactly 4 (Sat (is_decimal u))), chr SLASH,
     Group 2 (alt [Seq (chr 48) (Sat (\<lambda>c. 49 \<le> c \<and> c \<le> 57)), Seq (chr 49) (any_of [48, 49, 50])]), chr SLASH,
     Group 3 (seq [exactly 8 (Sat hex), chr 45, exactly 4 (Sat hex), chr 45, exactly 4 (Sat hex), chr 45,
       exactly 4 (Sat hex), chr 45, exactly 12 (Sat hex)]), word MD]"

definition SOURCE_FIELDS :: "pystr list" where
  "SOURCE_FIELDS = map lit [''id'', ''type'', ''submitted_by'', ''acl'', ''captured_at'', ''occurred_at'', ''origin'', ''title'',
     ''locator'', ''acquisition'', ''participants'', ''artifacts'', ''resolution_of'', ''resolution_rationale'']"

definition REQUIRED_SOURCE_FIELDS :: "pystr list" where
  "REQUIRED_SOURCE_FIELDS = map lit [''id'', ''type'', ''submitted_by'', ''captured_at'', ''origin'', ''participants'', ''artifacts'']"

definition ARTIFACT_FIELDS :: "pystr list" where
  "ARTIFACT_FIELDS = map lit [''sha256'', ''bytes'', ''media_type'', ''original_name'', ''source_url'', ''readable_sha256'', ''extractor'',
     ''extractor_version'', ''ocr_pages'']"

definition REQUIRED_ARTIFACT_FIELDS :: "pystr list" where
  "REQUIRED_ARTIFACT_FIELDS = map lit [''sha256'', ''bytes'', ''media_type'', ''readable_sha256'', ''extractor'', ''extractor_version'',
     ''ocr_pages'']"

record source_document =
  doc_path :: pystr
  doc_acl :: acl
  doc_title :: pystr
  doc_captured_at :: moment
  doc_body :: pystr
  doc_text :: pystr
  doc_bytes :: nat

definition source_error :: "string \<Rightarrow> 'a result" where
  "source_error m = Inl (SourceContractError (lit m))"

definition keys_of :: "metadata \<Rightarrow> pystr set" where
  "keys_of m = fst ` set m"

definition allowed_keys :: "pystr list \<Rightarrow> pystr list \<Rightarrow> metadata \<Rightarrow> bool" where
  "allowed_keys all needed m \<longleftrightarrow> keys_of m \<subseteq> set all \<and> set needed \<subseteq> keys_of m"

text \<open>\<open>str(value or "")\<close>.\<close>

definition str_or_empty :: "yaml_lib \<Rightarrow> yaml option \<Rightarrow> pystr" where
  "str_or_empty lib value =
     (case value of None \<Rightarrow> [] | Some y \<Rightarrow> if yaml_true lib y then yaml_str lib y else [])"

definition ocr_page :: "yaml \<Rightarrow> bool" where
  "ocr_page y = (case y of YInt n \<Rightarrow> 1 \<le> n | _ \<Rightarrow> False)"

definition text_field :: "yaml option \<Rightarrow> bool" where
  "text_field value = (case value of Some (YText s) \<Rightarrow> \<not> blank s | _ \<Rightarrow> False)"

definition valid_artifact_yaml :: "source_lib \<Rightarrow> yaml_lib \<Rightarrow> unicode \<Rightarrow> unicode_more \<Rightarrow> yaml \<Rightarrow> unit result" where
  "valid_artifact_yaml k lib u v y =
     (case y of
        YMap m \<Rightarrow>
          if \<not> allowed_keys ARTIFACT_FIELDS REQUIRED_ARTIFACT_FIELDS m then source_error ''source artifact metadata is incomplete''
          else if (case artifact_fields k m of None \<Rightarrow> True
                   | Some a \<Rightarrow> isl (and_then (content_ref (str_or_empty lib (map_of m (lit ''sha256''))))
                       (\<lambda>ref. valid_artifact u v (a\<lparr>blob_ref := ref\<rparr>))))
          then source_error ''source artifact metadata is invalid''
          else if \<not> full SHA256_RE (str_or_empty lib (map_of m (lit ''readable_sha256'')))
          then source_error ''source readable sha256 is invalid''
          else if \<not> list_all (\<lambda>key. text_field (map_of m (lit key))) [''media_type'', ''extractor'', ''extractor_version'']
          then source_error ''source artifact metadata is incomplete''
          else (case map_of m (lit ''ocr_pages'') of
                  Some (YList ps) \<Rightarrow>
                    if list_all ocr_page ps \<and> distinct ps then Inr () else source_error ''source artifact OCR pages are invalid''
                | _ \<Rightarrow> source_error ''source artifact OCR pages are invalid'')
      | _ \<Rightarrow> source_error ''source artifact metadata is incomplete'')"

definition valid_artifacts_yaml :: "source_lib \<Rightarrow> yaml_lib \<Rightarrow> unicode \<Rightarrow> unicode_more \<Rightarrow> yaml option \<Rightarrow> unit result" where
  "valid_artifacts_yaml k lib u v value =
     (case value of
        Some (YList (y # ys)) \<Rightarrow> and_then (each (valid_artifact_yaml k lib u v) (y # ys)) (\<lambda>_. Inr ())
      | _ \<Rightarrow> source_error ''source artifacts must be a non-empty list'')"

fun plain_strings :: "yaml list \<Rightarrow> pystr list option" where
  "plain_strings [] = Some []"
| "plain_strings (y # ys) =
     (case (y, plain_strings ys) of (YText s, Some ss) \<Rightarrow> if s = [] then None else Some (s # ss) | _ \<Rightarrow> None)"

definition source_acl :: "yaml option \<Rightarrow> acl result" where
  "source_acl value =
     (case value of
        None \<Rightarrow> Inr None
      | Some YNull \<Rightarrow> Inr None
      | Some (YList (y # ys)) \<Rightarrow>
          (case plain_strings (y # ys) of
             None \<Rightarrow> source_error ''source acl is invalid''
           | Some ss \<Rightarrow> if distinct ss then Inr (Some ss) else source_error ''source acl contains duplicates'')
      | Some _ \<Rightarrow> source_error ''source acl is invalid'')"

text \<open>The origin, the submitter and the intent, or that one of them is invalid.\<close>

definition source_origin :: "source_lib \<Rightarrow> yaml_lib \<Rightarrow> unicode \<Rightarrow> unicode_more \<Rightarrow> metadata \<Rightarrow> origin option" where
  "source_origin k lib u v m =
     (let who = str_or_empty lib (map_of m (lit ''submitted_by'')) in
      case (Option.bind (origin_fields k m) (\<lambda>x. case valid_origin u v x of Inl _ \<Rightarrow> None | Inr y \<Rightarrow> Some y),
            valid_actor \<lparr>subject = who, display_name = who\<rparr>,
            Option.bind (intent_fields k m) (\<lambda>x. case valid_intent x of Inl _ \<Rightarrow> None | Inr y \<Rightarrow> Some y)) of
        (Some x, Inr _, Some _) \<Rightarrow> Some x
      | _ \<Rightarrow> None)"

definition first_line :: "pystr \<Rightarrow> pystr" where
  "first_line s = (case splitlines (strip s) of [] \<Rightarrow> [] | l # _ \<Rightarrow> strip l)"

definition parse_source :: "source_lib \<Rightarrow> yaml_lib \<Rightarrow> unicode \<Rightarrow> unicode_more \<Rightarrow> pystr \<Rightarrow> pystr \<Rightarrow> source_document result" where
  "parse_source k lib u v path contents =
     (let (m, body, malformed) = split_frontmatter_checked lib contents in
      case fullmatch (SOURCE_PAGE_RE u) path of
        None \<Rightarrow> source_error ''source path or frontmatter is invalid''
      | Some found \<Rightarrow>
          if malformed \<or> map_of m (lit ''type'') \<noteq> Some (YText (lit ''source''))
          then source_error ''source path or frontmatter is invalid''
          else if \<not> allowed_keys SOURCE_FIELDS REQUIRED_SOURCE_FIELDS m
          then source_error ''source frontmatter contains unsupported fields''
          else if str_or_empty lib (map_of m (lit ''id'')) \<noteq> captured_text 3 found \<or> blank body
          then source_error ''source id or body is invalid''
          else case source_origin k lib u v m of
            None \<Rightarrow> source_error ''source provenance is invalid''
          | Some x \<Rightarrow>
              if (case captured_at x of Naive \<Rightarrow> True
                  | Aware t \<Rightarrow> year_month t \<noteq> (int (digits_value (captured_text 1 found)), int (digits_value (captured_text 2 found))))
              then source_error ''source path does not match captured_at''
              else and_then (valid_artifacts_yaml k lib u v (map_of m (lit ''artifacts''))) (\<lambda>_.
                let name = (if given (title x) then text_of_option (title x) else DEFAULT_SOURCE_TITLE) in
                if first_line body \<noteq> lit ''# '' @ name then source_error ''source heading does not match its title''
                else and_then (source_acl (map_of m (lit ''acl''))) (\<lambda>readers.
                  Inr \<lparr>doc_path = path, doc_acl = readers, doc_title = name, doc_captured_at = captured_at x, doc_body = body,
                    doc_text = contents, doc_bytes = length (encode contents)\<rparr>)))"

section \<open>Reading and recompiling\<close>

definition read_source :: "source_lib \<Rightarrow> yaml_lib \<Rightarrow> unicode \<Rightarrow> unicode_more \<Rightarrow> nat \<Rightarrow> (pystr, pystr) fmap \<Rightarrow> pystr
    \<Rightarrow> source_document result" where
  "read_source k lib u v max_bytes files path =
     (if fullmatch (SOURCE_PAGE_RE u) path = None then source_error ''source path is invalid''
      else case fmlookup files path of
        None \<Rightarrow> source_error ''source does not exist''
      | Some contents \<Rightarrow>
          if max_bytes < length (encode contents) then source_error ''source exceeds its read limit''
          else parse_source k lib u v path contents)"

definition read_recompile_source :: "source_lib \<Rightarrow> yaml_lib \<Rightarrow> unicode \<Rightarrow> unicode_more \<Rightarrow> (pystr, pystr) fmap \<Rightarrow> pystr
    \<Rightarrow> source_document result" where
  "read_recompile_source k lib u v files path = read_source k lib u v MAX_CAPTURE_RENDERED_SOURCE_BYTES files path"

definition recompile_source_preflight :: "source_lib \<Rightarrow> yaml_lib \<Rightarrow> unicode \<Rightarrow> unicode_more \<Rightarrow> (pystr, pystr) fmap \<Rightarrow> pystr list
    \<Rightarrow> unit result" where
  "recompile_source_preflight k lib u v files ps =
     (case find (\<lambda>p. isl (read_recompile_source k lib u v files p)) ps of
        None \<Rightarrow> Inr ()
      | Some p \<Rightarrow> Inl (SourceContractError (lit ''source is not recompilable: '' @ p)))"

definition rebuilt_artifacts :: "source_lib \<Rightarrow> yaml_lib \<Rightarrow> unicode \<Rightarrow> unicode_more \<Rightarrow> metadata \<Rightarrow> artifact list option" where
  "rebuilt_artifacts k lib u v m =
     (case map_of m (lit ''artifacts'') of
        Some (YList ys) \<Rightarrow>
          (case each (\<lambda>y. case y of
                  YMap am \<Rightarrow>
                    (case artifact_fields k am of
                       None \<Rightarrow> source_error ''source provenance cannot be reconstructed''
                     | Some a \<Rightarrow> and_then (content_ref (sha256 a)) (\<lambda>ref. valid_artifact u v (a\<lparr>blob_ref := ref\<rparr>)))
                | _ \<Rightarrow> source_error ''source provenance cannot be reconstructed'') ys of
             Inl _ \<Rightarrow> None
           | Inr as \<Rightarrow> Some as)
      | _ \<Rightarrow> None)"

definition source_envelope :: "source_lib \<Rightarrow> yaml_lib \<Rightarrow> unicode \<Rightarrow> unicode_more \<Rightarrow> source_document \<Rightarrow> envelope result" where
  "source_envelope k lib u v d =
     (let (m, _, malformed) = split_frontmatter_checked lib (doc_text d);
          ident = str_or_empty lib (map_of m (lit ''id'')); who = str_or_empty lib (map_of m (lit ''submitted_by'')) in
      if malformed then source_error ''source frontmatter is invalid''
      else case (rebuilt_artifacts k lib u v m, uuid_of_text k ident, origin_fields k m, intent_fields k m) of
        (Some as, Some n, Some x, Some why) \<Rightarrow>
          (case valid_envelope u v \<lparr>capture_id = n, envelope_key = lit ''recompile:'' @ ident,
                  envelope_actor = \<lparr>subject = who, display_name = who\<rparr>, audience = doc_acl d, envelope_origin = x,
                  artifacts = as, envelope_intent = why\<rparr> of
             Inl _ \<Rightarrow> source_error ''source provenance cannot be reconstructed''
           | Inr e \<Rightarrow> Inr e)
      | _ \<Rightarrow> source_error ''source provenance cannot be reconstructed'')"

end
