(* ===== verification/Lint.thy ===== *)
theory Lint
  imports Corpus Contradictions Source_Pages Audience
begin

text \<open>
  The checks of a corpus, \<open>stigmergy/knowledge/lint.py\<close>. The result is the sorted set of violations; the
  exceptions \<open>check\<close> does not catch are results. \<open>quoted\<close> is Python's \<open>repr\<close> of a string.
\<close>

record writer_env =
  env_yaml :: yaml_lib
  env_unicode :: unicode
  env_more :: unicode_more
  env_codec :: codec
  env_source :: source_lib
  quoted :: "pystr \<Rightarrow> pystr"

type_synonym violation = "pystr \<times> pystr \<times> pystr"

record corpus_page =
  cp_path :: pystr
  cp_type :: pystr
  cp_title :: pystr
  cp_acl :: acl
  cp_sources :: "pystr list"
  cp_text :: pystr
  cp_names :: "pystr list"
  cp_layer :: pystr
  cp_vpath :: pystr

section \<open>Parsing a corpus\<close>

definition markdown_path :: "pystr \<Rightarrow> bool" where
  "markdown_path path \<longleftrightarrow>
     ends_with MD path \<and>
     (let zone = (\<lambda>s. starts_with (lit ''wiki/'') s \<or> starts_with (lit ''sources/'') s) in
      zone path \<or>
      (case folder_below LAYER_ROOT path of
         None \<Rightarrow> False
       | Some layer \<Rightarrow> zone (drop (length (LAYER_ROOT @ [SLASH] @ layer @ [SLASH])) path)))"

definition markdown_paths :: "tree \<Rightarrow> pystr list" where
  "markdown_paths t = filter markdown_path (paths_of t)"

definition placed_page :: "writer_env \<Rightarrow> pystr \<Rightarrow> pystr \<Rightarrow> pystr \<Rightarrow> pystr \<Rightarrow> corpus_page result" where
  "placed_page k path layer vpath contents =
     (if path_role vpath \<noteq> None
      then and_then (parse_page (env_yaml k) (env_more k) vpath contents) (\<lambda>p.
        Inr \<lparr>cp_path = path, cp_type = role_text (page_role p), cp_title = page_title p, cp_acl = page_acl p,
          cp_sources = page_sources p, cp_text = contents,
          cp_names = (if page_role p = Entity_Page then name_keys (env_more k) p else []), cp_layer = layer, cp_vpath = vpath\<rparr>)
      else if starts_with (lit ''sources/'') vpath
      then and_then (parse_source (env_source k) (env_yaml k) (env_unicode k) (env_more k) vpath contents) (\<lambda>d.
        Inr \<lparr>cp_path = path, cp_type = lit ''source'', cp_title = [], cp_acl = doc_acl d, cp_sources = [], cp_text = doc_text d,
          cp_names = [], cp_layer = layer, cp_vpath = vpath\<rparr>)
      else contract_error ''Markdown is outside an allowed corpus folder'')"

definition parse_corpus_page :: "writer_env \<Rightarrow> pystr \<Rightarrow> pystr \<Rightarrow> corpus_page result" where
  "parse_corpus_page k path contents =
     (case split_path path of
        Inl _ \<Rightarrow> contract_error ''page lives outside a valid layer folder''
      | Inr (layer, vpath) \<Rightarrow>
          and_then (placed_page k path layer vpath contents) (\<lambda>p.
          and_then (acl_of_layer layer) (\<lambda>readers.
            if cp_acl p \<noteq> readers then contract_error ''page audience does not match its layer folder'' else Inr p)))"

text \<open>The message of the exceptions a page may fail its contract with.\<close>

definition contract_message :: "exn \<Rightarrow> pystr option" where
  "contract_message e =
     (case e of PageContractError m \<Rightarrow> Some m | SourceContractError m \<Rightarrow> Some m | ValueError m \<Rightarrow> Some m
      | ContradictionContractError m \<Rightarrow> Some m | LayerError m \<Rightarrow> Some m | _ \<Rightarrow> None)"

text \<open>One path after another, with the page that last had each identifier.\<close>

fun read_pages :: "writer_env \<Rightarrow> tree \<Rightarrow> (pystr, pystr) fmap \<Rightarrow> pystr list \<Rightarrow> (corpus_page list \<times> violation list) result" where
  "read_pages k t ids [] = Inr ([], [])"
| "read_pages k t ids (path # others) =
     (let contents = text_at t path in
      case parse_corpus_page k path contents of
        Inl e \<Rightarrow>
          (case contract_message e of
             None \<Rightarrow> Inl e
           | Some m \<Rightarrow> and_then (read_pages k t ids others) (\<lambda>(ps, vs). Inr (ps, (path, lit ''page-contract'', m) # vs)))
      | Inr p \<Rightarrow>
          let ident = true_text (env_yaml k) (map_of (fst (split_frontmatter_checked (env_yaml k) contents)) (lit ''id'')) in
          and_then (read_pages k t (if ident = [] then ids else fmupd ident path ids) others) (\<lambda>(ps, vs).
            Inr (p # ps,
              (case fmlookup ids ident of
                 Some other \<Rightarrow> if ident = [] then vs
                   else (path, lit ''duplicate-id'', lit ''page id is also used by '' @ other) # vs
               | None \<Rightarrow> vs))))"

section \<open>Relations between pages\<close>

definition name_collisions :: "writer_env \<Rightarrow> corpus_page list \<Rightarrow> violation list" where
  "name_collisions k ps =
     [(cp_path p, lit ''alias-collision'', lit ''entity name '' @ quoted k key @ lit '' is also claimed by '' @ cp_path q).
        p \<leftarrow> ps, key \<leftarrow> cp_names p, q \<leftarrow> ps, cp_layer q = cp_layer p \<and> key \<in> set (cp_names q) \<and> cp_path q \<noteq> cp_path p]"

definition page_scope :: "corpus_page \<Rightarrow> pystr list" where
  "page_scope p = fromkeys [cp_layer p, PUBLIC]"

definition resolve_source :: "corpus_page list \<Rightarrow> corpus_page \<Rightarrow> pystr \<Rightarrow> corpus_page option" where
  "resolve_source ps p vpath =
     (case List.map_filter (\<lambda>layer. find (\<lambda>q. cp_layer q = layer \<and> cp_vpath q = vpath) (rev ps)) (page_scope p) of
        [] \<Rightarrow> None | q # _ \<Rightarrow> Some q)"

definition link_matches :: "writer_env \<Rightarrow> corpus_page list \<Rightarrow> corpus_page \<Rightarrow> pystr \<Rightarrow> corpus_page list list" where
  "link_matches k ps p target =
     map (\<lambda>layer. filter (\<lambda>q. cp_layer q = layer \<and>
         casefold (env_unicode k) (stem_of (cp_vpath q)) = casefold (env_unicode k) target) ps) (page_scope p)"

definition link_violations :: "writer_env \<Rightarrow> corpus_page list \<Rightarrow> corpus_page \<Rightarrow> pystr \<Rightarrow> violation list" where
  "link_violations k ps p target =
     (let per_layer = link_matches k ps p target; matches = concat per_layer in
      if matches = [] \<or> list_ex (\<lambda>found. 1 < card (set (map cp_vpath found))) per_layer
      then [(cp_path p, if matches = [] then lit ''dead-link'' else lit ''ambiguous-link'',
             lit ''wikilink '' @ quoted k target @ lit '' resolves '' @ str_nat (length matches) @ lit '' times'')]
      else if 1 < card (set (map cp_vpath matches)) then []
      else map (\<lambda>q. (cp_path p, lit ''acl-link-leak'', lit ''link to '' @ cp_path q @ lit '' crosses visibility''))
        (filter (\<lambda>q. \<not> flows_into (cp_acl q) (cp_acl p)) matches))"

definition source_violations :: "writer_env \<Rightarrow> corpus_page list \<Rightarrow> corpus_page \<Rightarrow> pystr \<Rightarrow> violation list" where
  "source_violations k ps p source =
     (case resolve_source ps p source of
        None \<Rightarrow> [(cp_path p, lit ''missing-source'', lit ''source '' @ quoted k source @ lit '' does not exist'')]
      | Some q \<Rightarrow>
          if cp_type q \<noteq> lit ''source''
          then [(cp_path p, lit ''missing-source'', lit ''source '' @ quoted k source @ lit '' does not exist'')]
          else if \<not> flows_into (cp_acl q) (cp_acl p)
          then [(cp_path p, lit ''acl-source-leak'', lit ''source '' @ source @ lit '' crosses visibility'')]
          else [])"

definition claim_violations :: "corpus_page list \<Rightarrow> corpus_page \<Rightarrow> claim \<Rightarrow> violation list" where
  "claim_violations ps p c =
     (case resolve_source ps p (claim_source c) of
        None \<Rightarrow> [(cp_path p, lit ''contradiction-source'', lit ''contradiction source '' @ claim_source c @ lit '' does not exist'')]
      | Some q \<Rightarrow>
          if cp_type q \<noteq> lit ''source''
          then [(cp_path p, lit ''contradiction-source'', lit ''contradiction source '' @ claim_source c @ lit '' does not exist'')]
          else if \<not> flows_into (cp_acl q) (cp_acl p)
          then [(cp_path p, lit ''acl-contradiction-leak'', lit ''contradiction source '' @ claim_source c @ lit '' crosses visibility'')]
          else [])"

fun contradiction_violations :: "corpus_page list \<Rightarrow> corpus_page \<Rightarrow> (pystr, pystr) fmap \<Rightarrow> located list
    \<Rightarrow> violation list \<times> (pystr, pystr) fmap" where
  "contradiction_violations ps p known [] = ([], known)"
| "contradiction_violations ps p known (l # ls) =
     (let ident = con_id (loc_record l);
          (twice, known1) = (case fmlookup known ident of
              Some other \<Rightarrow> ([(cp_path p, lit ''duplicate-contradiction'', lit ''contradiction id is also used by '' @ other)], known)
            | None \<Rightarrow> ([], fmupd ident (cp_path p) known));
          (rest, known2) = contradiction_violations ps p known1 ls
      in (twice @ concat (map (claim_violations ps p) (con_claims (loc_record l))) @ rest, known2))"

definition page_relations :: "writer_env \<Rightarrow> corpus_page list \<Rightarrow> (pystr, pystr) fmap \<Rightarrow> corpus_page
    \<Rightarrow> (violation list \<times> (pystr, pystr) fmap) result" where
  "page_relations k ps known p =
     (if cp_type p = lit ''source'' then Inr ([], known)
      else let links = concat (map (link_violations k ps p) (link_targets (env_more k) (cp_text p)));
               cited = concat (map (source_violations k ps p) (cp_sources p)) in
        case parse_contradictions (env_codec k) (cp_text p) of
          Inl (ContradictionContractError m) \<Rightarrow> Inr (links @ cited @ [(cp_path p, lit ''contradiction-contract'', m)], known)
        | Inl e \<Rightarrow> Inl e
        | Inr found \<Rightarrow> let (vs, known1) = contradiction_violations ps p known found in Inr (links @ cited @ vs, known1))"

fun relationship_violations :: "writer_env \<Rightarrow> corpus_page list \<Rightarrow> (pystr, pystr) fmap \<Rightarrow> corpus_page list \<Rightarrow> violation list result" where
  "relationship_violations k ps known [] = Inr []"
| "relationship_violations k ps known (p # rest) =
     and_then (page_relations k ps known p) (\<lambda>(vs, known1).
       and_then (relationship_violations k ps known1 rest) (\<lambda>ws. Inr (vs @ ws)))"

section \<open>Editorial minimums\<close>

definition SOURCE_REFERENCE :: "unicode \<Rightarrow> regex" where
  "SOURCE_REFERENCE u = seq [word (lit ''sources/''), exactly 4 (Sat (is_decimal u)), chr SLASH, exactly 2 (Sat (is_decimal u)), chr SLASH,
     plus (Sat (\<lambda>c. \<not> is_space c \<and> c \<notin> {96, 93, 41, 62})), word MD]"

text \<open>A letter in any case, as \<open>re.I\<close> compares.\<close>

definition any_case :: "int \<Rightarrow> regex" where
  "any_case c =
     any_of (if 97 \<le> c \<and> c \<le> 122
             then [c, c - 32] @ (if c = 105 then [304, 305] else if c = 107 then [8490] else if c = 115 then [383] else [])
             else [c])"

definition PLACEHOLDER :: "unicode \<Rightarrow> regex" where
  "PLACEHOLDER u = seq [Behind False (is_word u),
     alt (map (\<lambda>w. seq (map any_case (lit w))) [''todo'', ''tbd'', ''placeholder'', ''to be written'', ''coming soon'']),
     Ahead False (Sat (is_word u))]"

definition citations :: "unicode \<Rightarrow> pystr \<Rightarrow> pystr list" where
  "citations u s = sorted_set (map (matched s) (finditer (SOURCE_REFERENCE u) s))"

definition prose_violations :: "unicode \<Rightarrow> pystr \<Rightarrow> pystr \<Rightarrow> violation list" where
  "prose_violations u path prose =
     (if prose = [] then [(path, lit ''empty-knowledge-body'', lit ''knowledge body has no prose after its H1'')]
      else if search (PLACEHOLDER u) prose \<noteq> None \<or> length (filter ascii_alnum prose) < 32
      then [(path, lit ''placeholder-knowledge-body'', lit ''knowledge body is effectively empty'')]
      else [])"

definition editorial_page :: "writer_env \<Rightarrow> corpus_page \<Rightarrow> violation list" where
  "editorial_page k p =
     (let (m, body, malformed) = split_frontmatter_checked (env_yaml k) (cp_text p); path = cp_path p in
      if malformed \<or> m = [] then []
      else let lines = filter (\<lambda>l. l \<noteq> []) (map strip (splitlines body)) in
        if lines = [] \<or> hd lines \<noteq> lit ''# '' @ cp_title p
        then [(path, lit ''heading-title'', lit ''knowledge H1 must match page title'')]
        else let cited = citations (env_unicode k) body in
          prose_violations (env_unicode k) path (one_line (join [SP] (tl lines))) @
          (if cp_sources p \<noteq> [] \<and> set cited \<inter> set (cp_sources p) = {}
           then [(path, lit ''missing-local-source-attribution'', lit ''knowledge body must cite a declared source locally'')] else []) @
          map (\<lambda>c. (path, lit ''invalid-local-source-reference'', lit ''local source reference '' @ quoted k c @ lit '' is not declared''))
            (filter (\<lambda>c. c \<notin> set (cp_sources p)) cited))"

definition editorial_violations :: "writer_env \<Rightarrow> corpus_page list \<Rightarrow> pystr list \<Rightarrow> violation list" where
  "editorial_violations k ps editorial =
     concat (map (\<lambda>path. case find (\<lambda>p. cp_path p = path) ps of
         None \<Rightarrow> []
       | Some p \<Rightarrow> if cp_type p = lit ''source'' then [] else editorial_page k p) editorial)"

definition check_corpus :: "writer_env \<Rightarrow> pystr list \<Rightarrow> tree \<Rightarrow> violation list result" where
  "check_corpus k editorial t =
     and_then (read_pages k t fmempty (markdown_paths t)) (\<lambda>(ps, vs).
     and_then (relationship_violations k ps fmempty ps) (\<lambda>ws.
       Inr (sorted_set (vs @ name_collisions k ps @ ws @ editorial_violations k ps editorial))))"

end
