(* ===== verification/Lint_Safety.thy ===== *)
theory Lint_Safety
  imports Lint Corpus_Safety
begin

text \<open>
  What a clean check means: every page has the audience of its folder, and nothing a page links or
  cites is narrower than the page.
\<close>

definition corpus_pages :: "writer_env \<Rightarrow> tree \<Rightarrow> corpus_page set" where
  "corpus_pages k t = {p. \<exists>path \<in> set (markdown_paths t). parse_corpus_page k path (text_at t path) = Inr p}"

lemma parse_corpus_page_place:
  assumes "parse_corpus_page k path contents = Inr p"
  shows "cp_path p = path" and "acl_of_layer (cp_layer p) = Inr (cp_acl p)"
proof -
  obtain layer vpath where place: "split_path path = Inr (layer, vpath)"
    using assms by (auto simp: parse_corpus_page_def contract_error_def split: sum.splits)
  have page: "placed_page k path layer vpath contents = Inr p" and readers: "acl_of_layer layer = Inr (cp_acl p)"
    using assms by (auto simp: parse_corpus_page_def place and_then_eq_Inr contract_error_def split: if_splits)
  have "cp_path p = path \<and> cp_layer p = layer"
    using page by (auto simp: placed_page_def and_then_eq_Inr contract_error_def split: if_splits)
  then show "cp_path p = path" and "acl_of_layer (cp_layer p) = Inr (cp_acl p)"
    using readers by simp_all
qed

lemma read_pages_clean:
  assumes "read_pages k t ids ps = Inr (pages, [])"
  shows "list_all2 (\<lambda>path p. parse_corpus_page k path (text_at t path) = Inr p) ps pages"
  using assms
proof (induction ps arbitrary: ids pages)
  case (Cons path ps)
  obtain p where p: "parse_corpus_page k path (text_at t path) = Inr p"
    using Cons.prems by (auto simp: Let_def and_then_eq_Inr split: sum.splits option.splits)
  then obtain ids' pages' vs where rest: "read_pages k t ids' ps = Inr (pages', vs)" and pages: "pages = p # pages'"
    and "vs = []"
    using Cons.prems by (auto simp: Let_def and_then_eq_Inr split: option.splits if_splits)
  then show ?case
    using Cons.IH [of ids' pages'] p by simp
qed simp

lemma relationship_clean:
  assumes "relationship_violations k ps known rest = Inr []" and "p \<in> set rest"
  shows "\<exists>known1 known2. page_relations k ps known1 p = Inr ([], known2)"
  using assms by (induction rest arbitrary: known) (auto simp: and_then_eq_Inr)

lemma page_relations_clean:
  assumes "page_relations k ps known1 p = Inr ([], known2)" and "cp_type p \<noteq> lit ''source''"
  shows "\<forall>target \<in> set (link_targets (env_more k) (cp_text p)). link_violations k ps p target = []"
    and "\<forall>s \<in> set (cp_sources p). source_violations k ps p s = []"
  using assms by (auto simp: page_relations_def Let_def split: sum.splits exn.splits prod.splits)

lemma list_all2_out: "list_all2 P xs ys \<Longrightarrow> x \<in> set xs \<Longrightarrow> \<exists>y \<in> set ys. P x y"
  by (induction xs ys rule: list_all2_induct) auto

lemma find_found: "find P xs = Some x \<Longrightarrow> x \<in> set xs \<and> P x"
  by (induction xs) (auto split: if_splits)

lemma sorted_set_Nil: "sorted_set xs = [] \<longleftrightarrow> xs = []"
  by (metis set_empty set_remdups set_sort sorted_set_def)

lemma resolve_source_in:
  assumes "resolve_source ps p s = Some q"
  shows "q \<in> set ps \<and> cp_vpath q = s"
proof -
  from assms have "q \<in> set (List.map_filter (\<lambda>layer. find (\<lambda>q. cp_layer q = layer \<and> cp_vpath q = s) (rev ps)) (page_scope p))"
    by (auto simp: resolve_source_def split: list.splits)
  then show ?thesis
    by (auto simp: in_map_filter dest!: find_found)
qed

lemma source_violations_clean:
  assumes "source_violations k ps p s = []"
  shows "\<exists>q \<in> set ps. cp_vpath q = s \<and> cp_type q = lit ''source'' \<and> flows_into (cp_acl q) (cp_acl p)"
proof (cases "resolve_source ps p s")
  case None
  then show ?thesis
    using assms by (simp add: source_violations_def)
next
  case (Some q)
  then show ?thesis
    using assms resolve_source_in [OF Some] by (auto simp: source_violations_def split: if_splits)
qed

text \<open>The pages a wikilink of a page names, among its own layer and \<open>public\<close>.\<close>

definition named_by :: "writer_env \<Rightarrow> corpus_page \<Rightarrow> pystr \<Rightarrow> corpus_page \<Rightarrow> bool" where
  "named_by k p target q \<longleftrightarrow>
     cp_layer q \<in> {cp_layer p, PUBLIC} \<and>
     casefold (env_unicode k) (stem_of (cp_vpath q)) = casefold (env_unicode k) target"

lemma set_page_scope [simp]: "set (page_scope p) = {cp_layer p, PUBLIC}"
  unfolding page_scope_def set_fromkeys by simp

lemma link_matches_set: "set (concat (link_matches k ps p target)) = {q \<in> set ps. named_by k p target q}"
  by (auto simp: link_matches_def named_by_def)

lemma same_value: "x \<in> A \<Longrightarrow> \<forall>y \<in> A. f y = f x \<Longrightarrow> card (f ` A) = 1"
  using image_constant [of x A "f x"] by (metis (no_types, lifting) card_1_singleton_iff image_cong One_nat_def)

lemma link_violations_clean:
  assumes "link_violations k ps p target = []"
  shows "(\<exists>q \<in> set ps. named_by k p target q) \<and>
    (\<forall>q \<in> set ps. named_by k p target q \<and> (\<forall>q' \<in> set ps. named_by k p target q' \<longrightarrow> cp_vpath q' = cp_vpath q) \<longrightarrow>
       flows_into (cp_acl q) (cp_acl p))"
proof -
  let ?matches = "concat (link_matches k ps p target)"
  have "?matches \<noteq> []"
    using assms by (auto simp: link_violations_def Let_def split: if_splits)
  then have found: "\<exists>q \<in> set ps. named_by k p target q"
    using hd_in_set [of ?matches] unfolding link_matches_set by blast
  have flow: "flows_into (cp_acl q) (cp_acl p)"
    if "\<not> 1 < card (set (map cp_vpath ?matches))" and "q \<in> set ?matches" for q
    using assms that by (auto simp: link_violations_def Let_def filter_empty_conv split: if_splits)
  have "flows_into (cp_acl q) (cp_acl p)"
    if q: "q \<in> set ps" "named_by k p target q" and one: "\<forall>q' \<in> set ps. named_by k p target q' \<longrightarrow> cp_vpath q' = cp_vpath q" for q
  proof (rule flow)
    show "q \<in> set ?matches"
      unfolding link_matches_set using q by simp
    have "card (cp_vpath ` {q \<in> set ps. named_by k p target q}) = 1"
    proof (rule same_value [of q])
      show "q \<in> {q \<in> set ps. named_by k p target q}"
        using q by simp
      show "\<forall>y \<in> {q \<in> set ps. named_by k p target q}. cp_vpath y = cp_vpath q"
        using one by blast
    qed
    then show "\<not> 1 < card (set (map cp_vpath ?matches))"
      unfolding set_map link_matches_set by (metis less_irrefl)
  qed
  then show ?thesis
    using found by blast
qed

lemma name_collisions_clean:
  assumes "name_collisions k ps = []" and "p \<in> set ps" and "q \<in> set ps" and "cp_layer q = cp_layer p"
    and "key \<in> set (cp_names p)" and "key \<in> set (cp_names q)"
  shows "cp_path q = cp_path p"
  using assms unfolding name_collisions_def by auto

section \<open>A sample corpus\<close>

definition sample_env :: writer_env where
  "sample_env = \<lparr>env_yaml = sample_yaml, env_unicode = ascii_unicode, env_more = ascii_more,
     env_codec = \<lparr>data_of = (\<lambda>_. lit ''x''), read_data = (\<lambda>_. None)\<rparr>,
     env_source = \<lparr>uuid_text = (\<lambda>_. []), uuid_of_text = (\<lambda>_. None), origin_fields = (\<lambda>_. None), intent_fields = (\<lambda>_. None),
       artifact_fields = (\<lambda>_. None), acquisition_yaml = (\<lambda>_. YNull), participant_yaml = (\<lambda>_. YNull)\<rparr>,
     quoted = (\<lambda>s. s)\<rparr>"

definition sample_tree :: tree where
  "sample_tree = fmap_of_list [(sample_place, sample_text)]"

lemma sample_markdown: "markdown_paths sample_tree = [sample_place]"
  by code_simp

lemma sample_split_path: "split_path sample_place = Inr (PUBLIC, sample_place)"
  by code_simp

lemma sample_no_links: "link_targets ascii_more sample_text = []"
  by code_simp

lemma sample_no_contradictions: "parse_contradictions (env_codec sample_env) sample_text = Inr []"
  by code_simp

lemma sample_check: "check_corpus sample_env [] sample_tree = Inr []"
proof -
  have at: "text_at sample_tree sample_place = sample_text"
    by (simp add: text_at_def sample_tree_def)
  have env: "env_yaml sample_env = sample_yaml" "env_more sample_env = ascii_more"
    by (simp_all add: sample_env_def)
  have page: "page_role sample_page = Note" "page_acl sample_page = None" "page_sources sample_page = []"
    by (simp_all add: sample_page_def)
  obtain p where parsed: "parse_corpus_page sample_env sample_place sample_text = Inr p"
    and p: "cp_text p = sample_text" "cp_sources p = []" "cp_names p = []" "cp_type p = lit ''note''"
    by (simp add: parse_corpus_page_def sample_split_path placed_page_def sample_role env sample_parsed page acl_of_layer_def
        role_text_def del: lit_Cons lit_Nil)
  have "read_pages sample_env sample_tree fmempty [sample_place] = Inr ([p], [])"
    by (simp add: at parsed Let_def)
  moreover have "page_relations sample_env [p] fmempty p = Inr ([], fmempty)"
    using p by (simp add: page_relations_def env sample_no_links sample_no_contradictions)
  ultimately show ?thesis
    using p by (simp add: check_corpus_def sample_markdown name_collisions_def editorial_violations_def sorted_set_def)
qed

section \<open>Properties\<close>



end
