(* ===== verification/Entities.thy ===== *)
theory Entities
  imports Lint
begin

text \<open>
  Entity operations, \<open>stigmergy/entities/service.py\<close>: the index of names, merging pages into one and
  renaming a page, with the links of the whole corpus following. Each operation runs on the tree of one
  layer and returns the tree it leaves.
\<close>

definition entity_error :: "string \<Rightarrow> 'a result" where
  "entity_error m = Inl (EntityOperationError (lit m))"

definition entity_pages :: "writer_env \<Rightarrow> tree \<Rightarrow> (pystr \<times> page) list result" where
  "entity_pages k t =
     each (\<lambda>p. and_then (parse_page (env_yaml k) (env_more k) p (text_at t p)) (\<lambda>x. Inr (p, x)))
       (filter (\<lambda>p. in_folder p Entity_Page) (paths_of t))"

definition claimants :: "unicode_more \<Rightarrow> (pystr \<times> page) list \<Rightarrow> pystr \<Rightarrow> pystr list" where
  "claimants v pages key = map fst (filter (\<lambda>(_, p). key \<in> set (name_keys v p)) pages)"

definition find_entity :: "unicode_more \<Rightarrow> (pystr \<times> page) list \<Rightarrow> pystr \<Rightarrow> page option" where
  "find_entity v pages reference_text =
     (case map_of pages reference_text of
        Some p \<Rightarrow> Some p
      | None \<Rightarrow> (case claimants v pages (resolution_key v reference_text) of [path] \<Rightarrow> map_of pages path | _ \<Rightarrow> None))"

section \<open>Links\<close>

definition without_suffix :: "pystr \<Rightarrow> pystr \<Rightarrow> pystr" where
  "without_suffix e s = (if e \<noteq> [] \<and> ends_with e s then take (length s - length e) s else s)"

record link =
  link_embed :: bool
  link_name :: pystr
  link_anchor :: "pystr option"
  link_label :: "pystr option"

definition link_of :: "pystr \<Rightarrow> found \<Rightarrow> link" where
  "link_of s m =
     (let (target, labelled, label) = partition_at 124 (captured_text 1 m); (name, anchored, anchor) = partition_at 35 target in
      \<lparr>link_embed = starts_with [33] (matched s m), link_name = without_suffix MD (strip name),
        link_anchor = (if anchored then Some anchor else None), link_label = (if labelled then Some label else None)\<rparr>)"

text \<open>A link to another page that keeps its anchor and the text it shows.\<close>

definition retarget :: "link \<Rightarrow> pystr \<Rightarrow> pystr" where
  "retarget l name =
     (if link_embed l then [33] else []) @ lit ''[['' @ name @ (case link_anchor l of None \<Rightarrow> [] | Some a \<Rightarrow> 35 # a) @ [124] @
     (case link_label l of None \<Rightarrow> link_name l | Some s \<Rightarrow> s) @ lit '']]''"

definition rewritten_link :: "unicode \<Rightarrow> (pystr \<times> pystr) list \<Rightarrow> pystr \<Rightarrow> found \<Rightarrow> pystr" where
  "rewritten_link u stems s m =
     (let l = link_of s m in
      case map_of (rev (map (\<lambda>(old, new). (casefold u old, new)) stems)) (casefold u (link_name l)) of
        None \<Rightarrow> matched s m
      | Some name \<Rightarrow> if name = link_name l then matched s m else retarget l name)"

definition rewrite_file :: "writer_env \<Rightarrow> (pystr \<times> pystr) list \<Rightarrow> pystr \<Rightarrow> pystr" where
  "rewrite_file k stems contents =
     (let (m, body, malformed) = split_frontmatter_checked (env_yaml k) contents in
      if malformed \<or> m = [] then contents
      else take (length contents - length body) contents @ re_sub WIKILINK (rewritten_link (env_unicode k) stems body) body)"

definition rewrite_links :: "writer_env \<Rightarrow> (pystr \<times> pystr) list \<Rightarrow> tree \<Rightarrow> tree" where
  "rewrite_links k stems t =
     (if stems = [] then t
      else fmmap_keys (\<lambda>p s. if path_role p = None then s else rewrite_file k stems s) t)"

section \<open>Evidence of a merge\<close>

definition WORD_CHAR :: regex where "WORD_CHAR = Sat (\<lambda>c. ascii_digit c \<or> 97 \<le> c \<and> c \<le> 122)"

definition WORD_RE :: regex where
  "WORD_RE = Seq (plus WORD_CHAR) (Star True (Seq (any_of [38, 43, 95, 45]) (plus WORD_CHAR)))"

definition tokens_of :: "unicode_more \<Rightarrow> pystr \<Rightarrow> pystr list" where
  "tokens_of v s = (let key = resolution_key v s in map (matched key) (finditer WORD_RE key))"

definition one_of :: "string list \<Rightarrow> regex" where "one_of ws = alt (map (word \<circ> lit) ws)"

definition IDENTITY_KIND :: regex where
  "IDENTITY_KIND = one_of [''entity'', ''identity'', ''person'', ''organization'', ''organisation'', ''company'', ''account'']"

definition IDENTITY_KIND_PLURAL :: regex where
  "IDENTITY_KIND_PLURAL = one_of [''entities'', ''identities'', ''people'', ''persons'', ''organizations'', ''organisations'',
     ''companies'', ''accounts'']"

definition any_text :: regex where "any_text = Seq (none_of [NL]) (Star False (none_of [NL]))"
definition any_text_greedy :: regex where "any_text_greedy = plus (none_of [NL])"

definition IDENTITY_LIST_RE :: regex where
  "IDENTITY_LIST_RE = seq [Group 1 any_text, chr SP,
     alt [Seq (word (lit ''are '')) (alt [Seq (word (lit ''the same '')) IDENTITY_KIND,
            seq [word (lit ''aliase''), opt (chr 115), word (lit '' for the same ''), IDENTITY_KIND],
            seq [word (lit ''duplicate''), opt (chr 100), chr SP,
              opt (Seq (plus (Sat (\<lambda>c. ascii_digit c \<or> 97 \<le> c \<and> c \<le> 122 \<or> c \<in> {38, 43, 95, 45}))) (chr SP)), IDENTITY_KIND_PLURAL]]),
          Seq (word (lit ''refer to the same '')) IDENTITY_KIND]]"

definition IDENTITY_PAIR_RE :: regex where
  "IDENTITY_PAIR_RE = seq [Group 1 any_text, chr SP,
     alt [seq [word (lit ''is ''), opt (seq [word (lit ''a''), opt (chr 110), chr SP]), word (lit ''alias of'')],
          word (lit ''is another name for''),
          seq [word (lit ''is the same ''), IDENTITY_KIND, word (lit '' as'')],
          seq [word (lit ''refers to the same ''), IDENTITY_KIND, word (lit '' as'')]], chr SP, Group 2 any_text_greedy]"

definition name_sequences :: "unicode_more \<Rightarrow> page \<Rightarrow> pystr list list" where
  "name_sequences v p = filter (\<lambda>ws. ws \<noteq> []) (fromkeys (map (tokens_of v) (page_title p # page_aliases p)))"

definition sequence_inside :: "pystr list \<Rightarrow> pystr list \<Rightarrow> bool" where
  "sequence_inside a b =
     (let (short, long) = (if length b < length a then (b, a) else (a, b)) in
      list_ex (\<lambda>i. take (length short) (drop i long) = short) [0..<Suc (length long - length short)])"

type_synonym placement = "nat \<times> nat \<times> pystr list"

definition placements :: "pystr list \<Rightarrow> pystr list list \<Rightarrow> placement list" where
  "placements ws ns =
     fromkeys [(start, start + length name, name). name \<leftarrow> ns, start \<leftarrow> [0..<Suc (length ws) - length name],
        take (length name) (drop start ws) = name]"

definition MAX_STATES :: nat where "MAX_STATES = 10000"

text \<open>The search over one placement per page, with the number of states it has entered.\<close>

function (sequential)
  assign :: "pystr list \<Rightarrow> nat \<Rightarrow> placement list list \<Rightarrow> nat set \<Rightarrow> pystr list list \<Rightarrow> bool \<times> nat" and
  assign_one :: "pystr list \<Rightarrow> nat \<Rightarrow> placement list \<Rightarrow> placement list list \<Rightarrow> nat set \<Rightarrow> pystr list list \<Rightarrow> bool \<times> nat" where
  "assign ws n cands used ns =
     (if MAX_STATES < Suc n then (False, Suc n)
      else case cands of
        [] \<Rightarrow>
          let left = map snd (filter (\<lambda>(i, w). i \<notin> used) (enumerate 0 ws)) in
          (left \<noteq> [] \<and> list_all (\<lambda>w. w = lit ''and'') left, Suc n)
      | ps # others \<Rightarrow> assign_one ws (Suc n) ps others used ns)"
| "assign_one ws n [] others used ns = (False, n)"
| "assign_one ws n ((start, stop, name) # ps) others used ns =
     (if {start..<stop} \<inter> used \<noteq> {} \<or> list_ex (sequence_inside name) ns then assign_one ws n ps others used ns
      else case assign ws n others (used \<union> {start..<stop}) (ns @ [name]) of
        (True, m) \<Rightarrow> (True, m)
      | (False, m) \<Rightarrow> assign_one ws m ps others used ns)"
  by pat_completeness auto
termination
  by (relation "measures [\<lambda>x. case x of Inl (_, _, cands, _, _) \<Rightarrow> 2 * length cands | Inr (_, _, _, others, _, _) \<Rightarrow> Suc (2 * length others),
        \<lambda>x. case x of Inl _ \<Rightarrow> 0 | Inr (_, _, ps, _, _, _) \<Rightarrow> length ps]") auto

declare assign.simps [simp del] assign_one.simps [simp del]

definition list_subject_binds :: "unicode_more \<Rightarrow> pystr \<Rightarrow> page list \<Rightarrow> bool" where
  "list_subject_binds v subject_text pages =
     (let ws = tokens_of v subject_text; cands = map (\<lambda>p. placements ws (name_sequences v p)) pages in
      [] \<notin> set cands \<and> fst (assign ws 0 (sort_key length cands) {} []))"

definition pair_subject_binds :: "unicode_more \<Rightarrow> pystr \<Rightarrow> pystr \<Rightarrow> page list \<Rightarrow> bool" where
  "pair_subject_binds v left right pages =
     (let a = tokens_of v left; b = tokens_of v right in
      case pages of
        [p, q] \<Rightarrow>
          a \<noteq> [] \<and> b \<noteq> [] \<and>
          list_ex (\<lambda>(x, y). a \<in> set (name_sequences v x) \<and> b \<in> set (name_sequences v y) \<and> \<not> sequence_inside a b)
            [(p, q), (q, p)]
      | _ \<Rightarrow> False)"

definition assertion_binds_pages :: "unicode_more \<Rightarrow> pystr \<Rightarrow> page list \<Rightarrow> bool" where
  "assertion_binds_pages v said pages =
     (let normalized = join [SP] (tokens_of v said) in
      case fullmatch IDENTITY_LIST_RE normalized of
        Some m \<Rightarrow> list_subject_binds v (captured_text 1 m) pages
      | None \<Rightarrow>
          (case fullmatch IDENTITY_PAIR_RE normalized of
             Some m \<Rightarrow> pair_subject_binds v (captured_text 1 m) (captured_text 2 m) pages
           | None \<Rightarrow> False))"

definition read_immutable_source :: "writer_env \<Rightarrow> tree \<Rightarrow> pystr \<Rightarrow> pystr result" where
  "read_immutable_source k t path =
     (case fmlookup t path of
        None \<Rightarrow> entity_error ''source does not exist''
      | Some contents \<Rightarrow>
          let (m, body, malformed) = split_frontmatter_checked (env_yaml k) contents in
          if malformed \<or> map_of m (lit ''type'') \<noteq> Some (YText (lit ''source'')) \<or>
            true_text (env_yaml k) (map_of m (lit ''id'')) \<noteq> stem_of path
          then entity_error ''path is not an immutable source''
          else Inr body)"

text \<open>The first of the trees that has the source, or the last.\<close>

fun read_first_source :: "writer_env \<Rightarrow> tree list \<Rightarrow> pystr \<Rightarrow> pystr result" where
  "read_first_source k [] path = entity_error ''source does not exist''"
| "read_first_source k [t] path = read_immutable_source k t path"
| "read_first_source k (t # ts) path =
     (if path |\<in>| fmdom t then read_immutable_source k t path else read_first_source k ts path)"

fun verify_merge_evidence :: "writer_env \<Rightarrow> tree list \<Rightarrow> page list \<Rightarrow> source_assertion list \<Rightarrow> unit result" where
  "verify_merge_evidence k trees chosen [] = Inr ()"
| "verify_merge_evidence k trees chosen (a # as) =
     and_then (read_first_source k trees (assertion_path a)) (\<lambda>body.
       let said = one_line (assertion a) in
       if \<not> contains said (one_line body) then entity_error ''merge assertion is not present in the cited source''
       else if \<not> assertion_binds_pages (env_more k) said chosen
       then entity_error ''merge assertion does not unambiguously equate every selected entity''
       else verify_merge_evidence k trees chosen as)"

section \<open>Merging and renaming\<close>

definition without_heading :: "pystr \<Rightarrow> pystr" where
  "without_heading body =
     (let lines = splitlines (strip body) in
      strip (join [NL] (if lines \<noteq> [] \<and> starts_with (lit ''# '') (hd lines) then tl lines else lines)))"

text \<open>What one more page adds to the page the others fold into.\<close>

definition fold_in :: "unicode_more \<Rightarrow> page \<Rightarrow> page \<Rightarrow> page" where
  "fold_in v p into =
     into\<lparr>page_body := rstrip (page_body into) @ [NL, NL] @ lit ''## Formerly '' @ page_title p @ [NL, NL] @ without_heading (page_body p),
       page_aliases := fold (\<lambda>name as. if resolution_key v name \<in> resolution_key v ` set (page_title into # as) then as else as @ [name])
         (page_title p # page_aliases p) (page_aliases into),
       page_sources := page_sources into @ filter (\<lambda>s. s \<notin> set (page_sources into)) (page_sources p)\<rparr>"

definition entity_text :: "writer_env \<Rightarrow> page \<Rightarrow> pystr result" where
  "entity_text k p = render_page (env_yaml k) (env_more k) (p\<lparr>page_role := Entity_Page\<rparr>)"

definition merge_entities :: "writer_env \<Rightarrow> tree list \<Rightarrow> nat \<Rightarrow> pystr list \<Rightarrow> source_assertion list \<Rightarrow> tree \<Rightarrow> (pystr \<times> tree) result" where
  "merge_entities k trees at_day ps proof_of t =
     and_then (entity_pages k t) (\<lambda>pages.
       let chosen_paths = fromkeys ps; chosen = List.map_filter (map_of pages) chosen_paths in
       if length chosen_paths < 2 \<or> length chosen \<noteq> length chosen_paths
       then entity_error ''merge requires distinct existing entity pages''
       else if length (remdups (map page_entity_type chosen)) \<noteq> 1
       then entity_error ''entities with different types cannot be merged''
       else if length (remdups (map page_acl chosen)) \<noteq> 1
       then entity_error ''entities with different visibility cannot be merged''
       else and_then (verify_merge_evidence k trees chosen proof_of) (\<lambda>_.
         let canonical = hd chosen; folded = filter (\<lambda>p. page_at p \<noteq> page_at canonical) chosen;
             result_page = (fold (fold_in (env_more k)) folded canonical)\<lparr>page_updated := at_day\<rparr>;
             links = map (\<lambda>p. (stem_of (page_at p), stem_of (page_at canonical))) folded in
         and_then (entity_text k result_page) (\<lambda>contents.
           Inr (page_at canonical,
             rewrite_links k links (fmupd (page_at canonical) contents (fmdrop_set (page_at ` set folded) t))))))"

definition rename_entity :: "writer_env \<Rightarrow> nat \<Rightarrow> bool \<Rightarrow> pystr \<Rightarrow> pystr \<Rightarrow> tree \<Rightarrow> (pystr \<times> tree) result" where
  "rename_entity k at_day relink path title_text t =
     and_then (entity_pages k t) (\<lambda>pages.
       case map_of pages path of
         None \<Rightarrow> entity_error ''entity page does not exist''
       | Some p \<Rightarrow>
           (case page_path (env_more k) Entity_Page title_text of
              Inl (PageContractError m) \<Rightarrow> Inl (EntityOperationError m)
            | Inl e \<Rightarrow> Inl e
            | Inr target \<Rightarrow>
                let v = env_more k; key = resolution_key v title_text in
                if target \<noteq> path \<and> target |\<in>| fmdom t then entity_error ''an entity page already uses that title''
                else if list_ex (\<lambda>other. other \<noteq> path) (claimants v pages key)
                then entity_error ''another entity already claims that name''
                else let aliases = fromkeys (filter (\<lambda>a. resolution_key v a \<noteq> key) (page_aliases p @ [page_title p]));
                         renamed = p\<lparr>page_at := target, page_title := one_line title_text, page_aliases := aliases, page_updated := at_day\<rparr> in
                  and_then (entity_text k renamed) (\<lambda>contents.
                    let t' = fmupd target contents (if target \<noteq> path then fmdrop path t else t) in
                    Inr (target, if target \<noteq> path \<and> relink then rewrite_links k [(stem_of path, stem_of target)] t' else t'))))"

end
