(* ===== verification/Write_Pages.thy ===== *)
theory Write_Pages
  imports Entities
begin

text \<open>
  How the writer applies one filing plan to the pages of a view, in \<open>stigmergy/knowledge/writer.py\<close> and
  \<open>knowledge/relationships.py\<close>: the links of the plan's bodies, the creation, update and deletion of
  pages, contradictions filed and resolved. A plan runs on the tree of a view and returns the tree it
  leaves; a plan that is refused leaves nothing, since every caller restores the tree it saved. \<open>fresh\<close>
  gives the identifier of a new page and \<open>mint\<close> that of the contradiction a proposal files.
\<close>

definition write_error :: "string \<Rightarrow> 'a result" where
  "write_error m = Inl (KnowledgeWriteError (lit m))"

section \<open>Paths of the writer\<close>

definition writer_path :: "pystr \<Rightarrow> pystr result" where
  "writer_path relative =
     (let parts = split_on SLASH (slashed relative) in
      if starts_with [SLASH] (slashed relative) \<or> [46, 46] \<in> set parts then write_error ''writer path is invalid''
      else Inr (join [SLASH] (filter (\<lambda>c. c \<noteq> [] \<and> c \<noteq> [46]) parts)))"

definition path_exists :: "tree \<Rightarrow> pystr \<Rightarrow> bool" where
  "path_exists t path \<longleftrightarrow> path |\<in>| fmdom t \<or> list_ex (starts_with (path @ [SLASH])) (paths_of t)"

definition write_new :: "pystr \<Rightarrow> pystr \<Rightarrow> tree \<Rightarrow> tree result" where
  "write_new relative contents t =
     and_then (writer_path relative) (\<lambda>target.
       if path_exists t target then write_error ''writer target already exists'' else Inr (fmupd target contents t))"

text \<open>The knowledge pages of a tree, as saved before a plan and restored after a refused one.\<close>

definition mutable_path :: "pystr \<Rightarrow> bool" where
  "mutable_path p \<longleftrightarrow> ends_with MD p \<and> list_ex (\<lambda>r. starts_with (FOLDERS r @ [SLASH]) p) ROLES"

definition snapshot_mutable :: "tree \<Rightarrow> tree" where
  "snapshot_mutable t = fmfilter mutable_path t"

definition restore_mutable :: "tree \<Rightarrow> tree \<Rightarrow> tree" where
  "restore_mutable saved t = fmfilter (\<lambda>p. \<not> (mutable_path p \<and> p |\<notin>| fmdom saved)) t ++\<^sub>f saved"

definition read_page :: "writer_env \<Rightarrow> tree \<Rightarrow> pystr \<Rightarrow> page result" where
  "read_page k t path = parse_page (env_yaml k) (env_more k) path (text_at t path)"

definition render_like :: "writer_env \<Rightarrow> page \<Rightarrow> pystr result" where
  "render_like k p = render_page (env_yaml k) (env_more k) p"

text \<open>The pages of each folder in turn, by path.\<close>

definition folder_pages :: "tree \<Rightarrow> pystr list" where
  "folder_pages t = concat (map (\<lambda>r. filter (\<lambda>p. in_folder p r) (paths_of t)) ROLES)"

section \<open>Sources a body cites\<close>

definition SOURCE_ATTRIBUTION :: "unicode \<Rightarrow> regex" where
  "SOURCE_ATTRIBUTION u = seq [word (lit ''(Source: `''),
     Group 1 (seq [word (lit ''sources/''), exactly 4 (Sat (is_decimal u)), chr SLASH, exactly 2 (Sat (is_decimal u)), chr SLASH,
       plus (none_of [96, NL]), word MD]), word (lit ''`)'')]"

definition source_attributions :: "unicode \<Rightarrow> pystr \<Rightarrow> pystr set" where
  "source_attributions u body = set (map (captured_text 1) (finditer (SOURCE_ATTRIBUTION u) body))"

definition BLANK_LINE :: regex where
  "BLANK_LINE = seq [chr NL, Star True (Sat is_space), chr NL]"

fun pieces_between :: "pystr \<Rightarrow> nat \<Rightarrow> found list \<Rightarrow> pystr list" where
  "pieces_between s n [] = [drop n s]"
| "pieces_between s n (m # ms) = slice s n (from_pos m) # pieces_between s (to_pos m) ms"

definition source_backed_blocks :: "unicode \<Rightarrow> pystr \<Rightarrow> pystr list" where
  "source_backed_blocks u body =
     map strip (filter (\<lambda>b. source_attributions u b \<noteq> {}) (pieces_between body 0 (finditer BLANK_LINE body)))"

text \<open>Whether the keys of the lines occur in the text one after another.\<close>

fun keeps_lines :: "unicode \<Rightarrow> pystr \<Rightarrow> pystr list \<Rightarrow> bool" where
  "keeps_lines u kept [] = True"
| "keeps_lines u kept (l # ls) =
     (let key = unit_key u l in
      if key = [] then keeps_lines u kept ls
      else case find_sub key kept of None \<Rightarrow> False | Some n \<Rightarrow> keeps_lines u (drop (n + length key) kept) ls)"

definition lost_source_backed_lines :: "unicode \<Rightarrow> pystr \<Rightarrow> pystr \<Rightarrow> pystr list" where
  "lost_source_backed_lines u existing_body proposed =
     (case find (\<lambda>b. \<not> keeps_lines u (unit_key u proposed) (splitlines b)) (source_backed_blocks u existing_body) of
        None \<Rightarrow> []
      | Some b \<Rightarrow> filter (\<lambda>l. l \<noteq> []) (map strip (splitlines b)))"

section \<open>Links of a plan\<close>

text \<open>\<open>None\<close>: no page has the name; \<open>Some None\<close>: several do; \<open>Some (Some s)\<close>: the page of stem \<open>s\<close>.\<close>

definition add_name :: "unicode \<Rightarrow> pystr \<times> pystr \<Rightarrow> (pystr \<rightharpoonup> pystr option) \<Rightarrow> (pystr \<rightharpoonup> pystr option)" where
  "add_name u ns m =
     (let (name, stem) = ns; key = casefold u name in
      if key = [] then m
      else m(key \<mapsto> (case m key of None \<Rightarrow> Some stem | Some other \<Rightarrow> if other = Some stem then Some stem else None)))"

definition page_link_names :: "writer_env \<Rightarrow> write_context \<Rightarrow> tree \<Rightarrow> pystr \<Rightarrow> (pystr \<times> pystr) list result" where
  "page_link_names k context t path =
     and_then (read_page k t path) (\<lambda>p.
       Inr (if may_link context (page_acl p)
            then (stem_of path, stem_of path) # map (\<lambda>a. (title_stem (env_more k) a, stem_of path)) (page_aliases p)
            else []))"

definition created_names :: "writer_env \<Rightarrow> mutation \<Rightarrow> (pystr \<times> pystr) list" where
  "created_names k p =
     (if mut_action p \<noteq> Create_Page then []
      else case Option.bind (mut_role p) (\<lambda>r. case page_path (env_more k) r (text_of_option (mut_title p)) of
              Inl _ \<Rightarrow> None | Inr path \<Rightarrow> Some (stem_of path)) of
        None \<Rightarrow> []
      | Some stem \<Rightarrow> (stem, stem) # map (\<lambda>a. (title_stem (env_more k) a, stem)) (case mut_aliases p of None \<Rightarrow> [] | Some as \<Rightarrow> as))"

definition knowledge_link_stems :: "writer_env \<Rightarrow> write_context \<Rightarrow> mutation list \<Rightarrow> tree \<Rightarrow> (pystr \<rightharpoonup> pystr option) result" where
  "knowledge_link_stems k context muts t =
     and_then (each (page_link_names k context t) (folder_pages t)) (\<lambda>found.
       Inr (fold (add_name (env_unicode k)) (concat found @ concat (map (created_names k) muts)) Map.empty))"

definition canonical_link :: "writer_env \<Rightarrow> (pystr \<rightharpoonup> pystr option) \<Rightarrow> pystr \<Rightarrow> found \<Rightarrow> pystr" where
  "canonical_link k stems s m =
     (let l = link_of s m; u = env_unicode k; found = (\<lambda>key. case stems key of Some (Some stem) \<Rightarrow> stem | _ \<Rightarrow> []);
          stem = first_text (found (casefold u (link_name l))) (found (casefold u (title_stem (env_more k) (link_name l)))) in
      if stem = [] \<or> stem = link_name l then matched s m else retarget l stem)"

definition canonical_links :: "writer_env \<Rightarrow> (pystr \<rightharpoonup> pystr option) \<Rightarrow> pystr \<Rightarrow> pystr" where
  "canonical_links k stems body = re_sub WIKILINK (canonical_link k stems body) body"

definition resolves :: "writer_env \<Rightarrow> (pystr \<rightharpoonup> pystr option) \<Rightarrow> link \<Rightarrow> bool" where
  "resolves k stems l \<longleftrightarrow> stems (casefold (env_unicode k) (link_name l)) = Some (Some (link_name l))"

definition kept_link :: "writer_env \<Rightarrow> (pystr \<rightharpoonup> pystr option) \<Rightarrow> pystr \<Rightarrow> found \<Rightarrow> pystr" where
  "kept_link k stems s m =
     (let l = link_of s m in
      if resolves k stems l then matched s m
      else case link_label l of None \<Rightarrow> link_name l | Some label \<Rightarrow> strip label)"

definition keep_links :: "writer_env \<Rightarrow> (pystr \<rightharpoonup> pystr option) \<Rightarrow> pystr \<Rightarrow> pystr \<times> pystr list" where
  "keep_links k stems body =
     (re_sub WIKILINK (kept_link k stems body) body,
      map link_name (filter (\<lambda>l. \<not> resolves k stems l) (map (link_of body) (finditer WIKILINK body))))"

section \<open>Names a plan may claim\<close>

record claims_state =
  claimed_names :: "pystr set"
  name_folders :: "pystr \<rightharpoonup> pystr"
  contested :: "pystr set"

definition folder_of :: "pystr \<Rightarrow> pystr" where
  "folder_of path = (let (folder, _, _) = rpartition_at SLASH path in folder)"

definition names_of_mutation :: "unicode_more \<Rightarrow> mutation \<Rightarrow> pystr list \<Rightarrow> pystr set" where
  "names_of_mutation v p as = resolution_key v ` set (text_of_option (mut_title p) # as)"

definition not_created :: "writer_env \<Rightarrow> mutation \<Rightarrow> pystr" where
  "not_created k p =
     (case mut_role p of None \<Rightarrow> [] | Some r \<Rightarrow> role_text r) @ lit '' page '' @ quoted k (text_of_option (mut_title p)) @
     lit '' was not created: its name is already claimed''"

definition alias_not_added :: "writer_env \<Rightarrow> mutation \<Rightarrow> pystr \<Rightarrow> pystr" where
  "alias_not_added k p a =
     lit ''alias '' @ quoted k a @ lit '' of '' @ quoted k (text_of_option (mut_title p)) @
     lit '' was not added: another page has that name''"

text \<open>One creation: dropped when its name is claimed, otherwise kept without the aliases another page has.\<close>

definition claim_name :: "writer_env \<Rightarrow> mutation \<Rightarrow> pystr \<Rightarrow> claims_state \<Rightarrow> mutation option \<times> pystr list \<times> claims_state" where
  "claim_name k p path st =
     (let v = env_more k; u = env_unicode k; folder = folder_of path; stem = casefold u (without_suffix MD (file_name path));
          as = (if mut_role p = Some Entity_Page then (case mut_aliases p of None \<Rightarrow> [] | Some xs \<Rightarrow> xs) else []);
          elsewhere = (\<lambda>name. case name_folders st name of None \<Rightarrow> False | Some f \<Rightarrow> f \<noteq> folder) in
      if names_of_mutation v p as \<inter> claimed_names st \<noteq> {} then (None, [not_created k p], st)
      else if elsewhere stem then (None, [not_created k p], st\<lparr>contested := insert stem (contested st)\<rparr>)
      else let alias_key = (\<lambda>a. casefold u (title_stem v a)); taken = filter (\<lambda>a. elsewhere (alias_key a)) as;
               left = filter (\<lambda>a. a \<notin> set taken) as;
               p' = (if taken = [] then p else p\<lparr>mut_aliases := Some left\<rparr>) in
        (Some p',
         map (alias_not_added k p) taken,
         st\<lparr>claimed_names := (if mut_role p = Some Entity_Page then claimed_names st \<union> names_of_mutation v p left else claimed_names st),
            name_folders := fold (\<lambda>name m. if m name = None then m(name \<mapsto> folder) else m) (stem # map alias_key left) (name_folders st)\<rparr>))"

fun skip_claimed :: "writer_env \<Rightarrow> claims_state \<Rightarrow> mutation list \<Rightarrow> mutation list \<times> pystr list \<times> claims_state" where
  "skip_claimed k st [] = ([], [], st)"
| "skip_claimed k st (p # ps) =
     (let (kept, notes, st') =
        (if mut_action p \<noteq> Create_Page then (Some p, [], st)
         else case Option.bind (mut_role p) (\<lambda>r. case page_path (env_more k) r (text_of_option (mut_title p)) of
                Inl _ \<Rightarrow> None | Inr path \<Rightarrow> Some path) of
           None \<Rightarrow> (Some p, [], st)
         | Some path \<Rightarrow> claim_name k p path st);
        (rest, notes', st'') = skip_claimed k st' ps
      in ((case kept of None \<Rightarrow> rest | Some q \<Rightarrow> q # rest), notes @ notes', st''))"

definition skip_claimed_names :: "writer_env \<Rightarrow> tree \<Rightarrow> mutation list \<Rightarrow> (mutation list \<times> pystr list \<times> pystr set) result" where
  "skip_claimed_names k t muts =
     and_then (entity_pages k t) (\<lambda>pages.
       let start = \<lparr>claimed_names = set (concat (map (\<lambda>(_, p). name_keys (env_more k) p) pages)),
             name_folders = fold (\<lambda>p m. m(casefold (env_unicode k) (stem_of p) \<mapsto> folder_of p)) (folder_pages t) Map.empty,
             contested = {}\<rparr>;
           (kept, notes, st) = skip_claimed k start muts
       in Inr (kept, notes, contested st))"

section \<open>One mutation\<close>

definition no_contradictions :: "writer_env \<Rightarrow> pystr \<Rightarrow> unit result" where
  "no_contradictions k body =
     (case parse_contradictions (env_codec k) body of
        Inl (ContradictionContractError _) \<Rightarrow> write_error ''planned page body has invalid contradiction markers''
      | Inl e \<Rightarrow> Inl e
      | Inr found \<Rightarrow> if found \<noteq> [] then write_error ''contradictions must use the structured contradiction plan'' else Inr ())"

definition new_page :: "mutation \<Rightarrow> role \<Rightarrow> pystr \<Rightarrow> pystr \<Rightarrow> acl \<Rightarrow> pystr \<Rightarrow> nat \<Rightarrow> page" where
  "new_page p r path ident readers source at_day =
     \<lparr>page_at = path, page_id = ident, page_role = r, page_title = text_of_option (mut_title p),
      page_status = (if given (mut_status p) then text_of_option (mut_status p) else lit ''developing''),
      page_created = at_day, page_updated = at_day, page_acl = readers, page_sources = [source],
      page_body = text_of_option (mut_body p), page_entity_type = mut_entity_type p,
      page_aliases = (case mut_aliases p of None \<Rightarrow> [] | Some as \<Rightarrow> as)\<rparr>"

definition create_page :: "writer_env \<Rightarrow> (pystr \<Rightarrow> pystr) \<Rightarrow> write_context \<Rightarrow> pystr \<Rightarrow> nat \<Rightarrow> mutation \<Rightarrow> tree \<Rightarrow> (pystr \<times> tree) result" where
  "create_page k fresh context source at_day p t =
     (case mut_role p of
        None \<Rightarrow> contract_error ''knowledge role must be note, concept, entity, or project''
      | Some r \<Rightarrow>
          and_then (page_path (env_more k) r (text_of_option (mut_title p))) (\<lambda>target.
          and_then (allow_create context (content_acl context)) (\<lambda>_.
          and_then (no_contradictions k (text_of_option (mut_body p))) (\<lambda>_.
          and_then (render_like k (new_page p r target (fresh target) (content_acl context) source at_day)) (\<lambda>contents.
          and_then (write_new target contents t) (\<lambda>t'. Inr (target, t')))))))"

definition contradiction_map :: "located list \<Rightarrow> pystr \<rightharpoonup> contradiction" where
  "contradiction_map found = map_of (map (\<lambda>l. (con_id (loc_record l), loc_record l)) found)"

fun append_all :: "codec \<Rightarrow> contradiction list \<Rightarrow> pystr \<Rightarrow> pystr result" where
  "append_all k [] body = Inr body"
| "append_all k (r # rs) body = and_then (append_contradiction k body r) (append_all k rs)"

definition preserve_contradictions :: "writer_env \<Rightarrow> pystr \<Rightarrow> pystr \<Rightarrow> pystr result" where
  "preserve_contradictions k existing_body proposed =
     (case and_then (parse_contradictions (env_codec k) existing_body) (\<lambda>a.
             and_then (parse_contradictions (env_codec k) proposed) (\<lambda>b. Inr (a, b))) of
        Inl (ContradictionContractError _) \<Rightarrow> write_error ''planned page body has invalid contradiction markers''
      | Inl e \<Rightarrow> Inl e
      | Inr (current_found, candidate_found) \<Rightarrow>
          let candidate = contradiction_map candidate_found; ids = con_id \<circ> loc_record in
          if list_ex (\<lambda>l. ids l \<notin> ids ` set current_found) candidate_found
          then write_error ''contradictions must use the structured contradiction plan''
          else if list_ex (\<lambda>l. case candidate (ids l) of None \<Rightarrow> False | Some r \<Rightarrow> r \<noteq> loc_record l) current_found
          then write_error ''existing contradiction claims cannot be rewritten in a page mutation''
          else append_all (env_codec k) (map loc_record (filter (\<lambda>l. candidate (ids l) = None) current_found)) proposed)"

text \<open>The page an update leaves: its own path, role, title, identifier and audience, never the plan's.\<close>

definition updated_page :: "mutation \<Rightarrow> page \<Rightarrow> pystr \<Rightarrow> pystr \<Rightarrow> nat \<Rightarrow> page" where
  "updated_page p old body source at_day =
     old\<lparr>page_body := body, page_sources := fromkeys (page_sources old @ [source]),
       page_status := (if given (mut_status p) then text_of_option (mut_status p) else page_status old),
       page_updated := at_day, page_aliases := (case mut_aliases p of None \<Rightarrow> page_aliases old | Some as \<Rightarrow> as)\<rparr>"

definition update_page :: "writer_env \<Rightarrow> pystr \<Rightarrow> nat \<Rightarrow> mutation \<Rightarrow> pystr \<Rightarrow> page \<Rightarrow> tree \<Rightarrow> tree result" where
  "update_page k source at_day p path old t =
     (if page_role old \<noteq> Entity_Page \<and> (given (mut_entity_type p) \<or> given (mut_aliases p))
      then write_error ''only entity pages carry an entity type or aliases''
      else and_then (preserve_contradictions k (page_body old) (text_of_option (mut_body p))) (\<lambda>body.
        let u = env_unicode k; lost = lost_source_backed_lines u (page_body old) body in
        if lost \<noteq> [] then Inl (SourceBlockNotPreserved (text_of_option (mut_path p)) lost)
        else if \<not> source_attributions u (page_body old) \<subseteq> source_attributions u body
        then write_error ''planned update drops existing local source attribution''
        else and_then (render_like k (updated_page p old body source at_day)) (\<lambda>contents.
          Inr (fmupd path contents t))))"

definition delete_page :: "writer_env \<Rightarrow> pystr \<Rightarrow> page \<Rightarrow> tree \<Rightarrow> tree result" where
  "delete_page k path old t =
     and_then (parse_contradictions (env_codec k) (page_body old)) (\<lambda>found.
       if found \<noteq> [] then write_error ''a capture cannot delete a page with unresolved contradictions''
       else Inr (fmdrop path t))"

definition existing_page :: "writer_env \<Rightarrow> write_context \<Rightarrow> pystr \<Rightarrow> tree \<Rightarrow> (pystr \<times> page) result" where
  "existing_page k context relative t =
     and_then (writer_path relative) (\<lambda>path.
       if path |\<notin>| fmdom t then write_error ''planned page does not exist''
       else and_then (parse_page (env_yaml k) (env_more k) relative (text_at t path)) (\<lambda>old.
         and_then (allow_existing context (page_acl old)) (\<lambda>_. Inr (path, old))))"

text \<open>One mutation, with the path its reason is recorded under.\<close>

definition apply_page_mutation :: "writer_env \<Rightarrow> (pystr \<Rightarrow> pystr) \<Rightarrow> write_context \<Rightarrow> pystr \<Rightarrow> nat \<Rightarrow> mutation \<Rightarrow> tree
    \<Rightarrow> (pystr \<times> tree) result" where
  "apply_page_mutation k fresh context source at_day p t =
     (let relative = text_of_option (mut_path p) in
      case mut_action p of
        Create_Page \<Rightarrow> create_page k fresh context source at_day p t
      | Update_Page \<Rightarrow>
          and_then (existing_page k context relative t) (\<lambda>(path, old).
          and_then (update_page k source at_day p path old t) (\<lambda>t'. Inr (relative, t')))
      | Delete_Page \<Rightarrow>
          and_then (existing_page k context relative t) (\<lambda>(path, old).
          and_then (delete_page k path old t) (\<lambda>t'. Inr (relative, t'))))"

end
