(* ===== verification/Filing.thy ===== *)
theory Filing
  imports Write_Pages
begin

text \<open>
  A whole filing plan applied to a view, \<open>_apply_filing_plan\<close> of \<open>stigmergy/knowledge/writer.py\<close>: its
  mutations in order, the contradictions it files and the one it resolves. A plan is applied or refused
  as a whole; the tree of a refused plan is not modelled, since every caller restores the pages it saved.
\<close>

section \<open>A plan being applied\<close>

text \<open>What a plan is applied under: the arguments of \<open>_apply_filing_plan\<close> but the tree.\<close>

record filing_job =
  job_context :: write_context
  job_source :: pystr
  job_day :: nat
  job_intent :: intent
  job_evidence :: "pystr list"
  job_drop_broader :: bool
  job_fresh :: "nat \<Rightarrow> pystr \<Rightarrow> pystr"
  job_mint :: "nat \<Rightarrow> pystr"

record filing =
  filed_tree :: tree
  filed_reasons :: "(pystr, pystr) fmap"
  filed_skips :: "pystr list"
  filed_updates :: "pystr list"

definition skip_note :: "pystr \<Rightarrow> filing \<Rightarrow> filing" where
  "skip_note note st = st\<lparr>filed_skips := filed_skips st @ [note]\<rparr>"

text \<open>\<open>for index, x in enumerate(xs)\<close> over a fallible step.\<close>

fun each_in_turn :: "(nat \<Rightarrow> 'a \<Rightarrow> 's \<Rightarrow> 's result) \<Rightarrow> nat \<Rightarrow> 'a list \<Rightarrow> 's \<Rightarrow> 's result" where
  "each_in_turn f i [] st = Inr st"
| "each_in_turn f i (x # xs) st = and_then (f i x st) (each_in_turn f (Suc i) xs)"

fun somes :: "'a option list \<Rightarrow> 'a list" where
  "somes [] = []"
| "somes (None # xs) = somes xs"
| "somes (Some x # xs) = x # somes xs"

text \<open>The exceptions that are a \<open>KnowledgeWriteError\<close>.\<close>

definition is_write_error :: "exn \<Rightarrow> bool" where
  "is_write_error e =
     (case e of KnowledgeWriteError _ \<Rightarrow> True | WriterBusy _ \<Rightarrow> True | WriterDeadline _ \<Rightarrow> True | GateRefused _ \<Rightarrow> True
      | CorpusUnavailable _ \<Rightarrow> True | SourceBlockNotPreserved _ _ \<Rightarrow> True | _ \<Rightarrow> False)"

definition is_page_error :: "exn \<Rightarrow> bool" where
  "is_page_error e = (case e of PageContractError _ \<Rightarrow> True | SourceContractError _ \<Rightarrow> True | _ \<Rightarrow> False)"

definition is_refusal :: "exn \<Rightarrow> bool" where
  "is_refusal e = (case e of WriteRefused _ \<Rightarrow> True | _ \<Rightarrow> False)"

definition is_contradiction_error :: "exn \<Rightarrow> bool" where
  "is_contradiction_error e = (case e of ContradictionContractError _ \<Rightarrow> True | _ \<Rightarrow> False)"

definition is_block_lost :: "exn \<Rightarrow> bool" where
  "is_block_lost e = (case e of SourceBlockNotPreserved _ _ \<Rightarrow> True | _ \<Rightarrow> False)"

text \<open>\<open>except <errors> as error: raise KnowledgeWriteError(m) from error\<close>.\<close>

definition recast :: "(exn \<Rightarrow> bool) \<Rightarrow> pystr \<Rightarrow> 'a result \<Rightarrow> 'a result" where
  "recast caught m r = (case r of Inl e \<Rightarrow> if caught e then Inl (KnowledgeWriteError m) else Inl e | Inr x \<Rightarrow> Inr x)"

lemma recast_eq_Inr [simp]: "recast caught m r = Inr x \<longleftrightarrow> r = Inr x"
  by (simp add: recast_def split: sum.splits)

definition broader_page :: "writer_env \<Rightarrow> write_context \<Rightarrow> pystr \<Rightarrow> tree \<Rightarrow> bool" where
  "broader_page k context relative t =
     (if relative = [] then False
      else case writer_path relative of
        Inl _ \<Rightarrow> False
      | Inr path \<Rightarrow>
          if path |\<notin>| fmdom t then False
          else case parse_page (env_yaml k) (env_more k) relative (text_at t path) of
            Inl _ \<Rightarrow> False
          | Inr p \<Rightarrow> is_broader context (page_acl p))"

section \<open>Mutations\<close>

definition not_applied :: "mutation \<Rightarrow> pystr" where
  "not_applied p =
     (if mut_action p = Update_Page then lit ''update to '' else lit ''delete of '') @ text_of_option (mut_path p) @
     lit '' was not applied: '' @ NARROWER"

definition unlinked_note :: "writer_env \<Rightarrow> pystr \<Rightarrow> pystr \<Rightarrow> pystr" where
  "unlinked_note k target name = lit ''unlinked unresolved wikilink '' @ quoted k name @ lit '' in '' @ target"

definition mutation_target :: "writer_env \<Rightarrow> mutation \<Rightarrow> pystr result" where
  "mutation_target k p =
     (if given (mut_path p) then Inr (text_of_option (mut_path p))
      else case mut_role p of
        None \<Rightarrow> contract_error ''knowledge role must be note, concept, entity, or project''
      | Some r \<Rightarrow> page_path (env_more k) r (text_of_option (mut_title p)))"

text \<open>The links of a mutation's body, resolved before the page is written.\<close>

definition resolve_body :: "writer_env \<Rightarrow> (pystr \<rightharpoonup> pystr option) \<Rightarrow> mutation \<Rightarrow> filing \<Rightarrow> (mutation \<times> filing) result" where
  "resolve_body k stems p st =
     (if \<not> given (mut_body p) then Inr (p, st)
      else let (body, unlinked) = keep_links k stems (canonical_links k stems (text_of_option (mut_body p))) in
        and_then (mutation_target k p) (\<lambda>target.
          Inr (p\<lparr>mut_body := Some body\<rparr>, st\<lparr>filed_skips := filed_skips st @ map (unlinked_note k target) unlinked\<rparr>)))"

definition apply_mutation :: "writer_env \<Rightarrow> filing_job \<Rightarrow> (pystr \<rightharpoonup> pystr option) \<Rightarrow> nat \<Rightarrow> mutation \<Rightarrow> filing \<Rightarrow> filing result" where
  "apply_mutation k job stems i p st =
     (if job_drop_broader job \<and> mut_action p \<noteq> Create_Page \<and>
         broader_page k (job_context job) (text_of_option (mut_path p)) (filed_tree st)
      then Inr (skip_note (not_applied p) st)
      else and_then (resolve_body k stems p st) (\<lambda>(p', st').
        and_then (recast (\<lambda>e. \<not> is_block_lost e \<and> (is_write_error e \<or> is_page_error e \<or> is_refusal e))
            (lit ''planned mutation '' @ str_nat i @ lit '' could not be applied'')
            (apply_page_mutation k (job_fresh job i) (job_context job) (job_source job) (job_day job) p' (filed_tree st')))
          (\<lambda>(changed, t'). Inr (st'\<lparr>filed_tree := t', filed_reasons := fmupd changed (mut_reason p) (filed_reasons st'),
             filed_updates := (if mut_action p = Update_Page then filed_updates st' @ [changed] else filed_updates st')\<rparr>))))"

section \<open>Contradictions\<close>

definition unplaceable :: "nat \<Rightarrow> pystr" where
  "unplaceable i = lit ''planned contradiction '' @ str_nat i @ lit '' targets no page this capture may affect''"

definition with_contradiction :: "writer_env \<Rightarrow> filing_job \<Rightarrow> page \<Rightarrow> contradiction \<Rightarrow> pystr result" where
  "with_contradiction k job p r =
     and_then (append_contradiction (env_codec k) (page_body p) r) (\<lambda>body.
       render_like k (p\<lparr>page_body := body, page_sources := fromkeys (page_sources p @ map claim_source (con_claims r)),
         page_updated := job_day job\<rparr>))"

definition place_contradiction :: "writer_env \<Rightarrow> filing_job \<Rightarrow> nat \<Rightarrow> proposal \<Rightarrow> tree \<Rightarrow> tree result" where
  "place_contradiction k job i p t =
     and_then (writer_path (proposal_page p)) (\<lambda>path.
       if path |\<notin>| fmdom t then Inl (KnowledgeWriteError (unplaceable i))
       else and_then (parse_page (env_yaml k) (env_more k) (proposal_page p) (text_at t path)) (\<lambda>old.
         and_then (recast is_refusal (unplaceable i) (allow_existing (job_context job) (page_acl old))) (\<lambda>_.
         and_then (check_corpus k [] t) (\<lambda>already.
         and_then (recast (\<lambda>e. is_contradiction_error e \<or> is_page_error e)
             (lit ''planned contradiction '' @ str_nat i @ lit '' is invalid'')
             (with_contradiction k job old (from_proposal (job_mint job i) p))) (\<lambda>candidate.
         and_then (check_corpus k [] (fmupd path candidate t)) (\<lambda>found.
           if set found - set already \<noteq> {}
           then Inl (KnowledgeWriteError (lit ''planned contradiction '' @ str_nat i @ lit '' failed knowledge gates''))
           else Inr (fmupd path candidate t)))))))"

definition apply_contradiction :: "writer_env \<Rightarrow> filing_job \<Rightarrow> nat \<Rightarrow> proposal \<Rightarrow> filing \<Rightarrow> filing result" where
  "apply_contradiction k job i p st =
     (if job_drop_broader job \<and> broader_page k (job_context job) (proposal_page p) (filed_tree st)
      then Inr (skip_note (lit ''contradiction on '' @ proposal_page p @ lit '' was not recorded: '' @ NARROWER) st)
      else and_then (place_contradiction k job i p (filed_tree st)) (\<lambda>t'.
        Inr (st\<lparr>filed_tree := t', filed_reasons := fmupd (proposal_page p) (proposal_explanation p) (filed_reasons st)\<rparr>)))"

text \<open>The pages that carry a contradiction and that the resolution may change, each without it.\<close>

definition resolved_page :: "writer_env \<Rightarrow> filing_job \<Rightarrow> tree \<Rightarrow> pystr \<Rightarrow> pystr \<Rightarrow> (pystr \<times> page) option result" where
  "resolved_page k job t ident path =
     and_then (read_page k t path) (\<lambda>p.
       case allow_existing (job_context job) (page_acl p) of
         Inl _ \<Rightarrow> Inr None
       | Inr _ \<Rightarrow>
           and_then (remove_contradiction (env_codec k) (page_body p) ident) (\<lambda>(body, removed).
             Inr (if removed
                  then Some (path, p\<lparr>page_body := body, page_sources := fromkeys (page_sources p @ [job_source job]),
                    page_updated := job_day job\<rparr>)
                  else None)))"

definition write_resolved :: "writer_env \<Rightarrow> nat \<Rightarrow> pystr \<times> page \<Rightarrow> tree \<Rightarrow> tree result" where
  "write_resolved k i = (\<lambda>(path, p) t. and_then (render_like k p) (\<lambda>contents. Inr (fmupd path contents t)))"

definition remove_from_pages :: "writer_env \<Rightarrow> filing_job \<Rightarrow> pystr \<Rightarrow> pystr list \<Rightarrow> tree \<Rightarrow> (pystr list \<times> tree) result" where
  "remove_from_pages k job ident updates t =
     and_then (each (resolved_page k job t ident) (folder_pages t)) (\<lambda>found.
       let candidates = somes found in
       if list_ex (\<lambda>(path, p). path \<notin> set updates) candidates then write_error ''target page requires an accepted update''
       else and_then (each_in_turn (write_resolved k) 0 candidates t) (\<lambda>t'. Inr (map fst candidates, t')))"

definition resolve_contradiction :: "writer_env \<Rightarrow> filing_job \<Rightarrow> pystr list \<Rightarrow> filing \<Rightarrow> filing result" where
  "resolve_contradiction k job idents st =
     (if idents = [] then Inr st
      else let expected = text_of_option (resolution_of (job_intent job)) in
        if \<not> truthy (resolution_of (job_intent job)) \<or> idents \<noteq> [expected]
        then write_error ''only the contradiction named by the capture can be resolved''
        else and_then (recast is_write_error (lit ''planned contradiction resolution could not be applied'')
              (remove_from_pages k job expected (filed_updates st) (filed_tree st))) (\<lambda>(removed, t').
          let why = (if truthy (rationale (job_intent job)) then text_of_option (rationale (job_intent job))
                     else lit ''Resolved contradiction'') in
          Inr (st\<lparr>filed_tree := t', filed_reasons := fold (\<lambda>path m. fmupd path why m) removed (filed_reasons st)\<rparr>)))"

section \<open>Plans\<close>

definition claim_cites :: "filing_job \<Rightarrow> proposal \<Rightarrow> bool" where
  "claim_cites job p \<longleftrightarrow> list_all (\<lambda>c. claim_source c \<in> set (job_evidence job)) (proposal_claims p)"

definition plan_stems :: "writer_env \<Rightarrow> filing_job \<Rightarrow> mutation list \<Rightarrow> pystr set \<Rightarrow> tree \<Rightarrow> (pystr \<rightharpoonup> pystr option) result" where
  "plan_stems k job muts disputed t =
     and_then (knowledge_link_stems k (job_context job) muts t) (\<lambda>stems.
       Inr (\<lambda>name. if name \<in> disputed then Some None else stems name))"

definition apply_filing_plan :: "writer_env \<Rightarrow> filing_job \<Rightarrow> plan \<Rightarrow> (pystr, pystr) fmap \<Rightarrow> pystr list \<Rightarrow> tree \<Rightarrow> filing result" where
  "apply_filing_plan k job pl reasons skips t =
     and_then (if truthy (resolution_of (job_intent job)) then allow_explicit_master (job_context job) else Inr ()) (\<lambda>_.
     if \<not> list_all (claim_cites job) (plan_contradictions pl)
     then write_error ''contradiction cites evidence outside the supplied filing context''
     else and_then (skip_claimed_names k t (plan_mutations pl)) (\<lambda>(muts, skipped, disputed).
       and_then (plan_stems k job muts disputed t) (\<lambda>stems.
       and_then (each_in_turn (apply_mutation k job stems) 0 muts
           \<lparr>filed_tree = t, filed_reasons = reasons, filed_skips = skips @ skipped, filed_updates = []\<rparr>) (\<lambda>st.
       and_then (each_in_turn (apply_contradiction k job) 0 (plan_contradictions pl) st)
         (resolve_contradiction k job (plan_resolved pl))))))"

end
