(* ===== verification/Page_Names.thy ===== *)
theory Page_Names
  imports Pages
begin

text \<open>
  What the names of pages are made of: a title's stem has none of the characters a path gives meaning
  to, so the path of a page lies in the folder of its role and is one file name below it.
\<close>

section \<open>Replacing every unsafe character\<close>

text \<open>A pattern that matches, with at least one character, wherever a character satisfies \<open>P\<close>.\<close>

definition catches :: "regex \<Rightarrow> (int \<Rightarrow> bool) \<Rightarrow> bool" where
  "catches r P \<longleftrightarrow> (\<forall>s n. (n < length s \<and> P (s ! n) \<longrightarrow> match_at r s n \<noteq> None) \<and> (\<forall>m. match_at r s n = Some m \<longrightarrow> n < to_pos m))"

lemma catches_match: "catches r P \<Longrightarrow> n < length s \<Longrightarrow> P (s ! n) \<Longrightarrow> match_at r s n \<noteq> None"
  and catches_longer: "catches r P \<Longrightarrow> match_at r s n = Some m \<Longrightarrow> n < to_pos m"
  by (auto simp: catches_def)

lemma slice_Suc: "i \<le> n \<Longrightarrow> n < length s \<Longrightarrow> slice s i (Suc n) = slice s i n @ [s ! n]"
  by (simp add: slice_def Suc_diff_le take_Suc_conv_app_nth)

lemma splice_catches:
  assumes "catches r P" and "\<And>m c. c \<in> set (f m) \<Longrightarrow> \<not> P c"
  shows "i \<le> n \<Longrightarrow> n \<le> length s \<Longrightarrow> \<forall>c \<in> set (slice s i n). \<not> P c \<Longrightarrow>
    \<forall>c \<in> set (splice f s i (finditer_from r s n)). \<not> P c"
proof (induction "length s - n" arbitrary: i n rule: less_induct)
  case less
  show ?case
  proof (cases "match_at r s n")
    case None
    have past: "finditer_from r s (Suc n) = []" if "\<not> n < length s"
      using that finditer_from.simps [of r s "Suc n"] by simp
    have search: "finditer_from r s n = finditer_from r s (Suc n)"
      using less.prems(2) None by (subst finditer_from.simps) simp
    show ?thesis
    proof (cases "n < length s")
      case True
      then have "\<not> P (s ! n)"
        using catches_match [OF assms(1)] None by blast
      then have "\<forall>c \<in> set (slice s i (Suc n)). \<not> P c"
        using less.prems(3) unfolding slice_Suc [OF less.prems(1) True] by simp
      then show ?thesis
        unfolding search by (intro less.hyps) (use less.prems(1) True in linarith)+
    next
      case False
      then have "slice s i n = drop i s"
        using less.prems by (simp add: slice_def)
      then show ?thesis
        using less.prems(3) by (simp add: search past [OF False])
    qed
  next
    case (Some m)
    have m: "from_pos m = n" "n < to_pos m" "to_pos m \<le> length s"
      using match_at_bounds [OF Some] catches_longer [OF assms(1) Some] less.prems by auto
    have "finditer_from r s n = m # finditer_from r s (to_pos m)"
      using less.prems m Some by (simp add: finditer_from.simps [of r s n] max_def)
    moreover have "\<forall>c \<in> set (splice f s (to_pos m) (finditer_from r s (to_pos m))). \<not> P c"
      using less.hyps [of "to_pos m" "to_pos m"] m by simp
    ultimately show ?thesis
      using less.prems(3) m(1) assms(2) by (simp only: splice.simps set_append ball_Un) blast
  qed
qed

lemma re_sub_catches:
  assumes "catches r P" and "\<And>m c. c \<in> set (f m) \<Longrightarrow> \<not> P c" and "c \<in> set (re_sub r f s)"
  shows "\<not> P c"
proof -
  have "\<forall>c \<in> set (splice f s 0 (finditer_from r s 0)). \<not> P c"
    by (rule splice_catches [OF assms(1,2)]) auto
  then show ?thesis
    using assms(3) by (simp add: re_sub_def finditer_def)
qed

lemma ways_plus_not_Nil: "ahead p = c # rest \<Longrightarrow> P c \<Longrightarrow> ways (plus (Sat P)) p \<noteq> []"
  by (simp add: plus_def ways.simps(5) [of True "Sat P"] Let_def del: ways.simps(5))

lemma catches_plus: "catches (plus (Sat P)) P"
proof -
  have "match_at (plus (Sat P)) s n \<noteq> None" if "n < length s" "P (s ! n)" for s n
    using ways_plus_not_Nil [of "position_at s n" "s ! n" "drop (Suc n) s" P] that
    by (auto simp: match_at_def position_at_def Cons_nth_drop_Suc split: list.splits)
  moreover have "n < to_pos m" if m: "match_at (plus (Sat P)) s n = Some m" for s n m
  proof -
    obtain q where q: "q \<in> set (ways (plus (Sat P)) (position_at s n))" and to: "to_pos m = length s - length (ahead q)"
      using m unfolding match_at_def by (cases "ways (plus (Sat P)) (position_at s n)") (auto intro: that)
    obtain q1 where "q1 \<in> set (ways (Sat P) (position_at s n))" and q1: "q \<in> set (ways (Star True (Sat P)) q1)"
      using q by (auto simp: plus_def)
    then obtain c where rest: "drop n s = c # ahead q1"
      by (cases "drop n s") (simp_all add: position_at_def split: if_splits)
    have "suffix (ahead q) (ahead q1)"
      using ways_text [OF q1] by simp
    then have "length (ahead q) < length s - n"
      using suffix_length_le [of "ahead q" "ahead q1"] rest by (metis length_Cons length_drop less_Suc_eq_le)
    then show ?thesis
      using to by simp
  qed
  ultimately show ?thesis
    by (auto simp: catches_def)
qed

section \<open>Stems and paths\<close>

lemma set_strip_chars: "set (strip_chars cs s) \<subseteq> set s"
  by (auto simp: strip_chars_def dest!: set_dropWhileD)

lemma title_stem_safe:
  assumes "c \<in> set (title_stem v title)"
  shows "c \<noteq> SLASH" and "c \<noteq> 92"
proof -
  have "c \<in> set (re_sub UNSAFE_TITLE (\<lambda>_. [45]) (nfc v (one_line title)))"
    using assms set_strip_chars by (auto simp: title_stem_def)
  from re_sub_catches [OF catches_plus _ this [unfolded UNSAFE_TITLE_def]]
  show "c \<noteq> SLASH" and "c \<noteq> 92"
    by auto
qed

lemma page_path_form:
  assumes "page_path v r title = Inr path"
  obtains stem where "path = FOLDERS r @ [SLASH] @ stem @ MD" and "SLASH \<notin> set stem" and "92 \<notin> set stem" and "stem \<noteq> []"
proof
  show "path = FOLDERS r @ [SLASH] @ title_stem v title @ MD" and "title_stem v title \<noteq> []"
    using assms by (simp_all add: page_path_def contract_error_def Let_def split: if_splits)
  show "SLASH \<notin> set (title_stem v title)" and "92 \<notin> set (title_stem v title)"
    using title_stem_safe by blast+
qed

text \<open>The path of a page is a file of the folder of its role, and of no other.\<close>

lemma page_path_in_folder:
  assumes "page_path v r title = Inr path"
  shows "in_folder path r"
proof -
  obtain stem where path: "path = FOLDERS r @ [SLASH] @ stem @ MD" and "SLASH \<notin> set stem"
    by (rule page_path_form [OF assms])
  then show ?thesis
    by (simp add: in_folder_def MD_def suffix_def)
qed

lemma folder_first: "in_folder path r \<Longrightarrow> take 7 path = take 7 (FOLDERS r)"
  by (auto simp: in_folder_def prefix_def FOLDERS_def split: role.splits)

lemma folder_unique: "in_folder path r \<Longrightarrow> in_folder path r' \<Longrightarrow> r = r'"
proof -
  have "take 7 (FOLDERS r) = take 7 (FOLDERS r') \<Longrightarrow> r = r'"
    by (cases r; cases r') (simp_all add: FOLDERS_def)
  then show "in_folder path r \<Longrightarrow> in_folder path r' \<Longrightarrow> r = r'"
    using folder_first by metis
qed

lemma path_role_iff: "path_role path = Some r \<longleftrightarrow> in_folder path r"
proof
  show "path_role path = Some r \<Longrightarrow> in_folder path r"
    by (auto simp: path_role_def find_Some_iff)
  assume r: "in_folder path r"
  have "r \<in> set ROLES"
    by (cases r) (simp_all add: ROLES_def)
  then have "path_role path \<noteq> None"
    using r by (auto simp: path_role_def find_None_iff)
  then obtain r' where "path_role path = Some r'"
    by blast
  moreover from this have "in_folder path r'"
    by (auto simp: path_role_def find_Some_iff)
  ultimately show "path_role path = Some r"
    using r folder_unique by blast
qed

lemma page_path_role: "page_path v r title = Inr path \<Longrightarrow> path_role path = Some r"
  by (simp add: path_role_iff page_path_in_folder)

lemma distinct_by_folder:
  assumes "distinct ps"
  shows "distinct (concat (map (\<lambda>r. filter (\<lambda>p. in_folder p r) ps) ROLES))"
proof -
  have folders: "distinct (concat (map (\<lambda>r. filter (\<lambda>p. in_folder p r) ps) rs))" if "distinct rs" for rs
    using that assms by (induction rs) (auto dest: folder_unique)
  show ?thesis
    by (rule folders) (simp add: ROLES_def)
qed

end
