(* ===== verification/Filing_Safety.thy ===== *)
theory Filing_Safety
  imports Filing Page_Names Lint_Safety
begin

text \<open>
  What a filing plan may do to a view: it is a sequence of guarded writes of single pages, each allowed
  by the audience of the page it changes. The abstract writes are the steps of a relation on trees;
  \<open>apply_filing_plan\<close> refines it.
\<close>

section \<open>Guarded writes\<close>

definition stored_page :: "writer_env \<Rightarrow> tree \<Rightarrow> pystr \<Rightarrow> page \<Rightarrow> bool" where
  "stored_page k t path p \<longleftrightarrow> path |\<in>| fmdom t \<and> read_page k t path = Inr p"

definition may_change :: "write_context \<Rightarrow> page \<Rightarrow> bool" where
  "may_change context p \<longleftrightarrow> actor_reads context (page_acl p) \<and> flows_into (content_acl context) (page_acl p)"

text \<open>What no write of a plan changes of a page, and the sources it never loses.\<close>

definition same_identity :: "page \<Rightarrow> page \<Rightarrow> bool" where
  "same_identity old new \<longleftrightarrow>
     page_at new = page_at old \<and> page_id new = page_id old \<and> page_role new = page_role old \<and> page_title new = page_title old \<and>
     page_created new = page_created old \<and> page_acl new = page_acl old \<and> page_entity_type new = page_entity_type old \<and>
     set (page_sources old) \<subseteq> set (page_sources new)"

inductive guarded_write :: "writer_env \<Rightarrow> write_context \<Rightarrow> tree \<Rightarrow> tree \<Rightarrow> bool" for k :: writer_env and ctx :: write_context where
  created: "path |\<notin>| fmdom t \<Longrightarrow> page_at p = path \<Longrightarrow> page_acl p = content_acl ctx \<Longrightarrow> actor_reads ctx (page_acl p) \<Longrightarrow>
    render_like k p = Inr s \<Longrightarrow> guarded_write k ctx t (fmupd path s t)"
| rewritten: "stored_page k t path old \<Longrightarrow> may_change ctx old \<Longrightarrow> same_identity old new \<Longrightarrow> render_like k new = Inr s \<Longrightarrow>
    guarded_write k ctx t (fmupd path s t)"
| deleted: "stored_page k t path old \<Longrightarrow> may_change ctx old \<Longrightarrow> parse_contradictions (env_codec k) (page_body old) = Inr [] \<Longrightarrow>
    guarded_write k ctx t (fmdrop path t)"

inductive_cases guarded_writeE: "guarded_write k context t t'"

section \<open>Paths of pages\<close>

lemma split_on_plain: "sep \<notin> set s \<Longrightarrow> split_on sep s = [s]"
  by (induction s) auto

lemma slashed_plain: "92 \<notin> set s \<Longrightarrow> slashed s = s"
  by (auto simp: slashed_def intro: map_idI)

lemma FOLDERS_parts:
  assumes "SLASH \<notin> set x"
  shows "\<exists>name. split_on SLASH (FOLDERS r @ SLASH # x) = [lit ''wiki'', name, x] \<and> FOLDERS r = lit ''wiki'' @ SLASH # name \<and>
    name \<noteq> [] \<and> name \<noteq> [46] \<and> name \<noteq> [46, 46]"
  using split_on_plain [OF assms] by (cases r) (simp_all add: FOLDERS_def)

lemma writer_path_of_page:
  assumes "page_path v r headline = Inr path"
  shows "writer_path path = Inr path"
proof -
  obtain stem where path: "path = FOLDERS r @ [SLASH] @ stem @ MD" and stem: "SLASH \<notin> set stem" "92 \<notin> set stem" "stem \<noteq> []"
    by (rule page_path_form [OF assms])
  have "SLASH \<notin> set (stem @ MD)"
    using stem(1) by (simp add: MD_def)
  then obtain name where parts: "split_on SLASH path = [lit ''wiki'', name, stem @ MD]" and folder: "FOLDERS r = lit ''wiki'' @ SLASH # name"
    and name: "name \<noteq> []" "name \<noteq> [46]" "name \<noteq> [46, 46]"
    using FOLDERS_parts [of "stem @ MD" r] path by auto
  have plain: "slashed path = path" and last: "stem @ MD \<noteq> [46]" "stem @ MD \<noteq> [46, 46]" "stem @ MD \<noteq> []"
    using stem(2,3) by (intro slashed_plain) (cases r; auto simp: path FOLDERS_def MD_def append_eq_Cons_conv)+
  have "writer_path path = Inr (join [SLASH] [lit ''wiki'', name, stem @ MD])"
    using name last by (simp add: writer_path_def plain parts) (simp add: path folder)
  then show ?thesis
    by (simp add: path folder)
qed

lemma parse_page_place:
  assumes "parse_page lib v path s = Inr p"
  shows "page_at p = path" and "path_role path = Some (page_role p)" and "writer_path path = Inr path"
proof -
  obtain r headline where "page_path (v::unicode_more) r headline = Inr path" and "page_at p = path" and "page_role p = r"
    using assms by (auto simp: parse_page_def contract_error_def Let_def and_then_eq_Inr split: prod.splits option.splits yaml.splits if_splits)
  then show "page_at p = path" and "path_role path = Some (page_role p)" and "writer_path path = Inr path"
    using page_path_role writer_path_of_page by auto
qed

lemma existing_page_stored:
  assumes "existing_page k context relative t = Inr (path, old)"
  shows "path = relative" and "stored_page k t path old" and "may_change context old"
proof -
  have path: "writer_path relative = Inr path" "path |\<in>| fmdom t"
    and parsed: "parse_page (env_yaml k) (env_more k) relative (text_at t path) = Inr old"
    and allowed: "allow_existing context (page_acl old) = Inr ()"
    using assms by (auto simp: existing_page_def write_error_def and_then_eq_Inr split: if_splits)
  show same: "path = relative"
    using path(1) parse_page_place(3) [OF parsed] by simp
  show "stored_page k t path old"
    using path(2) parsed same by (simp add: stored_page_def read_page_def)
  show "may_change context old"
    using allowed by (simp add: may_change_def guard_simps)
qed

section \<open>Every write of a plan is guarded\<close>

lemma create_page_guarded:
  assumes "create_page k fresh context source at_day p t = Inr (changed, t')"
  shows "guarded_write k context t t'"
proof -
  obtain r target s where "mut_role p = Some r" and place: "page_path (env_more k) r (text_of_option (mut_title p)) = Inr target"
    and allowed: "allow_create context (content_acl context) = Inr ()"
    and shown: "render_like k (new_page p r target (fresh target) (content_acl context) source at_day) = Inr s"
    and new: "write_new target s t = Inr t'"
    using assms by (auto simp: create_page_def contract_error_def and_then_eq_Inr split: option.splits)
  have "target |\<notin>| fmdom t" and "t' = fmupd target s t"
    using new by (auto simp: write_new_def writer_path_of_page [OF place] write_error_def path_exists_def split: if_splits)
  moreover have "actor_reads context (content_acl context)"
    using allowed by (simp add: guard_simps)
  ultimately show ?thesis
    using guarded_write.created [OF _ _ _ _ shown, of target t "context"] by (simp add: new_page_def)
qed

lemma update_page_rewrites:
  assumes "update_page k source at_day p path old t = Inr t'"
  obtains body s where "t' = fmupd path s t" and "render_like k (updated_page p old body source at_day) = Inr s"
    and "preserve_contradictions k (page_body old) (text_of_option (mut_body p)) = Inr body"
    and "lost_source_backed_lines (env_unicode k) (page_body old) body = []"
    and "source_attributions (env_unicode k) (page_body old) \<subseteq> source_attributions (env_unicode k) body"
  using assms by (auto simp: update_page_def write_error_def and_then_eq_Inr Let_def split: if_splits)

lemma updated_page_same: "same_identity old (updated_page p old body source at_day)"
  by (auto simp: same_identity_def updated_page_def)

lemma apply_page_mutation_guarded:
  assumes "apply_page_mutation k fresh context source at_day p t = Inr (changed, t')"
  shows "guarded_write k context t t'"
proof (cases "mut_action p")
  case Create_Page
  then show ?thesis
    using assms create_page_guarded by (simp add: apply_page_mutation_def Let_def)
next
  case Update_Page
  then obtain path old where page: "existing_page k context (text_of_option (mut_path p)) t = Inr (path, old)"
    and update: "update_page k source at_day p path old t = Inr t'"
    using assms by (auto simp: apply_page_mutation_def and_then_eq_Inr Let_def)
  show ?thesis
    using update_page_rewrites [OF update] guarded_write.rewritten [OF existing_page_stored(2,3) [OF page] updated_page_same]
    by metis
next
  case Delete_Page
  then obtain path old where page: "existing_page k context (text_of_option (mut_path p)) t = Inr (path, old)"
    and gone: "delete_page k path old t = Inr t'"
    using assms by (auto simp: apply_page_mutation_def and_then_eq_Inr Let_def)
  have "t' = fmdrop path t" "parse_contradictions (env_codec k) (page_body old) = Inr []"
    using gone by (auto simp: delete_page_def write_error_def and_then_eq_Inr split: if_splits)
  then show ?thesis
    using guarded_write.deleted [OF existing_page_stored(2,3) [OF page]] by simp
qed

abbreviation guarded_writes :: "writer_env \<Rightarrow> write_context \<Rightarrow> tree \<Rightarrow> tree \<Rightarrow> bool" where
  "guarded_writes k context \<equiv> (guarded_write k context)\<^sup>*\<^sup>*"

lemma resolve_body_tree: "resolve_body k stems p st = Inr (p', st') \<Longrightarrow> filed_tree st' = filed_tree st"
  by (auto simp: resolve_body_def Let_def and_then_eq_Inr split: if_splits prod.splits)

lemma apply_mutation_guarded:
  assumes "apply_mutation k job stems i p st = Inr st'"
  shows "guarded_writes k (job_context job) (filed_tree st) (filed_tree st')"
  using assms apply_page_mutation_guarded resolve_body_tree
  by (fastforce simp: apply_mutation_def skip_note_def and_then_eq_Inr split: if_splits)

lemma fromkeys_more: "set xs \<subseteq> set (fromkeys (xs @ ys))"
  by simp

lemma same_identity_body:
  "set (page_sources old) \<subseteq> set srcs \<Longrightarrow> same_identity old (old\<lparr>page_body := body, page_sources := srcs, page_updated := d\<rparr>)"
  by (simp add: same_identity_def)

lemma place_contradiction_guarded:
  assumes "place_contradiction k job i p t = Inr t'"
  shows "guarded_write k (job_context job) t t'"
proof -
  obtain path old s where path: "writer_path (proposal_page p) = Inr path" "path |\<in>| fmdom t"
    and parsed: "parse_page (env_yaml k) (env_more k) (proposal_page p) (text_at t path) = Inr old"
    and allowed: "allow_existing (job_context job) (page_acl old) = Inr ()"
    and shown: "with_contradiction k job old (from_proposal (job_mint job i) p) = Inr s" and t': "t' = fmupd path s t"
    using assms by (auto simp: place_contradiction_def and_then_eq_Inr split: if_splits)
  have "path = proposal_page p"
    using path(1) parse_page_place(3) [OF parsed] by simp
  then have "stored_page k t path old" and "may_change (job_context job) old"
    using path(2) parsed allowed by (simp_all add: stored_page_def read_page_def may_change_def guard_simps)
  moreover obtain body where "render_like k (old\<lparr>page_body := body,
      page_sources := fromkeys (page_sources old @ map claim_source (con_claims (from_proposal (job_mint job i) p))),
      page_updated := job_day job\<rparr>) = Inr s"
    using shown by (auto simp: with_contradiction_def and_then_eq_Inr)
  ultimately show ?thesis
    unfolding t' by (blast intro: guarded_write.rewritten same_identity_body [OF fromkeys_more])
qed

lemma apply_contradiction_guarded:
  assumes "apply_contradiction k job i p st = Inr st'"
  shows "guarded_writes k (job_context job) (filed_tree st) (filed_tree st')"
  using assms place_contradiction_guarded
  by (fastforce simp: apply_contradiction_def skip_note_def and_then_eq_Inr split: if_splits)

text \<open>Steps that only ever make guarded writes make only guarded writes in turn.\<close>

lemma each_in_turn_closed:
  assumes "\<And>i x st st'. f i x st = Inr st' \<Longrightarrow> R\<^sup>*\<^sup>* (g st) (g st')"
  shows "each_in_turn f i xs st = Inr st' \<Longrightarrow> R\<^sup>*\<^sup>* (g st) (g st')"
proof (induction xs arbitrary: i st)
  case (Cons x xs)
  then obtain st1 where "f i x st = Inr st1" and "each_in_turn f (Suc i) xs st1 = Inr st'"
    by (auto simp: and_then_eq_Inr)
  then show ?case
    using assms Cons.IH by (meson rtranclp_trans)
qed simp

section \<open>Resolving a contradiction\<close>

definition change_of :: "writer_env \<Rightarrow> write_context \<Rightarrow> tree \<Rightarrow> pystr \<times> page \<Rightarrow> bool" where
  "change_of k context t = (\<lambda>(path, new). \<exists>old. stored_page k t path old \<and> may_change context old \<and> same_identity old new)"

lemma resolved_page_change:
  assumes "resolved_page k job t ident path = Inr (Some c)" and "path |\<in>| fmdom t"
  shows "fst c = path" and "change_of k (job_context job) t c"
proof -
  obtain old body where old: "read_page k t path = Inr old" "allow_existing (job_context job) (page_acl old) = Inr ()"
    and c: "c = (path, old\<lparr>page_body := body, page_sources := fromkeys (page_sources old @ [job_source job]), page_updated := job_day job\<rparr>)"
  proof -
    obtain old where old: "read_page k t path = Inr old"
      using assms(1) by (auto simp: resolved_page_def and_then_eq_Inr)
    then obtain u where "allow_existing (job_context job) (page_acl old) = Inr u"
      using assms(1) by (cases "allow_existing (job_context job) (page_acl old)") (simp_all add: resolved_page_def)
    then show thesis
      using assms(1) old that by (auto simp: resolved_page_def and_then_eq_Inr split: if_splits)
  qed
  show "fst c = path"
    by (simp add: c)
  show "change_of k (job_context job) t c"
    using old assms(2) same_identity_body [OF fromkeys_more, of old]
    unfolding c change_of_def by (auto simp: stored_page_def may_change_def guard_simps)
qed

lemma each_option_places:
  assumes "each f xs = Inr ys" and "distinct xs" and "\<And>x c. x \<in> set xs \<Longrightarrow> f x = Inr (Some c) \<Longrightarrow> fst c = x \<and> P c"
  shows "distinct (map fst (somes ys)) \<and> fst ` set (somes ys) \<subseteq> set xs \<and> (\<forall>c \<in> set (somes ys). P c)"
  using assms
proof (induction xs arbitrary: ys)
  case (Cons x xs)
  then obtain y zs where ys: "ys = y # zs" "f x = Inr y" "each f xs = Inr zs"
    by (auto simp: and_then_eq_Inr)
  let ?rest = "somes zs"
  have IH: "distinct (map fst ?rest)" "fst ` set ?rest \<subseteq> set xs" "\<forall>c \<in> set ?rest. P c"
    using Cons.IH [OF ys(3)] Cons.prems(2,3) by (meson distinct.simps(2) list.set_intros(2))+
  show ?case
  proof (cases y)
    case None
    have "somes ys = ?rest"
      by (simp add: ys(1) None)
    then show ?thesis
      using IH by auto
  next
    case (Some c)
    then have "fst c = x" and "P c"
      using Cons.prems(3) [of x c] ys(2) by simp_all
    moreover have "x \<notin> fst ` set ?rest"
      using IH(2) Cons.prems(2) by (meson distinct.simps(2) subsetD)
    moreover have "somes ys = c # ?rest"
      by (simp add: ys(1) Some)
    ultimately show ?thesis
      using IH by (simp add: subset_insertI2)
  qed
qed simp

lemma distinct_folder_pages: "distinct (folder_pages t)"
  unfolding folder_pages_def by (rule distinct_by_folder) (simp add: paths_of_def)

lemma folder_pages_in: "path \<in> set (folder_pages t) \<Longrightarrow> path |\<in>| fmdom t"
  by (auto simp: folder_pages_def paths_of_def)

lemma change_of_other: "change_of k context t c \<Longrightarrow> path \<noteq> fst c \<Longrightarrow> change_of k context (fmupd path s t) c"
  by (auto simp: change_of_def stored_page_def read_page_def text_at_def)

lemma write_resolved_eq: "write_resolved k i (path, p) t = and_then (render_like k p) (\<lambda>s. Inr (fmupd path s t))"
  by (simp add: write_resolved_def)

lemma write_resolved_guarded:
  assumes "each_in_turn (write_resolved k) i cs t = Inr t'" and "distinct (map fst cs)" and "\<forall>c \<in> set cs. change_of k context t c"
  shows "guarded_writes k context t t'"
  using assms
proof (induction cs arbitrary: i t)
  case (Cons c cs)
  obtain path new where c: "c = (path, new)"
    by (cases c)
  obtain s where s: "render_like k new = Inr s" and rest: "each_in_turn (write_resolved k) (Suc i) cs (fmupd path s t) = Inr t'"
    using Cons.prems(1) by (auto simp: c write_resolved_eq and_then_eq_Inr)
  have "guarded_write k context t (fmupd path s t)"
    using Cons.prems(3) s guarded_write.rewritten by (fastforce simp: c change_of_def)
  moreover have "guarded_writes k context (fmupd path s t) t'"
  proof (rule Cons.IH [OF rest])
    show "distinct (map fst cs)"
      using Cons.prems(2) by simp
    show "\<forall>c \<in> set cs. change_of k context (fmupd path s t) c"
      using Cons.prems(2,3) by (force simp: c intro!: change_of_other)
  qed
  ultimately show ?case
    by (rule converse_rtranclp_into_rtranclp)
qed simp

lemma resolve_contradiction_guarded:
  assumes "resolve_contradiction k job idents st = Inr st'"
  shows "guarded_writes k (job_context job) (filed_tree st) (filed_tree st')"
proof (cases "filed_tree st' = filed_tree st")
  case False
  then obtain removed t' ident where "remove_from_pages k job ident (filed_updates st) (filed_tree st) = Inr (removed, t')"
    and t': "filed_tree st' = t'"
    using assms by (auto simp: resolve_contradiction_def write_error_def and_then_eq_Inr Let_def split: if_splits)
  then obtain found where found: "each (resolved_page k job (filed_tree st) ident) (folder_pages (filed_tree st)) = Inr found"
    and writes: "each_in_turn (write_resolved k) 0 (somes found) (filed_tree st) = Inr t'"
    by (auto simp: remove_from_pages_def write_error_def and_then_eq_Inr Let_def split: if_splits)
  note places = each_option_places [OF found distinct_folder_pages, where P = "change_of k (job_context job) (filed_tree st)"]
  show ?thesis
    unfolding t' by (rule write_resolved_guarded [OF writes]) (use places resolved_page_change folder_pages_in in blast)+
qed simp

section \<open>What guarded writes leave alone\<close>

lemma render_page_place: "render_page lib v p = Inr s \<Longrightarrow> path_role (page_at p) = Some (page_role p)"
  using page_path_role by (auto simp: render_page_def contract_error_def and_then_eq_Inr split: if_splits)

lemma stored_page_place: "stored_page k t path p \<Longrightarrow> path_role path = Some (page_role p)"
  using parse_page_place(2) by (auto simp: stored_page_def read_page_def)

lemma guarded_write_outside:
  assumes "guarded_write k context t t'" and "path_role path = None"
  shows "fmlookup t' path = fmlookup t path"
  using assms(1)
proof (cases rule: guarded_write.cases)
  case (created target p s)
  then have "path_role target \<noteq> None"
    using render_page_place by (force simp: render_like_def)
  then show ?thesis
    using created assms(2) by auto
qed (use assms(2) stored_page_place in fastforce)+

lemma guarded_write_protected:
  assumes "guarded_write k context t t'" and "stored_page k t path old" and "\<not> may_change context old"
  shows "fmlookup t' path = fmlookup t path"
  using assms by (cases rule: guarded_write.cases) (auto simp: stored_page_def)

lemma stored_page_same: "fmlookup t' path = fmlookup t path \<Longrightarrow> stored_page k t path p \<Longrightarrow> stored_page k t' path p"
  by (auto simp: stored_page_def read_page_def text_at_def fmdom_notI fmdomI fmlookup_dom_iff)

lemma guarded_writes_outside: "guarded_writes k context t t' \<Longrightarrow> path_role path = None \<Longrightarrow> fmlookup t' path = fmlookup t path"
  by (induction rule: rtranclp_induct) (auto simp: guarded_write_outside)

lemma guarded_writes_protected:
  assumes "guarded_writes k context t t'" and "stored_page k t path old" and "\<not> may_change context old"
  shows "fmlookup t' path = fmlookup t path"
  using assms(1)
proof (induction rule: rtranclp_induct)
  case (step u w)
  then have "stored_page k u path old"
    using stored_page_same assms(2) by blast
  then show ?case
    using guarded_write_protected [OF step.hyps(2) _ assms(3)] step.IH by simp
qed simp

lemma apply_filing_plan_guarded:
  assumes "apply_filing_plan k job pl reasons skips t = Inr st"
  shows "guarded_writes k (job_context job) t (filed_tree st)"
proof -
  obtain stems muts skipped st1 st2 where
    muts: "each_in_turn (apply_mutation k job stems) 0 muts
      \<lparr>filed_tree = t, filed_reasons = reasons, filed_skips = skips @ skipped, filed_updates = []\<rparr> = Inr st1"
    and conflicts: "each_in_turn (apply_contradiction k job) 0 (plan_contradictions pl) st1 = Inr st2"
    and last: "resolve_contradiction k job (plan_resolved pl) st2 = Inr st"
    using assms by (auto simp: apply_filing_plan_def write_error_def and_then_eq_Inr split: if_splits)
  have "guarded_writes k (job_context job) t (filed_tree st1)"
    using each_in_turn_closed [where g = filed_tree, OF apply_mutation_guarded muts] by simp
  also have "guarded_writes k (job_context job) (filed_tree st1) (filed_tree st2)"
    by (rule each_in_turn_closed [where g = filed_tree, OF apply_contradiction_guarded conflicts])
  also have "guarded_writes k (job_context job) (filed_tree st2) (filed_tree st)"
    by (rule resolve_contradiction_guarded [OF last])
  finally show ?thesis .
qed

section \<open>A sample plan\<close>

definition sample_removal :: mutation where
  "sample_removal = \<lparr>mut_action = Delete_Page, mut_role = None, mut_path = Some sample_place, mut_title = None, mut_body = None,
     mut_status = None, mut_entity_type = None, mut_aliases = None, mut_reason = lit ''gone''\<rparr>"

definition sample_plan :: plan where
  "sample_plan = \<lparr>plan_summary = lit ''s'', plan_mutations = [sample_removal], plan_contradictions = [], plan_resolved = []\<rparr>"

definition sample_job :: "acl \<Rightarrow> filing_job" where
  "sample_job readers =
     \<lparr>job_context = \<lparr>actor_groups = None, content_acl = readers, unrestricted = True\<rparr>, job_source = lit ''sources/x.md'',
      job_day = 20260102, job_intent = \<lparr>resolution_of = None, rationale = None\<rparr>, job_evidence = [], job_drop_broader = True,
      job_fresh = (\<lambda>_ _. []), job_mint = (\<lambda>_. [])\<rparr>"

lemma sample_folders: "folder_pages sample_tree = [sample_place]" "entity_pages sample_env sample_tree = Inr []"
  by code_simp+

lemma sample_stored: "stored_page sample_env sample_tree sample_place sample_page"
  using sample_parsed by (simp add: stored_page_def read_page_def sample_env_def text_at_def sample_tree_def)

lemma sample_writable: "writer_path sample_place = Inr sample_place"
  using sample_stored parse_page_place(3) by (auto simp: stored_page_def read_page_def)

lemma sample_skip: "skip_claimed_names sample_env sample_tree [sample_removal] = Inr ([sample_removal], [], {})"
  by (simp add: skip_claimed_names_def sample_folders sample_removal_def Let_def)

lemma sample_stems: "\<exists>stems. plan_stems sample_env (sample_job readers) [sample_removal] {} sample_tree = Inr stems"
  using sample_stored
  by (simp add: plan_stems_def knowledge_link_stems_def sample_folders page_link_names_def stored_page_def)

lemma sample_place_given: "sample_place \<noteq> []" "text_of_option (mut_path sample_removal) = sample_place" "mut_action sample_removal = Delete_Page"
    "mut_body sample_removal = None"
  by (simp_all add: sample_place_def sample_removal_def text_of_option_def)

lemma sample_guard:
  "is_broader (job_context (sample_job (Some [lit ''sales'']))) (page_acl sample_page)"
  "\<not> may_change (job_context (sample_job (Some [lit ''sales'']))) sample_page"
  "\<not> is_broader (job_context (sample_job None)) (page_acl sample_page)"
  "allow_existing (job_context (sample_job None)) (page_acl sample_page) = Inr ()"
  by (simp_all add: guard_simps sample_job_def sample_page_def may_change_def flows_into_def actor_reads_def)

lemma sample_unmarked: "parse_contradictions (env_codec sample_env) (page_body sample_page) = Inr []"
proof -
  have "parse_contradictions (env_codec sample_env) (lit ''B'') = Inr []"
    by code_simp
  then show ?thesis
    by (simp add: sample_page_def)
qed

lemma sample_broader: "broader_page sample_env context sample_place sample_tree \<longleftrightarrow> is_broader context (page_acl sample_page)"
  using sample_stored sample_writable sample_place_given by (simp add: broader_page_def stored_page_def read_page_def)

lemma sample_refused:
  "apply_filing_plan sample_env (sample_job (Some [lit ''sales''])) sample_plan fmempty [] sample_tree =
     Inr \<lparr>filed_tree = sample_tree, filed_reasons = fmempty, filed_skips = [not_applied sample_removal], filed_updates = []\<rparr>"
proof -
  obtain stems where stems: "plan_stems sample_env (sample_job (Some [lit ''sales''])) [sample_removal] {} sample_tree = Inr stems"
    using sample_stems by blast
  have "truthy (resolution_of (job_intent (sample_job (Some [lit ''sales''])))) = False" "job_drop_broader (sample_job (Some [lit ''sales'']))"
    by (simp_all add: sample_job_def truthy_def)
  then show ?thesis
    using sample_guard(1)
    by (simp add: apply_filing_plan_def sample_plan_def sample_skip stems apply_mutation_def sample_place_given sample_broader
        skip_note_def resolve_contradiction_def del: lit_Cons lit_Nil)
qed

lemma sample_applied:
  "apply_filing_plan sample_env (sample_job None) sample_plan reasons [] sample_tree =
     Inr \<lparr>filed_tree = fmdrop sample_place sample_tree, filed_reasons = fmupd sample_place (lit ''gone'') reasons, filed_skips = [],
       filed_updates = []\<rparr>"
proof -
  obtain stems where stems: "plan_stems sample_env (sample_job None) [sample_removal] {} sample_tree = Inr stems"
    using sample_stems by blast
  have plain: "truthy (resolution_of (job_intent (sample_job None))) = False"
    by (simp add: sample_job_def truthy_def)
  have "existing_page sample_env (job_context (sample_job None)) sample_place sample_tree = Inr (sample_place, sample_page)"
    using sample_stored sample_guard(4) by (simp add: existing_page_def sample_writable stored_page_def read_page_def)
  then have "apply_page_mutation sample_env fresh (job_context (sample_job None)) source at_day sample_removal sample_tree =
      Inr (sample_place, fmdrop sample_place sample_tree)" for fresh source at_day
    by (simp add: apply_page_mutation_def sample_place_given delete_page_def sample_unmarked Let_def)
  moreover have "mut_reason sample_removal = lit ''gone''"
    by (simp add: sample_removal_def)
  ultimately show ?thesis
    using sample_guard(3) plain
    by (simp add: apply_filing_plan_def sample_plan_def sample_skip stems apply_mutation_def sample_place_given sample_broader
        resolve_body_def given_def recast_def resolve_contradiction_def del: lit_Cons lit_Nil)
qed

section \<open>Properties\<close>

text \<open>
  C30. A filing plan refines the abstract writes of the audience guard: whatever pages it creates,
  updates, links, files contradictions on or resolves them from, the tree it leaves is reached by writes
  of single pages, each a new page with the capture's own audience, or a change to a page the actor may
  read and the captured content may flow into, which keeps the page's identifier, path, role, title,
  creation date, audience and sources, or the deletion of such a page without open contradictions.
\<close>

theorem filing_plan_refines_guarded_writes:
  assumes "apply_filing_plan k job pl reasons skips t = Inr st"
  shows "(guarded_write k (job_context job))\<^sup>*\<^sup>* t (filed_tree st)"
  by (rule apply_filing_plan_guarded [OF assms])

theorem filing_plan_refines_guarded_writes_witness:
  "(guarded_write sample_env (job_context (sample_job None)))\<^sup>*\<^sup>* sample_tree (fmdrop sample_place sample_tree) \<and>
     fmdrop sample_place sample_tree \<noteq> sample_tree"
proof
  show "(guarded_write sample_env (job_context (sample_job None)))\<^sup>*\<^sup>* sample_tree (fmdrop sample_place sample_tree)"
    using filing_plan_refines_guarded_writes [OF sample_applied] by simp
  have "sample_place |\<in>| fmdom sample_tree"
    using sample_stored by (simp add: stored_page_def)
  then show "fmdrop sample_place sample_tree \<noteq> sample_tree"
    by (metis fmdom_drop fminusD2 fsingletonI)
qed

text \<open>
  C31. A filing plan changes nothing but knowledge pages its content may reach: no file outside the four
  knowledge folders, so no source, and no page that the actor cannot read or that has readers the
  captured content must not reach.
\<close>

theorem filing_plan_leaves_alone:
  assumes "apply_filing_plan k job pl reasons skips t = Inr st"
    and "path_role path = None \<or> (\<exists>old. stored_page k t path old \<and> \<not> may_change (job_context job) old)"
  shows "fmlookup (filed_tree st) path = fmlookup t path"
  using assms(2) apply_filing_plan_guarded [OF assms(1)] guarded_writes_outside guarded_writes_protected by blast

theorem filing_plan_leaves_alone_witness:
  "\<exists>st. apply_filing_plan sample_env (sample_job (Some [lit ''sales''])) sample_plan fmempty [] sample_tree = Inr st \<and>
     fmlookup (filed_tree st) sample_place = fmlookup sample_tree sample_place"
  using filing_plan_leaves_alone [OF sample_refused, of sample_place] sample_refused sample_stored sample_guard(2) by blast

end
