(* ===== verification/Update_Evidence.thy ===== *)
theory Update_Evidence
  imports Filing_Safety
begin

text \<open>
  What an update of a page keeps: the cited lines of the page, in order, its source attributions, its
  sources and its identity.
\<close>

section \<open>Lines in order\<close>

text \<open>The texts occur in \<open>s\<close> one after another.\<close>

fun in_order :: "pystr list \<Rightarrow> pystr \<Rightarrow> bool" where
  "in_order [] s \<longleftrightarrow> True"
| "in_order (x # xs) s \<longleftrightarrow> (\<exists>a b. s = a @ x @ b \<and> in_order xs b)"

lemma find_sub_split: "find_sub x s = Some n \<Longrightarrow> s = take n s @ x @ drop (n + length x) s"
  using find_sub_Some [of x s n] by (metis add.commute append_take_drop_id drop_drop prefix_def append_eq_conv_conj)

lemma keeps_lines_in_order:
  "keeps_lines u kept ls \<Longrightarrow> in_order (filter (\<lambda>x. x \<noteq> []) (map (unit_key u) ls)) kept"
proof (induction u kept ls rule: keeps_lines.induct)
  case (2 u kept l ls)
  show ?case
  proof (cases "unit_key u l = []")
    case True
    then show ?thesis
      using "2.IH"(1) [OF refl] "2.prems" by simp
  next
    case False
    then obtain n where n: "find_sub (unit_key u l) kept = Some n" "keeps_lines u (drop (n + length (unit_key u l)) kept) ls"
      using "2.prems" by (auto simp: Let_def split: option.splits)
    then show ?thesis
      using "2.IH"(2) [OF refl False n(1) n(2)] False find_sub_split [OF n(1)] by auto
  qed
qed simp

section \<open>A cited block has a visible line\<close>

lemma finditer_from_match:
  "m \<in> set (finditer_from r s n) \<Longrightarrow> \<exists>i. match_at r s i = Some m"
proof (induction r s n rule: finditer_from.induct)
  case (1 r s n)
  then show ?case
    by (cases "length s < n"; cases "match_at r s n") (auto simp: finditer_from.simps [of r s n])
qed

lemma match_starts:
  assumes "match_at (Seq (word (c # cs)) r) s n = Some m"
  shows "c \<in> set s"
proof -
  have "ways (Seq (word (c # cs)) r) (position_at s n) \<noteq> []"
    using assms by (cases "ways (Seq (word (c # cs)) r) (position_at s n)") (simp_all add: match_at_def del: ways.simps)
  then have "drop n s \<noteq> [] \<and> hd (drop n s) = c"
    by (cases "drop n s") (auto simp: position_at_def chr_def split: if_splits)
  then show ?thesis
    by (metis hd_in_set in_set_dropD)
qed

lemma attribution_paren:
  assumes "source_attributions u s \<noteq> {}"
  shows "40 \<in> set s"
proof -
  obtain m where "m \<in> set (finditer (SOURCE_ATTRIBUTION u) s)"
    using assms by (cases "finditer (SOURCE_ATTRIBUTION u) s") (auto simp: source_attributions_def)
  then obtain i where "match_at (SOURCE_ATTRIBUTION u) s i = Some m"
    using finditer_from_match [of m _ s 0] by (auto simp: finditer_def)
  then have "(of_char (CHR ''('') :: int) \<in> set s"
    unfolding SOURCE_ATTRIBUTION_def lit_Cons seq.simps by (rule match_starts)
  then show ?thesis
    by simp
qed

lemma lstrip_keeps: "c \<in> set s \<Longrightarrow> \<not> is_space c \<Longrightarrow> c \<in> set (lstrip s)"
  by (induction s) (auto simp: lstrip_def)

lemma strip_keeps: "c \<in> set s \<Longrightarrow> \<not> is_space c \<Longrightarrow> c \<in> set (strip s)"
  using lstrip_keeps [of c s] lstrip_keeps [of c "rev (lstrip s)"] by (simp add: strip_def rstrip_def lstrip_def)

lemma splitlines_keep_Nil: "splitlines_keep s = [] \<longleftrightarrow> s = []"
  by (cases s rule: splitlines_keep.cases) (auto split: list.splits)

lemma splitlines_keeps:
  assumes "c \<in> set s" and "\<not> line_break c"
  shows "\<exists>l \<in> set (splitlines s). c \<in> set l"
  using assms unfolding splitlines_def
proof (induction s rule: splitlines_keep.induct)
  case (3 a b s)
  have "c \<in> {a, b} \<union> set s"
    using "3.prems"(1) by simp
  show ?case
  proof (cases "a = 13 \<and> b = 10")
    case True
    then have "c \<in> set s"
      using "3.prems" by (auto simp: line_break_def)
    then show ?thesis
      using "3.IH"(1) [OF True _ "3.prems"(2)] True by simp
  next
    case no_pair: False
    show ?thesis
    proof (cases "line_break a")
      case True
      then have "c \<in> set (b # s)"
        using "3.prems" by auto
      then show ?thesis
        using "3.IH"(2) [OF no_pair True _ "3.prems"(2)] True no_pair by auto
    next
      case False
      obtain l ls where "splitlines_keep (b # s) = l # ls"
        by (metis list.distinct(1) neq_Nil_conv splitlines_keep_Nil)
      then show ?thesis
        using "3.IH"(3) [OF no_pair False _ "3.prems"(2)] "3.prems"(1) False no_pair by (cases "c = a") auto
    qed
  qed
qed auto

lemma cited_block_visible:
  assumes "b \<in> set (source_backed_blocks u s)"
  shows "\<exists>l \<in> set (splitlines b). strip l \<noteq> []"
proof -
  have "40 \<in> set b"
    using assms attribution_paren strip_keeps [of 40] by (auto simp: source_backed_blocks_def is_space_def)
  then obtain l where "l \<in> set (splitlines b)" "40 \<in> set l"
    using splitlines_keeps [of 40 b] by (auto simp: line_break_def)
  then show ?thesis
    using strip_keeps [of 40 l] by (force simp: is_space_def)
qed

lemma no_line_lost:
  assumes "lost_source_backed_lines u old_body body = []" and "b \<in> set (source_backed_blocks u old_body)"
  shows "keeps_lines u (unit_key u body) (splitlines b)"
proof -
  have "find (\<lambda>b. \<not> keeps_lines u (unit_key u body) (splitlines b)) (source_backed_blocks u old_body) = None"
  proof (rule ccontr)
    assume "\<not> ?thesis"
    then obtain c where c: "find (\<lambda>b. \<not> keeps_lines u (unit_key u body) (splitlines b)) (source_backed_blocks u old_body) = Some c"
      by blast
    then have "c \<in> set (source_backed_blocks u old_body)"
      by (rule find_found [THEN conjunct1])
    then show False
      using assms(1) cited_block_visible by (fastforce simp: lost_source_backed_lines_def c filter_empty_conv)
  qed
  then show ?thesis
    using assms(2) by (auto simp: find_None_iff)
qed

section \<open>A sample update\<close>

definition sample_update :: mutation where
  "sample_update = sample_removal\<lparr>mut_action := Update_Page, mut_body := Some (lit ''B'')\<rparr>"

lemma sample_update_kept:
  "preserve_contradictions sample_env (lit ''B'') (lit ''B'') = Inr (lit ''B'')"
  "lost_source_backed_lines (env_unicode sample_env) (lit ''B'') (lit ''B'') = []"
  by code_simp+

lemma sample_update_rendered:
  "\<exists>s. render_like sample_env (updated_page sample_update sample_page (lit ''B'') source 20260102) = Inr s"
  using sample_path
  by (simp add: render_like_def render_page_def updated_page_def sample_page_def sample_env_def sample_yaml_def page_statuses_def
    entity_fields_def strip_def lstrip_def rstrip_def is_space_def one_line_def Let_def sample_update_def sample_removal_def given_def)

lemma sample_updated:
  "\<exists>s. apply_page_mutation sample_env fresh (job_context (sample_job None)) source 20260102 sample_update sample_tree =
     Inr (sample_place, fmupd sample_place s sample_tree)"
proof -
  obtain s where "render_like sample_env (updated_page sample_update sample_page (lit ''B'') source 20260102) = Inr s"
    using sample_update_rendered by blast
  moreover have "existing_page sample_env (job_context (sample_job None)) sample_place sample_tree = Inr (sample_place, sample_page)"
    using sample_stored sample_guard(4) by (simp add: existing_page_def sample_writable stored_page_def read_page_def)
  moreover have "page_role sample_page = Note" "page_body sample_page = lit ''B''"
    by (simp_all add: sample_page_def)
  moreover have "mut_action sample_update = Update_Page" "text_of_option (mut_path sample_update) = sample_place"
      "text_of_option (mut_body sample_update) = lit ''B''" "mut_entity_type sample_update = None" "mut_aliases sample_update = None"
    by (simp_all add: sample_update_def sample_removal_def text_of_option_def)
  ultimately show ?thesis
    by (intro exI [of _ s]) (simp add: apply_page_mutation_def update_page_def sample_update_kept given_def Let_def del: lit_Cons lit_Nil)
qed

section \<open>Properties\<close>

text \<open>
  C32. An update of a page keeps its evidence: it rewrites that one page, under the same path, identifier,
  role, title, creation date and audience, adds the new source to those the page had, and keeps every
  source attribution of the old body and, for every block that cites a source, the lines of the block in
  their order, up to spacing and punctuation.
\<close>

theorem update_keeps_cited_lines:
  assumes "apply_page_mutation k fresh context source at_day p t = Inr (path, t')" and "mut_action p = Update_Page"
  shows "\<exists>old new s. stored_page k t path old \<and> may_change context old \<and> t' = fmupd path s t \<and> render_like k new = Inr s \<and>
    same_identity old new \<and> source \<in> set (page_sources new) \<and>
    source_attributions (env_unicode k) (page_body old) \<subseteq> source_attributions (env_unicode k) (page_body new) \<and>
    (\<forall>b \<in> set (source_backed_blocks (env_unicode k) (page_body old)).
       in_order (filter (\<lambda>x. x \<noteq> []) (map (unit_key (env_unicode k)) (splitlines b))) (unit_key (env_unicode k) (page_body new)))"
proof -
  obtain old where page: "existing_page k context path t = Inr (path, old)"
    and update: "update_page k source at_day p path old t = Inr t'"
    using assms existing_page_stored(1) by (fastforce simp: apply_page_mutation_def and_then_eq_Inr Let_def)
  obtain body s where s: "t' = fmupd path s t" "render_like k (updated_page p old body source at_day) = Inr s"
    and kept: "lost_source_backed_lines (env_unicode k) (page_body old) body = []"
      "source_attributions (env_unicode k) (page_body old) \<subseteq> source_attributions (env_unicode k) body"
    by (rule update_page_rewrites [OF update])
  have "page_body (updated_page p old body source at_day) = body" "source \<in> set (page_sources (updated_page p old body source at_day))"
    by (simp_all add: updated_page_def)
  then show ?thesis
    using existing_page_stored(2,3) [OF page] s kept updated_page_same no_line_lost [OF kept(1)] keeps_lines_in_order
    by metis
qed

theorem update_keeps_cited_lines_witness:
  "\<exists>t' old new s. stored_page sample_env sample_tree sample_place old \<and> t' = fmupd sample_place s sample_tree \<and>
     same_identity old new \<and> lit ''sources/x.md'' \<in> set (page_sources new)"
proof -
  obtain s where run: "apply_page_mutation sample_env (\<lambda>_. []) (job_context (sample_job None)) (lit ''sources/x.md'') 20260102
      sample_update sample_tree = Inr (sample_place, fmupd sample_place s sample_tree)"
    using sample_updated by blast
  have "mut_action sample_update = Update_Page"
    by (simp add: sample_update_def)
  from update_keeps_cited_lines [OF run this] show ?thesis
    by blast
qed

end
