(* ===== verification/Sweep.thy ===== *)
theory Sweep
  imports Filing Page_Names Lint_Safety
begin

text \<open>
  What is left to do after files were deleted, \<open>_sweep_deleted_references\<close> of
  \<open>stigmergy/knowledge/writer.py\<close>: links to the deleted pages become plain text, and the units,
  contradictions and declarations that cite a deleted source go. A page left with nothing is deleted in
  turn, so the sweep runs in rounds until a round deletes nothing.
\<close>

section \<open>One page\<close>

text \<open>\<open>Path(s).name\<close>: the last component.\<close>

definition path_name :: "pystr \<Rightarrow> pystr" where
  "path_name s = (case rev (filter (\<lambda>c. c \<noteq> [] \<and> c \<noteq> [46]) (split_on SLASH s)) of [] \<Rightarrow> [] | c # _ \<Rightarrow> c)"

definition unlinked_text :: "unicode \<Rightarrow> pystr list \<Rightarrow> pystr \<Rightarrow> found \<Rightarrow> pystr" where
  "unlinked_text u stems s m =
     (let (target, labelled, label) = partition_at 124 (captured_text 1 m); (name, _, _) = partition_at 35 target in
      if casefold u (path_name (without_suffix MD name)) \<notin> set stems then matched s m
      else if labelled then strip label else strip target)"

definition remove_wikilinks :: "unicode \<Rightarrow> pystr list \<Rightarrow> pystr \<Rightarrow> pystr" where
  "remove_wikilinks u stems s = re_sub WIKILINK (unlinked_text u stems s) s"

definition without_citing :: "pystr list \<Rightarrow> section_block \<Rightarrow> section_block" where
  "without_citing srcs x = x\<lparr>units := filter (\<lambda>n. kind_of n = Callout \<or> \<not> list_ex (\<lambda>s. contains s (text_of n)) srcs) (units x)\<rparr>"

definition remove_citing_units :: "unicode \<Rightarrow> pystr list \<Rightarrow> pystr \<Rightarrow> pystr" where
  "remove_citing_units u srcs body =
     (if \<not> list_ex (\<lambda>s. contains s body) srcs then body
      else let b = parse_body u PUBLIC body in
        strip (render_body u False (b\<lparr>sections := map (without_citing srcs) (sections b)\<rparr>)))"

definition has_units :: "unicode \<Rightarrow> pystr \<Rightarrow> bool" where
  "has_units u body \<longleftrightarrow> list_ex (\<lambda>x. units x \<noteq> []) (sections (parse_body u PUBLIC body))"

text \<open>The contradictions that claim from a deleted source, removed from the last to the first.\<close>

fun remove_each :: "codec \<Rightarrow> pystr list \<Rightarrow> pystr \<Rightarrow> pystr result" where
  "remove_each k [] body = Inr body"
| "remove_each k (i # is) body = and_then (remove_contradiction k body i) (\<lambda>(b, _). remove_each k is b)"

definition without_claims :: "codec \<Rightarrow> pystr list \<Rightarrow> pystr \<Rightarrow> pystr result" where
  "without_claims k srcs body =
     and_then (parse_contradictions k body) (\<lambda>found.
       remove_each k (map con_id (filter (\<lambda>r. list_ex (\<lambda>c. claim_source c \<in> set srcs) (con_claims r)) (rev (map loc_record found)))) body)"

definition swept_body :: "writer_env \<Rightarrow> pystr list \<Rightarrow> pystr list \<Rightarrow> pystr \<Rightarrow> pystr result" where
  "swept_body k stems srcs body =
     and_then (without_claims (env_codec k) srcs (remove_wikilinks (env_unicode k) stems body)) (\<lambda>b.
       Inr (remove_citing_units (env_unicode k) srcs b))"

record sweep =
  swept_tree :: tree
  swept_pending :: "pystr list"
  swept_reasons :: "(pystr, pystr) fmap"

definition drop_page :: "pystr \<Rightarrow> sweep \<Rightarrow> sweep" where
  "drop_page path st =
     st\<lparr>swept_tree := fmdrop path (swept_tree st), swept_pending := swept_pending st @ [path],
       swept_reasons := fmupd path (lit ''Removed knowledge whose every source was deleted'') (swept_reasons st)\<rparr>"

definition keep_page :: "writer_env \<Rightarrow> pystr \<Rightarrow> page \<Rightarrow> sweep \<Rightarrow> sweep result" where
  "keep_page k path p st =
     and_then (render_like k p) (\<lambda>s.
       Inr (st\<lparr>swept_tree := fmupd path s (swept_tree st),
         swept_reasons := fmupd path (lit ''Removed references to deleted knowledge'') (swept_reasons st)\<rparr>))"

definition sweep_page :: "writer_env \<Rightarrow> nat \<Rightarrow> pystr list \<Rightarrow> pystr list \<Rightarrow> pystr \<Rightarrow> pystr \<times> page \<times> pystr \<Rightarrow> sweep \<Rightarrow> sweep result" where
  "sweep_page k day stems srcs layer = (\<lambda>(vpath, p, _) st.
     and_then (swept_body k stems srcs (page_body p)) (\<lambda>body.
       let left = filter (\<lambda>s. s \<notin> set srcs) (page_sources p) in
       if body = page_body p \<and> left = page_sources p then Inr st
       else if \<not> has_units (env_unicode k) body then Inr (drop_page (layer_file layer vpath) st)
       else keep_page k (layer_file layer vpath) (p\<lparr>page_body := body, page_sources := left, page_updated := day\<rparr>) st))"

section \<open>Layers and rounds\<close>

definition gone_in :: "pystr \<Rightarrow> (pystr \<times> pystr) list \<Rightarrow> pystr list" where
  "gone_in layer gone = map snd (filter (\<lambda>(owner, _). owner \<in> {layer, PUBLIC}) gone)"

definition living_stems :: "writer_env \<Rightarrow> pystr \<Rightarrow> tree \<Rightarrow> pystr list result" where
  "living_stems k layer t =
     and_then (each (knowledge_pages (env_yaml k) (env_more k) t) (fromkeys [layer, PUBLIC])) (\<lambda>found.
       Inr (map (\<lambda>(vpath, _). casefold (env_unicode k) (stem_of vpath)) (concat found)))"

definition sweep_layer :: "writer_env \<Rightarrow> nat \<Rightarrow> bool \<Rightarrow> (pystr \<times> pystr) list \<Rightarrow> pystr \<Rightarrow> sweep \<Rightarrow> sweep result" where
  "sweep_layer k day layers_only gone layer st =
     (if layers_only \<and> layer = PUBLIC then Inr st
      else and_then (living_stems k layer (swept_tree st)) (\<lambda>living.
        let dead_stems = filter (\<lambda>s. s \<notin> set living) (map (casefold (env_unicode k) \<circ> stem_of) (gone_in layer gone));
            dead_sources = filter (starts_with (lit ''sources/'')) (gone_in layer gone) in
        and_then (knowledge_pages (env_yaml k) (env_more k) (swept_tree st) layer) (\<lambda>pages.
          each_in_turn (\<lambda>_. sweep_page k day dead_stems dead_sources layer) 0 pages st)))"

definition sweep_round :: "writer_env \<Rightarrow> nat \<Rightarrow> bool \<Rightarrow> sweep \<Rightarrow> sweep result" where
  "sweep_round k day layers_only st =
     and_then (each split_path (swept_pending st)) (\<lambda>gone.
       each_in_turn (\<lambda>_. sweep_layer k day layers_only gone) 0 (layer_names (swept_tree st)) (st\<lparr>swept_pending := []\<rparr>))"

section \<open>Every round but the last deletes a page\<close>

definition sweep_cost :: "sweep \<Rightarrow> nat" where
  "sweep_cost st = fcard (fmdom (swept_tree st)) + length (swept_pending st)"

text \<open>A page is swept at most once a round, at a path of the tree, so a round only shrinks the tree.\<close>

definition swept_place :: "bool \<Rightarrow> pystr \<Rightarrow> bool" where
  "swept_place layers_only path \<longleftrightarrow>
     (\<exists>layer vpath. path = layer_file layer vpath \<and> (layer = PUBLIC \<or> is_layer_name layer) \<and> (layers_only \<longrightarrow> layer \<noteq> PUBLIC) \<and>
        path_role vpath \<noteq> None)"

definition reported :: "bool \<Rightarrow> sweep \<Rightarrow> sweep \<Rightarrow> bool" where
  "reported layers_only st st' \<longleftrightarrow> fmdom (swept_reasons st) |\<subseteq>| fmdom (swept_reasons st') \<and>
     (\<forall>path. fmlookup (swept_tree st') path = fmlookup (swept_tree st) path \<or>
        path |\<in>| fmdom (swept_reasons st') \<and> swept_place layers_only path)"

definition shrinks :: "bool \<Rightarrow> sweep \<Rightarrow> sweep \<Rightarrow> bool" where
  "shrinks layers_only st st' \<longleftrightarrow>
     fmdom (swept_tree st') |\<subseteq>| fmdom (swept_tree st) \<and> sweep_cost st' \<le> sweep_cost st \<and> reported layers_only st st'"

lemma reported_trans: "reported layers_only st st' \<Longrightarrow> reported layers_only st' st'' \<Longrightarrow> reported layers_only st st''"
  unfolding reported_def by (elim conjE, intro conjI allI) (blast dest: fsubsetD, metis fsubsetD)

lemma shrinks_refl [simp]: "shrinks layers_only st st"
  by (simp add: shrinks_def reported_def)

lemma shrinks_trans: "shrinks layers_only st st' \<Longrightarrow> shrinks layers_only st' st'' \<Longrightarrow> shrinks layers_only st st''"
  using reported_trans by (auto simp: shrinks_def)

lemma layer_file_inject: "layer_file layer a = layer_file layer b \<longleftrightarrow> a = b"
  by (simp add: layer_file_def)

lemma distinct_page_paths: "distinct (page_paths t layer)"
  unfolding page_paths_def
  by (rule distinct_by_folder) (auto simp: inside_def distinct_map Let_def paths_of_def inj_on_def prefix_def)

lemma page_paths_in: "vpath \<in> set (page_paths t layer) \<Longrightarrow> layer_file layer vpath |\<in>| fmdom t"
  by (auto simp: page_paths_def inside_def paths_of_def layer_file_def prefix_def)

lemma knowledge_pages_paths: "knowledge_pages lib v t layer = Inr pages \<Longrightarrow> map fst pages = page_paths t layer"
proof -
  have "each f xs = Inr ys \<Longrightarrow> (\<And>x y. f x = Inr y \<Longrightarrow> fst y = x) \<Longrightarrow> map fst ys = xs" for f :: "pystr \<Rightarrow> (pystr \<times> page \<times> pystr) result" and xs ys
    by (induction xs arbitrary: ys) (auto simp: and_then_eq_Inr)
  then show "knowledge_pages lib v t layer = Inr pages \<Longrightarrow> map fst pages = page_paths t layer"
    unfolding knowledge_pages_def by (fastforce simp: and_then_eq_Inr Let_def)
qed

lemma drop_page_shrinks:
  assumes "path |\<in>| fmdom (swept_tree st)" and "swept_place layers_only path"
  shows "shrinks layers_only st (drop_page path st)"
  using fcard_Suc_fminus1 [OF assms(1)] assms(2) by (auto simp: shrinks_def reported_def drop_page_def sweep_cost_def)

lemma keep_page_dom:
  assumes "keep_page k path p st = Inr st'" and "path |\<in>| fmdom (swept_tree st)"
  shows "fmdom (swept_tree st') = fmdom (swept_tree st)" and "swept_pending st' = swept_pending st"
    and "swept_place layers_only path \<Longrightarrow> reported layers_only st st'"
  using assms by (auto simp: keep_page_def and_then_eq_Inr reported_def split: if_splits)

text \<open>What the sweep of one page does.\<close>

lemma sweep_page_cases:
  assumes "sweep_page k day stems srcs layer (vpath, p, s) st = Inr st'"
  obtains (same) "st' = st"
    | (dropped) "st' = drop_page (layer_file layer vpath) st"
    | (kept) body where "keep_page k (layer_file layer vpath)
        (p\<lparr>page_body := body, page_sources := filter (\<lambda>s. s \<notin> set srcs) (page_sources p), page_updated := day\<rparr>) st = Inr st'"
  using assms by (auto simp: sweep_page_def and_then_eq_Inr Let_def split: if_splits)

lemma sweep_page_shrinks:
  assumes "sweep_page k day stems srcs layer x st = Inr st'" and "layer_file layer (fst x) |\<in>| fmdom (swept_tree st)"
    and "swept_place layers_only (layer_file layer (fst x))"
  shows "shrinks layers_only st st' \<and> (\<forall>path. path |\<in>| fmdom (swept_tree st) \<and> path \<noteq> layer_file layer (fst x) \<longrightarrow> path |\<in>| fmdom (swept_tree st'))"
proof -
  obtain vpath p s where x: "x = (vpath, p, s)"
    by (cases x)
  from assms(1) [unfolded x] show ?thesis
  proof (cases rule: sweep_page_cases)
    case dropped
    then show ?thesis
      using drop_page_shrinks assms(2,3) by (auto simp: x drop_page_def)
  next
    case (kept body)
    then show ?thesis
      using keep_page_dom [OF kept] assms(2,3) by (simp add: x shrinks_def sweep_cost_def)
  qed simp
qed

lemma sweep_pages_shrink:
  assumes "each_in_turn (\<lambda>_. sweep_page k day stems srcs layer) i pages st = Inr st'" and "distinct (map fst pages)"
    and "\<forall>x \<in> set pages. layer_file layer (fst x) |\<in>| fmdom (swept_tree st)"
    and "\<forall>x \<in> set pages. swept_place layers_only (layer_file layer (fst x))"
  shows "shrinks layers_only st st'"
  using assms
proof (induction pages arbitrary: i st)
  case (Cons x pages)
  then obtain st1 where first: "sweep_page k day stems srcs layer x st = Inr st1"
    and rest: "each_in_turn (\<lambda>_. sweep_page k day stems srcs layer) (Suc i) pages st1 = Inr st'"
    by (auto simp: and_then_eq_Inr)
  have one: "shrinks layers_only st st1" "\<And>path. path |\<in>| fmdom (swept_tree st) \<Longrightarrow> path \<noteq> layer_file layer (fst x) \<Longrightarrow> path |\<in>| fmdom (swept_tree st1)"
    using sweep_page_shrinks [OF first, of layers_only] Cons.prems(3,4) by simp_all
  have "\<forall>y \<in> set pages. layer_file layer (fst y) |\<in>| fmdom (swept_tree st1)"
  proof
    fix y
    assume y: "y \<in> set pages"
    then have "fst y \<noteq> fst x"
      using Cons.prems(2) by (metis distinct.simps(2) image_eqI list.set_map list.simps(9))
    then show "layer_file layer (fst y) |\<in>| fmdom (swept_tree st1)"
      using one(2) Cons.prems(3) y by (simp add: layer_file_inject)
  qed
  then show ?case
    using Cons.IH [OF rest] Cons.prems(2,4) one(1) shrinks_trans by simp
qed simp

lemma knowledge_pages_places:
  assumes "knowledge_pages lib v t layer = Inr pages"
  shows "distinct (map fst pages)" and "\<forall>x \<in> set pages. layer_file layer (fst x) |\<in>| fmdom t"
proof -
  show "distinct (map fst pages)"
    unfolding knowledge_pages_paths [OF assms] by (rule distinct_page_paths)
  have "fst x \<in> set (page_paths t layer)" if "x \<in> set pages" for x
    using that unfolding knowledge_pages_paths [OF assms, symmetric] by simp
  then show "\<forall>x \<in> set pages. layer_file layer (fst x) |\<in>| fmdom t"
    using page_paths_in by blast
qed

lemma page_paths_role: "vpath \<in> set (page_paths t layer) \<Longrightarrow> path_role vpath \<noteq> None"
  using path_role_iff by (fastforce simp: page_paths_def)

lemma knowledge_pages_swept:
  assumes "knowledge_pages lib v t layer = Inr pages" and "layer = PUBLIC \<or> is_layer_name layer" and "layers_only \<longrightarrow> layer \<noteq> PUBLIC"
  shows "\<forall>x \<in> set pages. swept_place layers_only (layer_file layer (fst x))"
proof
  fix x
  assume "x \<in> set pages"
  then have "fst x \<in> set (page_paths t layer)"
    unfolding knowledge_pages_paths [OF assms(1), symmetric] by simp
  then have "path_role (fst x) \<noteq> None"
    by (rule page_paths_role)
  then show "swept_place layers_only (layer_file layer (fst x))"
    using assms(2,3) unfolding swept_place_def by (intro exI [of _ layer] exI [of _ "fst x"]) simp
qed

lemma sweep_layer_shrinks:
  assumes "sweep_layer k day layers_only gone layer st = Inr st'" and "layer = PUBLIC \<or> is_layer_name layer"
  shows "shrinks layers_only st st'"
proof (cases "layers_only \<and> layer = PUBLIC")
  case False
  then obtain pages stems srcs where pages: "knowledge_pages (env_yaml k) (env_more k) (swept_tree st) layer = Inr pages"
    and "each_in_turn (\<lambda>_. sweep_page k day stems srcs layer) 0 pages st = Inr st'"
    using assms(1) by (auto simp: sweep_layer_def and_then_eq_Inr Let_def split: if_splits)
  then show ?thesis
    using sweep_pages_shrink knowledge_pages_places [OF pages] knowledge_pages_swept [OF pages assms(2)] False by blast
qed (use assms(1) in \<open>simp add: sweep_layer_def\<close>)

lemma each_in_turn_shrinks:
  assumes "\<And>i x st st'. x \<in> set xs \<Longrightarrow> f i x st = Inr st' \<Longrightarrow> shrinks layers_only st st'"
  shows "each_in_turn f i xs st = Inr st' \<Longrightarrow> shrinks layers_only st st'"
  using assms
proof (induction xs arbitrary: i st)
  case (Cons x xs)
  then obtain st1 where "f i x st = Inr st1" and "each_in_turn f (Suc i) xs st1 = Inr st'"
    by (auto simp: and_then_eq_Inr)
  then show ?case
    using Cons.IH Cons.prems(2) shrinks_trans by (meson list.set_intros)
qed simp

lemma sweep_round_shrinks:
  assumes "sweep_round k day layers_only st = Inr st'"
  shows "shrinks layers_only (st\<lparr>swept_pending := []\<rparr>) st'"
proof -
  obtain gone where run: "each_in_turn (\<lambda>_. sweep_layer k day layers_only gone) 0 (layer_names (swept_tree st)) (st\<lparr>swept_pending := []\<rparr>) = Inr st'"
    using assms by (auto simp: sweep_round_def and_then_eq_Inr)
  have "layer = PUBLIC \<or> is_layer_name layer" if "layer \<in> set (layer_names (swept_tree st))" for layer
    using that by (auto simp: layer_names_def)
  then show ?thesis
    using each_in_turn_shrinks [OF _ run] sweep_layer_shrinks by blast
qed

lemma sweep_round_cost:
  assumes "sweep_round k day layers_only st = Inr st'"
  shows "fcard (fmdom (swept_tree st')) + length (swept_pending st') \<le> fcard (fmdom (swept_tree st))"
  using sweep_round_shrinks [OF assms] by (simp add: shrinks_def sweep_cost_def)

lemma sweep_round_less:
  assumes "sweep_round k day layers_only st = Inr st'" and "swept_pending st' \<noteq> []"
  shows "fcard (fmdom (swept_tree st')) < fcard (fmdom (swept_tree st))"
proof -
  have "0 < length (swept_pending st')"
    using assms(2) by simp
  then show ?thesis
    using sweep_round_cost [OF assms(1)] by linarith
qed

function sweep_rounds :: "writer_env \<Rightarrow> nat \<Rightarrow> bool \<Rightarrow> sweep \<Rightarrow> sweep result" where
  "sweep_rounds k day layers_only st =
     (if swept_pending st = [] then Inr st
      else case sweep_round k day layers_only st of
        Inl e \<Rightarrow> Inl e
      | Inr st' \<Rightarrow> sweep_rounds k day layers_only st')"
  by pat_completeness auto
termination
  by (relation "measure (\<lambda>(k, day, layers_only, st). 2 * fcard (fmdom (swept_tree st)) + (if swept_pending st = [] then 0 else 1))")
     (auto dest: sweep_round_cost sweep_round_less)

declare sweep_rounds.simps [simp del]

definition sweep_deleted_references :: "writer_env \<Rightarrow> nat \<Rightarrow> bool \<Rightarrow> pystr list \<Rightarrow> tree \<Rightarrow> ((pystr, pystr) fmap \<times> tree) result" where
  "sweep_deleted_references k day layers_only deleted t =
     and_then (sweep_rounds k day layers_only \<lparr>swept_tree = t, swept_pending = deleted, swept_reasons = fmempty\<rparr>) (\<lambda>st.
       Inr (fmfilter (\<lambda>path. path \<notin> set deleted) (swept_reasons st), swept_tree st))"

section \<open>The sweep ends\<close>

text \<open>The same loop with a bound on its rounds: \<open>None\<close> when the bound is reached before it ends.\<close>

fun sweep_within :: "nat \<Rightarrow> writer_env \<Rightarrow> nat \<Rightarrow> bool \<Rightarrow> sweep \<Rightarrow> sweep result option" where
  "sweep_within 0 k day layers_only st = (if swept_pending st = [] then Some (Inr st) else None)"
| "sweep_within (Suc n) k day layers_only st =
     (if swept_pending st = [] then Some (Inr st)
      else case sweep_round k day layers_only st of
        Inl e \<Rightarrow> Some (Inl e)
      | Inr st' \<Rightarrow> sweep_within n k day layers_only st')"

lemma sweep_within_enough:
  "fcard (fmdom (swept_tree st)) < n \<Longrightarrow> sweep_within n k day layers_only st = Some (sweep_rounds k day layers_only st)"
proof (induction n arbitrary: st)
  case (Suc n)
  show ?case
  proof (cases "swept_pending st = []")
    case True
    then show ?thesis
      by (simp add: sweep_rounds.simps)
  next
    case pending: False
    show ?thesis
    proof (cases "sweep_round k day layers_only st")
      case (Inl e)
      then show ?thesis
        using pending by (simp add: sweep_rounds.simps)
    next
      case (Inr st')
      have "sweep_within n k day layers_only st' = Some (sweep_rounds k day layers_only st')"
      proof (cases "swept_pending st' = []")
        case True
        then show ?thesis
          by (cases n) (simp_all add: sweep_rounds.simps)
      next
        case False
        then show ?thesis
          using sweep_round_less [OF Inr] Suc by simp
      qed
      then show ?thesis
        using pending Inr by (simp add: sweep_rounds.simps [of k day layers_only st])
    qed
  qed
qed simp

lemma sweep_rounds_reported:
  "sweep_rounds k day layers_only st = Inr st' \<Longrightarrow> fmdom (swept_tree st') |\<subseteq>| fmdom (swept_tree st) \<and> reported layers_only st st'"
proof (induction k day layers_only st rule: sweep_rounds.induct)
  case (1 k day layers_only st)
  show ?case
  proof (cases "swept_pending st = []")
    case True
    then show ?thesis
      using "1.prems" by (simp add: sweep_rounds.simps reported_def)
  next
    case False
    then obtain st1 where one: "sweep_round k day layers_only st = Inr st1" and rest: "sweep_rounds k day layers_only st1 = Inr st'"
      using "1.prems" by (subst (asm) sweep_rounds.simps) (auto split: sum.splits)
    have "fmdom (swept_tree st1) |\<subseteq>| fmdom (swept_tree st)" and "reported layers_only st st1"
      using sweep_round_shrinks [OF one] by (auto simp: shrinks_def reported_def)
    then show ?thesis
      using "1.IH" [OF False one rest] reported_trans by blast
  qed
qed

end
