(* ===== verification/Sweep_Safety.thy ===== *)
theory Sweep_Safety
  imports Sweep
begin

text \<open>
  The properties of the sweep after a deletion: it ends, after at most as many rounds as the tree has
  files, and changes only pages it reports.
\<close>

section \<open>A sample sweep\<close>

definition sample_citing :: pystr where
  "sample_citing = lit ''---'' @ [NL] @ lit ''x'' @ [NL] @ lit ''---'' @ [NL] @ lit ''B [[Z]]''"

definition sample_linked :: tree where
  "sample_linked = fmap_of_list [(sample_place, sample_citing)]"

definition sample_gone :: "pystr list" where
  "sample_gone = [lit ''wiki/notes/Z.md'']"

lemma sample_citing_split: "split_frontmatter_checked sample_yaml sample_citing = (sample_meta, lit ''B [[Z]]'', False)"
  by code_simp

lemma sample_citing_parsed:
  "parse_page sample_yaml ascii_more sample_place sample_citing = Inr (sample_page\<lparr>page_body := lit ''B [[Z]]''\<rparr>)"
  using sample_path sample_date unfolding parse_page_def sample_citing_split
  by (simp add: sample_meta_def sample_page_def role_of_def ROLES_def role_text_def page_statuses_def
    strings_or_none_def strings_def parse_entity_def date_field_def id_field_def sample_yaml_def blank_def
    strip_def lstrip_def rstrip_def is_space_def one_line_def)

lemma sample_linked_pages:
  "page_paths sample_linked PUBLIC = [sample_place]" "layer_names sample_linked = [PUBLIC]" "layer_file PUBLIC sample_place = sample_place"
  "each split_path sample_gone = Inr [(PUBLIC, lit ''wiki/notes/Z.md'')]" "fromkeys [PUBLIC, PUBLIC] = [PUBLIC]"
  by code_simp+

lemma sample_knowledge:
  "knowledge_pages (env_yaml sample_env) (env_more sample_env) sample_linked PUBLIC =
     Inr [(sample_place, sample_page\<lparr>page_body := lit ''B [[Z]]''\<rparr>, sample_citing)]"
proof -
  have "text_at sample_linked sample_place = sample_citing"
    by (simp add: text_at_def sample_linked_def)
  then show ?thesis
    by (simp add: knowledge_pages_def sample_linked_pages sample_env_def sample_citing_parsed Let_def del: lit_Cons lit_Nil)
qed

lemma sample_swept_body:
  "swept_body sample_env [lit ''z''] [] (lit ''B [[Z]]'') = Inr (lit ''B Z'')" "has_units (env_unicode sample_env) (lit ''B Z'')"
  "casefold (env_unicode sample_env) (stem_of (lit ''wiki/notes/Z.md'')) = lit ''z''"
  "casefold (env_unicode sample_env) (stem_of sample_place) = lit ''a''"
  by code_simp+

lemma sample_swept_rendered:
  "\<exists>s. render_like sample_env (sample_page\<lparr>page_body := lit ''B Z'', page_sources := [], page_updated := 20260103\<rparr>) = Inr s"
  using sample_path
  by (simp add: render_like_def render_page_def sample_page_def sample_env_def sample_yaml_def page_statuses_def
    entity_fields_def strip_def lstrip_def rstrip_def is_space_def one_line_def Let_def)

lemma sample_sweep:
  "\<exists>s. sweep_deleted_references sample_env 20260103 False sample_gone sample_linked =
     Inr (fmupd sample_place (lit ''Removed references to deleted knowledge'') fmempty, fmupd sample_place s sample_linked)"
proof -
  obtain s where s: "render_like sample_env (sample_page\<lparr>page_body := lit ''B Z'', page_sources := [], page_updated := 20260103\<rparr>) = Inr s"
    using sample_swept_rendered by blast
  let ?start = "\<lparr>swept_tree = sample_linked, swept_pending = sample_gone, swept_reasons = fmempty\<rparr>"
  let ?final = "\<lparr>swept_tree = fmupd sample_place s sample_linked, swept_pending = [],
    swept_reasons = fmupd sample_place (lit ''Removed references to deleted knowledge'') fmempty\<rparr>"
  have gone: "gone_in PUBLIC [(PUBLIC, lit ''wiki/notes/Z.md'')] = [lit ''wiki/notes/Z.md'']"
    and plain: "\<not> starts_with (lit ''sources/'') (lit ''wiki/notes/Z.md'')" and other: "lit ''z'' \<noteq> lit ''a''" "lit ''B Z'' \<noteq> lit ''B [[Z]]''"
    by (simp_all add: gone_in_def)
  have page: "page_sources sample_page = []" "page_body (sample_page\<lparr>page_body := lit ''B [[Z]]''\<rparr>) = lit ''B [[Z]]''"
    by (simp_all add: sample_page_def)
  have "sweep_round sample_env 20260103 False ?start = Inr ?final"
    by (simp add: sweep_round_def sample_linked_pages sweep_layer_def living_stems_def sample_knowledge gone plain other page
        sample_swept_body sweep_page_def keep_page_def s Let_def comp_def
        del: lit_Cons lit_Nil)
  moreover have "sample_gone \<noteq> []"
    by (simp add: sample_gone_def)
  ultimately have rounds: "sweep_rounds sample_env 20260103 False ?start = Inr ?final"
    by (simp add: sweep_rounds.simps [of _ _ _ ?start] sweep_rounds.simps [of _ _ _ ?final] del: lit_Cons lit_Nil)
  have kept: "fmfilter (\<lambda>path. path \<notin> set sample_gone) (fmupd sample_place r fmempty) = fmupd sample_place r fmempty" for r :: pystr
    by (intro fmap_ext) (auto simp: sample_gone_def sample_place_def)
  show ?thesis
    unfolding sweep_deleted_references_def rounds and_then_Inr sweep.simps kept by blast
qed

section \<open>Properties\<close>

text \<open>
  C34. The sweep after a deletion ends: a page it empties is deleted and swept for in the next round,
  and yet, whatever the pages say, it needs no more rounds than the tree has files and one.
\<close>

theorem sweep_ends:
  "sweep_within (Suc (fcard (fmdom t))) k day layers_only \<lparr>swept_tree = t, swept_pending = deleted, swept_reasons = fmempty\<rparr> =
     Some (sweep_rounds k day layers_only \<lparr>swept_tree = t, swept_pending = deleted, swept_reasons = fmempty\<rparr>)"
  by (rule sweep_within_enough) simp

text \<open>
  C35. The sweep after a deletion changes only pages, and reports each: it creates no file, every file it
  changes or deletes is a knowledge page of the public or a restricted layer which it reports, unless its
  deletion was asked for, and a sweep of the restricted layers changes no public page.
\<close>

theorem sweep_changes_only_reported_pages:
  assumes "sweep_deleted_references k day layers_only deleted t = Inr (reasons, t')"
  shows "fmdom t' |\<subseteq>| fmdom t \<and>
    (\<forall>path. fmlookup t' path = fmlookup t path \<or>
       (path |\<in>| fmdom reasons \<or> path \<in> set deleted) \<and> swept_place layers_only path)"
proof -
  obtain st where run: "sweep_rounds k day layers_only \<lparr>swept_tree = t, swept_pending = deleted, swept_reasons = fmempty\<rparr> = Inr st"
    and out: "reasons = fmfilter (\<lambda>path. path \<notin> set deleted) (swept_reasons st)" "t' = swept_tree st"
    using assms by (auto simp: sweep_deleted_references_def and_then_eq_Inr)
  show ?thesis
    using sweep_rounds_reported [OF run] unfolding out reported_def by auto
qed

theorem sweep_changes_only_reported_pages_witness:
  "\<exists>reasons t'. sweep_deleted_references sample_env 20260103 False sample_gone sample_linked = Inr (reasons, t') \<and>
     sample_place |\<in>| fmdom reasons \<and> fmdom t' |\<subseteq>| fmdom sample_linked"
proof -
  obtain s where swept: "sweep_deleted_references sample_env 20260103 False sample_gone sample_linked =
     Inr (fmupd sample_place (lit ''Removed references to deleted knowledge'') fmempty, fmupd sample_place s sample_linked)"
    using sample_sweep by blast
  have "fmdom (fmupd sample_place s sample_linked) |\<subseteq>| fmdom sample_linked"
    using sweep_changes_only_reported_pages [OF swept] by blast
  then show ?thesis
    using swept by auto
qed

end
