(* ===== verification/Write_Gates.thy ===== *)
theory Write_Gates
  imports Sweep
begin

text \<open>
  The gates a write passes between its tree and its commit, in \<open>stigmergy/knowledge/writer.py\<close>, and the
  diff they judge, in \<open>stigmergy/librarian/gitcmd.py\<close>: what a capture, a deletion, an entity operation
  or the gardener may have changed, which repairs are authorised, and what a recompilation must keep.
\<close>

definition gate_refused :: "string \<Rightarrow> 'a result" where
  "gate_refused m = Inl (GateRefused (lit m))"

text \<open>\<open>except WriteRefused as error: raise GateRefused(m) from error\<close>, and for other exceptions.\<close>

definition recast_gate :: "(exn \<Rightarrow> bool) \<Rightarrow> string \<Rightarrow> 'a result \<Rightarrow> 'a result" where
  "recast_gate caught m r = (case r of Inl e \<Rightarrow> if caught e then gate_refused m else Inl e | Inr x \<Rightarrow> Inr x)"

lemma recast_gate_eq_Inr [simp]: "recast_gate caught m r = Inr x \<longleftrightarrow> r = Inr x"
  by (simp add: recast_gate_def gate_refused_def split: sum.splits)

section \<open>The diff of a worktree\<close>

record diff_entry =
  de_status :: pystr
  de_path :: pystr
  de_old_mode :: pystr
  de_new_mode :: pystr
  de_blob :: pystr

definition REGULAR_FILE_MODE :: pystr where "REGULAR_FILE_MODE = lit ''100644''"
definition ABSENT_MODE :: pystr where "ABSENT_MODE = lit ''000000''"

definition is_regular_file :: "diff_entry \<Rightarrow> bool" where
  "is_regular_file e \<longleftrightarrow> de_new_mode e \<in> {REGULAR_FILE_MODE, ABSENT_MODE, []}"

text \<open>The entries of \<open>git diff --raw -z\<close>, \<open>hashed\<close> being \<open>git hash-object\<close> of a file present now.\<close>

definition raw_entry :: "(pystr \<Rightarrow> pystr option) \<Rightarrow> pystr \<Rightarrow> pystr \<Rightarrow> diff_entry option" where
  "raw_entry hashed meta path =
     (let parts = split_ws (drop 1 meta) in
      if \<not> starts_with (lit '':'') meta \<or> path = [] \<or> length parts < 5 then None
      else Some \<lparr>de_status = take 1 (strip (parts ! 4)), de_path = path, de_old_mode = parts ! 0, de_new_mode = parts ! 1,
        de_blob = text_of_option (hashed path)\<rparr>)"

fun raw_entries :: "(pystr \<Rightarrow> pystr option) \<Rightarrow> pystr list \<Rightarrow> diff_entry list" where
  "raw_entries hashed (meta # path # rest) =
     (case raw_entry hashed meta path of None \<Rightarrow> raw_entries hashed rest | Some e \<Rightarrow> e # raw_entries hashed rest)"
| "raw_entries hashed rest = []"

definition diff_entries :: "(pystr \<Rightarrow> pystr option) \<Rightarrow> pystr \<Rightarrow> diff_entry list" where
  "diff_entries hashed out = raw_entries hashed (split_on 0 out)"

text \<open>The diff of a worktree of regular files against the tree it was made from.\<close>

definition change_of_file :: "(pystr \<Rightarrow> pystr) \<Rightarrow> tree \<Rightarrow> tree \<Rightarrow> pystr \<Rightarrow> diff_entry" where
  "change_of_file hash base t path =
     \<lparr>de_status = (if path |\<notin>| fmdom base then lit ''A'' else if path |\<notin>| fmdom t then lit ''D'' else lit ''M''), de_path = path,
      de_old_mode = (if path |\<in>| fmdom base then REGULAR_FILE_MODE else ABSENT_MODE),
      de_new_mode = (if path |\<in>| fmdom t then REGULAR_FILE_MODE else ABSENT_MODE),
      de_blob = (case fmlookup t path of None \<Rightarrow> [] | Some s \<Rightarrow> hash s)\<rparr>"

definition changes_between :: "(pystr \<Rightarrow> pystr) \<Rightarrow> tree \<Rightarrow> tree \<Rightarrow> diff_entry list" where
  "changes_between hash base t =
     map (change_of_file hash base t) (filter (\<lambda>p. fmlookup base p \<noteq> fmlookup t p) (paths_of (base ++\<^sub>f t)))"

text \<open>The commit of exactly what was gated: the paths with their contents, no more and no less.\<close>

definition entry_blobs :: "diff_entry list \<Rightarrow> pystr \<rightharpoonup> pystr" where
  "entry_blobs es = map_of (rev (map (\<lambda>e. (de_path e, de_blob e)) es))"

definition commit_matches_gate :: "diff_entry list \<Rightarrow> diff_entry list \<Rightarrow> bool" where
  "commit_matches_gate gated actual \<longleftrightarrow>
     list_all (\<lambda>p. entry_blobs gated p = entry_blobs actual p) (map de_path gated @ map de_path actual)"

section \<open>What a write may change\<close>

datatype trigger = Capture_Write | Resolution_Write | Delete_Write | Entity_Write | Garden_Write

definition is_source_path :: "pystr \<Rightarrow> bool" where
  "is_source_path vpath \<longleftrightarrow> starts_with (lit ''sources/'') vpath"

definition gate_source :: "trigger \<Rightarrow> pystr \<Rightarrow> pystr list \<Rightarrow> diff_entry \<Rightarrow> unit result" where
  "gate_source why expected deleted e =
     (case why of
        Capture_Write \<Rightarrow>
          if de_path e \<noteq> expected \<or> de_status e \<noteq> lit ''A'' then gate_refused ''capture attempted to mutate an existing source'' else Inr ()
      | Resolution_Write \<Rightarrow>
          if de_path e \<noteq> expected \<or> de_status e \<noteq> lit ''A'' then gate_refused ''capture attempted to mutate an existing source'' else Inr ()
      | Delete_Write \<Rightarrow>
          if de_path e \<notin> set deleted \<or> de_status e \<noteq> lit ''D'' then gate_refused ''delete attempted an undeclared source mutation'' else Inr ()
      | _ \<Rightarrow> gate_refused ''maintenance attempted to mutate a source'')"

definition gate_entry :: "trigger \<Rightarrow> pystr \<Rightarrow> pystr list \<Rightarrow> pystr option \<Rightarrow> pystr list \<Rightarrow> diff_entry \<Rightarrow> unit result" where
  "gate_entry why expected deleted layer swept e =
     (if \<not> is_regular_file e then gate_refused ''writer changed a non-regular file''
      else case split_path (de_path e) of
        Inl (LayerError _) \<Rightarrow> gate_refused ''writer changed a path outside the knowledge contract''
      | Inl x \<Rightarrow> Inl x
      | Inr (owner, vpath) \<Rightarrow>
          if path_role vpath = None \<and> \<not> is_source_path vpath
          then gate_refused ''writer changed a path outside the knowledge contract''
          else if (case layer of None \<Rightarrow> False
                 | Some l \<Rightarrow> owner \<noteq> l \<and> \<not> (de_path e \<in> set swept \<and> de_status e = lit ''M''))
          then gate_refused ''writer changed a path outside the capture's layer''
          else if is_source_path vpath then gate_source why expected deleted e else Inr ())"

definition gate_diff :: "trigger \<Rightarrow> pystr \<Rightarrow> pystr list \<Rightarrow> pystr option \<Rightarrow> pystr list \<Rightarrow> diff_entry list \<Rightarrow> unit result" where
  "gate_diff why expected deleted layer swept es =
     (if es = [] then gate_refused ''writer produced no change''
      else and_then (each (gate_entry why expected deleted layer swept) es) (\<lambda>_. Inr ()))"

text \<open>Gardening keeps the audience of every page it changes; \<open>shown\<close> is \<open>git show\<close> at the base.\<close>

definition gate_garden_entry :: "writer_env \<Rightarrow> (pystr \<Rightarrow> pystr result) \<Rightarrow> tree \<Rightarrow> diff_entry \<Rightarrow> unit result" where
  "gate_garden_entry k shown t e =
     and_then (virtual_path (de_path e)) (\<lambda>vpath.
       if de_status e \<noteq> lit ''M'' \<or> path_role vpath = None then Inr ()
       else and_then (shown (de_path e)) (\<lambda>old_text.
         and_then (parse_page (env_yaml k) (env_more k) vpath old_text) (\<lambda>old.
         and_then (parse_page (env_yaml k) (env_more k) vpath (text_at t (de_path e))) (\<lambda>new.
           if page_acl old \<noteq> page_acl new then gate_refused ''gardening cannot change page visibility'' else Inr ()))))"

definition gate_garden_acl :: "writer_env \<Rightarrow> (pystr \<Rightarrow> pystr result) \<Rightarrow> tree \<Rightarrow> diff_entry list \<Rightarrow> unit result" where
  "gate_garden_acl k shown t es = and_then (each (gate_garden_entry k shown t) es) (\<lambda>_. Inr ())"

section \<open>Violations a write introduces\<close>

definition CROSS_LAYER_CODES :: "pystr list" where
  "CROSS_LAYER_CODES = [lit ''alias-collision'', lit ''ambiguous-link'']"

definition introduced :: "violation list \<Rightarrow> violation list \<Rightarrow> violation list" where
  "introduced found baseline = filter (\<lambda>x. x \<notin> set baseline) found"

text \<open>What a view may carry without blocking a write, and what blocks it.\<close>

definition violation_code :: "violation \<Rightarrow> pystr" where
  "violation_code = (\<lambda>(_, code, _). code)"

definition view_baseline :: "writer_env \<Rightarrow> pystr \<Rightarrow> tree \<Rightarrow> (violation list \<times> violation list) result" where
  "view_baseline k layer t =
     and_then (check_corpus k [] t) (\<lambda>found.
       let tolerated = filter (\<lambda>x. layer \<noteq> PUBLIC \<and> violation_code x \<in> set CROSS_LAYER_CODES) found in
       Inr (tolerated, filter (\<lambda>x. x \<notin> set tolerated) found))"

definition violation_summary :: "violation list \<Rightarrow> pystr" where
  "violation_summary vs =
     lit ''knowledge gates found '' @ join (lit ''; '') (map (\<lambda>(path, code, _). path @ lit '': '' @ code) (take 8 vs)) @
     (if 8 < length vs then lit ''; '' @ str_nat (length vs - 8) @ lit '' more'' else [])"

section \<open>Summaries and budgets\<close>

definition TRAILER_RE :: "unicode \<Rightarrow> regex" where
  "TRAILER_RE u = seq [Behind False (is_word u),
     Group 1 (alt (map (\<lambda>w. seq (map any_case (lit w))) [''stigmergy-operation'', ''stigmergy-trigger'', ''submitted-by'', ''co-authored-by''])),
     Star True (Sat is_space), chr 58]"

definition safe_summary :: "unicode \<Rightarrow> pystr \<Rightarrow> pystr" where
  "safe_summary u s =
     (let shown = take 500 (re_sub (TRAILER_RE u) (\<lambda>_. []) (one_line s)) in
      if shown = [] then lit ''Updated team knowledge'' else shown)"

text \<open>What is left of a capture's budget, in seconds; \<open>read_moment\<close> is \<open>datetime.fromisoformat\<close>.\<close>

definition remaining_operation_budget_s :: "(pystr \<Rightarrow> moment option) \<Rightarrow> pystr option \<Rightarrow> timestamp \<Rightarrow> int result" where
  "remaining_operation_budget_s read_moment raw clock =
     (if \<not> given raw then Inl (WriterDeadline (lit ''capture budget has no persisted deadline''))
      else case read_moment (text_of_option raw) of
        None \<Rightarrow> Inl (WriterDeadline (lit ''capture budget has an invalid persisted deadline''))
      | Some Naive \<Rightarrow> Inl (WriterDeadline (lit ''capture budget deadline has no timezone''))
      | Some (Aware limit) \<Rightarrow> Inr (max 0 (limit - clock)))"

section \<open>Repairs\<close>

text \<open>The bodies of the violated pages a capture may repair, each authorised before any is read.\<close>

definition authorize_repair :: "writer_env \<Rightarrow> write_context \<Rightarrow> tree \<Rightarrow> pystr \<Rightarrow> unit result" where
  "authorize_repair k context saved path =
     (if path |\<in>| fmdom saved
      then and_then (read_page k saved path) (\<lambda>p.
        recast_gate is_refusal ''repair target is outside the capture audience'' (allow_existing context (page_acl p)))
      else recast_gate is_refusal ''repair target is outside the capture audience'' (allow_create context (content_acl context)))"

definition MAX_REPAIR_BYTES :: nat where "MAX_REPAIR_BYTES = 100000"

definition capture_repair_file :: "writer_env \<Rightarrow> tree \<Rightarrow> pystr \<Rightarrow> (pystr \<times> pystr) result" where
  "capture_repair_file k t path =
     and_then (writer_path path) (\<lambda>target.
       if target |\<notin>| fmdom t then gate_refused ''repair target is missing''
       else let contents = text_at t target in
         if MAX_REPAIR_BYTES < utf8_size contents then gate_refused ''repair target exceeds its byte limit''
         else and_then (recast_gate is_page_error ''repair target has no preservable page metadata''
             (parse_page (env_yaml k) (env_more k) path contents)) (\<lambda>p. Inr (path, page_body p)))"

definition capture_repair_files :: "writer_env \<Rightarrow> violation list \<Rightarrow> pystr list \<Rightarrow> tree \<Rightarrow> write_context \<Rightarrow> tree \<Rightarrow> (pystr \<times> pystr) list result" where
  "capture_repair_files k found editorial saved context t =
     (let places = sorted_set (map fst found) in
      if places = [] \<or> \<not> set places \<subseteq> set editorial
      then gate_refused ''repair includes a path outside this capture's visible graph changes''
      else if list_ex (\<lambda>p. path_role p = None) places then gate_refused ''repair may only target capture knowledge pages''
      else and_then (each (authorize_repair k context saved) places) (\<lambda>_. each (capture_repair_file k t) places))"

text \<open>The pages the gardener may repair, with the sources each already declares.\<close>

definition garden_repair_file :: "writer_env \<Rightarrow> tree \<Rightarrow> pystr \<Rightarrow> (pystr \<times> pystr \<times> pystr list) result" where
  "garden_repair_file k t path =
     and_then (writer_path path) (\<lambda>target.
       if target |\<notin>| fmdom t then gate_refused ''garden repair targeted a missing path''
       else and_then (recast_gate is_page_error ''garden repair target has no preservable page metadata''
           (parse_page (env_yaml k) (env_more k) path (text_at t target))) (\<lambda>p. Inr (path, page_body p, sort (page_sources p))))"

definition garden_repair_files :: "writer_env \<Rightarrow> tree \<Rightarrow> violation list \<Rightarrow> (pystr \<times> pystr \<times> pystr list) list result" where
  "garden_repair_files k t found =
     (let places = sorted_set (map fst found) in
      if places = [] \<or> list_ex (\<lambda>p. path_role p = None) places
      then gate_refused ''garden repair may only target violated knowledge pages''
      else each (garden_repair_file k t) places)"

text \<open>One repair: it changes the body of a violated page whose text is the one that was authorised.\<close>

definition apply_repair :: "writer_env \<Rightarrow> pystr list \<Rightarrow> (pystr \<times> pystr) list option \<Rightarrow> write_context option \<Rightarrow> pystr list \<Rightarrow> repair \<Rightarrow> tree \<Rightarrow> tree result" where
  "apply_repair k allowed authorized ctx existing_paths r t =
     (let path = repair_path r in
      if path \<notin> set allowed then gate_refused ''model repair targeted a path outside its violations''
      else if (case authorized of None \<Rightarrow> False | Some files \<Rightarrow> path \<notin> fst ` set files)
      then gate_refused ''model repair targeted a path outside this capture's authorization''
      else and_then (writer_path path) (\<lambda>target.
        if target |\<notin>| fmdom t then gate_refused ''model repair targeted a missing path''
        else and_then (recast_gate is_page_error ''repair target has no preservable page metadata''
            (parse_page (env_yaml k) (env_more k) path (text_at t target))) (\<lambda>old.
          and_then (case authorized of
              None \<Rightarrow> Inr ()
            | Some files \<Rightarrow>
                if map_of files path \<noteq> Some (page_body old) then gate_refused ''repair target changed after authorization''
                else (case ctx of
                    None \<Rightarrow> gate_refused ''capture repair is missing its authorization context''
                  | Some c \<Rightarrow> recast_gate is_refusal ''model repair is outside the capture audience''
                      (if path \<in> set existing_paths then allow_existing c (page_acl old) else allow_create c (page_acl old)))) (\<lambda>_.
          and_then (render_like k (old\<lparr>page_body := repair_body r\<rparr>)) (\<lambda>contents. Inr (fmupd target contents t))))))"

definition apply_repair_plan :: "writer_env \<Rightarrow> violation list \<Rightarrow> repair_plan \<Rightarrow> (pystr \<times> pystr) list option \<Rightarrow> write_context option \<Rightarrow> pystr list
    \<Rightarrow> tree \<Rightarrow> ((pystr, pystr) fmap \<times> tree) result" where
  "apply_repair_plan k found pl authorized ctx existing_paths t =
     (let allowed = filter (\<lambda>p. path_role p \<noteq> None) (map fst found) in
      and_then (each_in_turn (\<lambda>_ r (reasons, t'). and_then (apply_repair k allowed authorized ctx existing_paths r t') (\<lambda>t''.
          Inr (fmupd (repair_path r) (repair_reason r) reasons, t''))) 0 (repair_mutations pl) (fmempty, t)) Inr)"

section \<open>Recompilation\<close>

text \<open>The pages a source backs, which its compilation must dispose of one by one.\<close>

fun recompile_prior_pages :: "(pystr \<times> page) list \<Rightarrow> pystr \<Rightarrow> write_context \<Rightarrow> (pystr \<times> page) list result" where
  "recompile_prior_pages [] source ctx = Inr []"
| "recompile_prior_pages ((path, p) # ps) source ctx =
     (if source \<notin> set (page_sources p) then recompile_prior_pages ps source ctx
      else and_then (recast_gate is_refusal ''recompile prior page is outside its backing source audience'' (allow_existing ctx (page_acl p))) (\<lambda>_.
        and_then (recompile_prior_pages ps source ctx) (\<lambda>rest. Inr ((path, p) # rest))))"

definition retained_path :: "writer_env \<Rightarrow> mutation \<Rightarrow> pystr list result" where
  "retained_path k p =
     (case mut_action p of
        Create_Page \<Rightarrow>
          (case mut_role p of
             None \<Rightarrow> contract_error ''knowledge role must be note, concept, entity, or project''
           | Some r \<Rightarrow> and_then (page_path (env_more k) r (text_of_option (mut_title p))) (\<lambda>path. Inr [path]))
      | Update_Page \<Rightarrow> Inr [text_of_option (mut_path p)]
      | Delete_Page \<Rightarrow> Inr [])"

definition no_open_contradiction :: "writer_env \<Rightarrow> (pystr \<times> page) list \<Rightarrow> pystr \<Rightarrow> unit result" where
  "no_open_contradiction k prior path =
     (case map_of prior path of
        None \<Rightarrow> Inr ()
      | Some p \<Rightarrow> and_then (recast_gate is_contradiction_error ''recompile prior-page contradiction data is invalid''
            (parse_contradictions (env_codec k) (page_body p))) (\<lambda>found.
          if found \<noteq> [] then gate_refused ''recompile cannot tombstone a page with unresolved contradictions'' else Inr ()))"

definition prepare_recompile_plan :: "writer_env \<Rightarrow> (pystr \<times> page) list \<Rightarrow> plan \<Rightarrow> (plan \<times> pystr list) result" where
  "prepare_recompile_plan k prior pl =
     (let tombstones = map (text_of_option \<circ> mut_path) (filter (\<lambda>p. mut_action p = Delete_Page) (plan_mutations pl)) in
      if \<not> distinct tombstones then gate_refused ''recompile plan repeats a prior-page tombstone''
      else if \<not> set tombstones \<subseteq> fst ` set prior then gate_refused ''recompile plan tombstones a page not backed by this source''
      else and_then (recast_gate is_page_error ''recompile plan has an invalid page target'' (each (retained_path k) (plan_mutations pl))) (\<lambda>found.
        let retained = concat found in
        if set tombstones \<inter> set retained \<noteq> {} then gate_refused ''recompile plan cannot tombstone and recreate the same page''
        else and_then (each (no_open_contradiction k prior) tombstones) (\<lambda>_.
          if \<not> fst ` set prior \<subseteq> set retained \<union> set tombstones
          then gate_refused ''recompile plan omitted prior derived knowledge without an explicit tombstone''
          else Inr (pl\<lparr>plan_mutations := filter (\<lambda>p. mut_action p \<noteq> Delete_Page) (plan_mutations pl)\<rparr>, tombstones))))"

text \<open>How many prior pages vanished, each with a tombstone from every source that backed it.\<close>

fun gate_recompile_disappearance :: "(pystr \<times> page) list \<Rightarrow> pystr list \<Rightarrow> (pystr \<Rightarrow> pystr list) \<Rightarrow> nat result" where
  "gate_recompile_disappearance [] final stones = Inr 0"
| "gate_recompile_disappearance ((path, p) # ps) final stones =
     (if path \<in> set final then gate_recompile_disappearance ps final stones
      else if page_sources p = [] \<or> set (stones path) \<noteq> set (page_sources p)
      then gate_refused ''recompile cannot remove a page without every backing source's authorization''
      else and_then (gate_recompile_disappearance ps final stones) (\<lambda>n. Inr (Suc n)))"

definition derived_paths :: "tree \<Rightarrow> pystr list" where
  "derived_paths t = filter (\<lambda>p. path_role p \<noteq> None) (paths_of t)"

definition clear_derived_pages :: "pystr list \<Rightarrow> tree \<Rightarrow> tree" where
  "clear_derived_pages keep t = fmfilter (\<lambda>p. path_role p = None \<or> p \<in> set keep) t"

text \<open>The aliases an entity had and that nothing else claims now, added to the rebuilt page.\<close>

definition keep_alias :: "unicode_more \<Rightarrow> (pystr \<times> page) list \<Rightarrow> pystr \<Rightarrow> pystr \<Rightarrow> pystr list \<times> pystr set \<Rightarrow> pystr list \<times> pystr set" where
  "keep_alias v known path a = (\<lambda>(kept, keys).
     let key = resolution_key v a in
     if key \<noteq> [] \<and> key \<notin> keys \<and> set (claimants v known key) \<subseteq> {path} then (kept @ [a], insert key keys) else (kept, keys))"

definition with_prior_identity :: "unicode_more \<Rightarrow> (pystr \<times> page) list \<Rightarrow> pystr \<Rightarrow> page \<Rightarrow> page \<Rightarrow> page" where
  "with_prior_identity v known path old new =
     new\<lparr>page_id := page_id old, page_created := page_created old,
       page_aliases := fst (fold (keep_alias v known path) (if page_role new = Entity_Page then page_aliases old else [])
         (page_aliases new, set (name_keys v new)))\<rparr>"

definition restore_identity :: "writer_env \<Rightarrow> (pystr \<times> page) list \<Rightarrow> tree \<Rightarrow> nat \<Rightarrow> pystr \<Rightarrow> tree \<Rightarrow> tree result" where
  "restore_identity k known previous i path t =
     and_then (read_page k previous path) (\<lambda>old.
     and_then (read_page k t path) (\<lambda>new.
       if page_role old \<noteq> page_role new \<or> page_title old \<noteq> page_title new then Inr t
       else and_then (render_like k (with_prior_identity (env_more k) known path old new)) (\<lambda>contents. Inr (fmupd path contents t))))"

definition restore_recompiled_page_identity :: "writer_env \<Rightarrow> tree \<Rightarrow> tree \<Rightarrow> tree result" where
  "restore_recompiled_page_identity k previous t =
     and_then (entity_pages k t) (\<lambda>known.
       each_in_turn (restore_identity k known previous) 0 (filter (\<lambda>p. p |\<in>| fmdom previous) (derived_paths t)) t)"

end
