(* ===== verification/Aliases.thy ===== *)
theory Aliases
  imports Write_Gates
begin

text \<open>
  The other names an entity is linked by, \<open>stigmergy/knowledge/aliases.py\<close>: the variants a plan's links
  show, which of them may be asked about, and the record of those the classifier accepts. The classifier
  is a parameter, \<open>asked i\<close> its answer to the \<open>i\<close>-th question or its failure, and \<open>elapsed i\<close> the
  seconds gone before it.
\<close>

definition ALIAS_THRESHOLD :: rat where "ALIAS_THRESHOLD = 3 / 4"
definition MAX_CANDIDATES :: nat where "MAX_CANDIDATES = 8"
definition SENTENCE_SIDE_CHARS :: nat where "SENTENCE_SIDE_CHARS = 150"

record candidate =
  cand_entity :: pystr
  cand_text :: pystr
  cand_sentence :: pystr

section \<open>Links of a text\<close>

record shown_link =
  sl_name :: pystr
  sl_shown :: pystr
  sl_offset :: nat
  sl_line :: pystr

definition shown_link_of :: "pystr \<Rightarrow> found \<Rightarrow> shown_link" where
  "shown_link_of line m =
     (let (target, labelled, label) = partition_at 124 (captured_text 1 m); (name, _, _) = partition_at 35 target;
          plain = without_suffix MD (strip name) in
      \<lparr>sl_name = plain, sl_shown = (if labelled then strip label else plain), sl_offset = from_pos m, sl_line = line\<rparr>)"

definition shown_links :: "pystr \<Rightarrow> shown_link list" where
  "shown_links s = concat (map (\<lambda>line. map (shown_link_of line) (finditer WIKILINK line)) (splitlines (strip_code s)))"

definition shown_text :: "pystr \<Rightarrow> found \<Rightarrow> pystr" where
  "shown_text s m = (let (target, labelled, label) = partition_at 124 (captured_text 1 m) in if labelled then label else target)"

definition sentence_around :: "shown_link \<Rightarrow> pystr" where
  "sentence_around l =
     (let window = slice (sl_line l) (sl_offset l - SENTENCE_SIDE_CHARS) (sl_offset l + 2 * SENTENCE_SIDE_CHARS) in
      one_line (re_sub WIKILINK (shown_text window) window))"

section \<open>Candidates\<close>

text \<open>The entity pages that parse; the others are passed over.\<close>

definition readable_entities :: "writer_env \<Rightarrow> tree \<Rightarrow> (pystr \<times> page) list" where
  "readable_entities k t =
     List.map_filter (\<lambda>p. case read_page k t p of Inl _ \<Rightarrow> None | Inr x \<Rightarrow> Some (p, x)) (filter (\<lambda>p. in_folder p Entity_Page) (paths_of t))"

definition link_key :: "writer_env \<Rightarrow> shown_link \<Rightarrow> pystr \<times> pystr" where
  "link_key k l = (casefold (env_unicode k) (sl_name l), sl_shown l)"

text \<open>The links a text has beyond those it had, counting repetitions.\<close>

fun links_beyond :: "writer_env \<Rightarrow> (pystr \<times> pystr) list \<Rightarrow> shown_link list \<Rightarrow> shown_link list" where
  "links_beyond k had [] = []"
| "links_beyond k had (l # ls) =
     (if link_key k l \<in> set had then links_beyond k (remove1 (link_key k l) had) ls else l # links_beyond k had ls)"

text \<open>The links a plan added to a page; none where either text does not parse.\<close>

definition added_links :: "writer_env \<Rightarrow> tree \<Rightarrow> pystr \<times> pystr option \<Rightarrow> shown_link list" where
  "added_links k t = (\<lambda>(path, earlier).
     if path |\<notin>| fmdom t then []
     else case read_page k t path of
       Inl _ \<Rightarrow> []
     | Inr p \<Rightarrow>
         (case if given earlier then and_then (parse_page (env_yaml k) (env_more k) path (text_of_option earlier)) (\<lambda>q. Inr (page_body q)) else Inr [] of
            Inl _ \<Rightarrow> []
          | Inr old \<Rightarrow> links_beyond k (map (link_key k) (shown_links old)) (shown_links (page_body p))))"

definition entity_by_stem :: "writer_env \<Rightarrow> (pystr \<times> page) list \<Rightarrow> pystr \<rightharpoonup> pystr" where
  "entity_by_stem k known = map_of (rev (map (\<lambda>(path, _). (casefold (env_unicode k) (stem_of path), path)) known))"

definition candidate_of :: "writer_env \<Rightarrow> (pystr \<times> page) list \<Rightarrow> shown_link \<Rightarrow> candidate option" where
  "candidate_of k known l =
     map_option (\<lambda>target. \<lparr>cand_entity = target, cand_text = sl_shown l, cand_sentence = sentence_around l\<rparr>)
       (entity_by_stem k known (casefold (env_unicode k) (title_stem (env_more k) (sl_name l))))"

definition words_of :: "pystr \<Rightarrow> pystr set" where
  "words_of s = set (split_ws s)"

text \<open>Whether the words of a name all occur in one name of another entity.\<close>

definition inside_other_name :: "writer_env \<Rightarrow> (pystr \<times> page) list \<Rightarrow> pystr \<Rightarrow> pystr \<Rightarrow> bool" where
  "inside_other_name k known target key \<longleftrightarrow>
     list_ex (\<lambda>(path, p). path \<noteq> target \<and> list_ex (\<lambda>name. words_of key \<subseteq> words_of name) (name_keys (env_more k) p)) known"

definition may_be_alias :: "writer_env \<Rightarrow> (pystr \<rightharpoonup> pystr option) \<Rightarrow> (pystr \<Rightarrow> bool) \<Rightarrow> (pystr \<times> page) list \<Rightarrow> candidate list \<Rightarrow> candidate \<Rightarrow> bool" where
  "may_be_alias k link_names nameable known added c \<longleftrightarrow>
     (let v = env_more k; key = resolution_key v (cand_text c) in
      list_ex (is_alnum v) key \<and>
      (case map_of known (cand_entity c) of None \<Rightarrow> False | Some p \<Rightarrow> key \<notin> set (name_keys v p)) \<and>
      link_names (casefold (env_unicode k) (title_stem v (cand_text c))) = None \<and>
      list_all (\<lambda>d. resolution_key v (cand_text d) = key \<longrightarrow> cand_entity d = cand_entity c) added \<and>
      nameable (cand_entity c) \<and> \<not> inside_other_name k known (cand_entity c) key)"

text \<open>The first candidate of each entity and name.\<close>

fun first_candidates :: "unicode_more \<Rightarrow> (pystr \<times> pystr) list \<Rightarrow> candidate list \<Rightarrow> candidate list" where
  "first_candidates v found [] = []"
| "first_candidates v found (c # cs) =
     (let key = (cand_entity c, resolution_key v (cand_text c)) in
      if key \<in> set found then first_candidates v found cs else c # first_candidates v (key # found) cs)"

definition candidates :: "writer_env \<Rightarrow> tree \<Rightarrow> (pystr \<times> pystr option) list \<Rightarrow> (pystr \<rightharpoonup> pystr option) \<Rightarrow> (pystr \<Rightarrow> bool) \<Rightarrow> candidate list" where
  "candidates k t changed_pages link_names nameable =
     (let known = readable_entities k t;
          added = List.map_filter (candidate_of k known) (concat (map (added_links k t) changed_pages)) in
      first_candidates (env_more k) [] (filter (may_be_alias k link_names nameable known added) added))"

section \<open>Decisions and record\<close>

datatype alias_decision = Accepted rat | Rejected rat | Skipped pystr | Reverted rat

type_synonym alias_report = "(candidate \<times> alias_decision) list"

definition decide_one :: "(nat \<Rightarrow> pystr + rat) \<Rightarrow> (nat \<Rightarrow> rat) \<Rightarrow> rat \<Rightarrow> nat \<Rightarrow> nat \<Rightarrow> alias_decision" where
  "decide_one asked elapsed window_s cap i =
     (if cap \<le> i then Skipped (lit ''cap'')
      else if window_s - elapsed i \<le> 0 then Skipped (lit ''deadline'')
      else case asked i of
        Inl why \<Rightarrow> Skipped why
      | Inr probability \<Rightarrow> if ALIAS_THRESHOLD \<le> probability then Accepted probability else Rejected probability)"

definition is_accepted :: "alias_decision \<Rightarrow> bool" where
  "is_accepted d = (case d of Accepted _ \<Rightarrow> True | _ \<Rightarrow> False)"

definition decide_all :: "(nat \<Rightarrow> pystr + rat) \<Rightarrow> (nat \<Rightarrow> rat) \<Rightarrow> rat \<Rightarrow> nat \<Rightarrow> candidate list \<Rightarrow> alias_report" where
  "decide_all asked elapsed window_s cap cs = map (\<lambda>(i, c). (c, decide_one asked elapsed window_s cap i)) (enumerate 0 cs)"

text \<open>One accepted alias, appended to its entity's page as it reads now.\<close>

definition write_alias :: "writer_env \<Rightarrow> nat \<Rightarrow> nat \<Rightarrow> candidate \<Rightarrow> tree \<Rightarrow> tree result" where
  "write_alias k at_day i c t =
     and_then (writer_path (cand_entity c)) (\<lambda>path.
       if path |\<notin>| fmdom t then Inl (OSError (cand_entity c))
       else and_then (parse_page (env_yaml k) (env_more k) (cand_entity c) (text_at t path)) (\<lambda>p.
         and_then (render_like k (p\<lparr>page_updated := at_day, page_aliases := page_aliases p @ [cand_text c]\<rparr>)) (\<lambda>s.
           Inr (fmupd path s t))))"

definition rotated :: "nat \<Rightarrow> 'a list \<Rightarrow> 'a list" where
  "rotated start xs = drop (start mod length xs) xs @ take (start mod length xs) xs"

record alias_run =
  ar_decided :: "nat \<Rightarrow> pystr + rat"
  ar_elapsed :: "nat \<Rightarrow> rat"
  ar_window :: rat
  ar_cap :: nat
  ar_start :: nat

definition record_aliases :: "writer_env \<Rightarrow> alias_run \<Rightarrow> nat \<Rightarrow> candidate list \<Rightarrow> tree \<Rightarrow> (alias_report \<times> pystr list \<times> tree) result" where
  "record_aliases k r at_day cs t =
     (let entries = decide_all (ar_decided r) (ar_elapsed r) (ar_window r) (ar_cap r) (rotated (ar_start r) cs);
          accepted = map fst (filter (\<lambda>(_, d). is_accepted d) entries) in
      and_then (each_in_turn (write_alias k at_day) 0 accepted t) (\<lambda>t'. Inr (entries, fromkeys (map cand_entity accepted), t')))"

section \<open>The step of a write\<close>

definition reverted :: "candidate \<times> alias_decision \<Rightarrow> candidate \<times> alias_decision" where
  "reverted = (\<lambda>(c, d). (c, case d of Accepted x \<Rightarrow> Reverted x | _ \<Rightarrow> d))"

datatype alias_outcome = Aliases_Decided alias_report | Aliases_Skipped exn

definition alias_step_error :: "exn \<Rightarrow> bool" where
  "alias_step_error e = (is_page_error e \<or> (case e of OSError _ \<Rightarrow> True | _ \<Rightarrow> False))"

definition record_alias_step :: "writer_env \<Rightarrow> alias_run \<Rightarrow> write_context \<Rightarrow> (pystr \<Rightarrow> bool) \<Rightarrow> violation list \<Rightarrow> nat \<Rightarrow> (pystr \<times> pystr option) list
    \<Rightarrow> (pystr, pystr) fmap \<times> tree \<Rightarrow> (alias_outcome \<times> (pystr, pystr) fmap \<times> tree) result" where
  "record_alias_step k r ctx nameable tolerated at_day changed_pages = (\<lambda>(reasons, t).
     case and_then (knowledge_link_stems k ctx [] t) (\<lambda>link_names. record_aliases k r at_day (candidates k t changed_pages link_names nameable) t) of
       Inl e \<Rightarrow> if alias_step_error e then Inr (Aliases_Skipped e, reasons, t) else Inl e
     | Inr (entries, changed, t') \<Rightarrow>
         if changed = [] then Inr (Aliases_Decided entries, reasons, t')
         else and_then (check_corpus k [] t') (\<lambda>found.
           if introduced found tolerated \<noteq> [] then Inr (Aliases_Decided (map reverted entries), reasons, t)
           else Inr (Aliases_Decided entries,
             fold (\<lambda>path m. if path |\<in>| fmdom m then m else fmupd path (lit ''Recorded another name a page links this entity by'') m) changed reasons, t')))"

end
