(* ===== verification/Capture_Filing.thy ===== *)
theory Capture_Filing
  imports Aliases
begin

text \<open>
  How a capture is filed, the planning part of \<open>_capture\<close> in \<open>stigmergy/knowledge/writer.py\<close>: the plan the
  planner returns is applied to the view that already holds the source; a plan that is refused, empty or
  leaves violations is corrected once, within the turns left; a correction that would still drop cited
  lines is filed without those updates; and when nothing holds, the source is archived alone. The planner
  is a parameter: its plan, \<open>None\<close> when it is no filing plan, with the requests it took.
\<close>

section \<open>One attempt at a plan\<close>

record filing_desk =
  desk_env :: writer_env
  desk_job :: filing_job
  desk_tolerated :: "violation list"
  desk_max_turns :: nat

definition source_reasons :: "filing_desk \<Rightarrow> (pystr, pystr) fmap" where
  "source_reasons d = fmupd (job_source (desk_job d)) (lit ''Archived immutable readable evidence'') fmempty"

definition editorial_of :: "(pystr, pystr) fmap \<Rightarrow> pystr list" where
  "editorial_of reasons = filter (\<lambda>p. path_role p \<noteq> None) (sorted_list_of_fset (fmdom reasons))"

text \<open>The exceptions that refuse a plan; any other ends the capture.\<close>

definition plan_error :: "exn \<Rightarrow> bool" where
  "plan_error e \<longleftrightarrow> is_write_error e \<or> is_page_error e \<or> is_refusal e \<or> is_contradiction_error e"

datatype attempt = Plan_Applied filing | Plan_Refused exn

definition attempt_plan :: "filing_desk \<Rightarrow> plan \<Rightarrow> pystr list \<Rightarrow> tree \<Rightarrow> attempt result" where
  "attempt_plan d pl skips t =
     (case apply_filing_plan (desk_env d) (desk_job d) pl (source_reasons d) skips t of
        Inl e \<Rightarrow> if plan_error e then Inr (Plan_Refused e) else Inl e
      | Inr st \<Rightarrow> Inr (Plan_Applied st))"

definition found_by :: "filing_desk \<Rightarrow> filing \<Rightarrow> violation list result" where
  "found_by d st =
     and_then (check_corpus (desk_env d) (editorial_of (filed_reasons st)) (filed_tree st)) (\<lambda>found.
       Inr (introduced found (desk_tolerated d)))"

section \<open>What the correction is told\<close>

definition error_text :: "exn \<Rightarrow> pystr" where
  "error_text e =
     (case e of KnowledgeWriteError m \<Rightarrow> m | WriterBusy m \<Rightarrow> m | WriterDeadline m \<Rightarrow> m | GateRefused m \<Rightarrow> m | CorpusUnavailable m \<Rightarrow> m
      | SourceBlockNotPreserved _ _ \<Rightarrow> lit ''existing-source-block-not-preserved'' | PageContractError m \<Rightarrow> m | SourceContractError m \<Rightarrow> m
      | WriteRefused m \<Rightarrow> m | ContradictionContractError m \<Rightarrow> m | _ \<Rightarrow> [])"

definition error_class :: "exn \<Rightarrow> pystr" where
  "error_class e =
     (case e of KnowledgeWriteError _ \<Rightarrow> lit ''KnowledgeWriteError'' | WriterBusy _ \<Rightarrow> lit ''WriterBusy''
      | WriterDeadline _ \<Rightarrow> lit ''WriterDeadline'' | GateRefused _ \<Rightarrow> lit ''GateRefused'' | CorpusUnavailable _ \<Rightarrow> lit ''CorpusUnavailable''
      | PageContractError _ \<Rightarrow> lit ''PageContractError'' | SourceContractError _ \<Rightarrow> lit ''SourceContractError''
      | WriteRefused _ \<Rightarrow> lit ''WriteRefused'' | ContradictionContractError _ \<Rightarrow> lit ''ContradictionContractError'' | _ \<Rightarrow> [])"

definition KEEP_LINES :: pystr where
  "KEEP_LINES = lit ''Keep these existing source-backed lines verbatim and in order, adding the new source's lines around them:'' @ [NL]"

definition failure_entry :: "exn \<Rightarrow> violation" where
  "failure_entry e =
     (case e of
        SourceBlockNotPreserved path lost \<Rightarrow> (path, lit ''existing-source-block-not-preserved'', KEEP_LINES @ join [NL] lost)
      | _ \<Rightarrow> (lit ''plan'', error_class e, error_text e))"

definition EMPTY_PLAN :: violation where
  "EMPTY_PLAN = (lit ''plan'', lit ''empty-plan'',
     lit ''The plan changes no page. Return the pages this source warrants, or the same empty plan when it adds nothing, with the summary saying why.'')"

section \<open>The first plan\<close>

text \<open>A pass leaves a tree; \<open>t\<close> stands for that of a refused plan, which is about to be restored.\<close>

datatype pass = Clean filing | Unclean filing "violation list" | Invalid pystr "violation list" tree

definition first_pass :: "filing_desk \<Rightarrow> plan option \<Rightarrow> tree \<Rightarrow> pass result" where
  "first_pass d answer t =
     (case answer of
        None \<Rightarrow> Inr (Invalid (lit ''filing planner returned the wrong plan type'') [] t)
      | Some pl \<Rightarrow> and_then (attempt_plan d pl [] t) (\<lambda>a.
          case a of
            Plan_Refused e \<Rightarrow> Inr (Invalid (error_text e) [failure_entry e] t)
          | Plan_Applied st \<Rightarrow>
              if plan_mutations pl = [] \<and> plan_contradictions pl = [] then Inr (Invalid (lit ''empty-plan'') [EMPTY_PLAN] (filed_tree st))
              else and_then (found_by d st) (\<lambda>vs. Inr (if vs = [] then Clean st else Unclean st vs))))"

definition pass_failures :: "pass \<Rightarrow> violation list" where
  "pass_failures p = (case p of Clean _ \<Rightarrow> [] | Unclean _ vs \<Rightarrow> vs | Invalid _ fs _ \<Rightarrow> fs)"

definition pass_tree :: "pass \<Rightarrow> tree" where
  "pass_tree p = (case p of Clean st \<Rightarrow> filed_tree st | Unclean st _ \<Rightarrow> filed_tree st | Invalid _ _ t \<Rightarrow> t)"

section \<open>The correction\<close>

datatype verdict = Accept filing | Reject pystr tree

definition names_dropped :: "pystr list \<Rightarrow> mutation \<Rightarrow> bool" where
  "names_dropped dropped m \<longleftrightarrow> mut_action m = Update_Page \<and> (case mut_path m of None \<Rightarrow> False | Some p \<Rightarrow> p \<in> set dropped)"

definition without_updates :: "pystr list \<Rightarrow> plan \<Rightarrow> plan" where
  "without_updates dropped pl = pl\<lparr>plan_mutations := filter (\<lambda>m. \<not> names_dropped dropped m) (plan_mutations pl)\<rparr>"

definition dropped_note :: "pystr \<Rightarrow> pystr" where
  "dropped_note path = lit ''update of '' @ path @ lit '' was not applied: it would drop cited lines''"

text \<open>
  The rest of a correction, filed without each update that would still drop cited lines. Every round
  drops one more; \<open>None\<close> stands for more rounds than \<open>n\<close>.
\<close>

fun file_without_lossy :: "nat \<Rightarrow> filing_desk \<Rightarrow> pystr list \<Rightarrow> plan \<Rightarrow> tree \<Rightarrow> (pystr + plan \<times> filing) option result" where
  "file_without_lossy 0 d dropped pl t = Inr None"
| "file_without_lossy (Suc n) d dropped pl t =
     (let pl' = without_updates dropped pl in
      and_then (attempt_plan d pl' (map dropped_note dropped) t) (\<lambda>a.
        case a of
          Plan_Refused (SourceBlockNotPreserved path _) \<Rightarrow> file_without_lossy n d (dropped @ [path]) pl' t
        | Plan_Refused _ \<Rightarrow> Inr (Some (Inl (lit ''filing correction failed'')))
        | Plan_Applied st \<Rightarrow> Inr (Some (Inr (pl', st)))))"

definition lossy_verdict :: "filing_desk \<Rightarrow> pystr \<Rightarrow> plan \<Rightarrow> tree \<Rightarrow> verdict result" where
  "lossy_verdict d path pl t =
     and_then (file_without_lossy (Suc (length (plan_mutations pl))) d [path] pl t) (\<lambda>outcome.
       case outcome of
         None \<Rightarrow> Inl (RuntimeError (lit ''correction does not end''))
       | Some (Inl why) \<Rightarrow> Inr (Reject why t)
       | Some (Inr (pl', st)) \<Rightarrow> and_then (found_by d st) (\<lambda>vs.
           Inr (if vs \<noteq> [] \<or> plan_mutations pl' = []
                then Reject (lit ''existing-source-block-not-preserved'') (filed_tree st) else Accept st)))"

definition gates_found :: "violation list \<Rightarrow> pystr" where
  "gates_found vs = lit ''knowledge gates found '' @ join (lit '', '') (sorted_set (map violation_code vs))"

definition correction_verdict :: "filing_desk \<Rightarrow> plan \<Rightarrow> tree \<Rightarrow> verdict result" where
  "correction_verdict d pl t =
     and_then (attempt_plan d pl [] t) (\<lambda>a.
       case a of
         Plan_Refused (SourceBlockNotPreserved path _) \<Rightarrow> lossy_verdict d path pl t
       | Plan_Refused _ \<Rightarrow> Inr (Reject (lit ''filing correction failed'') t)
       | Plan_Applied st \<Rightarrow>
           (case found_by d st of
              Inl e \<Rightarrow> if plan_error e then Inr (Reject (lit ''filing correction failed'') (filed_tree st)) else Inl e
            | Inr vs \<Rightarrow> Inr (if vs = [] then Accept st else Reject (gates_found vs) (filed_tree st))))"

text \<open>The planner's correction of a draft: the draft, what failed of it and the turns left.\<close>

type_synonym reviser = "plan option \<Rightarrow> violation list \<Rightarrow> nat \<Rightarrow> (plan option \<times> nat) result"

definition correct :: "filing_desk \<Rightarrow> reviser \<Rightarrow> plan option \<Rightarrow> violation list \<Rightarrow> nat \<Rightarrow> tree \<Rightarrow> (verdict \<times> nat) result" where
  "correct d revise draft failures left t =
     (case revise draft failures left of
        Inl e \<Rightarrow> if plan_error e then Inr (Reject (lit ''filing correction failed'') t, 0) else Inl e
      | Inr (None, n) \<Rightarrow> Inr (Reject (lit ''filing correction failed'') t, n)
      | Inr (Some pl, n) \<Rightarrow> and_then (correction_verdict d pl t) (\<lambda>v. Inr (v, n)))"

section \<open>The filing of a capture\<close>

record filed_capture =
  fc_tree :: tree
  fc_reasons :: "(pystr, pystr) fmap"
  fc_skips :: "pystr list"
  fc_rejection :: "pystr option"
  fc_requests :: nat
  fc_corrected :: bool

definition restored :: "tree \<Rightarrow> tree \<Rightarrow> tree" where
  "restored t left = restore_mutable (snapshot_mutable t) left"

text \<open>The verdict on the plan, and the requests it took.\<close>

definition planned :: "filing_desk \<Rightarrow> plan option \<times> nat \<Rightarrow> reviser \<Rightarrow> tree \<Rightarrow> (verdict \<times> nat \<times> bool) result" where
  "planned d answer revise t =
     and_then (first_pass d (fst answer) t) (\<lambda>p.
       case p of
         Clean st \<Rightarrow> Inr (Accept st, snd answer, False)
       | _ \<Rightarrow>
           let left = desk_max_turns d - snd answer in
           if left < 1 then Inr (Reject (lit ''filing correction budget exhausted'') (pass_tree p), snd answer, False)
           else and_then (correct d revise (fst answer) (pass_failures p) left (restored t (pass_tree p))) (\<lambda>(v, n).
             Inr (v, snd answer + n, True)))"

definition file_capture :: "filing_desk \<Rightarrow> plan option \<times> nat \<Rightarrow> reviser \<Rightarrow> tree \<Rightarrow> filed_capture result" where
  "file_capture d answer revise t =
     and_then (planned d answer revise t) (\<lambda>(v, requests, corrected).
       case v of
         Accept st \<Rightarrow> Inr \<lparr>fc_tree = filed_tree st, fc_reasons = filed_reasons st, fc_skips = filed_skips st, fc_rejection = None,
           fc_requests = requests, fc_corrected = corrected\<rparr>
       | Reject why left \<Rightarrow>
           and_then (check_corpus (desk_env d) [] (restored t left)) (\<lambda>found.
             if introduced found (desk_tolerated d) \<noteq> []
             then Inl (GateRefused (violation_summary (introduced found (desk_tolerated d))))
             else Inr \<lparr>fc_tree = restored t left, fc_reasons = source_reasons d, fc_skips = [], fc_rejection = Some why,
               fc_requests = requests, fc_corrected = corrected\<rparr>))"

end
