(* ===== verification/Gate_Safety.thy ===== *)
theory Gate_Safety
  imports Write_Gates
begin

text \<open>What the gate over a write's diff admits, stated over the tree before and after the write.\<close>

lemma each_unit: "each f xs = Inr ys \<Longrightarrow> x \<in> set xs \<Longrightarrow> \<exists>y. f x = Inr y"
  by (induction xs arbitrary: ys) (auto simp: and_then_eq_Inr)

lemma in_dom: "x |\<in>| fmdom m \<longleftrightarrow> fmlookup m x \<noteq> None"
  by (metis fmdom_notD fmdom_notI)

lemma changed_entry:
  assumes "fmlookup t path \<noteq> fmlookup base path"
  shows "change_of_file hash base t path \<in> set (changes_between hash base t)"
proof -
  have "path |\<in>| fmdom base |\<union>| fmdom t"
    using assms by (metis fmdom_notD funionCI)
  then show ?thesis
    using assms by (auto simp: changes_between_def paths_of_def)
qed

lemma change_status:
  "de_status (change_of_file hash base t path) = lit ''A'' \<longleftrightarrow> path |\<notin>| fmdom base"
  "fmlookup t path \<noteq> fmlookup base path \<Longrightarrow> de_status (change_of_file hash base t path) = lit ''D'' \<longleftrightarrow> path |\<notin>| fmdom t"
  "fmlookup t path \<noteq> fmlookup base path \<Longrightarrow> de_status (change_of_file hash base t path) = lit ''M'' \<longleftrightarrow> path |\<in>| fmdom base \<and> path |\<in>| fmdom t"
  "de_path (change_of_file hash base t path) = path"
  by (cases "fmlookup t path"; cases "fmlookup base path"; simp add: change_of_file_def in_dom)+

lemma gate_entry_admits:
  assumes "gate_entry why expected deleted layer swept e = Inr u"
  obtains owner vpath where "split_path (de_path e) = Inr (owner, vpath)" and "path_role vpath \<noteq> None \<or> is_source_path vpath"
    and "\<And>l. layer = Some l \<Longrightarrow> owner = l \<or> de_path e \<in> set swept \<and> de_status e = lit ''M''"
    and "is_source_path vpath \<Longrightarrow> gate_source why expected deleted e = Inr ()"
proof -
  have regular: "is_regular_file e"
    using assms by (auto simp: gate_entry_def gate_refused_def split: if_splits)
  obtain owner vpath where place: "split_path (de_path e) = Inr (owner, vpath)"
    using assms regular by (auto simp: gate_entry_def gate_refused_def split: sum.splits exn.splits)
  show thesis
    using assms that [OF place] regular place by (auto simp: gate_entry_def gate_refused_def split: if_splits option.splits)
qed

section \<open>Properties\<close>

text \<open>
  C33. A write that passes the gate stays in its lane: every file it changes is a knowledge page or a
  source, and of the capture's own layer, unless it is a page of another layer swept of links and still
  there; a source changes only in that a capture adds its own new source or a deletion removes one it was
  asked to, so no write ever edits a source.
\<close>

theorem gated_write_stays_in_its_lane:
  assumes "gate_diff why expected deleted layer swept (changes_between hash base t) = Inr ()"
    and "fmlookup t path \<noteq> fmlookup base path"
  shows "\<exists>owner vpath. split_path path = Inr (owner, vpath) \<and> (path_role vpath \<noteq> None \<or> is_source_path vpath) \<and>
    (layer = None \<or> layer = Some owner \<or> path \<in> set swept \<and> path |\<in>| fmdom base \<and> path |\<in>| fmdom t) \<and>
    (is_source_path vpath \<longrightarrow>
       why \<in> {Capture_Write, Resolution_Write} \<and> path = expected \<and> path |\<notin>| fmdom base \<or>
       why = Delete_Write \<and> path \<in> set deleted \<and> path |\<notin>| fmdom t)"
proof -
  let ?e = "change_of_file hash base t path"
  have "?e \<in> set (changes_between hash base t)"
    by (rule changed_entry [OF assms(2)])
  then obtain u where "gate_entry why expected deleted layer swept ?e = Inr u"
    using assms(1) each_unit by (fastforce simp: gate_diff_def gate_refused_def and_then_eq_Inr split: if_splits)
  then obtain owner vpath where place: "split_path path = Inr (owner, vpath)" "path_role vpath \<noteq> None \<or> is_source_path vpath"
    and lane: "\<And>l. layer = Some l \<Longrightarrow> owner = l \<or> path \<in> set swept \<and> de_status ?e = lit ''M''"
    and source: "is_source_path vpath \<Longrightarrow> gate_source why expected deleted ?e = Inr ()"
    by (rule gate_entry_admits) (auto simp: change_status(4))
  note status = change_status(1) change_status(2,3) [OF assms(2)] change_status(4)
  have "layer = None \<or> layer = Some owner \<or> path \<in> set swept \<and> path |\<in>| fmdom base \<and> path |\<in>| fmdom t"
    using lane status(3) by (cases layer) auto
  moreover have "why \<in> {Capture_Write, Resolution_Write} \<and> path = expected \<and> path |\<notin>| fmdom base \<or>
      why = Delete_Write \<and> path \<in> set deleted \<and> path |\<notin>| fmdom t" if "is_source_path vpath"
    using source [OF that] by (cases why) (auto simp: gate_source_def gate_refused_def status simp del: lit_Cons split: if_splits)
  ultimately show ?thesis
    using place by blast
qed

lemma sample_gated:
  "gate_diff Capture_Write (lit ''sources/x.md'') [] (Some PUBLIC) [] (changes_between (\<lambda>_. []) fmempty (fmupd (lit ''sources/x.md'') (lit ''s'') fmempty)) = Inr ()"
  by code_simp

theorem gated_write_stays_in_its_lane_witness:
  "\<exists>owner vpath. split_path (lit ''sources/x.md'') = Inr (owner, vpath) \<and> (path_role vpath \<noteq> None \<or> is_source_path vpath)"
  using gated_write_stays_in_its_lane [OF sample_gated, of "lit ''sources/x.md''"] by (auto simp del: lit_Cons lit_Nil)

end
