(* ===== verification/Filing_Outcome.thy ===== *)
theory Filing_Outcome
  imports Capture_Filing Filing_Safety Gate_Safety
begin

text \<open>
  What filing a capture leaves: either pages written within the guard, with no violation the view did not
  have, or the view as it was, with the source and nothing else.
\<close>

section \<open>Restoring the pages\<close>

lemma role_mutable: "path_role path \<noteq> None \<Longrightarrow> mutable_path path"
proof -
  assume "path_role path \<noteq> None"
  then obtain r where r: "in_folder path r"
    using path_role_iff by blast
  moreover have "r \<in> set ROLES"
    by (cases r) (simp_all add: ROLES_def)
  ultimately show "mutable_path path"
    by (auto simp: mutable_path_def in_folder_def list_ex_iff)
qed

lemma restored_guarded:
  assumes "guarded_writes k context t left"
  shows "restored t left = t"
proof (rule fmap_ext)
  fix path
  show "fmlookup (restored t left) path = fmlookup t path"
  proof (cases "mutable_path path")
    case True
    then show ?thesis
      by (cases "fmlookup t path") (auto simp: restored_def restore_mutable_def snapshot_mutable_def in_dom)
  next
    case False
    then have "path_role path = None"
      using role_mutable by blast
    then have "fmlookup left path = fmlookup t path"
      by (rule guarded_writes_outside [OF assms])
    then show ?thesis
      using False by (auto simp: restored_def restore_mutable_def snapshot_mutable_def in_dom)
  qed
qed

lemma restored_same [simp]: "restored t t = t"
  by (rule restored_guarded [of k "context"]) simp

section \<open>Every verdict keeps to the guard\<close>

abbreviation desk_writes :: "filing_desk \<Rightarrow> tree \<Rightarrow> tree \<Rightarrow> bool" where
  "desk_writes d \<equiv> guarded_writes (desk_env d) (job_context (desk_job d))"

definition good_verdict :: "filing_desk \<Rightarrow> tree \<Rightarrow> verdict \<Rightarrow> bool" where
  "good_verdict d t v \<longleftrightarrow>
     (case v of Accept st \<Rightarrow> desk_writes d t (filed_tree st) \<and> found_by d st = Inr [] | Reject _ left \<Rightarrow> desk_writes d t left)"

lemma attempt_plan_writes: "attempt_plan d pl skips t = Inr (Plan_Applied st) \<Longrightarrow> desk_writes d t (filed_tree st)"
  using apply_filing_plan_guarded by (fastforce simp: attempt_plan_def split: sum.splits if_splits)

lemma first_pass_writes:
  assumes "first_pass d answer t = Inr p"
  shows "desk_writes d t (pass_tree p)" and "\<And>st. p = Clean st \<Longrightarrow> found_by d st = Inr []"
proof -
  have "desk_writes d t (pass_tree p) \<and> (\<forall>st. p = Clean st \<longrightarrow> found_by d st = Inr [])"
  proof (cases answer)
    case None
    then show ?thesis
      using assms by (auto simp: first_pass_def pass_tree_def)
  next
    case (Some pl)
    then obtain a where a: "attempt_plan d pl [] t = Inr a"
      using assms by (auto simp: first_pass_def and_then_eq_Inr)
    show ?thesis
    proof (cases a)
      case (Plan_Applied st)
      then have "desk_writes d t (filed_tree st)"
        using a attempt_plan_writes by blast
      then show ?thesis
        using assms Some a Plan_Applied
        by (auto simp: first_pass_def pass_tree_def and_then_eq_Inr split: if_splits)
    next
      case (Plan_Refused e)
      then show ?thesis
        using assms Some a by (auto simp: first_pass_def pass_tree_def)
    qed
  qed
  then show "desk_writes d t (pass_tree p)" and "\<And>st. p = Clean st \<Longrightarrow> found_by d st = Inr []"
    by auto
qed

text \<open>The page whose cited lines an update would drop.\<close>

definition lossy_page :: "exn \<Rightarrow> pystr option" where
  "lossy_page e = (case e of SourceBlockNotPreserved path _ \<Rightarrow> Some path | _ \<Rightarrow> None)"

lemma lossy_page_cases:
  "(case e of SourceBlockNotPreserved path _ \<Rightarrow> f path | _ \<Rightarrow> g) = (case lossy_page e of Some path \<Rightarrow> f path | None \<Rightarrow> g)"
  by (cases e) (simp_all add: lossy_page_def)

lemma file_without_lossy_writes:
  "file_without_lossy n d dropped pl t = Inr (Some (Inr (pl', st))) \<Longrightarrow> desk_writes d t (filed_tree st)"
proof (induction n arbitrary: dropped pl)
  case (Suc n)
  then obtain a where a: "attempt_plan d (without_updates dropped pl) (map dropped_note dropped) t = Inr a"
    by (auto simp: and_then_eq_Inr Let_def)
  show ?case
  proof (cases a)
    case (Plan_Applied st')
    then show ?thesis
      using Suc.prems a attempt_plan_writes by (simp add: Let_def)
  next
    case (Plan_Refused e)
    then show ?thesis
      using Suc a by (cases "lossy_page e") (simp_all add: Let_def lossy_page_cases)
  qed
qed simp

lemma lossy_verdict_good:
  assumes "lossy_verdict d path pl t = Inr v"
  shows "good_verdict d t v"
proof -
  obtain found where f: "file_without_lossy (Suc (length (plan_mutations pl))) d [path] pl t = Inr (Some found)"
    using assms by (auto simp: lossy_verdict_def and_then_eq_Inr simp del: file_without_lossy.simps split: option.splits)
  show ?thesis
  proof (cases found)
    case (Inl why)
    then show ?thesis
      using assms f by (auto simp: lossy_verdict_def good_verdict_def simp del: file_without_lossy.simps)
  next
    case (Inr r)
    then obtain pl' st where r: "found = Inr (pl', st)"
      by (cases r) simp
    then have "desk_writes d t (filed_tree st)"
      using f file_without_lossy_writes by blast
    then show ?thesis
      using assms f r
      by (auto simp: lossy_verdict_def good_verdict_def and_then_eq_Inr simp del: file_without_lossy.simps split: if_splits)
  qed
qed

lemma correction_verdict_good:
  assumes "correction_verdict d pl t = Inr v"
  shows "good_verdict d t v"
proof -
  obtain a where a: "attempt_plan d pl [] t = Inr a"
    using assms by (auto simp: correction_verdict_def and_then_eq_Inr)
  show ?thesis
  proof (cases a)
    case (Plan_Applied st)
    then show ?thesis
      using assms a attempt_plan_writes by (auto simp: correction_verdict_def good_verdict_def split: sum.splits if_splits)
  next
    case (Plan_Refused e)
    then show ?thesis
      using assms a lossy_verdict_good
      by (cases "lossy_page e") (auto simp: correction_verdict_def good_verdict_def lossy_page_cases)
  qed
qed

lemma correct_good:
  assumes "correct d revise draft failures left t = Inr (v, n)"
  shows "good_verdict d t v"
proof (cases "revise draft failures left")
  case (Inl e)
  then show ?thesis
    using assms by (auto simp: correct_def good_verdict_def split: if_splits)
next
  case (Inr r)
  then show ?thesis
    using assms correction_verdict_good
    by (cases r; cases "fst r") (auto simp: correct_def good_verdict_def and_then_eq_Inr)
qed

lemma planned_good:
  assumes "planned d answer revise t = Inr (v, n, b)"
  shows "good_verdict d t v"
proof -
  obtain p where p: "first_pass d (fst answer) t = Inr p"
    using assms by (auto simp: planned_def and_then_eq_Inr)
  note writes = first_pass_writes [OF p]
  show ?thesis
  proof (cases p)
    case (Clean st)
    then show ?thesis
      using assms p writes by (auto simp: planned_def good_verdict_def pass_tree_def)
  next
    case (Unclean st vs)
    then show ?thesis
      using assms p writes restored_guarded [OF writes(1)] correct_good
      by (fastforce simp: planned_def good_verdict_def and_then_eq_Inr Let_def split: if_splits)
  next
    case (Invalid why fs left)
    then show ?thesis
      using assms p writes restored_guarded [OF writes(1)] correct_good
      by (fastforce simp: planned_def good_verdict_def and_then_eq_Inr Let_def split: if_splits)
  qed
qed

section \<open>A capture filed, and one archived\<close>

definition sample_desk :: filing_desk where
  "sample_desk = \<lparr>desk_env = sample_env, desk_job = sample_job None, desk_tolerated = [], desk_max_turns = 1\<rparr>"

definition no_revision :: reviser where
  "no_revision = (\<lambda>_ _ _. Inr (None, 0))"

lemma sample_desk_simps [simp]:
  "desk_env sample_desk = sample_env" "desk_job sample_desk = sample_job None" "desk_tolerated sample_desk = []"
  "desk_max_turns sample_desk = 1"
  by (simp_all add: sample_desk_def)

lemma sample_gone: "check_corpus sample_env editorial (fmdrop sample_place sample_tree) = Inr []"
proof -
  have "markdown_paths (fmdrop sample_place sample_tree) = []"
    by code_simp
  moreover have "editorial_violations sample_env [] editorial = []"
    by (simp add: editorial_violations_def)
  ultimately show ?thesis
    by (simp add: check_corpus_def name_collisions_def sorted_set_def)
qed

lemma sample_filed:
  "\<exists>r. file_capture sample_desk (Some sample_plan, 1) no_revision sample_tree = Inr r \<and> fc_rejection r = None \<and>
     fc_tree r = fmdrop sample_place sample_tree"
proof -
  have "plan_mutations sample_plan \<noteq> []"
    by (simp add: sample_plan_def)
  then show ?thesis
    by (simp add: file_capture_def planned_def first_pass_def attempt_plan_def sample_applied found_by_def sample_gone introduced_def)
qed

lemma sample_archived:
  "\<exists>r. file_capture sample_desk (None, 1) no_revision sample_tree = Inr r \<and> fc_rejection r \<noteq> None"
  by (simp add: file_capture_def planned_def first_pass_def pass_tree_def sample_check introduced_def)

section \<open>Properties\<close>

text \<open>
  C2. A capture is filed within its guard or archived alone. Whatever the planner answers, and whatever
  it answers when it is asked to correct its plan, a capture that ends leaves pages reached by guarded
  writes of single pages. Either the plan was accepted, and the corpus it leaves has no violation the
  view did not have, the editorial minimums of the pages it changed included; or it was not, and then
  every page is as it was, the source is the only file recorded, and the view has no new violation.
\<close>

theorem capture_filed_or_archived:
  assumes "file_capture d answer revise t = Inr r"
  shows "(guarded_write (desk_env d) (job_context (desk_job d)))\<^sup>*\<^sup>* t (fc_tree r) \<and>
    (\<exists>found. introduced found (desk_tolerated d) = [] \<and>
      (case fc_rejection r of
         None \<Rightarrow> check_corpus (desk_env d) (editorial_of (fc_reasons r)) (fc_tree r) = Inr found
       | Some why \<Rightarrow> check_corpus (desk_env d) [] (fc_tree r) = Inr found \<and> fc_tree r = t \<and> fc_reasons r = source_reasons d))"
proof -
  obtain v n b where v: "planned d answer revise t = Inr (v, n, b)"
    using assms by (auto simp: file_capture_def and_then_eq_Inr)
  note good = planned_good [OF v]
  show ?thesis
  proof (cases v)
    case (Accept st)
    then show ?thesis
      using assms v good by (auto simp: file_capture_def good_verdict_def found_by_def and_then_eq_Inr)
  next
    case (Reject why left)
    then have "restored t left = t"
      using good by (auto simp: good_verdict_def intro: restored_guarded)
    then show ?thesis
      using assms v Reject by (auto simp: file_capture_def and_then_eq_Inr split: if_splits)
  qed
qed

theorem capture_filed_or_archived_witness:
  "\<exists>r s. file_capture sample_desk (Some sample_plan, 1) no_revision sample_tree = Inr r \<and>
     (guarded_write sample_env (job_context (sample_job None)))\<^sup>*\<^sup>* sample_tree (fc_tree r) \<and>
     fc_tree r = fmdrop sample_place sample_tree \<and>
     file_capture sample_desk (None, 1) no_revision sample_tree = Inr s \<and> fc_tree s = sample_tree"
proof -
  obtain r where r: "file_capture sample_desk (Some sample_plan, 1) no_revision sample_tree = Inr r"
    "fc_tree r = fmdrop sample_place sample_tree"
    using sample_filed by blast
  obtain s where s: "file_capture sample_desk (None, 1) no_revision sample_tree = Inr s" "fc_rejection s \<noteq> None"
    using sample_archived by blast
  have "fc_tree s = sample_tree"
    using capture_filed_or_archived [OF s(1)] s(2) by (auto split: option.splits)
  then show ?thesis
    using r s capture_filed_or_archived [OF r(1)] by auto
qed

end
