(* ===== verification/Untrusted_Text.thy ===== *)
theory Untrusted_Text
  imports Py_Text
begin

text \<open>
  Hygiene of untrusted text, \<open>stigmergy/text.py\<close>: control characters, the fence around untrusted data,
  truncation at a word, and scalars of prompts. An absent text is the empty one, as the code has it.
\<close>

section \<open>Replacing every occurrence\<close>

text \<open>\<open>s.replace(old, new)\<close> for a text \<open>old\<close> that is not empty: left to right, without overlap.\<close>

function replace_text :: "pystr \<Rightarrow> pystr \<Rightarrow> pystr \<Rightarrow> pystr" where
  "replace_text old new [] = []"
| "replace_text old new (c # s) =
     (if old \<noteq> [] \<and> prefix old (c # s) then new @ replace_text old new (drop (length old) (c # s))
      else c # replace_text old new s)"
  by pat_completeness auto
termination
  by (relation "measure (\<lambda>(old, new, s). length s)") (auto simp: neq_Nil_conv)

lemma replace_text_at: "old \<noteq> [] \<Longrightarrow> replace_text old new (old @ rest) = new @ replace_text old new rest"
  by (cases old) simp_all

lemma contains_Cons: "contains p (c # s) \<longleftrightarrow> prefix p (c # s) \<or> contains p s"
  by (auto simp: contains_def)

lemma contains_Nil [simp]: "contains p [] \<longleftrightarrow> p = []"
  by (simp add: contains_def)

text \<open>A replacement that starts with what it replaces leaves as many characters at the front alone.\<close>

lemma take_replace_text: "n \<le> length old \<Longrightarrow> take n (replace_text old (old @ tail) s) = take n s"
proof (induction s arbitrary: n)
  case (Cons c s)
  show ?case
  proof (cases "old \<noteq> [] \<and> prefix old (c # s)")
    case True
    then obtain rest where "c # s = old @ rest"
      by (auto simp: prefix_def)
    then show ?thesis
      using True Cons.prems by (simp add: replace_text_at)
  next
    case False
    then show ?thesis
      using Cons.IH [of "n - 1"] Cons.prems by (cases n) auto
  qed
qed simp

lemma prefix_take: "prefix p s \<longleftrightarrow> take (length p) s = p"
  by (auto simp: prefix_def) (metis append_take_drop_id)

text \<open>Every occurrence of a token is followed by the joiner that was put behind it.\<close>

lemma token_then_joiner:
  assumes "t @ j # rest = us @ t @ x # vs" and "j \<notin> set t" and "t \<noteq> []" and "x \<noteq> j"
  shows "\<exists>us'. us = t @ j # us' \<and> rest = us' @ t @ x # vs"
proof -
  consider (after) ws where "us = t @ ws" "j # rest = ws @ t @ x # vs" | (inside) ws where "t = us @ ws" "ws @ j # rest = t @ x # vs"
    using append_eq_append_conv2 [THEN iffD1, OF assms(1)] by metis
  then show ?thesis
  proof cases
    case after
    then show ?thesis
      using assms(2,3) by (cases ws) (auto simp: neq_Nil_conv)
  next
    case inside
    have "us \<noteq> []"
      using inside assms(4) by auto
    then have less: "length ws < length t"
      using inside(1) by simp
    have "j = (ws @ j # rest) ! length ws"
      by simp
    also have "\<dots> = t ! length ws"
      using less by (simp only: inside(2) nth_append if_True)
    finally show ?thesis
      using less assms(2) by (metis nth_mem)
  qed
qed

lemma replaced_token:
  assumes "j \<notin> set t" and "t \<noteq> []" and "x \<noteq> j"
  shows "\<not> sublist (t @ [x]) (replace_text t (t @ [j]) s)"
proof (induction s rule: length_induct)
  case (1 s)
  show ?case
  proof (cases s)
    case Nil
    then show ?thesis
      by simp
  next
    case (Cons c s')
    show ?thesis
    proof (cases "prefix t s")
      case True
      then obtain rest where s: "s = t @ rest"
        by (auto simp: prefix_def)
      then have less: "length rest < length s"
        using assms(2) by (cases t) simp_all
      have "replace_text t (t @ [j]) s = t @ j # replace_text t (t @ [j]) rest"
        using assms(2) by (simp add: s replace_text_at)
      moreover have "\<not> sublist (t @ [x]) (replace_text t (t @ [j]) rest)"
        using 1 less by blast
      ultimately show ?thesis
        using token_then_joiner [OF _ assms] unfolding sublist_def append_assoc append_Cons append_Nil by (metis (no_types))
    next
      case False
      have "\<not> sublist (t @ [x]) (replace_text t (t @ [j]) s')"
        using 1 Cons by simp
      moreover have "\<not> prefix (t @ [x]) (c # replace_text t (t @ [j]) s')"
      proof
        assume "prefix (t @ [x]) (c # replace_text t (t @ [j]) s')"
        then have "prefix t (c # replace_text t (t @ [j]) s')"
          by (rule append_prefixD)
        then have "take (length t) (c # s') = t"
          using take_replace_text [of "length t - 1" t "[j]" s'] by (cases t) (auto simp: prefix_take)
        then show False
          using False Cons by (simp add: prefix_take)
      qed
      ultimately show ?thesis
        using False Cons by (simp add: sublist_Cons_right)
    qed
  qed
qed

section \<open>The fence\<close>

definition FENCE_TOKEN :: pystr where "FENCE_TOKEN = lit ''UNTRUSTED-DATA''"
definition JOINER :: int where "JOINER = 8288"
definition FENCE_NEUTRALIZED :: pystr where "FENCE_NEUTRALIZED = FENCE_TOKEN @ [JOINER]"

definition neutralize_fence :: "pystr \<Rightarrow> pystr" where
  "neutralize_fence s = replace_text FENCE_TOKEN FENCE_NEUTRALIZED s"

definition fence_end :: pystr where "fence_end = FENCE_TOKEN @ lit '';end>>>''"

definition fence_untrusted :: "pystr \<Rightarrow> pystr" where
  "fence_untrusted s = lit ''<<<'' @ FENCE_TOKEN @ [NL] @ neutralize_fence s @ [NL] @ fence_end"

section \<open>Control characters and width\<close>

definition is_control :: "int \<Rightarrow> bool" where
  "is_control c \<longleftrightarrow> 0 \<le> c \<and> c \<le> 8 \<or> 11 \<le> c \<and> c \<le> 31 \<or> 127 \<le> c \<and> c \<le> 159"

definition sanitize :: "pystr \<Rightarrow> pystr" where
  "sanitize s = filter (\<lambda>c. \<not> is_control c) s"

text \<open>\<open>s.rfind(c)\<close> and \<open>s.rstrip(chars)\<close>.\<close>

definition rfind_char :: "int \<Rightarrow> pystr \<Rightarrow> int" where
  "rfind_char c s = (if c \<in> set s then int (length s) - 1 - int (length (takeWhile (\<lambda>d. d \<noteq> c) (rev s))) else - 1)"

definition rstrip_chars :: "int list \<Rightarrow> pystr \<Rightarrow> pystr" where
  "rstrip_chars cs s = rev (dropWhile (\<lambda>c. c \<in> set cs) (rev s))"

definition ELLIPSIS :: int where "ELLIPSIS = 8230"

definition clamp :: "pystr \<Rightarrow> int \<Rightarrow> pystr" where
  "clamp s width =
     (if width \<le> 0 \<or> int (length s) \<le> width then s
      else let cut = take (nat width) s; space = rfind_char SP cut in
        rstrip_chars (lit '' ,;:.'') (if width - max 1 (width div 4) \<le> space then take (nat space) cut else cut) @ [ELLIPSIS])"

definition one_line_text :: "pystr \<Rightarrow> int \<Rightarrow> pystr" where
  "one_line_text s width = clamp (one_line (sanitize s)) width"

section \<open>Scalars of a prompt\<close>

definition without_separator :: "int \<Rightarrow> int" where
  "without_separator c = (if c = 8232 \<or> c = 8233 then SP else c)"

definition prompt_scalar :: "pystr \<Rightarrow> pystr" where
  "prompt_scalar s = map without_separator (sanitize s)"

definition SECTION_TOKEN :: pystr where "SECTION_TOKEN = lit ''###''"
definition SECTION_NEUTRALIZED :: pystr where "SECTION_NEUTRALIZED = [35, JOINER, 35, 35]"

definition prompt_header_scalar :: "pystr \<Rightarrow> pystr" where
  "prompt_header_scalar s = replace_text SECTION_TOKEN SECTION_NEUTRALIZED (one_line (prompt_scalar s))"

definition is_one_line :: "pystr \<Rightarrow> bool" where
  "is_one_line path \<longleftrightarrow> NL \<notin> set path \<and> 13 \<notin> set path"

section \<open>The fence closes once\<close>

text \<open>An occurrence of a text without a character lies on one side of each occurrence of it.\<close>

lemma occurrence_side:
  assumes "a @ c # b = us @ p @ vs" and "c \<notin> set p"
  shows "sublist p a \<or> (\<exists>us'. us = a @ c # us' \<and> b = us' @ p @ vs)"
proof -
  consider (left) ws where "a = us @ ws" "ws @ c # b = p @ vs" | (right) ws where "us = a @ ws" "c # b = ws @ p @ vs"
    using append_eq_append_conv2 [THEN iffD1, OF assms(1)] by metis
  then show ?thesis
  proof cases
    case left
    then consider ps where "ws = p @ ps" | ps where "p = ws @ ps" "ps @ vs = c # b"
      using append_eq_append_conv2 [THEN iffD1, OF left(2)] by metis
    then show ?thesis
    proof cases
      case 1
      then show ?thesis
        using left(1) by (auto simp: sublist_def)
    next
      case 2
      then have "ps = []"
        using assms(2) by (cases ps) auto
      then show ?thesis
        using left(1) 2(1) by (auto simp: sublist_def intro: exI [of _ us])
    qed
  next
    case right
    then show ?thesis
      using assms(2) by (cases ws) (auto simp: Cons_eq_append_conv)
  qed
qed

lemma neutral_inside: "\<not> sublist fence_end (neutralize_fence s)"
proof
  assume "sublist fence_end (neutralize_fence s)"
  moreover have "fence_end = (FENCE_TOKEN @ [59]) @ lit ''end>>>''"
    by (simp add: fence_end_def)
  ultimately have "sublist (FENCE_TOKEN @ [59]) (neutralize_fence s)"
    by (metis sublist_append_rightI sublist_order.order.trans)
  then show False
    using replaced_token [of JOINER FENCE_TOKEN 59 s]
    by (simp add: neutralize_fence_def FENCE_NEUTRALIZED_def JOINER_def FENCE_TOKEN_def)
qed

lemma neutral_restored: "filter (\<lambda>c. c \<noteq> JOINER) (neutralize_fence s) = filter (\<lambda>c. c \<noteq> JOINER) s"
proof (induction s rule: length_induct)
  case (1 s)
  show ?case
  proof (cases "prefix FENCE_TOKEN s")
    case True
    then obtain rest where s: "s = FENCE_TOKEN @ rest"
      by (auto simp: prefix_def)
    have token: "FENCE_TOKEN \<noteq> []" "filter (\<lambda>c. c \<noteq> JOINER) FENCE_NEUTRALIZED = filter (\<lambda>c. c \<noteq> JOINER) FENCE_TOKEN"
      by (simp_all add: FENCE_TOKEN_def FENCE_NEUTRALIZED_def)
    then have "length rest < length s"
      by (simp add: s)
    then have "filter (\<lambda>c. c \<noteq> JOINER) (neutralize_fence rest) = filter (\<lambda>c. c \<noteq> JOINER) rest"
      using 1 by blast
    moreover have "neutralize_fence s = FENCE_NEUTRALIZED @ neutralize_fence rest"
      by (simp add: s neutralize_fence_def replace_text_at token(1))
    ultimately show ?thesis
      by (simp only: s filter_append token(2))
  next
    case False
    then show ?thesis
      using 1 by (cases s) (simp_all add: neutralize_fence_def)
  qed
qed

section \<open>Section markers\<close>

lemma marker_starts: "prefix [35] (replace_text SECTION_TOKEN SECTION_NEUTRALIZED s) \<longleftrightarrow> prefix [35] s"
  by (cases s) (auto simp: SECTION_TOKEN_def SECTION_NEUTRALIZED_def)

lemma marker_never_grows:
  assumes "\<not> prefix SECTION_TOKEN (c # s)"
  shows "\<not> prefix SECTION_TOKEN (c # replace_text SECTION_TOKEN SECTION_NEUTRALIZED s)"
  using assms marker_starts [of "tl s"]
  by (cases s) (auto simp: SECTION_TOKEN_def SECTION_NEUTRALIZED_def JOINER_def)

lemma marker_survives:
  "contains SECTION_TOKEN (replace_text SECTION_TOKEN SECTION_NEUTRALIZED s) \<longleftrightarrow> contains (SECTION_TOKEN @ [35]) s"
proof (induction s rule: length_induct)
  case (1 s)
  show ?case
  proof (cases "prefix SECTION_TOKEN s")
    case True
    then obtain rest where s: "s = SECTION_TOKEN @ rest"
      by (auto simp: prefix_def)
    then have "length rest < length s"
      by (simp add: SECTION_TOKEN_def)
    then have rest: "contains SECTION_TOKEN (replace_text SECTION_TOKEN SECTION_NEUTRALIZED rest) \<longleftrightarrow> contains (SECTION_TOKEN @ [35]) rest"
      using 1 by blast
    have "replace_text SECTION_TOKEN SECTION_NEUTRALIZED s = [35, JOINER, 35, 35] @ replace_text SECTION_TOKEN SECTION_NEUTRALIZED rest"
      by (simp add: s replace_text_at SECTION_NEUTRALIZED_def) (simp add: SECTION_TOKEN_def)
    moreover have "contains SECTION_TOKEN ([35, JOINER, 35, 35] @ r) \<longleftrightarrow> prefix [35] r \<or> contains SECTION_TOKEN r" for r
      by (cases r) (auto simp: contains_Cons SECTION_TOKEN_def JOINER_def)
    moreover have "contains (SECTION_TOKEN @ [35]) s \<longleftrightarrow> prefix [35] rest \<or> contains (SECTION_TOKEN @ [35]) rest"
      by (cases rest) (auto simp: s contains_Cons SECTION_TOKEN_def)
    ultimately show ?thesis
      using rest marker_starts by simp
  next
    case False
    show ?thesis
    proof (cases s)
      case (Cons c s')
      then have "\<not> prefix SECTION_TOKEN (c # replace_text SECTION_TOKEN SECTION_NEUTRALIZED s')"
        using False marker_never_grows by blast
      moreover have "\<not> prefix (SECTION_TOKEN @ [35]) s"
        using False append_prefixD by blast
      ultimately show ?thesis
        using 1 False Cons by (simp add: contains_Cons)
    qed (simp add: SECTION_TOKEN_def)
  qed
qed

section \<open>One line\<close>

lemma one_line_chars: "c \<in> set (one_line s) \<Longrightarrow> c = SP \<or> c \<in> set s \<and> \<not> is_space c"
proof -
  have join: "c \<in> set (join [SP] ws) \<Longrightarrow> c = SP \<or> (\<exists>w \<in> set ws. c \<in> set w)" for ws
    by (induction "[SP]" ws rule: join.induct) auto
  have parts: "w \<in> set (split_ws s) \<Longrightarrow> set w \<subseteq> {d \<in> set s. \<not> is_space d}" for w
    by (induction s rule: split_ws.induct) (auto dest: set_takeWhileD set_dropWhileD split: if_splits)
  assume "c \<in> set (one_line s)"
  then show ?thesis
    using join parts by (fastforce simp: one_line_def)
qed

lemma clamp_bounds:
  assumes "0 < width"
  shows "int (length (clamp s width)) \<le> width + 1 \<and> set (clamp s width) \<subseteq> insert ELLIPSIS (set s)"
proof -
  have cut: "length (rstrip_chars cs a) \<le> length a \<and> set (rstrip_chars cs a) \<subseteq> set a" for cs a
    unfolding rstrip_chars_def length_rev set_rev
    using length_dropWhile_le [of _ "rev a"] by (auto dest: set_dropWhileD)
  define space where "space = rfind_char SP (take (nat width) s)"
  define kept where "kept = (if width - max 1 (width div 4) \<le> space then take (nat space) (take (nat width) s) else take (nat width) s)"
  have kept: "int (length kept) \<le> width" "set kept \<subseteq> set s"
    using assms by (auto simp: kept_def dest: in_set_takeD)
  have "clamp s width = (if int (length s) \<le> width then s else rstrip_chars (lit '' ,;:.'') kept @ [ELLIPSIS])"
    using assms unfolding clamp_def space_def kept_def Let_def by simp
  moreover have "int (length (rstrip_chars cs kept)) \<le> width" "set (rstrip_chars cs kept) \<subseteq> set s" for cs
    using cut [of cs kept] kept by auto
  moreover have "set (rstrip_chars cs kept @ [ELLIPSIS]) \<subseteq> insert ELLIPSIS (set s)" if "set (rstrip_chars cs kept) \<subseteq> set s" for cs
    using that by auto
  ultimately show ?thesis
    using assms by (cases "int (length s) \<le> width") (auto simp del: lit_Cons lit_Nil)
qed

section \<open>Properties\<close>


text \<open>
  C40. Which header scalars can spell a section marker: exactly those whose text, on one line, has four
  number signs in a row. The neutralization breaks every marker it finds from the left, and what is left
  of a longer run makes a new one.
\<close>

theorem header_marker_survives_iff:
  "contains SECTION_TOKEN (prompt_header_scalar s) \<longleftrightarrow> contains (lit ''####'') (one_line (prompt_scalar s))"
  unfolding prompt_header_scalar_def marker_survives by (simp add: SECTION_TOKEN_def)

text \<open>
  Text put on one line is one line within its width: no control character, no whitespace but single
  spaces, and at most one character more than the width, the ellipsis.
\<close>

theorem one_line_text_safe:
  assumes "0 < width" and "c \<in> set (one_line_text s width)"
  shows "(c = SP \<or> \<not> is_space c) \<and> \<not> is_control c \<and> int (length (one_line_text s width)) \<le> width + 1"
proof -
  have "c = ELLIPSIS \<or> c \<in> set (one_line (sanitize s))"
    using clamp_bounds [OF assms(1)] assms(2) by (auto simp: one_line_text_def)
  then have "c = ELLIPSIS \<or> c = SP \<or> c \<in> set (sanitize s) \<and> \<not> is_space c"
    using one_line_chars by blast
  then show ?thesis
    using clamp_bounds [OF assms(1)] by (auto simp: one_line_text_def sanitize_def ELLIPSIS_def is_space_def is_control_def)
qed

theorem one_line_text_safe_witness: "\<not> is_control 65 \<and> length (one_line_text (lit ''A'') 1) \<le> 2"
proof -
  have "one_line_text (lit ''A'') 1 = lit ''A''"
    by code_simp
  then show ?thesis
    using one_line_text_safe [of 1 65 "lit ''A''"] by simp
qed

end
