(* ===== verification/Answer_Check.thy ===== *)
theory Answer_Check
  imports Untrusted_Text Fragments Py_Url Complex_Main
begin

text \<open>
  The verifier of answers, \<open>stigmergy/answer/numbers.py\<close> and \<open>answer/verify_answer.py\<close>: every figure of an
  answer is one the evidence of its run holds, and every citation names a page the run surfaced and quotes
  it. A figure is the rational it reads as, rounded to the six significant digits \<open>_canon\<close> prints, with
  whether it is a percentage; the rounding of floats before that is not modelled. \<open>digit\<close> is the value of a
  decimal digit of Unicode. The normalized page is computed for each citation, not cached.
\<close>

section \<open>Tokens\<close>

definition NUMBER_TOKEN :: "unicode \<Rightarrow> regex" where
  "NUMBER_TOKEN u =
     (let d = Sat (is_decimal u); sep = any_of (lit ''.,''); space = Sat is_space in
      seq [Behind False (\<lambda>c. is_word u c \<or> c \<in> set (lit ''.,'')),
        Group 1 (alt [seq [between True 1 3 d, plus (seq [sep, exactly 3 d]), opt (seq [sep, plus d])], seq [plus d, opt (seq [sep, plus d])]]),
        opt space, opt (Group 2 (alt [word (lit ''bn''), any_of (lit ''kKmMbBxX'')])), opt space, opt (Group 3 (chr 37)),
        Ahead False (Sat (is_word u))])"

definition MAGNITUDE :: "pystr \<Rightarrow> rat option" where
  "MAGNITUDE sfx = map_of [(lit ''k'', 10 ^ 3), (lit ''m'', 10 ^ 6), (lit ''b'', 10 ^ 9), (lit ''bn'', 10 ^ 9)] sfx"

section \<open>Readings of a number\<close>

definition digits_of :: "(int \<Rightarrow> nat) \<Rightarrow> pystr \<Rightarrow> nat" where
  "digits_of digit s = foldl (\<lambda>n c. 10 * n + digit c) 0 s"

text \<open>\<open>float(s)\<close> of digits with at most one point.\<close>

definition decimal_value :: "(int \<Rightarrow> nat) \<Rightarrow> pystr \<Rightarrow> rat option" where
  "decimal_value digit s =
     (case split_on 46 s of
        [a] \<Rightarrow> Some (of_nat (digits_of digit a))
      | [a, b] \<Rightarrow> Some (of_nat (digits_of digit (a @ b)) / 10 ^ length b)
      | _ \<Rightarrow> None)"

definition number_values :: "(int \<Rightarrow> nat) \<Rightarrow> pystr \<Rightarrow> rat list" where
  "number_values digit num =
     (if 46 \<in> set num \<and> 44 \<in> set num then
        let dec = (if rfind_char 44 num < rfind_char 46 num then 46 else 44); thou = (if dec = 46 then 44 else 46) in
        (case decimal_value digit (map (\<lambda>c. if c = dec then 46 else c) (filter (\<lambda>c. c \<noteq> thou) num)) of None \<Rightarrow> [] | Some v \<Rightarrow> [v])
      else if 46 \<in> set num \<or> 44 \<in> set num then
        let sep = (if 46 \<in> set num then 46 else 44) in
        (case split_on sep num of
           [head, tail] \<Rightarrow>
             (if length tail = 3 then [of_nat (digits_of digit (head @ tail))] else []) @ [of_nat (digits_of digit (head @ tail)) / 10 ^ length tail]
         | parts \<Rightarrow> [of_nat (digits_of digit (concat parts))])
      else [of_nat (digits_of digit num)])"

section \<open>Six significant digits\<close>

definition half_even :: "rat \<Rightarrow> int" where
  "half_even x =
     (let low = floor x; rest = x - of_int low in
      if rest < 1 / 2 \<or> rest = 1 / 2 \<and> even low then low else low + 1)"

text \<open>The power of ten of the first digit of a positive number.\<close>

definition decimal_exponent :: "rat \<Rightarrow> int" where
  "decimal_exponent v =
     (if 1 \<le> v then int (length (str_nat (nat (floor v)))) - 1
      else case find (\<lambda>n. 1 \<le> v * 10 ^ n) [0..<Suc (length (str_nat (nat (snd (quotient_of v)))))] of None \<Rightarrow> 0 | Some n \<Rightarrow> - int n)"

definition six_digits :: "rat \<Rightarrow> rat" where
  "six_digits v =
     (if v = 0 then 0
      else let e = decimal_exponent v - 5 in
        if 0 \<le> e then of_int (half_even (v / 10 ^ nat e)) * 10 ^ nat e else of_int (half_even (v * 10 ^ nat (- e))) / 10 ^ nat (- e))"

type_synonym figure = "rat \<times> bool"

definition interpretations :: "unicode_more \<Rightarrow> (int \<Rightarrow> nat) \<Rightarrow> pystr \<Rightarrow> pystr option \<Rightarrow> pystr option \<Rightarrow> figure list" where
  "interpretations m digit num sfx pct =
     concat (map (\<lambda>v. [(six_digits v, False)] @
         (case sfx of None \<Rightarrow> [] | Some s \<Rightarrow> (case MAGNITUDE (lower m s) of None \<Rightarrow> [] | Some mag \<Rightarrow> [(six_digits (v * mag), False)])) @
         (if pct = None then [] else [(six_digits v, True)]))
       (number_values digit num))"

definition figure_claimed :: "unicode_more \<Rightarrow> (int \<Rightarrow> nat) \<Rightarrow> pystr \<Rightarrow> pystr option \<Rightarrow> pystr option \<Rightarrow> figure list" where
  "figure_claimed m digit num sfx pct =
     (case Option.bind sfx (MAGNITUDE \<circ> lower m) of
        Some mag \<Rightarrow> map (\<lambda>v. (six_digits (v * mag), False)) (number_values digit num)
      | None \<Rightarrow> map (\<lambda>v. (six_digits v, pct \<noteq> None)) (number_values digit num))"

section \<open>Figures of an answer\<close>

record number_tables =
  nt_unicode :: unicode
  nt_more :: unicode_more
  nt_digit :: "int \<Rightarrow> nat"

definition token_number :: "found \<Rightarrow> pystr" where
  "token_number t = (case group_of t 1 of None \<Rightarrow> [] | Some num \<Rightarrow> num)"

definition number_pool :: "number_tables \<Rightarrow> pystr \<Rightarrow> figure list" where
  "number_pool n s =
     concat (map (\<lambda>t. interpretations (nt_more n) (nt_digit n) (token_number t) (group_of t 2) (group_of t 3)) (finditer (NUMBER_TOKEN (nt_unicode n)) s))"

definition token_claim :: "number_tables \<Rightarrow> found \<Rightarrow> figure list" where
  "token_claim n t = figure_claimed (nt_more n) (nt_digit n) (token_number t) (group_of t 2) (group_of t 3)"

text \<open>A single digit, as a marker of a list has.\<close>

definition bare_digit :: "number_tables \<Rightarrow> found \<Rightarrow> bool" where
  "bare_digit n t \<longleftrightarrow>
     length (filter (is_decimal (nt_unicode n)) (token_number t)) = 1 \<and> group_of t 2 = None \<and> group_of t 3 = None"

fun unverified_from :: "number_tables \<Rightarrow> figure list \<Rightarrow> pystr \<Rightarrow> pystr list \<Rightarrow> found list \<Rightarrow> pystr list" where
  "unverified_from n pool s shown [] = []"
| "unverified_from n pool s shown (t # ts) =
     (let display = strip (matched s t) in
      if bare_digit n t \<or> display \<in> set shown then unverified_from n pool s shown ts
      else (if set (token_claim n t) \<inter> set pool = {} then [display] else []) @ unverified_from n pool s (display # shown) ts)"

definition unverified_figures :: "number_tables \<Rightarrow> pystr \<Rightarrow> pystr \<Rightarrow> pystr list" where
  "unverified_figures n answer evidence =
     unverified_from n (number_pool n evidence) answer [] (finditer (NUMBER_TOKEN (nt_unicode n)) answer)"

section \<open>What a renderer strips\<close>

definition PAIR_SPAN :: nat where "PAIR_SPAN = 200"

definition WIKILINK_SPAN :: regex where
  "WIKILINK_SPAN = seq [word (lit ''[[''), Group 1 (between True 1 PAIR_SPAN (none_of [93, 124, 10])),
     opt (seq [chr 124, Group 2 (between True 1 PAIR_SPAN (none_of [93, 10]))]), word (lit '']]'')]"

definition MDLINK_SPAN :: regex where
  "MDLINK_SPAN = seq [chr 91, Group 1 (between True 1 PAIR_SPAN (none_of [93, 10])), word (lit '']''), chr 40,
     Group 2 (between True 0 500 (Sat (\<lambda>c. c \<noteq> 41 \<and> \<not> is_space c))), chr 41]"

definition lazy_span :: regex where
  "lazy_span = Group 1 (between False 1 PAIR_SPAN (none_of [10]))"

definition STRIKE :: regex where
  "STRIKE = seq [word (lit ''~~''), lazy_span, word (lit ''~~'')]"

definition paired_with :: "pystr \<Rightarrow> regex" where
  "paired_with mark = seq [word mark, lazy_span, word mark]"

definition bounded_pair :: "pystr \<Rightarrow> regex" where
  "bounded_pair mark = seq [Behind False ascii_alnum, word mark, lazy_span, word mark, Ahead False (Sat ascii_alnum)]"

definition PAIRED :: "regex list" where
  "PAIRED = [paired_with (lit ''***''), paired_with (lit ''**''), bounded_pair (lit ''*''), seq [plus (chr 96), lazy_span, plus (chr 96)],
     bounded_pair (lit ''___''), bounded_pair (lit ''__''), bounded_pair (lit ''_'')]"

definition group_text :: "nat \<Rightarrow> found \<Rightarrow> pystr" where
  "group_text i t = (case group_of t i of None \<Rightarrow> [] | Some s \<Rightarrow> s)"

definition derender_pairs :: "pystr \<Rightarrow> pystr" where
  "derender_pairs s = foldl (\<lambda>s r. re_sub r (group_text 1) s) s PAIRED"

definition without_struck :: "pystr \<Rightarrow> pystr" where
  "without_struck s = re_sub STRIKE (\<lambda>_. [SP]) s"

definition derender_page :: "pystr \<Rightarrow> pystr" where
  "derender_page s =
     derender_pairs (without_struck (re_sub MDLINK_SPAN (group_text 1)
       (re_sub WIKILINK_SPAN (\<lambda>t. if group_text 2 t \<noteq> [] then group_text 2 t else group_text 1 t) s)))"

definition fold_char :: "int \<Rightarrow> pystr" where
  "fold_char c =
     (if c \<in> {8216, 8217, 8218, 8219} then [39] else if c \<in> {8220, 8221, 8222, 8223} then [34]
      else if c = 8230 then lit ''...'' else [c])"

definition fold_text :: "unicode_more \<Rightarrow> pystr \<Rightarrow> pystr" where
  "fold_text m s = concat (map fold_char (nfc m s))"

definition spaced_once :: "unicode_more \<Rightarrow> pystr \<Rightarrow> pystr" where
  "spaced_once m s = lower m (strip (re_sub (plus (Sat is_space)) (\<lambda>_. [SP]) (fold_text m s)))"

definition normalize_page :: "unicode_more \<Rightarrow> pystr \<Rightarrow> pystr" where
  "normalize_page m s = spaced_once m (derender_page s)"

definition normalize_quote :: "unicode_more \<Rightarrow> pystr \<Rightarrow> pystr" where
  "normalize_quote m s = spaced_once m (derender_pairs s)"

definition normalize_page_source :: "unicode_more \<Rightarrow> pystr \<Rightarrow> pystr" where
  "normalize_page_source m s = normalize_quote m (without_struck s)"

section \<open>Citations\<close>

record citation =
  cit_path :: pystr
  cit_quote :: pystr

record cited_page =
  cited_title :: pystr
  cited_body :: pystr

definition cited_text :: "cited_page \<Rightarrow> pystr" where
  "cited_text p = cited_title p @ [SP] @ cited_body p"

definition quotes :: "unicode_more \<Rightarrow> pystr \<Rightarrow> cited_page \<Rightarrow> bool" where
  "quotes m quote p \<longleftrightarrow> contains quote (normalize_page m (cited_text p)) \<or> contains quote (normalize_page_source m (cited_text p))"

definition citation_problem :: "unicode_more \<Rightarrow> (pystr \<Rightarrow> pystr) \<Rightarrow> (pystr \<Rightarrow> cited_page option) \<Rightarrow> pystr list \<Rightarrow> citation \<Rightarrow> pystr option" where
  "citation_problem m repr get_page read_paths c =
     (let path = fst (parse_reference (cit_path c)) in
      if path \<notin> set read_paths then Some (lit ''citation to a page the run never surfaced: '' @ cit_path c)
      else case get_page path of
        None \<Rightarrow> Some (lit ''citation to an unknown page: '' @ cit_path c)
      | Some p \<Rightarrow>
          let quote = normalize_quote m (cit_quote c) in
          if quote = [] then Some (lit ''citation with no quote: '' @ cit_path c)
          else if \<not> quotes m quote p
          then Some (lit ''citation quote not found in '' @ cit_path c @ lit '': '' @ repr (take 80 (cit_quote c)))
          else None)"

definition check_citations :: "unicode_more \<Rightarrow> (pystr \<Rightarrow> pystr) \<Rightarrow> citation list \<Rightarrow> (pystr \<Rightarrow> cited_page option) \<Rightarrow> pystr list \<Rightarrow> pystr list" where
  "check_citations m repr cs get_page read_paths = List.map_filter (citation_problem m repr get_page read_paths) cs"

section \<open>The verdict\<close>

record answer_output =
  out_refused :: bool
  out_answer :: pystr
  out_citations :: "citation list"

datatype answer_verdict = Verified | Partial | Failed

record answer_check =
  ac_verdict :: answer_verdict
  ac_figures :: "pystr list"
  ac_problems :: "pystr list"

definition verify_answer :: "number_tables \<Rightarrow> (pystr \<Rightarrow> pystr) \<Rightarrow> answer_output \<Rightarrow> pystr \<Rightarrow> (pystr \<Rightarrow> cited_page option) \<Rightarrow> pystr list \<Rightarrow> answer_check" where
  "verify_answer n repr out evidence get_page read_paths =
     (if out_refused out then \<lparr>ac_verdict = Verified, ac_figures = [], ac_problems = []\<rparr>
      else let figures = unverified_figures n (out_answer out) evidence;
               problems = check_citations (nt_more n) repr (out_citations out) get_page read_paths @
                 (if out_citations out = [] \<and> strip (out_answer out) \<noteq> [] then [lit ''answer carries no citations''] else []);
               count = length figures + length problems in
        \<lparr>ac_verdict = (if count = 0 then Verified else if count = 1 then Partial else Failed), ac_figures = figures, ac_problems = problems\<rparr>)"

definition feedback :: "pystr \<Rightarrow> answer_output \<Rightarrow> answer_check \<Rightarrow> pystr" where
  "feedback question out c =
     question @ [NL, NL] @ lit ''A previous attempt answered:'' @ [NL] @ lit ''---'' @ [NL] @ take 2000 (out_answer out) @ [NL] @ lit ''---'' @ [NL] @
     lit ''DETERMINISTIC VERIFIER: '' @
     join (lit ''; '')
       ((if ac_figures c = [] then []
         else [lit ''these figures do NOT appear in any tool result you gathered: '' @ join (lit '', '') (ac_figures c)]) @
        (if ac_problems c = [] then [] else [lit ''citation problems: '' @ join (lit ''; '') (ac_problems c)])) @
     lit ''. Re-answer using ONLY figures present in tool results and verbatim quotes from surfaced pages '' @ [8212] @
     lit '' or refuse if the evidence is insufficient.''"

section \<open>Sound verdicts\<close>

lemma map_filter_Nil: "List.map_filter f xs = [] \<longleftrightarrow> (\<forall>x \<in> set xs. f x = None)"
  by (induction xs) (auto simp: List.map_filter_simps split: option.splits)

lemma unverified_from_Nil:
  assumes "unverified_from n pool s shown ts = []" and "t \<in> set ts" and "\<not> bare_digit n t"
    and "\<forall>d \<in> set shown. \<exists>t' \<in> set earlier. strip (matched s t') = d \<and> set (token_claim n t') \<inter> set pool \<noteq> {}"
  shows "\<exists>t' \<in> set (earlier @ ts). strip (matched s t') = strip (matched s t) \<and> set (token_claim n t') \<inter> set pool \<noteq> {}"
  using assms
proof (induction ts arbitrary: shown earlier)
  case (Cons x ts)
  let ?display = "strip (matched s x)"
  show ?case
  proof (cases "bare_digit n x \<or> ?display \<in> set shown")
    case True
    then have "unverified_from n pool s shown ts = []"
      using Cons.prems(1) by (simp add: Let_def)
    then show ?thesis
      using Cons.IH [of shown earlier] Cons.prems(2-4) True by auto
  next
    case False
    then have rest: "unverified_from n pool s (?display # shown) ts = []" and claim: "set (token_claim n x) \<inter> set pool \<noteq> {}"
      using Cons.prems(1) by (auto simp: Let_def split: if_splits)
    have "\<forall>d \<in> set (?display # shown). \<exists>t' \<in> set (earlier @ [x]). strip (matched s t') = d \<and> set (token_claim n t') \<inter> set pool \<noteq> {}"
      using Cons.prems(4) claim by auto
    then show ?thesis
      using Cons.IH [OF rest _ Cons.prems(3), of "earlier @ [x]"] Cons.prems(2) claim by auto
  qed
qed simp

lemma claimed_among_interpretations:
  "set (figure_claimed m digit num sfx pct) \<subseteq> set (interpretations m digit num sfx pct)"
  by (cases sfx) (auto simp: figure_claimed_def interpretations_def split: option.splits)

lemma token_claim_in_pool:
  "t \<in> set (finditer (NUMBER_TOKEN (nt_unicode n)) s) \<Longrightarrow> set (token_claim n t) \<subseteq> set (number_pool n s)"
  using claimed_among_interpretations unfolding token_claim_def number_pool_def by fastforce

lemma unverified_own:
  assumes "\<forall>t \<in> set ts. set (token_claim n t) \<subseteq> set pool" and "d \<in> set (unverified_from n pool s shown ts)"
  shows "\<exists>t \<in> set ts. strip (matched s t) = d \<and> number_values (nt_digit n) (token_number t) = []"
  using assms
proof (induction ts arbitrary: shown)
  case (Cons x ts)
  have "number_values (nt_digit n) (token_number x) = []" if "set (token_claim n x) \<inter> set pool = {}"
  proof -
    have "set (token_claim n x) = {}"
      using that Cons.prems(1) by (simp add: inf.absorb1)
    then show ?thesis
      by (simp add: token_claim_def figure_claimed_def split: option.splits)
  qed
  then show ?case
    using Cons.IH Cons.prems by (fastforce simp: Let_def split: if_splits)
qed simp

section \<open>A sample\<close>

definition ascii_numbers :: number_tables where
  "ascii_numbers = \<lparr>nt_unicode = ascii_unicode, nt_more = ascii_more, nt_digit = (\<lambda>c. nat (c - 48))\<rparr>"

definition sample_cited :: "pystr \<Rightarrow> cited_page option" where
  "sample_cited path = (if path = lit ''p'' then Some \<lparr>cited_title = lit ''T'', cited_body = lit ''*B*''\<rparr> else None)"

definition sample_answer :: answer_output where
  "sample_answer = \<lparr>out_refused = False, out_answer = lit ''2k'', out_citations = [\<lparr>cit_path = lit ''p'', cit_quote = lit ''B''\<rparr>]\<rparr>"

lemma sample_tokens:
  "finditer (NUMBER_TOKEN ascii_unicode) (lit ''2k'') =
     [\<lparr>from_pos = 0, to_pos = 2, captured = [(2, lit ''k''), (1, lit ''2'')]\<rparr>]"
  "finditer (NUMBER_TOKEN ascii_unicode) (lit ''2,000'') = [\<lparr>from_pos = 0, to_pos = 5, captured = [(1, lit ''2,000'')]\<rparr>]"
  by code_simp+

lemma sample_readings:
  "number_values (\<lambda>c. nat (c - 48)) [50] = [2]" "number_values (\<lambda>c. nat (c - 48)) [50, 44, 48, 48, 48] = [2000, 2]"
  "MAGNITUDE (lower ascii_more [107]) = Some 1000"
  by (simp_all add: number_values_def digits_of_def MAGNITUDE_def ascii_more_def ascii_lower_def)

lemma ascii_numbers_simps [simp]:
  "nt_unicode ascii_numbers = ascii_unicode" "nt_more ascii_numbers = ascii_more" "nt_digit ascii_numbers = (\<lambda>c. nat (c - 48))"
  by (simp_all add: ascii_numbers_def)

lemma sample_figures: "unverified_figures ascii_numbers (lit ''2k'') (lit ''2,000'') = []"
  by (simp add: unverified_figures_def number_pool_def sample_tokens [simplified] sample_readings bare_digit_def group_of_def
      token_claim_def token_number_def figure_claimed_def interpretations_def Let_def)

lemma sample_citations: "check_citations ascii_more (\<lambda>s. s) [\<lparr>cit_path = lit ''p'', cit_quote = lit ''B''\<rparr>] sample_cited [lit ''p''] = []"
  by code_simp

lemma sample_verified: "verify_answer ascii_numbers (\<lambda>s. s) sample_answer (lit ''2,000'') sample_cited [lit ''p''] = \<lparr>ac_verdict = Verified, ac_figures = [], ac_problems = []\<rparr>"
  using sample_figures sample_citations by (simp add: verify_answer_def sample_answer_def del: lit_Cons lit_Nil)

section \<open>Properties\<close>



text \<open>
  The evidence is read no more narrowly than the answer: an answer taken word for word from its
  evidence has no unverified figure but those that read as no number at all, as one with several points
  and several commas does.
\<close>

theorem quoted_figures_are_verified:
  "set (unverified_figures n evidence evidence) \<subseteq>
     {strip (matched evidence t) | t. t \<in> set (finditer (NUMBER_TOKEN (nt_unicode n)) evidence) \<and> number_values (nt_digit n) (token_number t) = []}"
  using unverified_own [of _ n "number_pool n evidence"] token_claim_in_pool unfolding unverified_figures_def by blast

end
