(* ===== verification/Ranking.thy ===== *)
theory Ranking
  imports Untrusted_Text Layer_Bodies Corpus "HOL-Library.List_Lexorder" "HOL-Library.Product_Lexorder" Complex_Main
begin

text \<open>
  The ranking of search hits, \<open>stigmergy/index/rank.py\<close>: rankings fused by reciprocal rank, the factors of a
  page's contract, the snippet and the summary of a hit. Scores are rationals, so the rounding of floats is
  not modelled. A page's \<open>updated\<close> is a day in the form \<open>YYYY-MM-DD\<close> or no day; the compact and week forms
  \<open>date.fromisoformat\<close> also reads, which no row carries, are not modelled.
\<close>

definition TOP_K :: nat where "TOP_K = 5"
definition RRF_K :: nat where "RRF_K = 60"
definition CANDIDATE_POOL :: nat where "CANDIDATE_POOL = 40"
definition BOOST_ENTITY :: rat where "BOOST_ENTITY = 1 / 2"
definition BOOST_EVERGREEN :: rat where "BOOST_EVERGREEN = 4 / 5"
definition PENALTY_STALE :: rat where "PENALTY_STALE = 13 / 10"
definition STALE_AFTER_DAYS :: int where "STALE_AFTER_DAYS = 365"

definition ARM_WEIGHTS :: "pystr \<Rightarrow> rat" where
  "ARM_WEIGHTS arm = (if arm = lit ''graph'' then 1 / 4 else 1)"

section \<open>Fusing rankings\<close>

type_synonym ranking = "pystr \<times> pystr list"

definition rank_share :: "nat \<Rightarrow> rat \<Rightarrow> pystr list \<Rightarrow> pystr \<Rightarrow> rat" where
  "rank_share k weight ranked page =
     sum_list (map (\<lambda>(i, p). if p = page then weight / of_nat (k + Suc i) else 0) (enumerate 0 ranked))"

definition rrf_score :: "nat \<Rightarrow> ranking list \<Rightarrow> pystr \<Rightarrow> rat" where
  "rrf_score k rankings page = sum_list (map (\<lambda>(arm, ranked). rank_share k (ARM_WEIGHTS arm) ranked page) rankings)"

definition rrf_fuse :: "nat \<Rightarrow> ranking list \<Rightarrow> (pystr \<times> rat) list" where
  "rrf_fuse k rankings = map (\<lambda>p. (p, rrf_score k rankings p)) (fromkeys (concat (map snd rankings)))"

section \<open>What a page's contract adds\<close>

record rank_page =
  rp_path :: pystr
  rp_vpath :: pystr
  rp_status :: pystr
  rp_links :: "pystr list"
  rp_updated :: pystr
  rp_body :: pystr

text \<open>Days since 1970-01-01 of a date given as \<open>yyyymmdd\<close>.\<close>

definition day_number :: "nat \<Rightarrow> int" where
  "day_number date =
     (let y = int (date div 10000); m = int (date div 100 mod 100); d = int (date mod 100);
          year = (if m \<le> 2 then y - 1 else y); era = year div 400; yoe = year - era * 400;
          doy = (153 * (if 2 < m then m - 3 else m + 9) + 2) div 5 + d - 1; doe = yoe * 365 + yoe div 4 - yoe div 100 + doy
      in era * 146097 + doe - 719468)"

definition date_of :: "pystr \<Rightarrow> nat option" where
  "date_of s =
     (let t = take 10 s in if length t = 10 \<and> t ! 4 = 45 \<and> t ! 7 = 45 then iso_date t else None)"

definition own_path :: "rank_page \<Rightarrow> pystr" where
  "own_path p = (if rp_vpath p \<noteq> [] then rp_vpath p else rp_path p)"

definition named_hints :: "rank_page \<Rightarrow> pystr list \<Rightarrow> pystr list" where
  "named_hints p hints = filter (\<lambda>h. own_path p = h \<or> h \<in> set (rp_links p)) hints"

definition contract_factors :: "rank_page \<Rightarrow> nat option \<Rightarrow> pystr list \<Rightarrow> (rat \<times> pystr) list" where
  "contract_factors p today hints =
     (let named = named_hints p hints in
      (if rp_status p = lit ''evergreen'' then [(BOOST_EVERGREEN, lit ''status-evergreen'')] else []) @
      map (\<lambda>(i, h). (if i = 0 then BOOST_ENTITY else 1, lit ''entity:'' @ h)) (enumerate 0 named) @
      (if 1 < length hints \<and> length named = length hints then [(BOOST_ENTITY, lit ''entities:all'')] else []) @
      (case (today, date_of (rp_updated p)) of
         (Some now, Some day) \<Rightarrow>
           if STALE_AFTER_DAYS < day_number now - day_number day then [(PENALTY_STALE, lit ''stale:'' @ take 10 (rp_updated p))] else []
       | _ \<Rightarrow> []))"

definition scored :: "rat \<Rightarrow> (rat \<times> pystr) list \<Rightarrow> rat" where
  "scored base factors = foldl (\<lambda>score f. score / fst f) base factors"

section \<open>Snippets\<close>

definition query_tokens :: "unicode \<Rightarrow> unicode_more \<Rightarrow> pystr \<Rightarrow> pystr list" where
  "query_tokens u v query =
     (let s = lower v query in
      fromkeys (map (matched s) (finditer (seq [Sat (is_word u), Star True (Sat (\<lambda>c. is_word u c \<or> c = 39 \<or> c = 45))]) s)))"

definition collapse_spaces :: "pystr \<Rightarrow> pystr" where
  "collapse_spaces s = re_sub (plus (Sat is_space)) (\<lambda>_. [SP]) s"

text \<open>The first token, longest first, the text has, if it is long enough.\<close>

definition snippet_start :: "unicode_more \<Rightarrow> pystr \<Rightarrow> pystr list \<Rightarrow> nat \<Rightarrow> nat" where
  "snippet_start v body tokens width =
     (let lowered = lower v body in
      case find (\<lambda>t. 3 \<le> length t \<and> contains t lowered) (sort_key (\<lambda>t. (- int (length t), t)) tokens) of
        None \<Rightarrow> 0
      | Some t \<Rightarrow> (case find_sub t lowered of None \<Rightarrow> 0 | Some i \<Rightarrow> i - width div 3))"

definition snippet :: "unicode_more \<Rightarrow> pystr \<Rightarrow> pystr list \<Rightarrow> nat \<Rightarrow> pystr" where
  "snippet v body tokens width =
     (let shown = strip_markers body; start = snippet_start v shown tokens width in
      sanitize (strip (collapse_spaces (slice shown start (start + width)))))"

section \<open>Summaries\<close>

definition SUMMARY_WIDTH :: nat where "SUMMARY_WIDTH = 240"
definition SUMMARY_SCAN_CHARS :: nat where "SUMMARY_SCAN_CHARS = 8192"

definition FENCE_LINE :: regex where
  "FENCE_LINE = seq [Star True (Sat is_space), alt [word [96, 96, 96], word (lit ''~~~'')]]"

definition NOT_PROSE :: "unicode \<Rightarrow> regex" where
  "NOT_PROSE u = seq [Star True (Sat is_space),
     alt [chr 35, seq [any_of (lit ''-*+''), Sat is_space], seq [plus (Sat (is_decimal u)), any_of (lit ''.)''), Sat is_space], chr 124, chr 62]]"

definition LIST_ITEM :: "unicode \<Rightarrow> regex" where
  "LIST_ITEM u = seq [Bol, Star True (Sat is_space), alt [any_of (lit ''-*+''), seq [plus (Sat (is_decimal u)), any_of (lit ''.)'')]], plus (Sat is_space)]"

definition CITATION_NOTE :: regex where
  "CITATION_NOTE = seq [Star True (Sat is_space), chr 40, alt [seq [word (lit ''Source''), opt (chr 115)], seq [word (lit ''Fuente''), opt (chr 115)]],
     chr 58, between True 0 600 (none_of [40, 41]), chr 41]"

definition SHOWN_WIKILINK :: regex where
  "SHOWN_WIKILINK = seq [word (lit ''[[''), Group 1 (between True 1 200 (none_of [91, 93, 124, 10])),
     opt (seq [chr 124, Group 2 (between True 1 200 (none_of [91, 93, 10]))]), word (lit '']]'')]"

definition SHOWN_MDLINK :: regex where
  "SHOWN_MDLINK = seq [chr 91, Group 1 (between True 1 200 (none_of [91, 93, 10])), chr 93, chr 40,
     between True 0 500 (Sat (\<lambda>c. c \<noteq> 40 \<and> c \<noteq> 41 \<and> \<not> is_space c)), chr 41]"

definition EMPHASIS :: regex where
  "EMPHASIS = seq [Group 1 (alt [between True 1 3 (chr 42), between True 1 3 (chr 95), between True 1 3 (chr 96)]),
     Group 2 (seq [Sat (\<lambda>c. \<not> is_space c), opt (seq [between False 0 200 (none_of [10]), Sat (\<lambda>c. \<not> is_space c)])]), Backref 1]"

definition SENTENCE_END :: regex where
  "SENTENCE_END = seq [Behind True (\<lambda>c. c \<in> set (lit ''.!?'')), plus (Sat is_space),
     Ahead True (Sat (\<lambda>c. 65 \<le> c \<and> c \<le> 90 \<or> ascii_digit c \<or> c \<in> {34, 8220, 40, 191, 161} \<or> 192 \<le> c \<and> c \<le> 222))]"

definition ABBREVIATION :: regex where
  "ABBREVIATION = seq [alt [Bol, Sat is_space],
     alt (map (word \<circ> lit) [''Dr'', ''Dra'', ''Mr'', ''Mrs'', ''Ms'', ''Sr'', ''Sra'', ''Prof'', ''St'', ''Inc'', ''Ltd'', ''Co'', ''vs'', ''e.g'', ''i.e'', ''approx'']),
     chr 46, Eol]"

definition starts_match :: "regex \<Rightarrow> pystr \<Rightarrow> bool" where
  "starts_match r s \<longleftrightarrow> match_at r s 0 \<noteq> None"

text \<open>The loop over the lines: the paragraph so far, the first list item, and whether a fence is open.\<close>

fun prose_lines :: "unicode \<Rightarrow> pystr list \<Rightarrow> pystr \<Rightarrow> bool \<Rightarrow> pystr list \<Rightarrow> pystr list \<times> pystr" where
  "prose_lines u par item in_fence [] = (par, item)"
| "prose_lines u par item in_fence (line # lines) =
     (if starts_match FENCE_LINE line then
        if par \<noteq> [] then (par, item) else prose_lines u par item (\<not> in_fence) lines
      else if in_fence then prose_lines u par item in_fence lines
      else if strip line = [] \<or> starts_match (NOT_PROSE u) line then
        let item' = (if item = [] \<and> starts_match (LIST_ITEM u) line then strip (re_sub (LIST_ITEM u) (\<lambda>_. []) line) else item) in
        if par \<noteq> [] then (par, item') else prose_lines u par item' in_fence lines
      else let par' = par @ [strip line] in
        if 4 * SUMMARY_WIDTH < sum_list (map length par') then (par', item) else prose_lines u par' item in_fence lines)"

definition first_paragraph :: "unicode \<Rightarrow> pystr \<Rightarrow> pystr" where
  "first_paragraph u body =
     (let (par, item) = prose_lines u [] [] False (splitlines body) in if par \<noteq> [] then join [SP] par else item)"

definition shown_group :: "nat \<Rightarrow> found \<Rightarrow> pystr" where
  "shown_group i t = (case group_of t i of None \<Rightarrow> [] | Some s \<Rightarrow> s)"

definition clean_prose :: "pystr \<Rightarrow> pystr" where
  "clean_prose s =
     (let a = re_sub CITATION_NOTE (\<lambda>_. []) (strip_markers s);
          b = re_sub SHOWN_WIKILINK (\<lambda>t. if shown_group 2 t \<noteq> [] then shown_group 2 t else shown_group 1 t) a;
          c = re_sub SHOWN_MDLINK (shown_group 1) b;
          d = re_sub EMPHASIS (shown_group 2) c
      in strip (collapse_spaces (sanitize d)))"

definition first_sentence :: "pystr \<Rightarrow> pystr" where
  "first_sentence s =
     (case find (\<lambda>t. search ABBREVIATION (slice s (from_pos t - 8) (from_pos t)) = None) (finditer SENTENCE_END s) of
        None \<Rightarrow> s
      | Some t \<Rightarrow> take (from_pos t) s)"

definition summary_of :: "unicode \<Rightarrow> pystr \<Rightarrow> pystr" where
  "summary_of u body = clamp (first_sentence (clean_prose (first_paragraph u (take SUMMARY_SCAN_CHARS body)))) (int SUMMARY_WIDTH)"

section \<open>The hits\<close>

record hit =
  hit_page :: rank_page
  hit_score :: rat
  hit_arms :: "pystr list"
  hit_factors :: "pystr list"
  hit_snippet :: pystr
  hit_summary :: pystr

definition hit_of :: "unicode \<Rightarrow> unicode_more \<Rightarrow> ranking list \<Rightarrow> pystr list \<Rightarrow> nat option \<Rightarrow> pystr list \<Rightarrow> pystr \<Rightarrow> rat \<Rightarrow> rank_page \<Rightarrow> hit" where
  "hit_of u v rankings tokens today hints key base p =
     (let factors = contract_factors p today hints in
      \<lparr>hit_page = p, hit_score = scored base factors, hit_arms = map fst (filter (\<lambda>(_, ranked). key \<in> set ranked) rankings),
       hit_factors = map snd factors, hit_snippet = snippet v (rp_body p) tokens 240, hit_summary = []\<rparr>)"

definition hit_key :: "hit \<Rightarrow> rat \<times> pystr" where
  "hit_key h = (- hit_score h, rp_path (hit_page h))"

definition all_hits :: "unicode \<Rightarrow> unicode_more \<Rightarrow> (pystr \<rightharpoonup> rank_page) \<Rightarrow> ranking list \<Rightarrow> pystr \<Rightarrow> nat option \<Rightarrow> pystr list \<Rightarrow> hit list" where
  "all_hits u v candidates rankings query today hints =
     concat (map (\<lambda>(key, base). case candidates key of None \<Rightarrow> []
         | Some p \<Rightarrow> [hit_of u v rankings (query_tokens u v query) today hints key base p])
       (rrf_fuse RRF_K rankings))"

definition rank_hits :: "unicode \<Rightarrow> unicode_more \<Rightarrow> (pystr \<rightharpoonup> rank_page) \<Rightarrow> ranking list \<Rightarrow> pystr \<Rightarrow> nat \<Rightarrow> nat option \<Rightarrow> pystr list \<Rightarrow> hit list" where
  "rank_hits u v candidates rankings query k today hints =
     map (\<lambda>h. h\<lparr>hit_summary := summary_of u (rp_body (hit_page h))\<rparr>) (take k (sort_key hit_key (all_hits u v candidates rankings query today hints)))"

section \<open>What a share of a ranking is worth\<close>

definition share_from :: "nat \<Rightarrow> nat \<Rightarrow> rat \<Rightarrow> pystr list \<Rightarrow> pystr \<Rightarrow> rat" where
  "share_from n k weight ranked page =
     sum_list (map (\<lambda>(i, p). if p = page then weight / of_nat (k + Suc i) else 0) (enumerate n ranked))"

lemma share_from_simps [simp]:
  "share_from n k weight [] page = 0"
  "share_from n k weight (p # ps) page = (if p = page then weight / of_nat (k + Suc n) else 0) + share_from (Suc n) k weight ps page"
  by (simp_all add: share_from_def)

lemma rank_share_from: "rank_share k weight ranked page = share_from 0 k weight ranked page"
  by (simp add: rank_share_def share_from_def)

lemma share_from_nonneg: "0 \<le> weight \<Longrightarrow> 0 \<le> share_from n k weight ranked page"
  by (induction ranked arbitrary: n) auto

lemma share_from_absent: "page \<notin> set ranked \<Longrightarrow> share_from n k weight ranked page = 0"
  by (induction ranked arbitrary: n) auto

lemma share_from_ge:
  "0 \<le> weight \<Longrightarrow> i < length ranked \<Longrightarrow> ranked ! i = page \<Longrightarrow> weight / of_nat (k + Suc (n + i)) \<le> share_from n k weight ranked page"
proof (induction ranked arbitrary: n i)
  case (Cons p ps)
  show ?case
  proof (cases i)
    case 0
    then show ?thesis
      using Cons.prems share_from_nonneg [of weight "Suc n" k ps page] by simp
  next
    case (Suc j)
    then have "weight / of_nat (k + Suc (Suc n + j)) \<le> share_from (Suc n) k weight ps page"
      using Cons.IH [of j "Suc n"] Cons.prems by simp
    moreover have "0 \<le> weight / of_nat (k + Suc n)"
      using Cons.prems(1) by simp
    ultimately show ?thesis
      using Suc by simp
  qed
qed simp

lemma share_from_le:
  "0 \<le> weight \<Longrightarrow> distinct ranked \<Longrightarrow> share_from n k weight ranked page \<le> weight / of_nat (k + Suc n)"
proof (induction ranked arbitrary: n)
  case (Cons p ps)
  show ?case
  proof (cases "p = page")
    case True
    then show ?thesis
      using Cons.prems share_from_absent [of page ps "Suc n" k weight] by simp
  next
    case False
    have "share_from (Suc n) k weight ps page \<le> weight / of_nat (k + Suc (Suc n))"
      using Cons.IH [of "Suc n"] Cons.prems by simp
    also have "\<dots> \<le> weight / of_nat (k + Suc n)"
      using Cons.prems(1) by (intro divide_left_mono) auto
    finally show ?thesis
      using False by simp
  qed
qed simp

lemma arm_weight_pos: "0 \<le> ARM_WEIGHTS arm"
  by (simp add: ARM_WEIGHTS_def)

lemma rrf_score_append: "rrf_score k (r @ s) page = rrf_score k r page + rrf_score k s page"
  by (simp add: rrf_score_def)

lemma rrf_score_nonneg: "0 \<le> rrf_score k rankings page"
  unfolding rrf_score_def by (rule sum_list_nonneg) (auto simp: rank_share_from share_from_nonneg arm_weight_pos)

lemma rrf_score_ge:
  assumes "(arm, ranked) \<in> set rankings" and "i < length ranked" and "ranked ! i = page"
  shows "ARM_WEIGHTS arm / of_nat (k + Suc i) \<le> rrf_score k rankings page"
proof -
  obtain r s where "rankings = r @ (arm, ranked) # s"
    using assms(1) split_list by metis
  then have "rrf_score k rankings page = rrf_score k r page + rank_share k (ARM_WEIGHTS arm) ranked page + rrf_score k s page"
    by (simp add: rrf_score_append) (simp add: rrf_score_def)
  moreover have "ARM_WEIGHTS arm / of_nat (k + Suc i) \<le> rank_share k (ARM_WEIGHTS arm) ranked page"
    using share_from_ge [OF arm_weight_pos assms(2,3), where k = k and n = 0] by (simp add: rank_share_from)
  ultimately show ?thesis
    using rrf_score_nonneg [of k r page] rrf_score_nonneg [of k s page] by linarith
qed

lemma rrf_score_absent: "\<forall>r \<in> set rankings. page \<notin> set (snd r) \<Longrightarrow> rrf_score k rankings page = 0"
  by (induction rankings) (auto simp: rrf_score_def rank_share_from share_from_absent)

section \<open>The best hits\<close>

lemma take_sorted_least:
  assumes "h \<in> set xs"
  shows "h \<in> set (take k (sort_key f xs)) \<or> (\<forall>g \<in> set (take k (sort_key f xs)). f g \<le> f h)"
proof (rule disjCI)
  assume later: "\<not> (\<forall>g \<in> set (take k (sort_key f xs)). f g \<le> f h)"
  then obtain g where g: "g \<in> set (take k (sort_key f xs))" "f h < f g"
    by auto
  have "h \<in> set (take k (sort_key f xs)) \<union> set (drop k (sort_key f xs))"
    using assms by (metis append_take_drop_id set_append set_sort)
  moreover have "sorted (map f (take k (sort_key f xs) @ drop k (sort_key f xs)))"
    unfolding append_take_drop_id by (rule sorted_sort_key)
  then have "h \<in> set (drop k (sort_key f xs)) \<Longrightarrow> f g \<le> f h"
    using g(1) unfolding map_append sorted_append by fastforce
  ultimately show "h \<in> set (take k (sort_key f xs))"
    using g(2) by auto
qed

definition without_summary :: "hit \<Rightarrow> hit" where
  "without_summary h = h\<lparr>hit_summary := []\<rparr>"

lemma all_hits_bare: "h \<in> set (all_hits u v candidates rankings query today hints) \<Longrightarrow> without_summary h = h"
  by (auto simp: all_hits_def hit_of_def without_summary_def Let_def split: option.splits)

section \<open>Properties\<close>

text \<open>
  A search shows its best hits: no more than it was asked for, in the order of their scores and then
  of their paths, each the hit of a candidate some ranking holds; and no such candidate is left out unless
  every hit shown comes before it.
\<close>

theorem rank_shows_the_best:
  "length (rank_hits u v candidates rankings query k today hints) \<le> k \<and>
   sorted (map hit_key (rank_hits u v candidates rankings query k today hints)) \<and>
   without_summary ` set (rank_hits u v candidates rankings query k today hints) \<subseteq> set (all_hits u v candidates rankings query today hints) \<and>
   set (all_hits u v candidates rankings query today hints) \<subseteq>
     without_summary ` set (rank_hits u v candidates rankings query k today hints) \<union>
     {h. hit_key ` set (rank_hits u v candidates rankings query k today hints) \<subseteq> {..hit_key h}} \<and>
   (\<lambda>h. hit_page h) ` set (all_hits u v candidates rankings query today hints) =
     {p. \<exists>key \<in> \<Union> (set ` snd ` set rankings). candidates key = Some p}"
proof -
  let ?all = "all_hits u v candidates rankings query today hints"
  let ?shown = "take k (sort_key hit_key ?all)"
  let ?hits = "rank_hits u v candidates rankings query k today hints"
  have hits: "?hits = map (\<lambda>h. h\<lparr>hit_summary := summary_of u (rp_body (hit_page h))\<rparr>) ?shown"
    by (simp add: rank_hits_def)
  then have keys: "map hit_key ?hits = map hit_key ?shown"
    by (simp add: hit_key_def)
  have sorted: "sorted (map hit_key ?hits)"
    unfolding keys take_map [symmetric] by (simp add: sorted_wrt_take)
  have in_all: "set ?shown \<subseteq> set ?all"
    using set_take_subset [of k "sort_key hit_key ?all"] by simp
  then have bare: "without_summary ` set ?hits = set ?shown"
    using all_hits_bare by (force simp: hits image_image without_summary_def)
  have same: "hit_key ` set ?hits = hit_key ` set ?shown"
    using keys by (metis list.set_map)
  have best: "set ?all \<subseteq> set ?shown \<union> {h. hit_key ` set ?hits \<subseteq> {..hit_key h}}"
  proof
    fix h
    assume "h \<in> set ?all"
    then have "h \<in> set ?shown \<or> (\<forall>g \<in> set ?shown. hit_key g \<le> hit_key h)"
      by (rule take_sorted_least)
    then show "h \<in> set ?shown \<union> {h. hit_key ` set ?hits \<subseteq> {..hit_key h}}"
      unfolding same by (simp add: image_subset_iff)
  qed
  have "(\<lambda>h. hit_page h) ` set ?all = {p. \<exists>key \<in> \<Union> (set ` snd ` set rankings). candidates key = Some p}"
    by (force simp: all_hits_def rrf_fuse_def hit_of_def Let_def split: option.splits)
  moreover have "length ?hits \<le> k"
    by (simp add: hits)
  ultimately show ?thesis
    using sorted in_all best unfolding bare by (intro conjI)
qed

text \<open>
  Links never outvote retrieval: whatever the rankings, a page the graph alone found scores less than
  any page a retrieval arm has among its first forty, as long as the graph lists no page twice.
\<close>

theorem graph_never_outvotes:
  assumes "(arm, ranked) \<in> set arms" and "arm \<noteq> lit ''graph''" and "i < length ranked" and "i < CANDIDATE_POOL"
    and "distinct graph" and "\<forall>r \<in> set arms. page \<notin> set (snd r)"
  shows "rrf_score RRF_K (arms @ [(lit ''graph'', graph)]) page < rrf_score RRF_K (arms @ [(lit ''graph'', graph)]) (ranked ! i)"
proof -
  have "rrf_score RRF_K (arms @ [(lit ''graph'', graph)]) page = share_from 0 RRF_K (1 / 4) graph page"
    using rrf_score_absent [OF assms(6)] by (simp add: rrf_score_append) (simp add: rrf_score_def rank_share_from ARM_WEIGHTS_def)
  also have "\<dots> \<le> (1 / 4) / of_nat (RRF_K + Suc 0)"
    using share_from_le [of "1 / 4" graph 0 RRF_K page] assms(5) by simp
  also have "\<dots> < 1 / 100"
    by (simp add: RRF_K_def)
  also have "\<dots> \<le> 1 / of_nat (RRF_K + Suc i)"
    using assms(4) by (intro divide_left_mono) (auto simp: RRF_K_def CANDIDATE_POOL_def)
  also have "\<dots> = ARM_WEIGHTS arm / of_nat (RRF_K + Suc i)"
    using assms(2) by (simp add: ARM_WEIGHTS_def)
  also have "\<dots> \<le> rrf_score RRF_K (arms @ [(lit ''graph'', graph)]) (ranked ! i)"
    using assms(1,3) by (intro rrf_score_ge) auto
  finally show ?thesis .
qed

theorem graph_never_outvotes_witness:
  "rrf_score RRF_K [(lit ''fts'', [lit ''a'']), (lit ''graph'', [lit ''b''])] (lit ''b'') <
   rrf_score RRF_K [(lit ''fts'', [lit ''a'']), (lit ''graph'', [lit ''b''])] (lit ''a'')"
  using graph_never_outvotes [of "lit ''fts''" "[lit ''a'']" "[(lit ''fts'', [lit ''a''])]" 0 "[lit ''b'']" "lit ''b''"]
  by (simp add: CANDIDATE_POOL_def)

end
