(* ===== verification/Row_Fusion.thy ===== *)
theory Row_Fusion
  imports Layer_Bodies Corpus "HOL-Library.List_Lexorder" "HOL-Library.Product_Lexorder"
begin

text \<open>
  The record a reader gets of the index rows that share a virtual path, \<open>fuse_rows\<close> of
  \<open>stigmergy/kernel/layers.py\<close>. A row holds the columns its query selected, a missing column being \<open>None\<close>;
  the columns the fusion leaves as the first row has them are not part of it.
\<close>

record shown_row =
  sr_layer :: pystr
  sr_vpath :: pystr
  sr_path :: pystr
  sr_layers :: "pystr list"
  sr_aliases :: "pystr list option"
  sr_links :: "pystr list option"
  sr_sources :: "pystr list option"
  sr_source_dates :: "pystr list option"
  sr_updated :: "pystr option"
  sr_entity_type :: "pystr option"
  sr_body :: "pystr option"

definition row_order :: "shown_row \<Rightarrow> bool \<times> pystr" where
  "row_order r = (sr_layer r \<noteq> PUBLIC, sr_layer r)"

text \<open>\<open>row.get(column) or ()\<close>, one row after another.\<close>

definition column_values :: "(shown_row \<Rightarrow> 'a list option) \<Rightarrow> shown_row list \<Rightarrow> 'a list" where
  "column_values f rows = concat (map (\<lambda>r. case f r of None \<Rightarrow> [] | Some xs \<Rightarrow> xs) rows)"

definition column_text :: "(shown_row \<Rightarrow> pystr option) \<Rightarrow> shown_row \<Rightarrow> pystr" where
  "column_text f r = (case f r of None \<Rightarrow> [] | Some s \<Rightarrow> s)"

text \<open>The first alias of each key, in the order the keys appear.\<close>

fun first_of_key :: "(pystr \<Rightarrow> pystr) \<Rightarrow> pystr list \<Rightarrow> pystr list \<Rightarrow> pystr list" where
  "first_of_key key used [] = []"
| "first_of_key key used (a # as) =
     (if key a \<in> set used then first_of_key key used as else a # first_of_key key (key a # used) as)"

definition alias_key :: "unicode \<Rightarrow> pystr \<Rightarrow> pystr" where
  "alias_key u a = casefold u (unit_key u a)"

definition latest_text :: "pystr list \<Rightarrow> pystr" where
  "latest_text xs = fold max xs []"

definition fused_columns :: "unicode \<Rightarrow> shown_row list \<Rightarrow> shown_row \<Rightarrow> shown_row" where
  "fused_columns u rows r =
     r\<lparr>sr_aliases := map_option (\<lambda>_. first_of_key (alias_key u) [] (column_values sr_aliases rows)) (sr_aliases r),
       sr_links := map_option (\<lambda>_. sorted_set (column_values sr_links rows)) (sr_links r),
       sr_sources := map_option (\<lambda>_. fromkeys (column_values sr_sources rows)) (sr_sources r),
       sr_source_dates := map_option (\<lambda>_. sorted_set (column_values sr_source_dates rows)) (sr_source_dates r),
       sr_updated := map_option (\<lambda>_. latest_text (map (column_text sr_updated) rows)) (sr_updated r),
       sr_entity_type := map_option (\<lambda>_. case find (\<lambda>t. t \<noteq> []) (map (column_text sr_entity_type) rows) of None \<Rightarrow> [] | Some t \<Rightarrow> t) (sr_entity_type r),
       sr_body := map_option (\<lambda>_. fuse_for_reading u (map (\<lambda>r. (sr_layer r, column_text sr_body r)) rows)) (sr_body r)\<rparr>"

definition fuse_rows :: "unicode \<Rightarrow> shown_row list \<Rightarrow> shown_row result" where
  "fuse_rows u rows =
     (case sort_key row_order rows of
        [] \<Rightarrow> Inl (LayerError (lit ''nothing to fuse''))
      | first # rest \<Rightarrow>
          let named = first\<lparr>sr_path := sr_vpath first, sr_layers := map sr_layer (first # rest)\<rparr> in
          Inr (if rest = [] then named\<lparr>sr_body := map_option (reading_text u (sr_layer first)) (sr_body first)\<rparr>
               else fused_columns u (first # rest) named))"

section \<open>What a fused row holds\<close>

lemma first_of_key_keys: "key ` set (first_of_key key used as) = key ` set as - set used"
  by (induction key used as rule: first_of_key.induct) auto

lemma first_of_key_subset: "set (first_of_key key used as) \<subseteq> set as"
  by (induction key used as rule: first_of_key.induct) auto

lemma first_of_key_distinct: "distinct (map key (first_of_key key used as))"
  using first_of_key_keys by (induction key used as rule: first_of_key.induct) fastforce+

lemma latest_text_le: "set xs \<subseteq> {..latest_text xs}"
proof -
  have "fold max xs a = Max (insert a (set xs))" for a
    by (metis Max.set_eq_fold list.simps(15))
  then show ?thesis
    by (auto simp: latest_text_def)
qed

lemma sorted_set_set [simp]: "set (sorted_set xs) = set xs"
  by (simp add: sorted_set_def)

lemma column_values_perm: "set (column_values f (sort_key k rows)) = set (column_values f rows)"
  by (simp add: column_values_def)

definition column_kept :: "'a list option \<Rightarrow> 'a list \<Rightarrow> bool" where
  "column_kept column xs \<longleftrightarrow> (case column of None \<Rightarrow> True | Some ys \<Rightarrow> set ys = set xs)"

lemma column_kept_map: "set (f x) = set xs \<Longrightarrow> column_kept (map_option (\<lambda>_. f x) c) xs"
  by (cases c) (simp_all add: column_kept_def)

lemma column_kept_alone: "column_kept (f r) (column_values f [r])"
  by (simp add: column_kept_def column_values_def split: option.splits)

lemma fuse_rows_total: "rows \<noteq> [] \<Longrightarrow> \<exists>f. fuse_rows u rows = Inr f"
  by (cases "sort_key row_order rows") (auto simp: fuse_rows_def Let_def dest: arg_cong [where f = length])

definition sample_row :: "string \<Rightarrow> string \<Rightarrow> shown_row" where
  "sample_row layer link =
     \<lparr>sr_layer = lit layer, sr_vpath = lit ''v'', sr_path = lit ''p'', sr_layers = [], sr_aliases = Some [lit link], sr_links = Some [lit link],
      sr_sources = None, sr_source_dates = None, sr_updated = Some (lit link), sr_entity_type = None, sr_body = None\<rparr>"

section \<open>Properties\<close>

text \<open>
  Fusing the rows of a page loses nothing a reader may find it by: the record names every layer, the
  public one first, and has each link, source and source date of each row and no other, an alias for every
  key of an alias, and the latest update.
\<close>

theorem fused_row_keeps_all:
  assumes "fuse_rows u rows = Inr f"
  shows "set (sr_layers f) = sr_layer ` set rows \<and> sorted (map (\<lambda>l. (l \<noteq> PUBLIC, l)) (sr_layers f)) \<and>
    column_kept (sr_links f) (column_values sr_links rows) \<and> column_kept (sr_sources f) (column_values sr_sources rows) \<and>
    column_kept (sr_source_dates f) (column_values sr_source_dates rows) \<and>
    (case sr_aliases f of None \<Rightarrow> True | Some as \<Rightarrow> alias_key u ` set as = alias_key u ` set (column_values sr_aliases rows)) \<and>
    (case sr_updated f of None \<Rightarrow> True | Some latest \<Rightarrow> column_text sr_updated ` set rows \<subseteq> {..latest})"
proof -
  obtain first rest where ordered: "sort_key row_order rows = first # rest"
    using assms by (cases "sort_key row_order rows") (auto simp: fuse_rows_def)
  have "sorted (map row_order (first # rest))"
    by (metis ordered sorted_sort_key)
  moreover have "map row_order (first # rest) = map (\<lambda>l. (l \<noteq> PUBLIC, l)) (map sr_layer (first # rest))"
    by (simp add: row_order_def)
  moreover have layers: "sr_layers f = map sr_layer (first # rest)"
    using assms ordered by (auto simp: fuse_rows_def fused_columns_def Let_def)
  ultimately have sorted: "sorted (map (\<lambda>l. (l \<noteq> PUBLIC, l)) (sr_layers f))"
    by metis
  have rows: "set rows = set (first # rest)" and held: "set (column_values g rows) = set (column_values g (first # rest))" for g :: "shown_row \<Rightarrow> pystr list option"
    by (metis ordered set_sort, metis ordered column_values_perm)
  have columns: "column_kept (sr_links f) (column_values sr_links (first # rest)) \<and> column_kept (sr_sources f) (column_values sr_sources (first # rest)) \<and>
      column_kept (sr_source_dates f) (column_values sr_source_dates (first # rest))"
    using assms ordered column_kept_alone [of sr_links first] column_kept_alone [of sr_sources first] column_kept_alone [of sr_source_dates first]
    by (cases "rest = []") (auto simp: fuse_rows_def fused_columns_def Let_def column_kept_map)
  have f: "sr_aliases f = (if rest = [] then sr_aliases first
        else map_option (\<lambda>_. first_of_key (alias_key u) [] (column_values sr_aliases (first # rest))) (sr_aliases first))"
    "sr_updated f = (if rest = [] then sr_updated first
        else map_option (\<lambda>_. latest_text (map (column_text sr_updated) (first # rest))) (sr_updated first))"
    using assms ordered by (auto simp: fuse_rows_def fused_columns_def Let_def)
  have aliases: "case sr_aliases f of None \<Rightarrow> True | Some as \<Rightarrow> alias_key u ` set as = alias_key u ` set (column_values sr_aliases (first # rest))"
  proof (cases "rest = []")
    case True
    then show ?thesis
      unfolding f by (simp add: column_values_def split: option.split)
  next
    case False
    then show ?thesis
      unfolding f by (simp add: first_of_key_keys split: option.split)
  qed
  have latest: "case sr_updated f of None \<Rightarrow> True | Some latest \<Rightarrow> column_text sr_updated ` set (first # rest) \<subseteq> {..latest}"
  proof (cases "rest = []")
    case True
    then show ?thesis
      unfolding f by (simp add: column_text_def split: option.split)
  next
    case False
    then show ?thesis
      using latest_text_le [of "map (column_text sr_updated) (first # rest)"] unfolding f by (cases "sr_updated first") simp_all
  qed
  show ?thesis
    using sorted columns aliases latest layers unfolding column_kept_def rows held by simp
qed

theorem fused_row_keeps_all_witness:
  "\<exists>f. fuse_rows ascii_unicode [sample_row ''sales'' ''b'', sample_row ''public'' ''a''] = Inr f \<and>
     set (sr_layers f) = {lit ''sales'', lit ''public''}"
proof -
  obtain f where f: "fuse_rows ascii_unicode [sample_row ''sales'' ''b'', sample_row ''public'' ''a''] = Inr f"
    using fuse_rows_total by blast
  moreover have "set (sr_layers f) = {lit ''sales'', lit ''public''}"
    using fused_row_keeps_all [OF f] by (simp add: sample_row_def)
  ultimately show ?thesis
    by blast
qed

end
