(* ===== verification/Changes.thy ===== *)
theory Changes
  imports Evidence_Refs Contradictions Corpus Fragment_Cover
begin

text \<open>
  The record of landed changes, \<open>stigmergy/changes/diff.py\<close>, \<open>changes/model.py\<close> and \<open>changes/store.py\<close>: the
  patch and the manifest of a commit, and the append-only table of change records. \<open>git\<close> is a parameter,
  its exit status and output, nothing where it cannot be run; so are the digest, \<open>gzip\<close> and the clock.
\<close>

section \<open>Asking git\<close>

type_synonym git = "pystr list \<Rightarrow> (int \<times> bytes) option"

definition change_error :: "'a result" where
  "change_error = Inl (ChangeError (lit ''git could not construct the change record''))"

definition ask_git :: "git \<Rightarrow> pystr list \<Rightarrow> bytes result" where
  "ask_git g args =
     (case g ([lit ''git'', lit ''-c'', lit ''core.quotePath=false''] @ args) of
        None \<Rightarrow> change_error
      | Some (code, out) \<Rightarrow> if code \<noteq> 0 then change_error else Inr out)"

definition exact_patch :: "git \<Rightarrow> pystr \<Rightarrow> pystr \<Rightarrow> bytes result" where
  "exact_patch g parent commit =
     ask_git g [lit ''diff'', lit ''--binary'', lit ''--full-index'', lit ''--no-color'', lit ''--no-renames'', parent, commit, lit ''--'']"

definition git_text :: "bytes \<Rightarrow> pystr result" where
  "git_text out = (case decode out of None \<Rightarrow> Inl (ValueError (lit ''invalid UTF-8'')) | Some s \<Rightarrow> Inr s)"

section \<open>Words of a command line\<close>

text \<open>\<open>shlex.split\<close> in its POSIX mode; \<open>None\<close> where a quotation or an escape is not closed.\<close>

datatype lex_state = Lex_Space | Lex_Word | Lex_Quote int | Lex_Escape "int option"

fun shlex_words :: "lex_state \<Rightarrow> pystr \<Rightarrow> bool \<Rightarrow> pystr \<Rightarrow> pystr list option" where
  "shlex_words Lex_Space token quoted [] = Some []"
| "shlex_words Lex_Word token quoted [] = Some (if token \<noteq> [] \<or> quoted then [token] else [])"
| "shlex_words (Lex_Quote q) token quoted [] = None"
| "shlex_words (Lex_Escape q) token quoted [] = None"
| "shlex_words Lex_Space token quoted (c # s) =
     (if c \<in> {32, 9, 13, 10} then shlex_words Lex_Space [] False s
      else if c = 92 then shlex_words (Lex_Escape None) [] False s
      else if c \<in> {39, 34} then shlex_words (Lex_Quote c) [] True s
      else shlex_words Lex_Word [c] False s)"
| "shlex_words Lex_Word token quoted (c # s) =
     (if c \<in> {32, 9, 13, 10} then
        (if token \<noteq> [] \<or> quoted then map_option (Cons token) (shlex_words Lex_Space [] False s) else shlex_words Lex_Space [] False s)
      else if c = 92 then shlex_words (Lex_Escape None) token quoted s
      else if c \<in> {39, 34} then shlex_words (Lex_Quote c) token True s
      else shlex_words Lex_Word (token @ [c]) quoted s)"
| "shlex_words (Lex_Quote q) token quoted (c # s) =
     (if c = q then shlex_words Lex_Word token True s
      else if c = 92 \<and> q = 34 then shlex_words (Lex_Escape (Some q)) token True s
      else shlex_words (Lex_Quote q) (token @ [c]) True s)"
| "shlex_words (Lex_Escape q) token quoted (c # s) =
     (case q of
        None \<Rightarrow> shlex_words Lex_Word (token @ [c]) quoted s
      | Some quote \<Rightarrow>
          shlex_words (Lex_Quote quote) (token @ (if c \<noteq> 92 \<and> c \<noteq> quote then [92] else []) @ [c]) True s)"

definition shlex_split :: "pystr \<Rightarrow> pystr list option" where
  "shlex_split s = shlex_words Lex_Space [] False s"

section \<open>The patch of each path\<close>

definition DIFF_HEADER :: pystr where "DIFF_HEADER = lit ''diff --git ''"
definition HEADER_DELIMITER :: pystr where "HEADER_DELIMITER = lit '' b/''"

definition quoted_header_path :: "pystr \<Rightarrow> pystr option" where
  "quoted_header_path line =
     (case shlex_split line of
        Some [d, g, a, b] \<Rightarrow>
          if d = lit ''diff'' \<and> g = lit ''--git'' \<and> starts_with (lit ''a/'') a \<and> starts_with (lit ''b/'') b \<and> drop 2 a = drop 2 b
          then Some (drop 2 b) else None
      | _ \<Rightarrow> None)"

definition header_path :: "pystr \<Rightarrow> pystr option" where
  "header_path line =
     (case quoted_header_path line of
        Some path \<Rightarrow> Some path
      | None \<Rightarrow>
          let raw = (if starts_with DIFF_HEADER line then drop (length DIFF_HEADER) line else line) in
          if \<not> starts_with (lit ''a/'') raw then None
          else map_option (\<lambda>i. drop (i + length HEADER_DELIMITER) raw)
            (find (\<lambda>i. starts_with HEADER_DELIMITER (drop i raw) \<and> slice raw 2 i = drop (i + length HEADER_DELIMITER) raw) [0..<length raw]))"

definition without_newlines :: "pystr \<Rightarrow> pystr" where
  "without_newlines line = rev (dropWhile (\<lambda>c. c = NL) (rev line))"

text \<open>The blocks of a patch in order, each the path its header names and its lines.\<close>

fun patch_blocks :: "(pystr option \<times> pystr) option \<Rightarrow> pystr list \<Rightarrow> (pystr option \<times> pystr) list" where
  "patch_blocks block [] = (case block of None \<Rightarrow> [] | Some b \<Rightarrow> [b])"
| "patch_blocks block (line # lines) =
     (if starts_with DIFF_HEADER line
      then (case block of None \<Rightarrow> [] | Some b \<Rightarrow> [b]) @ patch_blocks (Some (header_path (without_newlines line), line)) lines
      else patch_blocks (map_option (\<lambda>(path, s). (path, s @ line)) block) lines)"

text \<open>The dictionary: of blocks with the same path the last stays, blocks without a path are left out.\<close>

definition path_patches :: "pystr \<Rightarrow> (pystr \<rightharpoonup> pystr)" where
  "path_patches patch =
     map_of (rev (List.map_filter (\<lambda>(path, s). map_option (\<lambda>p. (p, s)) path) (patch_blocks None (splitlines_keep patch))))"

section \<open>The manifest\<close>

datatype change_action = Created | Updated | Deleted

record path_change =
  pc_path :: pystr
  pc_action :: change_action
  pc_role :: pystr
  pc_reason :: pystr
  pc_before :: pystr
  pc_after :: pystr
  pc_additions :: nat
  pc_deletions :: nat
  pc_added :: "pystr list"
  pc_resolved :: "pystr list"

fun status_pairs :: "pystr list \<Rightarrow> (pystr \<times> pystr) list" where
  "status_pairs (code # path # rest) = (if code = [] then [] else (take 1 code, path) # status_pairs rest)"
| "status_pairs _ = []"

definition changed_paths :: "git \<Rightarrow> pystr \<Rightarrow> pystr \<Rightarrow> (pystr \<times> pystr) list result" where
  "changed_paths g parent commit =
     and_then (ask_git g [lit ''diff'', lit ''--name-code'', lit ''-z'', lit ''--no-renames'', parent, commit, lit ''--'']) (\<lambda>out.
     and_then (git_text out) (\<lambda>s. Inr (status_pairs (split_on 0 s))))"

definition line_count :: "pystr \<Rightarrow> nat result" where
  "line_count s =
     (if s = lit ''-'' then Inr 0
      else if s \<noteq> [] \<and> list_all ascii_digit s then Inr (digits_value s)
      else Inl (ValueError (lit ''invalid literal for int()'')))"

definition count_entry :: "pystr \<Rightarrow> (pystr \<times> nat \<times> nat) result" where
  "count_entry entry =
     (case split_max 2 9 entry of
        [added, deleted, path] \<Rightarrow>
          and_then (line_count added) (\<lambda>a. and_then (line_count deleted) (\<lambda>d. Inr (path, a, d)))
      | _ \<Rightarrow> Inl (ValueError (lit ''not enough values to unpack'')))"

definition change_counts :: "git \<Rightarrow> pystr \<Rightarrow> pystr \<Rightarrow> (pystr \<rightharpoonup> nat \<times> nat) result" where
  "change_counts g parent commit =
     and_then (ask_git g [lit ''diff'', lit ''--numstat'', lit ''-z'', lit ''--no-renames'', parent, commit, lit ''--'']) (\<lambda>out.
     and_then (git_text out) (\<lambda>s.
     and_then (each count_entry (filter (\<lambda>e. e \<noteq> []) (split_on 0 s))) (\<lambda>found. Inr (map_of (rev found)))))"

definition blob_at :: "git \<Rightarrow> pystr \<Rightarrow> pystr \<Rightarrow> bytes result" where
  "blob_at g revision path = ask_git g [lit ''show'', revision @ lit '':'' @ path]"

definition change_role :: "pystr \<Rightarrow> pystr" where
  "change_role path =
     (case virtual_path path of
        Inl _ \<Rightarrow> lit ''ops''
      | Inr vpath \<Rightarrow>
          if starts_with (lit ''wiki/notes/'') vpath then lit ''note''
          else if starts_with (lit ''wiki/concepts/'') vpath then lit ''concept''
          else if starts_with (lit ''wiki/entities/'') vpath then lit ''entity''
          else if starts_with (lit ''wiki/projects/'') vpath then lit ''project''
          else if starts_with (lit ''sources/'') vpath then lit ''source'' else lit ''ops'')"

definition contradiction_ids :: "codec \<Rightarrow> bytes option \<Rightarrow> pystr \<Rightarrow> pystr list result" where
  "contradiction_ids k data role_name =
     (case data of
        None \<Rightarrow> Inr []
      | Some b \<Rightarrow>
          if role_name \<in> {lit ''source'', lit ''ops''} then Inr []
          else case decode b of
            None \<Rightarrow> Inr []
          | Some s \<Rightarrow>
              (case parse_contradictions k s of
                 Inl (ContradictionContractError m) \<Rightarrow> Inr []
               | Inl e \<Rightarrow> Inl e
               | Inr found \<Rightarrow> Inr (map (con_id \<circ> loc_record) found)))"

definition change_action_of :: "pystr \<Rightarrow> change_action result" where
  "change_action_of code =
     (if code = lit ''A'' then Inr Created else if code = lit ''M'' then Inr Updated else if code = lit ''D'' then Inr Deleted
      else Inl (KeyError code))"

definition change_reason :: "pystr \<Rightarrow> pystr" where
  "change_reason s = (let r = take 1000 (one_line s) in if r = [] then lit ''Updated team knowledge'' else r)"

definition path_change_of :: "codec \<Rightarrow> (bytes \<Rightarrow> pystr) \<Rightarrow> git \<Rightarrow> pystr \<Rightarrow> pystr \<Rightarrow> (pystr \<rightharpoonup> pystr) \<Rightarrow> pystr \<Rightarrow> (pystr \<rightharpoonup> nat \<times> nat) \<Rightarrow> pystr \<times> pystr \<Rightarrow> path_change result" where
  "path_change_of k digest g parent commit reasons default_reason tally = (\<lambda>(code, path).
     and_then (if code = lit ''A'' then Inr None else and_then (blob_at g parent path) (\<lambda>b. Inr (Some b))) (\<lambda>old.
     and_then (if code = lit ''D'' then Inr None else and_then (blob_at g commit path) (\<lambda>b. Inr (Some b))) (\<lambda>new.
     and_then (contradiction_ids k old (change_role path)) (\<lambda>old_ids.
     and_then (contradiction_ids k new (change_role path)) (\<lambda>new_ids.
     and_then (change_action_of code) (\<lambda>action.
       let (additions, deletions) = (case tally path of None \<Rightarrow> (0, 0) | Some c \<Rightarrow> c);
           hash = (\<lambda>data. case data of None \<Rightarrow> [] | Some b \<Rightarrow> digest b);
           reason = (case reasons path of Some r \<Rightarrow> if r = [] then default_reason else r | None \<Rightarrow> default_reason) in
       Inr \<lparr>pc_path = path, pc_action = action, pc_role = change_role path, pc_reason = change_reason reason,
         pc_before = hash old, pc_after = hash new, pc_additions = additions, pc_deletions = deletions,
         pc_added = sorted_set (filter (\<lambda>i. i \<notin> set old_ids) new_ids),
         pc_resolved = sorted_set (filter (\<lambda>i. i \<notin> set new_ids) old_ids)\<rparr>))))))"

definition build_manifest :: "codec \<Rightarrow> (bytes \<Rightarrow> pystr) \<Rightarrow> git \<Rightarrow> pystr \<Rightarrow> pystr \<Rightarrow> (pystr \<rightharpoonup> pystr) \<Rightarrow> pystr \<Rightarrow> path_change list result" where
  "build_manifest k digest g parent commit reasons default_reason =
     and_then (change_counts g parent commit) (\<lambda>tally.
     and_then (changed_paths g parent commit) (\<lambda>paths.
       each (path_change_of k digest g parent commit reasons default_reason tally) paths))"

section \<open>The table of changes\<close>

record change_row =
  chg_tenant :: uuid
  chg_id :: uuid
  chg_trigger :: pystr
  chg_actor :: pystr
  chg_capture :: "uuid option"
  chg_job :: "uuid option"
  chg_parent :: pystr
  chg_commit :: pystr
  chg_summary :: pystr
  chg_manifest :: "path_change list"
  chg_patch_ref :: pystr
  chg_patch_sha :: pystr
  chg_patch_bytes :: nat
  chg_created_at :: timestamp

definition CHANGE_TRIGGERS :: "pystr list" where
  "CHANGE_TRIGGERS = [lit ''capture'', lit ''garden'', lit ''delete'', lit ''contradiction_resolution'', lit ''entity'']"

definition change_seen :: "conn \<Rightarrow> change_row \<Rightarrow> bool" where
  "change_seen c r \<longleftrightarrow> row_visible c (chg_tenant r)"

text \<open>What a landed commit is recorded with.\<close>

record landed_change =
  lc_trigger :: pystr
  lc_actor :: pystr
  lc_parent :: pystr
  lc_commit :: pystr
  lc_summary :: pystr
  lc_reasons :: "pystr \<rightharpoonup> pystr"
  lc_capture :: "uuid option"
  lc_job :: "uuid option"

record change_tools =
  ct_git :: git
  ct_codec :: codec
  ct_digest :: "bytes \<Rightarrow> pystr"
  ct_compress :: "bytes \<Rightarrow> bytes"
  ct_decompress :: "bytes \<Rightarrow> bytes option"

definition insert_change :: "conn \<Rightarrow> change_row \<Rightarrow> change_row list \<Rightarrow> (bool \<times> change_row list) result" where
  "insert_change c row rows =
     (if chg_trigger row \<notin> set CHANGE_TRIGGERS then Inl (DatabaseError (lit ''check constraint: trigger''))
      else if \<exists>r \<in> set rows. (chg_tenant r, chg_commit r) = (chg_tenant row, chg_commit row) then Inr (False, rows)
      else if chg_id row \<in> chg_id ` set rows then Inl (DatabaseError (lit ''duplicate key value: id''))
      else Inr (True, rows @ [row]))"

definition change_by_commit :: "conn \<Rightarrow> pystr \<Rightarrow> change_row list \<Rightarrow> change_row option" where
  "change_by_commit c commit rows = find (\<lambda>r. change_seen c r \<and> chg_commit r = commit) rows"

definition get_change :: "conn \<Rightarrow> uuid \<Rightarrow> change_row list \<Rightarrow> change_row option" where
  "get_change c change rows = find (\<lambda>r. change_seen c r \<and> chg_id r = change) rows"

definition new_change :: "uuid \<Rightarrow> uuid \<Rightarrow> timestamp \<Rightarrow> landed_change \<Rightarrow> path_change list \<Rightarrow> pystr \<Rightarrow> pystr \<Rightarrow> nat \<Rightarrow> change_row" where
  "new_change tenant fresh time l manifest ref sha n =
     \<lparr>chg_tenant = tenant, chg_id = fresh, chg_trigger = lc_trigger l, chg_actor = lc_actor l, chg_capture = lc_capture l, chg_job = lc_job l,
      chg_parent = lc_parent l, chg_commit = lc_commit l, chg_summary = lc_summary l, chg_manifest = manifest, chg_patch_ref = ref,
      chg_patch_sha = sha, chg_patch_bytes = n, chg_created_at = time\<rparr>"

text \<open>The insertion and the answer, given the patch, its reference and the manifest.\<close>

definition store_change :: "conn \<Rightarrow> uuid \<Rightarrow> timestamp \<Rightarrow> landed_change \<Rightarrow> path_change list \<Rightarrow> pystr \<Rightarrow> pystr \<Rightarrow> nat \<Rightarrow> change_row list \<Rightarrow> change_row result \<times> change_row list" where
  "store_change c fresh time l manifest ref sha n rows =
     (case tenant_setting c of
        None \<Rightarrow> (Inl (DatabaseError (lit ''null value in column tenant_id'')), rows)
      | Some tenant \<Rightarrow>
          let row = new_change tenant fresh time l manifest ref sha n in
          (case insert_change c row rows of
             Inl e \<Rightarrow> (Inl e, rows)
           | Inr (inserted, rows') \<Rightarrow>
               (case (if inserted then Some row else change_by_commit c (lc_commit l) rows') of
                  None \<Rightarrow> (Inl (TypeError (lit ''NoneType'')), rows')
                | Some r \<Rightarrow>
                    (if chg_parent r \<noteq> lc_parent l \<or> chg_patch_sha r \<noteq> sha
                     then Inl (RuntimeError (lit ''commit is already linked to a different change record'')) else Inr r, rows'))))"

definition record_change :: "change_tools \<Rightarrow> conn \<Rightarrow> uuid \<Rightarrow> timestamp \<Rightarrow> landed_change \<Rightarrow> change_row list \<times> objects \<Rightarrow> change_row result \<times> change_row list \<times> objects" where
  "record_change k c fresh time l = (\<lambda>(rows, obj).
     case exact_patch (ct_git k) (lc_parent l) (lc_commit l) of
       Inl e \<Rightarrow> (Inl e, rows, obj)
     | Inr patch \<Rightarrow>
         (case put_object (ct_digest k) (ct_compress k patch) obj of
            (Inl e, obj') \<Rightarrow> (Inl e, rows, obj')
          | (Inr ref, obj') \<Rightarrow>
              (case build_manifest (ct_codec k) (ct_digest k) (ct_git k) (lc_parent l) (lc_commit l) (lc_reasons l) (lc_summary l) of
                 Inl e \<Rightarrow> (Inl e, rows, obj')
               | Inr manifest \<Rightarrow>
                   let (r, rows') = store_change c fresh time l manifest ref (ct_digest k patch) (length patch) rows in (r, rows', obj'))))"

definition list_changes :: "conn \<Rightarrow> pystr option \<Rightarrow> int \<Rightarrow> int \<Rightarrow> change_row list \<Rightarrow> change_row list" where
  "list_changes c trigger limit offset rows =
     take (nat (max 1 (min limit 200))) (drop (nat (max 0 offset))
       (sort_key (\<lambda>r. (- chg_created_at r, - int (chg_id r)))
         (filter (\<lambda>r. change_seen c r \<and> (case trigger of None \<Rightarrow> True | Some t \<Rightarrow> chg_trigger r = t)) rows)))"

text \<open>The patch of a record, from the store or made again.\<close>

definition stored_patch :: "change_tools \<Rightarrow> change_row \<Rightarrow> objects \<Rightarrow> bytes option" where
  "stored_patch k r obj = (case get_object (chg_patch_ref r) obj of Inl _ \<Rightarrow> None | Inr data \<Rightarrow> ct_decompress k data)"

definition load_exact_patch :: "change_tools \<Rightarrow> (change_row \<Rightarrow> bytes result) option \<Rightarrow> change_row \<Rightarrow> objects \<Rightarrow> bytes result" where
  "load_exact_patch k reconstruct r obj =
     and_then (case stored_patch k r obj of
         Some patch \<Rightarrow> Inr patch
       | None \<Rightarrow> (case reconstruct of Some f \<Rightarrow> f r | None \<Rightarrow> exact_patch (ct_git k) (chg_parent r) (chg_commit r))) (\<lambda>patch.
       if length patch \<noteq> chg_patch_bytes r then Inl (RuntimeError (lit ''exact patch byte count does not match the change record''))
       else if ct_digest k patch \<noteq> chg_patch_sha r then Inl (RuntimeError (lit ''exact patch digest does not match the change record''))
       else Inr patch)"

section \<open>Blocks tile the patch\<close>

lemma patch_blocks_concat:
  "concat (map snd (patch_blocks block lines)) =
     (case block of None \<Rightarrow> concat (dropWhile (\<lambda>l. \<not> starts_with DIFF_HEADER l) lines) | Some b \<Rightarrow> snd b @ concat lines)"
  by (induction lines arbitrary: block) (auto split: option.splits)

lemma patch_blocks_heads:
  "map fst (patch_blocks block lines) =
     (case block of None \<Rightarrow> [] | Some b \<Rightarrow> [fst b]) @ map (header_path \<circ> without_newlines) (filter (starts_with DIFF_HEADER) lines)"
  by (induction lines arbitrary: block) (auto split: option.splits)

lemma map_filter_blocks:
  "None \<notin> fst ` set bs \<Longrightarrow> map (\<lambda>(p, s). (Some p, s)) (List.map_filter (\<lambda>(path, s). map_option (\<lambda>p. (p, s)) path) bs) = bs"
  by (induction bs) (auto simp: List.map_filter_simps split: option.splits)

section \<open>The table only grows\<close>

definition one_per_commit :: "change_row list \<Rightarrow> bool" where
  "one_per_commit rows \<longleftrightarrow> distinct (map (\<lambda>r. (chg_tenant r, chg_commit r)) rows) \<and> distinct (map chg_id rows)"

lemma insert_change_grows:
  assumes "insert_change c row rows = Inr (inserted, rows')" and "one_per_commit rows"
  shows "one_per_commit rows' \<and> rows' = (if inserted then rows @ [row] else rows)"
  using assms by (force simp: insert_change_def one_per_commit_def split: if_splits)

lemma store_change_grows:
  assumes "store_change c fresh time l manifest ref sha n rows = (r, rows')" and "one_per_commit rows"
  shows "one_per_commit rows' \<and> prefix rows rows' \<and>
    (\<forall>x. r = Inr x \<longrightarrow> x \<in> set rows' \<and> chg_commit x = lc_commit l \<and> chg_parent x = lc_parent l \<and> chg_patch_sha x = sha)"
proof (cases "tenant_setting c")
  case (Some tenant)
  let ?row = "new_change tenant fresh time l manifest ref sha n"
  show ?thesis
  proof (cases "insert_change c ?row rows")
    case (Inr ins)
    then obtain inserted rows1 where ins: "insert_change c ?row rows = Inr (inserted, rows1)"
      by (cases ins) auto
    note grows = insert_change_grows [OF ins assms(2)]
    show ?thesis
    proof (cases inserted)
      case True
      then show ?thesis
        using assms(1) Some ins grows by (auto simp: store_change_def new_change_def Let_def)
    next
      case False
      show ?thesis
      proof (cases "change_by_commit c (lc_commit l) rows1")
        case None
        then show ?thesis
          using assms(1) Some ins False grows by (auto simp: store_change_def Let_def)
      next
        case (Some x)
        then have "x \<in> set rows1 \<and> chg_commit x = lc_commit l"
          using find_eq_Some_in [OF Some [unfolded change_by_commit_def]] by simp
        moreover have "(r, rows') = (if chg_parent x \<noteq> lc_parent l \<or> chg_patch_sha x \<noteq> sha
            then Inl (RuntimeError (lit ''commit is already linked to a different change record'')) else Inr x, rows1)"
          using assms(1) \<open>tenant_setting c = Some tenant\<close> ins False Some by (simp add: store_change_def)
        ultimately show ?thesis
          using grows False by (simp split: if_splits)
      qed
    qed
  qed (use assms Some in \<open>auto simp: store_change_def Let_def\<close>)
qed (use assms in \<open>auto simp: store_change_def\<close>)

lemma store_change_again:
  assumes "store_change c fresh time l manifest ref sha n rows = (Inr r, rows')" and "one_per_commit rows" and "change_seen c r"
    and "lc_trigger l' \<in> set CHANGE_TRIGGERS" and "lc_commit l' = lc_commit l" and "lc_parent l' = lc_parent l"
    and "scope_setting c \<noteq> PLATFORM"
  shows "store_change c fresh' time' l' manifest' ref' sha n' rows' = (Inr r, rows')"
proof -
  note grows = store_change_grows [OF assms(1,2)]
  obtain tenant where tenant: "tenant_setting c = Some tenant"
    using assms(1) by (cases "tenant_setting c") (auto simp: store_change_def)
  have here: "r \<in> set rows'" "chg_commit r = lc_commit l" "chg_parent r = lc_parent l" "chg_patch_sha r = sha" "chg_tenant r = tenant"
    using grows assms(3,7) tenant by (auto simp: change_seen_def row_visible_def)
  have "insert_change c (new_change tenant fresh' time' l' manifest' ref' sha n') rows' = Inr (False, rows')"
    using here assms(4,5) by (auto simp: insert_change_def new_change_def)
  moreover have "change_by_commit c (lc_commit l') rows' = Some r"
  proof -
    have "change_by_commit c (lc_commit l') rows' \<noteq> None"
      using here(1,2) assms(3,5) by (auto simp: change_by_commit_def find_None_iff)
    then obtain x where x: "change_by_commit c (lc_commit l') rows' = Some x"
      by blast
    then have "x \<in> set rows' \<and> change_seen c x \<and> chg_commit x = lc_commit l"
      using find_eq_Some_in [OF x [unfolded change_by_commit_def]] assms(5) by simp
    moreover have "chg_tenant x = tenant"
      using calculation assms(7) tenant by (auto simp: change_seen_def row_visible_def)
    ultimately have "x = r"
      using grows here by (auto simp: one_per_commit_def distinct_map dest: inj_onD)
    then show ?thesis
      using x by simp
  qed
  ultimately show ?thesis
    using here assms(6) tenant by (simp add: store_change_def)
qed

lemma store_change_success:
  assumes "store_change c fresh time l manifest ref sha n rows = (Inr r, rows')"
  shows "change_seen c r \<and> lc_trigger l \<in> set CHANGE_TRIGGERS"
proof -
  obtain tenant where tenant: "tenant_setting c = Some tenant"
    using assms by (cases "tenant_setting c") (auto simp: store_change_def)
  let ?row = "new_change tenant fresh time l manifest ref sha n"
  obtain inserted rows1 where ins: "insert_change c ?row rows = Inr (inserted, rows1)"
    using assms tenant by (cases "insert_change c ?row rows") (auto simp: store_change_def Let_def)
  then have "lc_trigger l \<in> set CHANGE_TRIGGERS"
    by (auto simp: insert_change_def new_change_def split: if_splits)
  moreover have "r = ?row \<or> change_by_commit c (lc_commit l) rows1 = Some r"
    using assms tenant ins by (auto simp: store_change_def Let_def split: option.splits if_splits)
  then have "change_seen c r"
  proof
    assume "r = ?row"
    then show ?thesis
      using tenant by (simp add: change_seen_def row_visible_def new_change_def)
  next
    assume found: "change_by_commit c (lc_commit l) rows1 = Some r"
    then show ?thesis
      using find_eq_Some_in [OF found [unfolded change_by_commit_def]] by simp
  qed
  ultimately show ?thesis
    by blast
qed

lemma record_change_parts:
  assumes "record_change k c fresh time l (rows, obj) = (Inr r, rows', obj')"
  obtains patch ref manifest where "exact_patch (ct_git k) (lc_parent l) (lc_commit l) = Inr patch"
    and "put_object (ct_digest k) (ct_compress k patch) obj = (Inr ref, obj')"
    and "build_manifest (ct_codec k) (ct_digest k) (ct_git k) (lc_parent l) (lc_commit l) (lc_reasons l) (lc_summary l) = Inr manifest"
    and "store_change c fresh time l manifest ref (ct_digest k patch) (length patch) rows = (Inr r, rows')"
  using assms by (auto simp: record_change_def split: sum.splits prod.splits)

lemma put_object_keeps: "put_object digest data obj = (r, obj') \<Longrightarrow> key |\<in>| fmdom obj \<Longrightarrow> fmlookup obj' key = fmlookup obj key"
  by (auto simp: put_object_def split: sum.splits if_splits)

lemma put_object_again: "put_object digest data obj = (Inr key, obj') \<Longrightarrow> put_object digest data obj' = (Inr key, obj')"
  by (auto simp: put_object_def split: sum.splits if_splits)

section \<open>A sample\<close>

definition same_digest :: "bytes \<Rightarrow> pystr" where
  "same_digest data = replicate 64 48"

definition sample_tools :: change_tools where
  "sample_tools = \<lparr>ct_git = (\<lambda>_. Some (0, [])), ct_codec = \<lparr>data_of = (\<lambda>_. []), read_data = (\<lambda>_. None)\<rparr>, ct_digest = same_digest,
     ct_compress = (\<lambda>b. b), ct_decompress = Some\<rparr>"

definition sample_conn :: conn where
  "sample_conn = \<lparr>tenant_setting = Some 1, scope_setting = [], in_failed_transaction = False\<rparr>"

definition sample_landed :: landed_change where
  "sample_landed = \<lparr>lc_trigger = lit ''capture'', lc_actor = lit ''a'', lc_parent = lit ''p'', lc_commit = lit ''c'', lc_summary = lit ''s'',
     lc_reasons = (\<lambda>_. None), lc_capture = None, lc_job = None\<rparr>"

lemma sample_put: "\<exists>key. put_object same_digest [] fmempty = (Inr key, fmupd key [] fmempty)"
proof -
  have "content_key same_digest [] = Inr (lit ''sha256/00/00/'' @ replicate 64 48)"
    by code_simp
  then show ?thesis
    by (auto simp: put_object_def)
qed

lemma sample_recorded:
  "\<exists>r obj'. record_change sample_tools sample_conn 7 5 sample_landed ([], fmempty) = (Inr r, [r], obj')"
proof -
  obtain key where put: "put_object same_digest [] fmempty = (Inr key, fmupd key [] fmempty)"
    using sample_put by blast
  have patch: "exact_patch (ct_git sample_tools) parent commit = Inr []" for parent commit
    by (simp add: exact_patch_def ask_git_def sample_tools_def)
  have manifest: "build_manifest (ct_codec sample_tools) digest (ct_git sample_tools) parent commit reasons summary = Inr []" for digest parent commit reasons summary
    by (simp add: build_manifest_def change_counts_def changed_paths_def ask_git_def git_text_def sample_tools_def)
  have tools: "ct_digest sample_tools = same_digest" "ct_compress sample_tools = (\<lambda>b. b)"
    by (simp_all add: sample_tools_def)
  obtain r where "store_change sample_conn 7 5 sample_landed [] key (same_digest []) 0 [] = (Inr r, [r])"
    by (simp add: store_change_def sample_conn_def insert_change_def new_change_def sample_landed_def CHANGE_TRIGGERS_def Let_def)
  then have "record_change sample_tools sample_conn 7 5 sample_landed ([], fmempty) = (Inr r, [r], fmupd key [] fmempty)"
    using put by (simp add: record_change_def patch manifest tools Let_def)
  then show ?thesis
    by blast
qed

section \<open>Properties\<close>

text \<open>
  The per-path patches of a commit lose nothing: the blocks a patch is split into are, one after
  another, all of the patch from its first header on, one block for each line that starts a header.
\<close>

theorem patch_blocks_reassemble:
  "concat (map snd (patch_blocks None (splitlines_keep patch))) =
     concat (dropWhile (\<lambda>l. \<not> starts_with DIFF_HEADER l) (splitlines_keep patch)) \<and>
   map fst (patch_blocks None (splitlines_keep patch)) =
     map (header_path \<circ> without_newlines) (filter (starts_with DIFF_HEADER) (splitlines_keep patch)) \<and>
   concat (splitlines_keep patch) = patch"
  using splitlines_concat by (simp add: patch_blocks_concat patch_blocks_heads)





end
