(* ===== verification/Spec2Isabelle.thy ===== *)
theory Spec2Isabelle
  imports Queue_Claim Audience Layer_Fusion Layer_Roundtrip Erasure_Safety
    Fragment_Cover Rate_Limits Capture_Contracts Evidence_Refs Roster_Safety
    Layered Readable_Evidence Corpus_Safety Lint_Safety Update_Evidence Sweep_Safety Filing_Outcome
    Answer_Check Ranking Row_Fusion Changes
begin

text \<open>
  A verification library of stigmergy, a service that files what people and tools capture into a
  Markdown knowledge base kept in git, with pages in a public layer and in restricted layers, and answers
  questions over it.

  \<^bold>\<open>How the program runs.\<close> A caller authenticates against the roster (\<open>server/roster.py\<close>), within its rate
  limit (\<open>server/ratelimit.py\<close>), and submits a capture whose contract \<open>capture/schema.py\<close> validates. Its
  route decides the layer it files in (\<open>server/routing.py\<close>). Its bytes go to the evidence store
  (\<open>capture/evidence.py\<close>, \<open>uploads.py\<close>), its request to the durable queue (\<open>capture/queue.py\<close>), both tables of
  a database whose rows are tenants' (\<open>kernel/tenancy.py\<close>). A worker claims an item under a lease, extracts
  readable text (\<open>capture/extraction.py\<close>), opens a view of the layer over the repository
  (\<open>knowledge/layered.py\<close>), archives the source (\<open>knowledge/sources.py\<close>), asks a planner for mutations
  (\<open>knowledge/plan.py\<close>), applies them within the audience guard (\<open>knowledge/writer.py\<close>,
  \<open>knowledge/write_guard.py\<close>), checks the corpus (\<open>knowledge/lint.py\<close>), corrects or drops the plan, projects
  the view back on the layer's files, gates the diff and commits it (\<open>librarian/gitcmd.py\<close>). The index reads
  the rows of the tree (\<open>index/corpus.py\<close>, \<open>fragments.py\<close>); a reader is shown the fused page of the layers
  they read (\<open>kernel/layers.py\<close>). An administrator may erase a layer, history included (\<open>ops/erasure.py\<close>).

  \<^bold>\<open>Theories and sources\<close> (under \<open>src/src/stigmergy\<close>). The Python the code runs on:
  \<^item> \<open>Prelude\<close>: exceptions as the constructors of \<open>exn\<close>, fallible code as \<open>exn + 'a\<close>, the shared lemmas and
    \<open>named_theorems\<close>; \<open>Py_Text\<close>, \<open>Py_Num\<close>, \<open>Py_Bytes\<close>, \<open>Py_Time\<close>, \<open>Py_Url\<close>: strings as lists of code points, numerals,
    UTF-8, dates, URLs; \<open>Py_Regex\<close>: a backtracking matcher that tries matches in the order Python's does.
  The state of a workspace:
  \<^item> \<open>Tenancy\<close> (\<open>kernel/tenancy.py\<close>): the settings of a connection, the scopes that change them, the row policy.
  \<^item> \<open>Capture_Schema\<close>, \<open>Capture_Contracts\<close> (\<open>capture/schema.py\<close>, \<open>provenance.py\<close>): tables and their constraints; the
    request contracts, validator by validator.
  \<^item> \<open>Capture_Queue\<close>, \<open>Fencing\<close>, \<open>Queue_Lifecycle\<close>, \<open>Queue_Safety\<close>, \<open>Queue_Claim\<close> (\<open>capture/queue.py\<close>): the statements
    over the rows; the locale of a store that leases work, interpreted on them; the life of one item, refined
    by every statement; fencing, finality and the invariant of every reachable queue; the order of claims,
    fairness between tenants, idempotent submission, isolation.
  \<^item> \<open>Erasure_Requests\<close>, \<open>Erasure_Safety\<close> (\<open>ops/erasure.py\<close>, the end of a run in \<open>ops/erase_layer.py\<close>): requests,
    their attempts and their runs as a step relation that may stop between any two statements.
  \<^item> \<open>Identity\<close> (\<open>server/identity.py\<close>, \<open>routing.py\<close>), \<open>Roster\<close>, \<open>Roster_Safety\<close> (\<open>server/roster.py\<close>), \<open>Rate_Limits\<close>
    (\<open>server/ratelimit.py\<close>), \<open>Index_Health\<close> (\<open>index/health.py\<close>).
  \<^item> \<open>Evidence_Refs\<close> (\<open>capture/evidence.py\<close>, \<open>uploads.py\<close>, \<open>references.py\<close>), \<open>Readable_Text\<close>, \<open>Readable_Evidence\<close>
    (\<open>capture/artifacts.py\<close>, \<open>extraction.py\<close>), \<open>Slack_Snapshot\<close> (\<open>slack/snapshot.py\<close>).
  The knowledge base:
  \<^item> \<open>Audience\<close> (\<open>kernel/acl.py\<close>, \<open>server/acl.py\<close>, \<open>knowledge/write_guard.py\<close>): who reads what and where material
    may flow; the guard rests on the locale of a reading policy.
  \<^item> \<open>Layer_Paths\<close>, \<open>Layer_Bodies\<close>, \<open>Layer_Fusion\<close>, \<open>Layer_Roundtrip\<close> (\<open>kernel/layers.py\<close>): layers and their paths
    (the locale \<open>path_codec\<close>), bodies, what fusing and splitting them keeps.
  \<^item> \<open>Pages\<close> (\<open>knowledge/pages.py\<close>, \<open>kernel/normalize.py\<close>), \<open>Source_Pages\<close> (\<open>knowledge/sources.py\<close>,
    \<open>capture/source.py\<close>), \<open>Contradictions\<close>, \<open>Corpus\<close>, \<open>Corpus_Safety\<close>, \<open>Fragments\<close>, \<open>Fragment_Cover\<close>
    (\<open>index/corpus.py\<close>, \<open>fragments.py\<close>), \<open>Layered\<close> (\<open>knowledge/layered.py\<close>), \<open>Lint\<close>, \<open>Lint_Safety\<close>
    (\<open>knowledge/lint.py\<close>), \<open>Entities\<close> (\<open>entities/service.py\<close>).
  \<^item> \<open>Untrusted_Text\<close> (\<open>text.py\<close>): fences and headers of prompts; \<open>Ranking\<close> (\<open>index/rank.py\<close>), \<open>Row_Fusion\<close> (\<open>fuse_rows\<close>
    of \<open>kernel/layers.py\<close>), \<open>Answer_Check\<close> (\<open>answer/numbers.py\<close>, \<open>verify_answer.py\<close>): what a reader is shown;
    \<open>Changes\<close> (\<open>changes/\<close>): the manifest of a landed commit and the log it is recorded in.
  \<^item> \<open>Filing_Plans\<close> (\<open>knowledge/plan.py\<close>) and the writer: \<open>Write_Pages\<close> (one mutation), \<open>Filing\<close> (a plan),
    \<open>Capture_Filing\<close> (a capture: plan, correction, verdict), \<open>Sweep\<close> (what follows a deletion), \<open>Write_Gates\<close>
    (the diff, the gates, repairs, recompilation), \<open>Aliases\<close> (\<open>knowledge/aliases.py\<close>); and what they promise,
    \<open>Filing_Safety\<close>, \<open>Page_Names\<close>, \<open>Update_Evidence\<close>, \<open>Filing_Outcome\<close>, \<open>Sweep_Safety\<close>, \<open>Gate_Safety\<close>.

  \<^bold>\<open>Correspondence.\<close> A table is the list of its rows, a SQL statement the function of its condition,
  assignments and order over the rows its connection sees. The repository is the finite map from the paths
  of regular files to their texts (\<open>tree\<close>); links, special files and undecodable files are not modelled. A
  function that raises returns \<open>Inl\<close> of the exception, with its message where a caller reads it; a
  \<open>with conn.transaction()\<close> block changes nothing when it raises. A plan that is refused leaves a tree the
  code restores at once, which is not modelled. Times of the queue are microseconds, those of the rate
  limits rationals, so the rounding of floats is not modelled. Python's dictionaries keep their order where
  the code reads it.

  \<^bold>\<open>Parameters.\<close> Code that is not in the repository is an argument: PyYAML (\<open>yaml_lib\<close>), the Unicode tables
  (\<open>unicode\<close>, \<open>unicode_more\<close>), JSON and base64 (\<open>codec\<close>, \<open>source_lib\<close>), SHA-256, the parsers of documents, the
  planner, the classifiers, the clock, identifiers drawn at random, the answers of git. The theorems hold for
  every such argument unless a hypothesis says otherwise.

  \<^bold>\<open>Bounds and fuel.\<close> Loops are structural or come with a termination proof, those of the fragments, the
  numerals and the sweep among them (every round of a sweep but the last deletes a file, so it ends within the
  number of files and one). \<open>file_without_lossy\<close>, the loop that drops one update per round, is given one round more than
  the plan has mutations; running out would be the error \<open>RuntimeError\<close>, never a verdict. \<open>Py_Regex\<close> bounds a
  repetition by the text left.

  \<^bold>\<open>Not modelled.\<close> The planner, the synthesis of answers and the arms of the search (\<open>knowledge/planner.py\<close>,
  \<open>context.py\<close>, \<open>answer/service.py\<close>, \<open>brain.py\<close>, \<open>synthesize.py\<close>, \<open>index/search.py\<close>, \<open>store.py\<close>, \<open>build.py\<close>), which prompt a language model or are queries of PostgreSQL; the
  handlers of the writer that open a worktree, commit, push and recover; the process loop, credentials and
  provisioning of the librarian; the transports, the backoffice, the Slack application and the bridge, which
  are HTTP over the components above; the DDL; the workspace-wide maintenance commands; the evaluations.
\<close>

end
